(* ===== verification/Mnslp_Prelude.thy ===== *)
theory Mnslp_Prelude
  imports Main "HOL-Library.Word"
begin

text \<open>
  Vocabulary shared by every theory: the fixed-width integers of the code, the outcome of a
  C++ function that may also throw, fail an assertion or run into undefined behaviour, the
  sequencing of such functions, and the collections of rewrite rules the component theories
  fill (\<open>result_simps\<close> for outcomes, \<open>store_simps\<close> for message stores,
  \<open>sess_simps\<close> for the effects of a session).
\<close>

type_synonym u8 = "8 word"
type_synonym u16 = "16 word"
type_synonym u32 = "32 word"

named_theorems result_simps
named_theorems store_simps
named_theorems sess_simps

section \<open>Outcomes\<close>

text \<open>
  \<^item> \<open>Ret a s\<close>: the function returns \<open>a\<close>, the state is \<open>s\<close>;
  \<^item> \<open>Exn e s\<close>: the exception \<open>e\<close> leaves the function, the state is \<open>s\<close>;
  \<^item> \<open>Abort\<close>: an \<open>assert\<close> fails, the process ends;
  \<^item> \<open>Undef\<close>: undefined behaviour (a null pointer is dereferenced, a function with a
    result ends without \<open>return\<close>, a conversion is out of range).
\<close>

datatype ('e, 'a, 's) result = Ret 'a 's | Exn 'e 's | Abort | Undef

fun r_bind :: "('e, 'a, 's) result \<Rightarrow> ('a \<Rightarrow> 's \<Rightarrow> ('e, 'b, 's) result) \<Rightarrow> ('e, 'b, 's) result" where
  "r_bind (Ret a s) f = f a s"
| "r_bind (Exn e s) f = Exn e s"
| "r_bind Abort f = Abort"
| "r_bind Undef f = Undef"

text \<open>A pointer that \<open>assert\<close> requires to be set, and one that is used without a check.\<close>

definition assert_some :: "'b option \<Rightarrow> ('b \<Rightarrow> ('e, 'a, 's) result) \<Rightarrow> ('e, 'a, 's) result" where
  "assert_some x f = (case x of None \<Rightarrow> Abort | Some b \<Rightarrow> f b)"

definition deref :: "'b option \<Rightarrow> ('b \<Rightarrow> ('e, 'a, 's) result) \<Rightarrow> ('e, 'a, 's) result" where
  "deref x f = (case x of None \<Rightarrow> Undef | Some b \<Rightarrow> f b)"

lemma assert_some_simps [simp, result_simps]:
  "assert_some None f = Abort" "assert_some (Some b) f = f b"
  by (simp_all add: assert_some_def)

lemma deref_simps [simp, result_simps]:
  "deref None f = Undef" "deref (Some b) f = f b"
  by (simp_all add: deref_def)

lemma r_bind_eq_Ret [result_simps]:
  "r_bind r f = Ret b t \<longleftrightarrow> (\<exists>a s. r = Ret a s \<and> f a s = Ret b t)"
  by (cases r) auto

lemma r_bind_eq_Abort [result_simps]:
  "r_bind r f = Abort \<longleftrightarrow> r = Abort \<or> (\<exists>a s. r = Ret a s \<and> f a s = Abort)"
  by (cases r) auto

lemma r_bind_eq_Undef [result_simps]:
  "r_bind r f = Undef \<longleftrightarrow> r = Undef \<or> (\<exists>a s. r = Ret a s \<and> f a s = Undef)"
  by (cases r) auto

lemma assert_some_eq_Ret [result_simps]:
  "assert_some x f = Ret b t \<longleftrightarrow> (\<exists>y. x = Some y \<and> f y = Ret b t)"
  by (cases x) auto

lemma assert_some_eq_Abort [result_simps]:
  "assert_some x f = Abort \<longleftrightarrow> x = None \<or> (\<exists>y. x = Some y \<and> f y = Abort)"
  by (cases x) auto

lemma deref_eq_Ret [result_simps]:
  "deref x f = Ret b t \<longleftrightarrow> (\<exists>y. x = Some y \<and> f y = Ret b t)"
  by (cases x) auto

text \<open>
  What every way of leaving a function normally satisfies: \<open>holds P r\<close> says that if the
  call returns or throws, its final state satisfies \<open>P\<close>.
\<close>

fun holds :: "('s \<Rightarrow> bool) \<Rightarrow> ('e, 'a, 's) result \<Rightarrow> bool" where
  "holds P (Ret a s) = P s"
| "holds P (Exn e s) = P s"
| "holds P Abort = True"
| "holds P Undef = True"

lemma holds_bind:
  assumes "holds P r" and "\<And>a s. r = Ret a s \<Longrightarrow> P s \<Longrightarrow> holds P (f a s)"
  shows "holds P (r_bind r f)"
  using assms by (cases r) auto

lemma holds_mono: "holds P r \<Longrightarrow> (\<And>s. P s \<Longrightarrow> Q s) \<Longrightarrow> holds Q r"
  by (cases r) auto

section \<open>Finite sets and words\<close>

lemma Max_insert_insert:
  fixes a b :: "'a::linorder"
  assumes "finite S"
  shows "Max (insert a (insert b S)) = Max (insert (max a b) S)"
  using assms by (cases "S = {}") (simp_all add: max.assoc)

lemma unat_add_no_wrap:
  fixes a b :: "'a::len word"
  assumes "unat a + unat b < 2 ^ LENGTH('a)"
  shows "unat (a + b) = unat a + unat b"
  using assms by (simp add: unat_word_ariths)

lemma ucast_u32_of_u16_inj [simp]:
  fixes a b :: u16
  shows "(ucast a :: u32) = ucast b \<longleftrightarrow> a = b"
proof
  assume "(ucast a :: u32) = ucast b"
  then have "(ucast (ucast a :: u32) :: u16) = ucast (ucast b :: u32)" by simp
  then show "a = b" by (simp add: ucast_up_ucast_id is_up)
qed simp

lemma unat_sub_if_le:
  fixes a b :: "'a::len word"
  assumes "b \<le> a"
  shows "unat (a - b) = unat a - unat b"
  using assms by (rule unat_sub)

end
