(* ===== verification/Std_Map.thy ===== *)
theory Std_Map
  imports Mnslp_Prelude
begin

text \<open>
  The ordered containers of the code: \<open>std::map<K, V, less>\<close> as the list of its entries in
  iteration order, with the comparison the code supplies as an argument. As in the C++
  library two keys are the same for the map when neither is less than the other, whatever
  \<open>operator==\<close> of the key class says. The locale \<open>weak_order\<close> is the contract the library
  puts on the comparison; the lookup laws are proved once under it. \<open>keyed_order\<close> is the
  form in which every key class of the code meets that contract: its \<open>operator<\<close> compares
  one number computed from the key.
\<close>

type_synonym ('k, 'v) smap = "('k \<times> 'v) list"

definition equiv_key :: "('k \<Rightarrow> 'k \<Rightarrow> bool) \<Rightarrow> 'k \<Rightarrow> 'k \<Rightarrow> bool" where
  "equiv_key lt a b \<longleftrightarrow> \<not> lt a b \<and> \<not> lt b a"

text \<open>\<open>m.find(k)\<close>, its value if any\<close>

fun smap_find :: "('k \<Rightarrow> 'k \<Rightarrow> bool) \<Rightarrow> 'k \<Rightarrow> ('k, 'v) smap \<Rightarrow> 'v option" where
  "smap_find lt k [] = None"
| "smap_find lt k ((a, b) # m) = (if equiv_key lt k a then Some b else smap_find lt k m)"

text \<open>\<open>m[k] = v\<close>: an entry that exists keeps its key and gets the new value\<close>

fun smap_set :: "('k \<Rightarrow> 'k \<Rightarrow> bool) \<Rightarrow> 'k \<Rightarrow> 'v \<Rightarrow> ('k, 'v) smap \<Rightarrow> ('k, 'v) smap" where
  "smap_set lt k v [] = [(k, v)]"
| "smap_set lt k v ((a, b) # m) =
     (if lt k a then (k, v) # (a, b) # m
      else if lt a k then (a, b) # smap_set lt k v m
      else (a, v) # m)"

text \<open>\<open>m.insert(pair(k, v))\<close>: no effect when the key is present\<close>

definition smap_insert :: "('k \<Rightarrow> 'k \<Rightarrow> bool) \<Rightarrow> 'k \<Rightarrow> 'v \<Rightarrow> ('k, 'v) smap \<Rightarrow> ('k, 'v) smap" where
  "smap_insert lt k v m = (case smap_find lt k m of None \<Rightarrow> smap_set lt k v m | Some _ \<Rightarrow> m)"

text \<open>\<open>m.erase(k)\<close>\<close>

definition smap_erase :: "('k \<Rightarrow> 'k \<Rightarrow> bool) \<Rightarrow> 'k \<Rightarrow> ('k, 'v) smap \<Rightarrow> ('k, 'v) smap" where
  "smap_erase lt k m = filter (\<lambda>(a, b). \<not> equiv_key lt k a) m"

text \<open>The representation invariant: iteration order is strictly increasing.\<close>

definition smap_wf :: "('k \<Rightarrow> 'k \<Rightarrow> bool) \<Rightarrow> ('k, 'v) smap \<Rightarrow> bool" where
  "smap_wf lt m \<longleftrightarrow> sorted_wrt lt (map fst m)"

lemma smap_wf_Nil [simp]: "smap_wf lt []"
  by (simp add: smap_wf_def)

lemma smap_wf_Cons [simp]:
  "smap_wf lt ((a, b) # m) \<longleftrightarrow> (\<forall>(x, y) \<in> set m. lt a x) \<and> smap_wf lt m"
  by (auto simp: smap_wf_def)

lemma keys_smap_set: "fst ` set (smap_set lt k v m) \<subseteq> insert k (fst ` set m)"
proof (induction m)
  case Nil
  then show ?case by simp
next
  case (Cons p m)
  then show ?case by (cases p) auto
qed

lemma smap_wf_erase: "smap_wf lt m \<Longrightarrow> smap_wf lt (smap_erase lt k m)"
  unfolding smap_wf_def smap_erase_def sorted_wrt_map by (rule sorted_wrt_filter)

lemma smap_find_erase_same: "smap_find lt k (smap_erase lt k m) = None"
  by (induction m) (auto simp: smap_erase_def)

lemma smap_find_in: "smap_find lt k m = Some v \<Longrightarrow> \<exists>a. (a, v) \<in> set m \<and> equiv_key lt k a"
  by (induction m) (auto split: if_splits)

locale weak_order =
  fixes lt :: "'k \<Rightarrow> 'k \<Rightarrow> bool"
  assumes irrefl: "\<not> lt a a"
    and trans: "lt a b \<Longrightarrow> lt b c \<Longrightarrow> lt a c"
    and incomp_trans: "\<not> lt a b \<Longrightarrow> \<not> lt b c \<Longrightarrow> \<not> lt a c"
begin

lemma equiv_refl: "equiv_key lt a a"
  by (simp add: equiv_key_def irrefl)

lemma equiv_sym: "equiv_key lt a b \<Longrightarrow> equiv_key lt b a"
  by (simp add: equiv_key_def)

lemma equiv_trans: "equiv_key lt a b \<Longrightarrow> equiv_key lt b c \<Longrightarrow> equiv_key lt a c"
  unfolding equiv_key_def by (metis incomp_trans)

lemma equiv_lt: "equiv_key lt a b \<Longrightarrow> lt b c \<Longrightarrow> lt a c"
  unfolding equiv_key_def by (metis incomp_trans)

lemma find_below:
  assumes "\<forall>(x, y) \<in> set m. lt k x"
  shows "smap_find lt k m = None"
  using assms by (induction m) (auto simp: equiv_key_def)

lemma find_set:
  assumes "smap_wf lt m"
  shows "smap_find lt j (smap_set lt k v m) = (if equiv_key lt j k then Some v else smap_find lt j m)"
  using assms
proof (induction m)
  case Nil
  then show ?case by simp
next
  case (Cons p m)
  obtain a b where p: "p = (a, b)" by (cases p)
  have *: "equiv_key lt j k \<longleftrightarrow> equiv_key lt j a" if "\<not> lt k a" "\<not> lt a k"
    using that unfolding equiv_key_def by (metis incomp_trans)
  have **: "\<not> equiv_key lt j k" if "equiv_key lt j a" "lt a k"
    using that equiv_lt equiv_sym unfolding equiv_key_def by blast
  from Cons p show ?case by (auto simp: * dest: **)
qed

lemma wf_set:
  assumes "smap_wf lt m"
  shows "smap_wf lt (smap_set lt k v m)"
  using assms
proof (induction m)
  case Nil
  then show ?case by simp
next
  case (Cons p m)
  obtain a b where p: "p = (a, b)" by (cases p)
  have above: "lt a x" if "(x, y) \<in> set (smap_set lt k v m)" "lt a k" for x y
  proof -
    have "x \<in> insert k (fst ` set m)"
      using that(1) keys_smap_set [of lt k v m] by (force simp: image_iff)
    with that(2) Cons.prems p show ?thesis by auto
  qed
  have low: "lt k x" if "lt k a" "(x, y) \<in> set m" for x y
    using that Cons.prems p trans [of k a x] by auto
  from Cons p show ?case
    by (auto intro: above low)
qed

lemma wf_insert: "smap_wf lt m \<Longrightarrow> smap_wf lt (smap_insert lt k v m)"
  by (simp add: smap_insert_def wf_set split: option.split)

lemma find_cong:
  assumes "equiv_key lt j k"
  shows "smap_find lt j m = smap_find lt k m"
proof -
  have "equiv_key lt j a \<longleftrightarrow> equiv_key lt k a" for a
    using assms by (metis equiv_trans equiv_sym)
  then show ?thesis by (induction m) auto
qed

lemma find_insert:
  assumes "smap_wf lt m"
  shows "smap_find lt j (smap_insert lt k v m) =
    (case smap_find lt j m of Some w \<Rightarrow> Some w | None \<Rightarrow> if equiv_key lt j k then Some v else None)"
proof (cases "smap_find lt k m")
  case None
  then show ?thesis
    using find_cong [of j k m]
    by (auto simp: smap_insert_def find_set [OF assms] split: option.splits)
next
  case (Some w)
  then show ?thesis
    using find_cong [of j k m]
    by (auto simp: smap_insert_def split: option.splits)
qed

lemma find_erase:
  "smap_find lt j (smap_erase lt k m) = (if equiv_key lt j k then None else smap_find lt j m)"
proof (induction m)
  case Nil
  then show ?case by (simp add: smap_erase_def)
next
  case (Cons p m)
  have "equiv_key lt j k" if "equiv_key lt j a" "equiv_key lt k a" for a
    using that by (metis equiv_trans equiv_sym)
  moreover have "equiv_key lt k a" if "equiv_key lt j a" "equiv_key lt j k" for a
    using that by (metis equiv_trans equiv_sym)
  ultimately show ?case using Cons by (cases p) (auto simp: smap_erase_def)
qed

lemma length_set:
  assumes "smap_wf lt m"
  shows "length (smap_set lt k v m) =
    (case smap_find lt k m of None \<Rightarrow> Suc (length m) | Some _ \<Rightarrow> length m)"
  using assms
proof (induction m)
  case Nil
  then show ?case by simp
next
  case (Cons p m)
  obtain a b where p: "p = (a, b)" by (cases p)
  have below: "smap_find lt k m = None" if "lt k a"
    using that Cons.prems p by (auto intro!: find_below intro: trans)
  from Cons p show ?case
    by (auto simp: equiv_key_def below split: option.splits)
qed

text \<open>Setting a key greater than all others appends its entry.\<close>

lemma set_above:
  assumes "\<forall>(x, y) \<in> set m. lt x k"
  shows "smap_set lt k v m = m @ [(k, v)]"
  using assms
proof (induction m)
  case Nil
  then show ?case by simp
next
  case (Cons p m)
  then show ?case
    by (cases p) (auto dest: trans simp: irrefl)
qed

text \<open>Copying a map entry by entry, in iteration order, rebuilds it.\<close>

lemma rebuild_append:
  assumes "smap_wf lt (m @ n)"
  shows "fold (\<lambda>(k, v). smap_set lt k v) n m = m @ n"
  using assms
proof (induction n arbitrary: m)
  case Nil
  then show ?case by simp
next
  case (Cons p n)
  obtain k v where p: "p = (k, v)" by (cases p)
  from Cons.prems p have "\<forall>(x, y) \<in> set m. lt x k"
    by (auto simp: smap_wf_def sorted_wrt_append)
  then have "smap_set lt k v m = m @ [(k, v)]" by (rule set_above)
  with Cons p show ?case by simp
qed

lemma rebuild_insert_append:
  assumes "smap_wf lt (m @ n)"
  shows "fold (\<lambda>(k, v). smap_insert lt k v) n m = m @ n"
  using assms
proof (induction n arbitrary: m)
  case Nil
  then show ?case by simp
next
  case (Cons p n)
  obtain k v where p: "p = (k, v)" by (cases p)
  from Cons.prems p have above: "\<forall>(x, y) \<in> set m. lt x k"
    by (auto simp: smap_wf_def sorted_wrt_append)
  then have "smap_find lt k m = None"
    by (induction m) (auto simp: equiv_key_def)
  then have "smap_insert lt k v m = m @ [(k, v)]"
    using above by (simp add: smap_insert_def set_above)
  with Cons p show ?case by simp
qed

lemma rebuild_insert: "smap_wf lt m \<Longrightarrow> fold (\<lambda>(k, v). smap_insert lt k v) m [] = m"
  using rebuild_insert_append [of "[]" m] by simp

lemma rebuild: "smap_wf lt m \<Longrightarrow> fold (\<lambda>(k, v). smap_set lt k v) m [] = m"
  using rebuild_append [of "[]" m] by simp

end

locale keyed_order =
  fixes lt :: "'k \<Rightarrow> 'k \<Rightarrow> bool" and num :: "'k \<Rightarrow> 'n::linorder"
  assumes lt_num: "lt a b \<longleftrightarrow> num a < num b"
begin

lemma equiv_num: "equiv_key lt a b \<longleftrightarrow> num a = num b"
  by (auto simp: equiv_key_def lt_num)

end

sublocale keyed_order \<subseteq> weak_order lt
  by unfold_locales (auto simp: lt_num)

end
