(* ===== verification/Ie_Store.thy ===== *)
theory Ie_Store
  imports Std_Map
begin

text \<open>
  The object store of a message: \<open>ie_object_key\<close> (include/msg/ie_object_key.h) and
  \<open>ie_store\<close> (src/msg/ie_store.cpp), a \<open>std::map\<close> from keys to information elements.
  The comparison of keys adds the two components, so the map identifies different keys with
  the same sum; \<open>reserved_key\<close> describes the keys messages really use, on which no two sums
  agree, and the store is then a plain finite map from keys to objects.
\<close>

record ie_object_key =
  k_object_type :: u32
  k_seq_nbr :: u32

abbreviation mk_key :: "u32 \<Rightarrow> u32 \<Rightarrow> ie_object_key" where
  "mk_key t n \<equiv> \<lparr>k_object_type = t, k_seq_nbr = n\<rparr>"

definition ie_object_key_eq :: "ie_object_key \<Rightarrow> ie_object_key \<Rightarrow> bool" where
  "ie_object_key_eq a b \<longleftrightarrow> k_object_type a = k_object_type b \<and> k_seq_nbr a = k_seq_nbr b"

definition ie_object_key_less :: "ie_object_key \<Rightarrow> ie_object_key \<Rightarrow> bool" where
  "ie_object_key_less a b \<longleftrightarrow> k_object_type a + k_seq_nbr a < k_object_type b + k_seq_nbr b"

interpretation ok: keyed_order ie_object_key_less "\<lambda>k. k_object_type k + k_seq_nbr k"
  by unfold_locales (simp add: ie_object_key_less_def)

type_synonym 'v ie_store = "(ie_object_key, 'v) smap"

abbreviation store_wf :: "'v ie_store \<Rightarrow> bool" where
  "store_wf s \<equiv> smap_wf ie_object_key_less s"

definition ie_store_empty :: "'v ie_store" where
  "ie_store_empty = []"

definition ie_store_size :: "'v ie_store \<Rightarrow> nat" where
  "ie_store_size s = length s"

definition ie_store_get :: "'v ie_store \<Rightarrow> ie_object_key \<Rightarrow> 'v option" where
  "ie_store_get s k = smap_find ie_object_key_less k s"

text \<open>A NULL element is ignored; otherwise the new element replaces the old one.\<close>

definition ie_store_set :: "'v ie_store \<Rightarrow> ie_object_key \<Rightarrow> 'v option \<Rightarrow> 'v ie_store" where
  "ie_store_set s k ie = (case ie of None \<Rightarrow> s | Some v \<Rightarrow> smap_set ie_object_key_less k v s)"

definition ie_store_remove :: "'v ie_store \<Rightarrow> ie_object_key \<Rightarrow> 'v option \<times> 'v ie_store" where
  "ie_store_remove s k = (ie_store_get s k, smap_erase ie_object_key_less k s)"

text \<open>The copy constructor sets a copy of each element into an empty store.\<close>

definition ie_store_copy :: "('v \<Rightarrow> 'v) \<Rightarrow> 'v ie_store \<Rightarrow> 'v ie_store" where
  "ie_store_copy cp other = fold (\<lambda>(k, v) s. ie_store_set s k (Some (cp v))) other ie_store_empty"

definition ie_store_eq :: "('v \<Rightarrow> 'v \<Rightarrow> bool) \<Rightarrow> 'v ie_store \<Rightarrow> 'v ie_store \<Rightarrow> bool" where
  "ie_store_eq eq s other \<longleftrightarrow>
     ie_store_size s = ie_store_size other \<and>
     list_all (\<lambda>(k, v). case ie_store_get other k of None \<Rightarrow> False | Some w \<Rightarrow> eq v w) s"

definition get_max_sequence :: "'v ie_store \<Rightarrow> u32 \<Rightarrow> u32" where
  "get_max_sequence s t =
     fold (\<lambda>(k, v) result.
             if k_object_type k = t \<and> result \<le> k_seq_nbr k then k_seq_nbr k else result) s 0"

section \<open>Laws of the store\<close>

lemma store_wf_empty [store_simps]: "store_wf ie_store_empty"
  by (simp add: ie_store_empty_def)

lemma store_wf_set [store_simps]: "store_wf s \<Longrightarrow> store_wf (ie_store_set s k ie)"
  by (simp add: ie_store_set_def ok.wf_set split: option.split)

lemma store_wf_remove [store_simps]: "store_wf s \<Longrightarrow> store_wf (snd (ie_store_remove s k))"
  by (simp add: ie_store_remove_def smap_wf_erase)

lemma store_get_empty [store_simps]: "ie_store_get ie_store_empty k = None"
  by (simp add: ie_store_get_def ie_store_empty_def)

lemma store_get_set_sum:
  assumes "store_wf s"
  shows "ie_store_get (ie_store_set s k (Some v)) j =
    (if k_object_type j + k_seq_nbr j = k_object_type k + k_seq_nbr k then Some v
     else ie_store_get s j)"
  using ok.find_set [OF assms] by (simp add: ie_store_get_def ie_store_set_def ok.equiv_num)

lemma ie_store_copy_id:
  assumes "store_wf s"
  shows "ie_store_copy (\<lambda>v. v) s = s"
proof -
  have "ie_store_copy (\<lambda>v. v) s = fold (\<lambda>(k, v). smap_set ie_object_key_less k v) s []"
    unfolding ie_store_copy_def ie_store_empty_def
    by (rule arg_cong [where f = "\<lambda>f. fold f s []"]) (auto simp: ie_store_set_def fun_eq_iff)
  also have "\<dots> = s" using assms by (rule ok.rebuild)
  finally show ?thesis .
qed

lemma ie_store_get_in:
  assumes "ie_store_get s k = Some v"
  shows "\<exists>a. (a, v) \<in> set s"
  using smap_find_in [OF assms [unfolded ie_store_get_def]] by blast

section \<open>Keys in use\<close>

text \<open>
  Types 0xF4 to 0xF8 are used with sequence number 1 only; 0xF9, the IPFIX message, is
  numbered from 1.
\<close>

definition reserved_key :: "ie_object_key \<Rightarrow> bool" where
  "reserved_key k \<longleftrightarrow>
     (k_object_type k \<in> {0xF4, 0xF5, 0xF6, 0xF7, 0xF8} \<and> k_seq_nbr k = 1) \<or>
     (k_object_type k = 0xF9 \<and> 1 \<le> unat (k_seq_nbr k) \<and> unat (k_seq_nbr k) < 2 ^ 32 - 0xF9)"

definition keys_reserved :: "'v ie_store \<Rightarrow> bool" where
  "keys_reserved s \<longleftrightarrow> (\<forall>(k, v) \<in> set s. reserved_key k)"

lemma reserved_sum:
  assumes "reserved_key k"
  shows "unat (k_object_type k + k_seq_nbr k) =
    (if k_object_type k = 0xF9 then 0xF9 + unat (k_seq_nbr k) else unat (k_object_type k) + 1)"
proof -
  have "unat (k_object_type k) + unat (k_seq_nbr k) < 2 ^ LENGTH(32)"
    using assms by (auto simp: reserved_key_def)
  from unat_add_no_wrap [OF this] assms show ?thesis
    by (auto simp: reserved_key_def)
qed

lemma reserved_type_le:
  assumes "reserved_key k" and "k_object_type k \<noteq> 0xF9"
  shows "unat (k_object_type k) \<le> 0xF8" and "k_seq_nbr k = 1"
  using assms by (auto simp: reserved_key_def)

lemma reserved_key_inj:
  assumes j: "reserved_key j" and k: "reserved_key k"
    and sum: "k_object_type j + k_seq_nbr j = k_object_type k + k_seq_nbr k"
  shows "j = k"
proof -
  have eq: "unat (k_object_type j + k_seq_nbr j) = unat (k_object_type k + k_seq_nbr k)"
    using sum by simp
  have pos: "k_object_type i = 0xF9 \<Longrightarrow> 1 \<le> unat (k_seq_nbr i)" if "reserved_key i" for i
    using that by (auto simp: reserved_key_def)
  have "k_object_type j = k_object_type k \<and> k_seq_nbr j = k_seq_nbr k"
  proof (cases "k_object_type j = 0xF9"; cases "k_object_type k = 0xF9")
    assume "k_object_type j = 0xF9" "k_object_type k = 0xF9"
    with sum show ?thesis by simp
  next
    assume *: "k_object_type j = 0xF9" "k_object_type k \<noteq> 0xF9"
    with eq reserved_sum [OF j] reserved_sum [OF k] reserved_type_le [OF k] pos [OF j]
    show ?thesis by simp
  next
    assume *: "k_object_type j \<noteq> 0xF9" "k_object_type k = 0xF9"
    with eq reserved_sum [OF j] reserved_sum [OF k] reserved_type_le [OF j] pos [OF k]
    show ?thesis by simp
  next
    assume *: "k_object_type j \<noteq> 0xF9" "k_object_type k \<noteq> 0xF9"
    with eq reserved_sum [OF j] reserved_sum [OF k]
    have "unat (k_object_type j) = unat (k_object_type k)" by simp
    then have "k_object_type j = k_object_type k" by (simp only: word_unat_eq_iff)
    with * reserved_type_le [OF j] reserved_type_le [OF k] show ?thesis by simp
  qed
  then show ?thesis by (cases j; cases k) simp
qed

lemma store_get_set:
  assumes "store_wf s" and "reserved_key j" and "reserved_key k"
  shows "ie_store_get (ie_store_set s k (Some v)) j = (if j = k then Some v else ie_store_get s j)"
  using assms by (auto simp: store_get_set_sum dest: reserved_key_inj)

lemma keys_reserved_empty [store_simps]: "keys_reserved ie_store_empty"
  by (simp add: keys_reserved_def ie_store_empty_def)

lemma keys_reserved_set [store_simps]:
  assumes "keys_reserved s" and "reserved_key k"
  shows "keys_reserved (ie_store_set s k (Some v))"
proof -
  have "fst ` set (ie_store_set s k (Some v)) \<subseteq> insert k (fst ` set s)"
    using keys_smap_set by (simp add: ie_store_set_def)
  then show ?thesis
    using assms unfolding keys_reserved_def by (force simp: image_subset_iff)
qed

lemma in_store_get:
  assumes "store_wf s" and "(k, v) \<in> set s"
  shows "ie_store_get s k = Some v"
  using assms unfolding ie_store_get_def
proof (induction s)
  case Nil
  then show ?case by simp
next
  case (Cons p s)
  obtain a b where p: "p = (a, b)" by (cases p)
  show ?case
  proof (cases "(k, v) = (a, b)")
    case True
    with p show ?thesis by (simp add: ok.equiv_refl)
  next
    case False
    with Cons.prems p have "(k, v) \<in> set s" and "ie_object_key_less a k" by auto
    with Cons p show ?thesis by (auto simp: equiv_key_def)
  qed
qed

lemma store_find_key:
  assumes "keys_reserved s" and "reserved_key k" and "ie_store_get s k = Some v"
  shows "(k, v) \<in> set s"
proof -
  from assms(3) obtain a where "(a, v) \<in> set s" "equiv_key ie_object_key_less k a"
    using smap_find_in [of ie_object_key_less k s v] unfolding ie_store_get_def by blast
  moreover from this assms(1,2) have "a = k"
    by (auto simp: keys_reserved_def ok.equiv_num dest: reserved_key_inj)
  ultimately show ?thesis by simp
qed

section \<open>The highest sequence number\<close>

lemma get_max_sequence_fold:
  "fold (\<lambda>(k, v) result. if k_object_type k = t \<and> result \<le> k_seq_nbr k then k_seq_nbr k else result) s r
     = Max (insert r (k_seq_nbr ` {k \<in> fst ` set s. k_object_type k = t}))"
proof (induction s arbitrary: r)
  case Nil
  then show ?case by simp
next
  case (Cons p s)
  obtain a b where p: "p = (a, b)" by (cases p)
  let ?S = "k_seq_nbr ` {k \<in> fst ` set s. k_object_type k = t}"
  have *: "k_seq_nbr ` {k \<in> fst ` set (p # s). k_object_type k = t} =
      (if k_object_type a = t then insert (k_seq_nbr a) ?S else ?S)"
    using p by auto
  have fin: "finite ?S" by simp
  show ?case
  proof (cases "k_object_type a = t")
    case True
    have "Max (insert r (insert (k_seq_nbr a) ?S)) = Max (insert (max r (k_seq_nbr a)) ?S)"
      using fin by (rule Max_insert_insert)
    then show ?thesis unfolding * using True p Cons.IH by (simp add: max_def)
  next
    case False
    then show ?thesis unfolding * using p Cons.IH by simp
  qed
qed

lemma get_max_sequence_Max:
  "get_max_sequence s t = Max (insert 0 (k_seq_nbr ` {k \<in> fst ` set s. k_object_type k = t}))"
  unfolding get_max_sequence_def by (rule get_max_sequence_fold)

lemma get_max_sequence_ge: "(k, v) \<in> set s \<Longrightarrow> k_object_type k = t \<Longrightarrow> k_seq_nbr k \<le> get_max_sequence s t"
  unfolding get_max_sequence_Max by (intro Max_ge) force+

section \<open>Properties\<close>

text \<open>
  On the keys messages use, the store is a finite map: \<open>set\<close> defines exactly its key,
  \<open>remove\<close> returns what is stored there and undefines exactly its key.
\<close>

theorem ie_store_map_laws:
  assumes "store_wf s" and "reserved_key j" and "reserved_key k"
  shows "ie_store_get (ie_store_set s k (Some v)) j = (if j = k then Some v else ie_store_get s j) \<and>
    fst (ie_store_remove s k) = ie_store_get s k \<and>
    ie_store_get (snd (ie_store_remove s k)) j = (if j = k then None else ie_store_get s j)"
proof -
  have "k_object_type j + k_seq_nbr j = k_object_type k + k_seq_nbr k \<longleftrightarrow> j = k"
    using reserved_key_inj [OF assms(2,3)] by auto
  then show ?thesis
    using store_get_set [OF assms, of v]
    by (simp add: ie_store_remove_def ie_store_get_def ok.find_erase ok.equiv_num)
qed

theorem ie_store_map_laws_witness:
  "ie_store_get (ie_store_set [(mk_key 0xF5 1, 10 :: nat)] (mk_key 0xF9 1) (Some 20)) (mk_key 0xF5 1) = Some 10"
proof -
  have "store_wf [(mk_key 0xF5 1, 10 :: nat)]" by simp
  moreover have "reserved_key (mk_key 0xF5 1)" "reserved_key (mk_key 0xF9 1)"
    by (simp_all add: reserved_key_def)
  ultimately show ?thesis
    using ie_store_map_laws [of "[(mk_key 0xF5 1, 10 :: nat)]" "mk_key 0xF5 1" "mk_key 0xF9 1" 20]
    by (simp add: ie_store_get_def equiv_key_def ie_object_key_less_def)
qed

text \<open>
  Outside those keys \<open>operator<\<close> identifies different keys: a second session lifetime and
  the first IPFIX message share one place, although \<open>operator==\<close> tells their keys apart, so
  setting the one replaces the other.
\<close>

theorem ie_store_key_collision:
  "\<not> ie_object_key_eq (mk_key 0xF8 2) (mk_key 0xF9 1) \<and>
   ie_store_get (ie_store_set (ie_store_set ie_store_empty (mk_key 0xF8 2) (Some a))
     (mk_key 0xF9 1) (Some b)) (mk_key 0xF8 2) = Some b \<and>
   ie_store_size (ie_store_set (ie_store_set ie_store_empty (mk_key 0xF8 2) (Some a))
     (mk_key 0xF9 1) (Some b)) = 1"
  by (simp add: ie_object_key_eq_def ie_store_get_def ie_store_set_def ie_store_empty_def
      ie_store_size_def equiv_key_def ie_object_key_less_def)

end
