(* ===== verification/Mnslp_Object.thy ===== *)
theory Mnslp_Object
  imports Ie_Store
begin

unbundle bit_operations_syntax

text \<open>
  The objects a message carries (include/msg/mnslp_object.h and the five concrete classes of
  src/msg/). The abstract class \<open>mnslp_mspec_object\<close>, of which an IPFIX message is the only
  subclass, is a header and a body of the type variable \<open>'o\<close>: messages, sessions and rules only copy such objects
  and hand them to the rule installer. A \<open>dynamic_cast\<close> to a class is a function to an option
  that answers for the constructor of that class.
\<close>

datatype treatment = Tr_Mandatory | Tr_Optional | Tr_Forward | Tr_Reserved

fun treatment_code :: "treatment \<Rightarrow> u32" where
  "treatment_code Tr_Mandatory = 0"
| "treatment_code Tr_Optional = 1"
| "treatment_code Tr_Forward = 2"
| "treatment_code Tr_Reserved = 3"

definition treatment_of :: "u32 \<Rightarrow> treatment" where
  "treatment_of x =
     (if x = 0 then Tr_Mandatory else if x = 1 then Tr_Optional
      else if x = 2 then Tr_Forward else Tr_Reserved)"

record obj_hdr =
  oh_object_type :: u16
  oh_unique :: bool
  oh_treatment :: treatment

record info_code =
  ic_severity_class :: u8
  ic_response_code :: u8
  ic_response_object_type :: u16

record 'o mspec_object =
  ms_hdr :: obj_hdr
  ms_body :: 'o

datatype 'o mnslp_object =
    Session_Lifetime obj_hdr u32
  | Msg_Sequence_Number obj_hdr u32
  | Message_Hop_Count obj_hdr u32
  | Selection_Metering_Entities obj_hdr u32
  | Information_Code obj_hdr info_code
  | Mspec_Object "'o mspec_object"

section \<open>Object types and codes\<close>

definition ot_information_code :: u16 where "ot_information_code = 0x00F4"
definition ot_selection_met_entities :: u16 where "ot_selection_met_entities = 0x00F5"
definition ot_message_hop_count :: u16 where "ot_message_hop_count = 0x00F6"
definition ot_msg_sequence_number :: u16 where "ot_msg_sequence_number = 0x00F7"
definition ot_session_lifetime :: u16 where "ot_session_lifetime = 0x00F8"
definition ot_mnslp_ipfix_message :: u16 where "ot_mnslp_ipfix_message = 0x00F9"

lemmas ot_defs = ot_information_code_def ot_selection_met_entities_def ot_message_hop_count_def
  ot_msg_sequence_number_def ot_session_lifetime_def ot_mnslp_ipfix_message_def

lemma ot_eqs [simp]:
  "ot_information_code \<noteq> ot_selection_met_entities" "ot_information_code \<noteq> ot_message_hop_count"
  "ot_information_code \<noteq> ot_msg_sequence_number" "ot_information_code \<noteq> ot_session_lifetime"
  "ot_information_code \<noteq> ot_mnslp_ipfix_message"
  "ot_selection_met_entities \<noteq> ot_information_code" "ot_selection_met_entities \<noteq> ot_message_hop_count"
  "ot_selection_met_entities \<noteq> ot_msg_sequence_number" "ot_selection_met_entities \<noteq> ot_session_lifetime"
  "ot_selection_met_entities \<noteq> ot_mnslp_ipfix_message"
  "ot_message_hop_count \<noteq> ot_information_code" "ot_message_hop_count \<noteq> ot_selection_met_entities"
  "ot_message_hop_count \<noteq> ot_msg_sequence_number" "ot_message_hop_count \<noteq> ot_session_lifetime"
  "ot_message_hop_count \<noteq> ot_mnslp_ipfix_message"
  "ot_msg_sequence_number \<noteq> ot_information_code" "ot_msg_sequence_number \<noteq> ot_selection_met_entities"
  "ot_msg_sequence_number \<noteq> ot_message_hop_count" "ot_msg_sequence_number \<noteq> ot_session_lifetime"
  "ot_msg_sequence_number \<noteq> ot_mnslp_ipfix_message"
  "ot_session_lifetime \<noteq> ot_information_code" "ot_session_lifetime \<noteq> ot_selection_met_entities"
  "ot_session_lifetime \<noteq> ot_message_hop_count" "ot_session_lifetime \<noteq> ot_msg_sequence_number"
  "ot_session_lifetime \<noteq> ot_mnslp_ipfix_message"
  "ot_mnslp_ipfix_message \<noteq> ot_information_code" "ot_mnslp_ipfix_message \<noteq> ot_selection_met_entities"
  "ot_mnslp_ipfix_message \<noteq> ot_message_hop_count" "ot_mnslp_ipfix_message \<noteq> ot_msg_sequence_number"
  "ot_mnslp_ipfix_message \<noteq> ot_session_lifetime"
  by (simp_all add: ot_defs)

abbreviation sc_informational :: u8 where "sc_informational \<equiv> 1"
abbreviation sc_success :: u8 where "sc_success \<equiv> 2"
abbreviation sc_protocol_error :: u8 where "sc_protocol_error \<equiv> 3"
abbreviation sc_transient_failure :: u8 where "sc_transient_failure \<equiv> 4"
abbreviation sc_permanent_failure :: u8 where "sc_permanent_failure \<equiv> 5"
abbreviation sc_signaling_session_failures :: u8 where "sc_signaling_session_failures \<equiv> 6"

abbreviation suc_successfully_processed :: u8 where "suc_successfully_processed \<equiv> 1"
abbreviation fail_authentication_failed :: u8 where "fail_authentication_failed \<equiv> 1"
abbreviation fail_internal_error :: u8 where "fail_internal_error \<equiv> 4"
abbreviation fail_nr_not_reached :: u8 where "fail_nr_not_reached \<equiv> 7"
abbreviation fail_configuration_failed :: u8 where "fail_configuration_failed \<equiv> 9"
abbreviation sigfail_lifetime_too_big :: u8 where "sigfail_lifetime_too_big \<equiv> 2"
abbreviation sigfail_wrong_conf_message :: u8 where "sigfail_wrong_conf_message \<equiv> 7"

text \<open>Values of \<open>selection_metering_entities_t\<close>\<close>

abbreviation sme_all :: u32 where "sme_all \<equiv> 1"
abbreviation sme_any :: u32 where "sme_any \<equiv> 2"
abbreviation sme_first :: u32 where "sme_first \<equiv> 3"
abbreviation sme_last :: u32 where "sme_last \<equiv> 4"
abbreviation sme_first_last :: u32 where "sme_first_last \<equiv> 5"

section \<open>Construction, access, comparison\<close>

definition new_session_lifetime :: "u32 \<Rightarrow> 'o mnslp_object" where
  "new_session_lifetime v = Session_Lifetime \<lparr>oh_object_type = ot_session_lifetime,
     oh_unique = True, oh_treatment = Tr_Mandatory\<rparr> v"

definition new_msg_sequence_number :: "u32 \<Rightarrow> 'o mnslp_object" where
  "new_msg_sequence_number v = Msg_Sequence_Number \<lparr>oh_object_type = ot_msg_sequence_number,
     oh_unique = True, oh_treatment = Tr_Mandatory\<rparr> v"

definition new_message_hop_count :: "u32 \<Rightarrow> 'o mnslp_object" where
  "new_message_hop_count v = Message_Hop_Count \<lparr>oh_object_type = ot_message_hop_count,
     oh_unique = True, oh_treatment = Tr_Mandatory\<rparr> v"

definition new_selection_metering_entities :: "u32 \<Rightarrow> 'o mnslp_object" where
  "new_selection_metering_entities v = Selection_Metering_Entities
     \<lparr>oh_object_type = ot_selection_met_entities, oh_unique = True, oh_treatment = Tr_Mandatory\<rparr> v"

definition new_information_code :: "u8 \<Rightarrow> u8 \<Rightarrow> u16 \<Rightarrow> 'o mnslp_object" where
  "new_information_code severity code obj_type = Information_Code
     \<lparr>oh_object_type = ot_information_code, oh_unique = True, oh_treatment = Tr_Mandatory\<rparr>
     \<lparr>ic_severity_class = severity, ic_response_code = code, ic_response_object_type = obj_type\<rparr>"

lemmas new_object_defs = new_session_lifetime_def new_msg_sequence_number_def
  new_message_hop_count_def new_selection_metering_entities_def new_information_code_def

fun obj_header :: "'o mnslp_object \<Rightarrow> obj_hdr" where
  "obj_header (Session_Lifetime h _) = h"
| "obj_header (Msg_Sequence_Number h _) = h"
| "obj_header (Message_Hop_Count h _) = h"
| "obj_header (Selection_Metering_Entities h _) = h"
| "obj_header (Information_Code h _) = h"
| "obj_header (Mspec_Object m) = ms_hdr m"

definition get_object_type :: "'o mnslp_object \<Rightarrow> u16" where
  "get_object_type ob = oh_object_type (obj_header ob)"

definition is_unique :: "'o mnslp_object \<Rightarrow> bool" where
  "is_unique ob = oh_unique (obj_header ob)"

text \<open>\<open>dynamic_cast\<close> to a concrete class and \<open>get_value()\<close>\<close>

fun as_session_lifetime :: "'o mnslp_object \<Rightarrow> u32 option" where
  "as_session_lifetime (Session_Lifetime _ v) = Some v"
| "as_session_lifetime _ = None"

fun as_msg_sequence_number :: "'o mnslp_object \<Rightarrow> u32 option" where
  "as_msg_sequence_number (Msg_Sequence_Number _ v) = Some v"
| "as_msg_sequence_number _ = None"

fun as_message_hop_count :: "'o mnslp_object \<Rightarrow> u32 option" where
  "as_message_hop_count (Message_Hop_Count _ v) = Some v"
| "as_message_hop_count _ = None"

fun as_selection_metering_entities :: "'o mnslp_object \<Rightarrow> u32 option" where
  "as_selection_metering_entities (Selection_Metering_Entities _ v) = Some v"
| "as_selection_metering_entities _ = None"

fun as_information_code :: "'o mnslp_object \<Rightarrow> (obj_hdr \<times> info_code) option" where
  "as_information_code (Information_Code h ic) = Some (h, ic)"
| "as_information_code _ = None"

fun as_mspec_object :: "'o mnslp_object \<Rightarrow> 'o mspec_object option" where
  "as_mspec_object (Mspec_Object m) = Some m"
| "as_mspec_object _ = None"

definition ic_is_success :: "info_code \<Rightarrow> bool" where
  "ic_is_success ic \<longleftrightarrow> ic_severity_class ic = sc_success \<and>
     ic_response_code ic = suc_successfully_processed"

text \<open>
  \<open>check_body\<close>; the first argument is the (pure virtual) \<open>check_body\<close> of the metering
  objects. The information code insists that the low 16 bits of the object type are zero.
\<close>

fun check_body :: "('o mspec_object \<Rightarrow> bool) \<Rightarrow> 'o mnslp_object \<Rightarrow> bool" where
  "check_body mc (Session_Lifetime _ _) = True"
| "check_body mc (Msg_Sequence_Number _ _) = True"
| "check_body mc (Message_Hop_Count _ _) = True"
| "check_body mc (Selection_Metering_Entities _ _) = True"
| "check_body mc (Information_Code _ ic) =
     (if ic_severity_class ic AND 0xF0 \<noteq> 0 \<or> ic_response_object_type ic AND 0xFFFF \<noteq> 0
      then False else True)"
| "check_body mc (Mspec_Object m) = mc m"

definition object_check :: "('o mspec_object \<Rightarrow> bool) \<Rightarrow> 'o mnslp_object \<Rightarrow> bool" where
  "object_check mc ob =
     (if get_object_type ob AND NOT 0xFFF \<noteq> 0 then False else check_body mc ob)"

fun equals_body :: "('o mspec_object \<Rightarrow> 'o mspec_object \<Rightarrow> bool) \<Rightarrow>
    'o mnslp_object \<Rightarrow> 'o mnslp_object \<Rightarrow> bool" where
  "equals_body me (Session_Lifetime _ v) (Session_Lifetime _ w) = (v = w)"
| "equals_body me (Msg_Sequence_Number _ v) (Msg_Sequence_Number _ w) = (v = w)"
| "equals_body me (Message_Hop_Count _ v) (Message_Hop_Count _ w) = (v = w)"
| "equals_body me (Selection_Metering_Entities _ v) (Selection_Metering_Entities _ w) = (v = w)"
| "equals_body me (Information_Code _ a) (Information_Code _ b) =
     (ic_severity_class a = ic_severity_class b \<and> ic_response_code a = ic_response_code b \<and>
      ic_response_object_type a = ic_response_object_type b)"
| "equals_body me (Mspec_Object a) (Mspec_Object b) = me a b"
| "equals_body me _ _ = False"

definition object_eq :: "('o mspec_object \<Rightarrow> 'o mspec_object \<Rightarrow> bool) \<Rightarrow>
    'o mnslp_object \<Rightarrow> 'o mnslp_object \<Rightarrow> bool" where
  "object_eq me a b \<longleftrightarrow> get_object_type a = get_object_type b \<and>
     oh_treatment (obj_header a) = oh_treatment (obj_header b) \<and> equals_body me a b"

lemma equals_body_refl: "(\<And>m. me m m) \<Longrightarrow> equals_body me ob ob"
  by (cases ob) auto

lemma object_eq_refl: "(\<And>m. me m m) \<Longrightarrow> object_eq me ob ob"
  by (simp add: object_eq_def equals_body_refl)

text \<open>An information code passes its check exactly when it names no object.\<close>

lemma information_code_check:
  "object_check mc (new_information_code s c t) \<longleftrightarrow> s AND 0xF0 = 0 \<and> t = 0"
proof -
  have "t AND 0xFFFF = t" for t :: u16
  proof -
    have "(0xFFFF :: u16) = -1" by simp
    then show ?thesis by (metis and.right_neutral)
  qed
  then show ?thesis
    by (simp add: object_check_def get_object_type_def new_information_code_def ot_defs)
qed

section \<open>Properties\<close>

text \<open>
  The check of an information code accepts it exactly when the severity class fits its
  four bits and no object type is named: every code that reports on an object is refused,
  whatever the object.
\<close>

theorem information_code_check_iff:
  "object_check mc (new_information_code s c t) \<longleftrightarrow> s AND 0xF0 = 0 \<and> t = 0"
  by (rule information_code_check)

end
