(* ===== verification/Mnslp_Msg.thy ===== *)
theory Mnslp_Msg
  imports Mnslp_Object
begin

text \<open>
  Messages: the base class \<open>mnslp_msg\<close> with its five subclasses (src/msg/mnslp_msg.cpp,
  mnslp_configure.cpp, mnslp_response.cpp, mnslp_notify.cpp, mnslp_options.cpp,
  mnslp_refresh.cpp) and the NTLP envelope \<open>ntlp_msg\<close> (src/msg/ntlp_msg.cpp). The dynamic
  class of a message is a component of its own, beside the type number of its header.
  The message routing information (MRI) belongs to the NTLP library, which is not part of
  the repository: it is the type variable \<open>'r\<close>, and what the code asks of it is the record
  \<open>mri_ops\<close>. Copying an MRI or a message object yields an equal value.
\<close>

datatype mclass = Mnslp_Configure | Mnslp_Response | Mnslp_Notify | Mnslp_Options | Mnslp_Refresh

record 'o mnslp_msg =
  m_class :: mclass
  m_msg_type :: u8
  m_objects :: "'o mnslp_object ie_store"

fun class_msg_type :: "mclass \<Rightarrow> u8" where
  "class_msg_type Mnslp_Configure = 0x1"
| "class_msg_type Mnslp_Response = 0x2"
| "class_msg_type Mnslp_Notify = 0x3"
| "class_msg_type Mnslp_Options = 0x4"
| "class_msg_type Mnslp_Refresh = 0x5"

definition new_msg :: "mclass \<Rightarrow> 'o mnslp_msg" where
  "new_msg c = \<lparr>m_class = c, m_msg_type = class_msg_type c, m_objects = ie_store_empty\<rparr>"

definition obj_key :: "u16 \<Rightarrow> u32 \<Rightarrow> ie_object_key" where
  "obj_key t n = mk_key (ucast t) n"

lemma obj_key_eq [simp]: "obj_key s m = obj_key t n \<longleftrightarrow> s = t \<and> m = n"
  by (auto simp: obj_key_def)

section \<open>The base class\<close>

definition msg_copy :: "'o mnslp_msg \<Rightarrow> 'o mnslp_msg" where
  "msg_copy m = m\<lparr>m_objects := ie_store_copy (\<lambda>ob. ob) (m_objects m)\<rparr>"

definition msg_get_num_objects :: "'o mnslp_msg \<Rightarrow> nat" where
  "msg_get_num_objects m = ie_store_size (m_objects m)"

definition msg_get_object :: "'o mnslp_msg \<Rightarrow> ie_object_key \<Rightarrow> 'o mnslp_object option" where
  "msg_get_object m k = ie_store_get (m_objects m) k"

definition msg_set_object :: "'o mnslp_msg \<Rightarrow> 'o mnslp_object \<Rightarrow> 'o mnslp_msg" where
  "msg_set_object m ob =
     (if is_unique ob
      then m\<lparr>m_objects := ie_store_set (m_objects m) (obj_key (get_object_type ob) 1) (Some ob)\<rparr>
      else
        (let sequence = get_max_sequence (m_objects m) (ucast (get_object_type ob)) + 1
         in m\<lparr>m_objects := ie_store_set (m_objects m) (obj_key (get_object_type ob) sequence) (Some ob)\<rparr>))"

definition msg_remove_object :: "'o mnslp_msg \<Rightarrow> ie_object_key \<Rightarrow> 'o mnslp_object option \<times> 'o mnslp_msg" where
  "msg_remove_object m k =
     (let (ob, s) = ie_store_remove (m_objects m) k in (ob, m\<lparr>m_objects := s\<rparr>))"

definition msg_eq :: "('o mspec_object \<Rightarrow> 'o mspec_object \<Rightarrow> bool) \<Rightarrow>
    'o mnslp_msg \<Rightarrow> 'o mnslp_msg \<Rightarrow> bool" where
  "msg_eq me a b =
     (if m_msg_type a \<noteq> m_msg_type b then False
      else ie_store_eq (object_eq me) (m_objects a) (m_objects b))"

definition msn_key :: ie_object_key where
  "msn_key = obj_key ot_msg_sequence_number 1"

definition has_msg_sequence_number :: "'o mnslp_msg \<Rightarrow> bool" where
  "has_msg_sequence_number m \<longleftrightarrow> Option.bind (msg_get_object m msn_key) as_msg_sequence_number \<noteq> None"

text \<open>\<open>None\<close>: the assertion of \<open>mnslp_msg::get_msg_sequence_number\<close> fails.\<close>

definition base_get_msg_sequence_number :: "'o mnslp_msg \<Rightarrow> u32 option" where
  "base_get_msg_sequence_number m = Option.bind (msg_get_object m msn_key) as_msg_sequence_number"

text \<open>An object of one type, cast, read, or 0: the getters of the subclasses.\<close>

definition value_or_0 :: "('o mnslp_object \<Rightarrow> ('w::len) word option) \<Rightarrow> u16 \<Rightarrow> 'o mnslp_msg \<Rightarrow> 'w word" where
  "value_or_0 cast t m =
     (case Option.bind (msg_get_object m (obj_key t 1)) cast of None \<Rightarrow> 0 | Some v \<Rightarrow> v)"

section \<open>Configure\<close>

definition configure_check :: "'o mnslp_msg \<Rightarrow> bool" where
  "configure_check m =
     (let types = map (k_object_type \<circ> fst) (m_objects m)
      in ucast ot_msg_sequence_number \<in> set types \<and> ucast ot_selection_met_entities \<in> set types \<and>
         ucast ot_session_lifetime \<in> set types \<and> ucast ot_message_hop_count \<in> set types)"

definition configure_set_session_lifetime :: "u32 \<Rightarrow> 'o mnslp_msg \<Rightarrow> 'o mnslp_msg" where
  "configure_set_session_lifetime v m = msg_set_object m (new_session_lifetime v)"

definition configure_get_session_lifetime :: "'o mnslp_msg \<Rightarrow> u32" where
  "configure_get_session_lifetime m = value_or_0 as_session_lifetime ot_session_lifetime m"

definition configure_set_msg_sequence_number :: "u32 \<Rightarrow> 'o mnslp_msg \<Rightarrow> 'o mnslp_msg" where
  "configure_set_msg_sequence_number v m = msg_set_object m (new_msg_sequence_number v)"

definition configure_get_msg_sequence_number :: "'o mnslp_msg \<Rightarrow> u32" where
  "configure_get_msg_sequence_number m = value_or_0 as_msg_sequence_number ot_msg_sequence_number m"

definition configure_set_selection_metering_entities :: "u32 \<Rightarrow> 'o mnslp_msg \<Rightarrow> 'o mnslp_msg" where
  "configure_set_selection_metering_entities v m = msg_set_object m (new_selection_metering_entities v)"

definition configure_get_selection_metering_entities :: "'o mnslp_msg \<Rightarrow> u32" where
  "configure_get_selection_metering_entities m =
     value_or_0 as_selection_metering_entities ot_selection_met_entities m"

definition configure_set_message_hop_count :: "u32 \<Rightarrow> 'o mnslp_msg \<Rightarrow> 'o mnslp_msg" where
  "configure_set_message_hop_count v m = msg_set_object m (new_message_hop_count v)"

definition configure_get_message_hop_count :: "'o mnslp_msg \<Rightarrow> u32" where
  "configure_get_message_hop_count m = value_or_0 as_message_hop_count ot_message_hop_count m"

definition configure_set_mspec_object :: "'o mspec_object \<Rightarrow> 'o mnslp_msg \<Rightarrow> 'o mnslp_msg" where
  "configure_set_mspec_object ob m = msg_set_object m (Mspec_Object ob)"

text \<open>
  Every object that is not one of the four header objects is cast to a metering object and
  copied; \<open>None\<close>: the cast gave NULL and the call \<open>obj->copy()\<close> dereferences it.
\<close>

fun collect_mspec :: "'o mnslp_object ie_store \<Rightarrow> 'o mspec_object list option" where
  "collect_mspec [] = Some []"
| "collect_mspec ((k, ob) # s) =
     (if k_object_type k \<noteq> ucast ot_message_hop_count \<and>
         k_object_type k \<noteq> ucast ot_selection_met_entities \<and>
         k_object_type k \<noteq> ucast ot_msg_sequence_number \<and>
         k_object_type k \<noteq> ucast ot_session_lifetime
      then (case as_mspec_object ob of
              None \<Rightarrow> None
            | Some m \<Rightarrow> map_option ((#) m) (collect_mspec s))
      else collect_mspec s)"

definition configure_get_mspec_objects :: "'o mnslp_msg \<Rightarrow> 'o mspec_object list option" where
  "configure_get_mspec_objects m = collect_mspec (m_objects m)"

section \<open>Refresh\<close>

definition refresh_check :: "'o mnslp_msg \<Rightarrow> bool" where
  "refresh_check m =
     (if msg_get_num_objects m \<noteq> 2 then False
      else if msg_get_object m msn_key = None then False
      else if msg_get_object m (obj_key ot_session_lifetime 1) = None then False
      else True)"

definition refresh_set_session_lifetime :: "u32 \<Rightarrow> 'o mnslp_msg \<Rightarrow> 'o mnslp_msg" where
  "refresh_set_session_lifetime v m = msg_set_object m (new_session_lifetime v)"

definition refresh_get_session_lifetime :: "'o mnslp_msg \<Rightarrow> u32" where
  "refresh_get_session_lifetime m = value_or_0 as_session_lifetime ot_session_lifetime m"

definition refresh_set_msg_sequence_number :: "u32 \<Rightarrow> 'o mnslp_msg \<Rightarrow> 'o mnslp_msg" where
  "refresh_set_msg_sequence_number v m = msg_set_object m (new_msg_sequence_number v)"

definition refresh_get_msg_sequence_number :: "'o mnslp_msg \<Rightarrow> u32" where
  "refresh_get_msg_sequence_number m = value_or_0 as_msg_sequence_number ot_msg_sequence_number m"

section \<open>Response\<close>

definition response_check :: "'o mnslp_msg \<Rightarrow> bool" where
  "response_check m = list_all (\<lambda>(k, ob).
     \<not> (k_object_type k \<noteq> ucast ot_msg_sequence_number \<and>
        k_object_type k \<noteq> ucast ot_information_code \<and>
        k_object_type k \<noteq> ucast ot_session_lifetime \<and>
        k_object_type k \<noteq> ucast ot_mnslp_ipfix_message)) (m_objects m)"

definition response_set_session_lifetime :: "u32 \<Rightarrow> 'o mnslp_msg \<Rightarrow> 'o mnslp_msg" where
  "response_set_session_lifetime v m = msg_set_object m (new_session_lifetime v)"

definition response_get_session_lifetime :: "'o mnslp_msg \<Rightarrow> u32" where
  "response_get_session_lifetime m = value_or_0 as_session_lifetime ot_session_lifetime m"

definition response_set_msg_sequence_number :: "u32 \<Rightarrow> 'o mnslp_msg \<Rightarrow> 'o mnslp_msg" where
  "response_set_msg_sequence_number v m = msg_set_object m (new_msg_sequence_number v)"

definition response_set_information_code :: "u8 \<Rightarrow> u8 \<Rightarrow> u16 \<Rightarrow> 'o mnslp_msg \<Rightarrow> 'o mnslp_msg" where
  "response_set_information_code severity code obj_type m =
     msg_set_object m (new_information_code severity code obj_type)"

definition ic_value :: "(obj_hdr \<times> info_code \<Rightarrow> ('w::len) word) \<Rightarrow> 'o mnslp_object \<Rightarrow> 'w word option" where
  "ic_value f ob = map_option f (as_information_code ob)"

text \<open>\<open>get_object_type\<close> reads the type of the header, not the one of the body.\<close>

definition response_get_object_type :: "'o mnslp_msg \<Rightarrow> u16" where
  "response_get_object_type m = value_or_0 (ic_value (oh_object_type \<circ> fst)) ot_information_code m"

definition response_get_severity_class :: "'o mnslp_msg \<Rightarrow> u8" where
  "response_get_severity_class m = value_or_0 (ic_value (ic_severity_class \<circ> snd)) ot_information_code m"

definition response_get_response_code :: "'o mnslp_msg \<Rightarrow> u8" where
  "response_get_response_code m = value_or_0 (ic_value (ic_response_code \<circ> snd)) ot_information_code m"

definition response_get_response_object_type :: "'o mnslp_msg \<Rightarrow> u16" where
  "response_get_response_object_type m =
     value_or_0 (ic_value (ic_response_object_type \<circ> snd)) ot_information_code m"

definition response_get_msg_sequence_number :: "'o mnslp_msg \<Rightarrow> u32" where
  "response_get_msg_sequence_number m = value_or_0 as_msg_sequence_number ot_msg_sequence_number m"

definition response_is_success :: "'o mnslp_msg \<Rightarrow> bool" where
  "response_is_success m =
     (case Option.bind (msg_get_object m (obj_key ot_information_code 1)) as_information_code of
        None \<Rightarrow> False
      | Some (h, ic) \<Rightarrow> ic_is_success ic)"

definition is_response_to_configure :: "'o mnslp_msg \<Rightarrow> 'o mnslp_msg \<Rightarrow> bool" where
  "is_response_to_configure resp c \<longleftrightarrow>
     response_get_msg_sequence_number resp = configure_get_msg_sequence_number c"

definition is_response_to_refresh :: "'o mnslp_msg \<Rightarrow> 'o mnslp_msg \<Rightarrow> bool" where
  "is_response_to_refresh resp c \<longleftrightarrow>
     response_get_msg_sequence_number resp = refresh_get_msg_sequence_number c"

definition response_set_ipfix_message :: "'o mspec_object \<Rightarrow> 'o mnslp_msg \<Rightarrow> 'o mnslp_msg" where
  "response_set_ipfix_message ob m = msg_set_object m (Mspec_Object ob)"

section \<open>Notify and Options\<close>

definition notify_check :: "'o mnslp_msg \<Rightarrow> bool" where
  "notify_check m =
     (if msg_get_object m (obj_key ot_information_code 1) = None then False
      else if msg_get_num_objects m \<noteq> 1 then False else True)"

definition notify_set_information_code :: "u8 \<Rightarrow> u8 \<Rightarrow> u16 \<Rightarrow> 'o mnslp_msg \<Rightarrow> 'o mnslp_msg" where
  "notify_set_information_code severity code obj_type m =
     msg_set_object m (new_information_code severity code obj_type)"

definition notify_get_object_type :: "'o mnslp_msg \<Rightarrow> u16" where
  "notify_get_object_type m = value_or_0 (ic_value (oh_object_type \<circ> fst)) ot_information_code m"

definition notify_get_severity_class :: "'o mnslp_msg \<Rightarrow> u8" where
  "notify_get_severity_class m = value_or_0 (ic_value (ic_severity_class \<circ> snd)) ot_information_code m"

definition notify_get_response_code :: "'o mnslp_msg \<Rightarrow> u8" where
  "notify_get_response_code m = value_or_0 (ic_value (ic_response_code \<circ> snd)) ot_information_code m"

definition notify_get_response_object_type :: "'o mnslp_msg \<Rightarrow> u16" where
  "notify_get_response_object_type m =
     value_or_0 (ic_value (ic_response_object_type \<circ> snd)) ot_information_code m"

definition options_check :: "'o mnslp_msg \<Rightarrow> bool" where
  "options_check m =
     (if msg_get_num_objects m \<noteq> 1 then False
      else if msg_get_object m msn_key = None then False else True)"

definition options_set_msg_sequence_number :: "u32 \<Rightarrow> 'o mnslp_msg \<Rightarrow> 'o mnslp_msg" where
  "options_set_msg_sequence_number v m = msg_set_object m (new_msg_sequence_number v)"

definition options_get_msg_sequence_number :: "'o mnslp_msg \<Rightarrow> u32" where
  "options_get_msg_sequence_number m = value_or_0 as_msg_sequence_number ot_msg_sequence_number m"

text \<open>The virtual \<open>get_msg_sequence_number\<close>: Notify inherits the asserting version.\<close>

fun get_msg_sequence_number_of :: "mclass \<Rightarrow> 'o mnslp_msg \<Rightarrow> u32 option" where
  "get_msg_sequence_number_of Mnslp_Configure m = Some (configure_get_msg_sequence_number m)"
| "get_msg_sequence_number_of Mnslp_Response m = Some (response_get_msg_sequence_number m)"
| "get_msg_sequence_number_of Mnslp_Notify m = base_get_msg_sequence_number m"
| "get_msg_sequence_number_of Mnslp_Options m = Some (options_get_msg_sequence_number m)"
| "get_msg_sequence_number_of Mnslp_Refresh m = Some (refresh_get_msg_sequence_number m)"

definition get_msg_sequence_number :: "'o mnslp_msg \<Rightarrow> u32 option" where
  "get_msg_sequence_number m = get_msg_sequence_number_of (m_class m) m"

text \<open>The virtual \<open>check\<close>, overridden by every subclass.\<close>

fun msg_check_of :: "mclass \<Rightarrow> 'o mnslp_msg \<Rightarrow> bool" where
  "msg_check_of Mnslp_Configure m = configure_check m"
| "msg_check_of Mnslp_Response m = response_check m"
| "msg_check_of Mnslp_Notify m = notify_check m"
| "msg_check_of Mnslp_Options m = options_check m"
| "msg_check_of Mnslp_Refresh m = refresh_check m"

definition msg_check :: "'o mnslp_msg \<Rightarrow> bool" where
  "msg_check m = msg_check_of (m_class m) m"

section \<open>Well-formed messages\<close>

text \<open>
  The objects the code creates: the type in the header is the one of the class, only metering
  objects occur more than once. A message is well-formed when its objects are of this kind
  and stored under a key of their own type.
\<close>

fun std_object :: "'o mnslp_object \<Rightarrow> bool" where
  "std_object (Session_Lifetime h _) \<longleftrightarrow> oh_object_type h = ot_session_lifetime \<and> oh_unique h"
| "std_object (Msg_Sequence_Number h _) \<longleftrightarrow> oh_object_type h = ot_msg_sequence_number \<and> oh_unique h"
| "std_object (Message_Hop_Count h _) \<longleftrightarrow> oh_object_type h = ot_message_hop_count \<and> oh_unique h"
| "std_object (Selection_Metering_Entities h _) \<longleftrightarrow>
     oh_object_type h = ot_selection_met_entities \<and> oh_unique h"
| "std_object (Information_Code h _) \<longleftrightarrow> oh_object_type h = ot_information_code \<and> oh_unique h"
| "std_object (Mspec_Object m) \<longleftrightarrow>
     oh_object_type (ms_hdr m) = ot_mnslp_ipfix_message \<and> \<not> oh_unique (ms_hdr m)"

definition msg_wf :: "'o mnslp_msg \<Rightarrow> bool" where
  "msg_wf m \<longleftrightarrow> store_wf (m_objects m) \<and> keys_reserved (m_objects m) \<and>
     (\<forall>(k, ob) \<in> set (m_objects m). std_object ob \<and> k_object_type k = ucast (get_object_type ob))"

lemma std_new_objects [store_simps]:
  "std_object (new_session_lifetime v)" "is_unique (new_session_lifetime v)"
  "std_object (new_msg_sequence_number v)" "is_unique (new_msg_sequence_number v)"
  "std_object (new_message_hop_count v)" "is_unique (new_message_hop_count v)"
  "std_object (new_selection_metering_entities v)" "is_unique (new_selection_metering_entities v)"
  "std_object (new_information_code a b c)" "is_unique (new_information_code a b c)"
  by (simp_all add: new_object_defs is_unique_def)

lemma new_object_types [store_simps]:
  "get_object_type (new_session_lifetime v) = ot_session_lifetime"
  "get_object_type (new_msg_sequence_number v) = ot_msg_sequence_number"
  "get_object_type (new_message_hop_count v) = ot_message_hop_count"
  "get_object_type (new_selection_metering_entities v) = ot_selection_met_entities"
  "get_object_type (new_information_code a b c) = ot_information_code"
  by (simp_all add: new_object_defs get_object_type_def)

lemma cast_new_objects [store_simps]:
  "as_session_lifetime (new_session_lifetime v) = Some v"
  "as_msg_sequence_number (new_msg_sequence_number v) = Some v"
  "as_message_hop_count (new_message_hop_count v) = Some v"
  "as_selection_metering_entities (new_selection_metering_entities v) = Some v"
  by (simp_all add: new_object_defs)

lemma std_object_type:
  assumes "std_object ob"
  shows "is_unique ob \<Longrightarrow> get_object_type ob \<in> {ot_session_lifetime, ot_msg_sequence_number,
      ot_message_hop_count, ot_selection_met_entities, ot_information_code}"
    and "\<not> is_unique ob \<Longrightarrow> get_object_type ob = ot_mnslp_ipfix_message"
  using assms by (cases ob; simp add: is_unique_def get_object_type_def)+

lemma reserved_obj_key [store_simps]:
  "reserved_key (obj_key ot_session_lifetime 1)"
  "reserved_key (obj_key ot_msg_sequence_number 1)"
  "reserved_key (obj_key ot_message_hop_count 1)"
  "reserved_key (obj_key ot_selection_met_entities 1)"
  "reserved_key (obj_key ot_information_code 1)"
  by (simp_all add: reserved_key_def obj_key_def ot_defs)

lemma reserved_std_unique:
  assumes "std_object ob" and "is_unique ob"
  shows "reserved_key (obj_key (get_object_type ob) 1)"
  using std_object_type(1) [OF assms] by (auto simp: store_simps)

lemma reserved_ipfix:
  assumes "1 \<le> unat n" and "unat n < 2 ^ 32 - 0xF9"
  shows "reserved_key (obj_key ot_mnslp_ipfix_message n)"
  using assms by (simp add: reserved_key_def obj_key_def ot_defs)

lemma msg_wf_new [store_simps]: "msg_wf (new_msg c)"
  by (simp add: msg_wf_def new_msg_def store_simps) (simp add: ie_store_empty_def)

lemma msg_class_set [store_simps]:
  "m_class (msg_set_object m ob) = m_class m" "m_class (new_msg c) = c"
  "m_msg_type (msg_set_object m ob) = m_msg_type m" "m_msg_type (new_msg c) = class_msg_type c"
  by (simp_all add: msg_set_object_def new_msg_def Let_def)

lemma set_ie_store_set:
  assumes "store_wf s" and "keys_reserved s" and "reserved_key k"
  shows "set (ie_store_set s k (Some v)) \<subseteq> insert (k, v) (set s)"
proof
  fix p
  assume p: "p \<in> set (ie_store_set s k (Some v))"
  obtain j w where jw: "p = (j, w)" by (cases p)
  have wf: "store_wf (ie_store_set s k (Some v))" using assms(1) by (rule store_wf_set)
  have rj: "reserved_key j"
    using keys_reserved_set [OF assms(2,3), of v] p jw by (auto simp: keys_reserved_def)
  from in_store_get [OF wf, of j w] p jw
  have "ie_store_get (ie_store_set s k (Some v)) j = Some w" by simp
  then have "j = k \<and> w = v \<or> ie_store_get s j = Some w"
    using store_get_set [OF assms(1) rj assms(3)] by (simp split: if_splits)
  with jw show "p \<in> insert (k, v) (set s)"
    using store_find_key [OF assms(2) rj, of w] by auto
qed

lemma msg_wf_store_set:
  assumes "msg_wf m" and "std_object ob" and "reserved_key k"
    and "k_object_type k = ucast (get_object_type ob)"
  shows "msg_wf (m\<lparr>m_objects := ie_store_set (m_objects m) k (Some ob)\<rparr>)"
proof -
  have wf: "store_wf (m_objects m)" "keys_reserved (m_objects m)"
    and ty: "\<forall>(k, ob) \<in> set (m_objects m). std_object ob \<and> k_object_type k = ucast (get_object_type ob)"
    using assms(1) by (simp_all add: msg_wf_def)
  let ?s = "ie_store_set (m_objects m) k (Some ob)"
  have "set ?s \<subseteq> insert (k, ob) (set (m_objects m))"
    using wf assms(3) by (rule set_ie_store_set)
  with ty assms(2,4)
  have "\<forall>(k, ob) \<in> set ?s. std_object ob \<and> k_object_type k = ucast (get_object_type ob)"
    by blast
  moreover have "store_wf ?s" using wf(1) by (rule store_wf_set)
  moreover have "keys_reserved ?s" using wf(2) assms(3) by (rule keys_reserved_set)
  ultimately show ?thesis by (simp add: msg_wf_def)
qed

lemma msg_wf_set_unique [store_simps]:
  assumes "msg_wf m" and "std_object ob" and "is_unique ob"
  shows "msg_wf (msg_set_object m ob)"
  using msg_wf_store_set [OF assms(1,2) reserved_std_unique [OF assms(2,3)]] assms(3)
  by (simp add: msg_set_object_def obj_key_def)

text \<open>A header object that was set is found again, the others are untouched.\<close>

lemma msg_get_set_unique:
  assumes "msg_wf m" and "std_object ob" and "is_unique ob" and "reserved_key (obj_key t 1)"
  shows "msg_get_object (msg_set_object m ob) (obj_key t 1) =
    (if t = get_object_type ob then Some ob else msg_get_object m (obj_key t 1))"
proof -
  have "store_wf (m_objects m)" using assms(1) by (simp add: msg_wf_def)
  from store_get_set [OF this assms(4) reserved_std_unique [OF assms(2,3)], of ob] assms(3)
  show ?thesis by (auto simp: msg_set_object_def msg_get_object_def)
qed

lemma msg_get_new [store_simps]: "msg_get_object (new_msg c) k = None"
  by (simp add: msg_get_object_def new_msg_def store_simps)

lemma msg_copy_id:
  assumes "msg_wf m"
  shows "msg_copy m = m"
  using assms by (simp add: msg_copy_def ie_store_copy_id msg_wf_def)

lemma msg_copy_class [store_simps]:
  "m_class (msg_copy m) = m_class m" "m_msg_type (msg_copy m) = m_msg_type m"
  by (simp_all add: msg_copy_def)

section \<open>Metering objects keep their order\<close>

definition header_only :: "'o mnslp_msg \<Rightarrow> bool" where
  "header_only m \<longleftrightarrow> msg_wf m \<and> (\<forall>(k, ob) \<in> set (m_objects m).
     k_object_type k \<noteq> ucast ot_information_code \<and> k_object_type k \<noteq> ucast ot_mnslp_ipfix_message)"

fun numbered :: "u32 \<Rightarrow> 'o mspec_object list \<Rightarrow> 'o mnslp_object ie_store" where
  "numbered n [] = []"
| "numbered n (ob # obs) = (obj_key ot_mnslp_ipfix_message n, Mspec_Object ob) # numbered (n + 1) obs"

lemma numbered_snoc:
  "numbered n (obs @ [ob]) =
     numbered n obs @ [(obj_key ot_mnslp_ipfix_message (n + of_nat (length obs)), Mspec_Object ob)]"
  by (induction obs arbitrary: n) (simp_all add: add.assoc add.commute)

lemma get_max_sequence_snoc:
  "get_max_sequence (s @ [(k, v)]) t =
     (if k_object_type k = t \<and> get_max_sequence s t \<le> k_seq_nbr k then k_seq_nbr k
      else get_max_sequence s t)"
  by (simp add: get_max_sequence_def)

lemma get_max_sequence_absent:
  assumes "\<forall>(k, v) \<in> set s. k_object_type k \<noteq> t"
  shows "get_max_sequence s t = 0"
proof -
  have "{k \<in> fst ` set s. k_object_type k = t} = {}" using assms by auto
  then show ?thesis by (simp only: get_max_sequence_Max) simp
qed

lemma collect_mspec_append:
  "collect_mspec (s @ t) =
     (case collect_mspec s of None \<Rightarrow> None
      | Some xs \<Rightarrow> map_option ((@) xs) (collect_mspec t))"
proof (induction s)
  case Nil
  then show ?case by (cases "collect_mspec t") simp_all
next
  case (Cons p s)
  then show ?case
    by (cases p; cases "collect_mspec t") (auto split: option.splits)
qed

lemma collect_mspec_numbered: "collect_mspec (numbered n obs) = Some obs"
  by (induction obs arbitrary: n) (simp_all add: obj_key_def ot_defs)

lemma collect_mspec_header:
  assumes "\<forall>(k, ob) \<in> set s. reserved_key k \<and> k_object_type k \<noteq> ucast ot_information_code \<and>
    k_object_type k \<noteq> ucast ot_mnslp_ipfix_message"
  shows "collect_mspec s = Some []"
  using assms by (induction s) (auto simp: reserved_key_def ot_defs)

lemma unat_of_nat_u32: "n < 2 ^ 32 \<Longrightarrow> unat (of_nat n :: u32) = n"
  by (simp add: unsigned_of_nat take_bit_nat_eq_self)

text \<open>
  What the loop \<open>set_mspec_object\<close> over a list leaves in a message that held header objects
  only: the metering objects, numbered from 1, behind the header objects.
\<close>

lemma set_mspec_objects:
  assumes h: "header_only m" and n: "length obs < 2 ^ 32 - 0xF9 - 1"
    and std: "\<forall>ob \<in> set obs. std_object (Mspec_Object ob)"
  shows "fold configure_set_mspec_object obs m = m\<lparr>m_objects := m_objects m @ numbered 1 obs\<rparr> \<and>
    msg_wf (fold configure_set_mspec_object obs m) \<and>
    get_max_sequence (m_objects m @ numbered 1 obs) (ucast ot_mnslp_ipfix_message) = of_nat (length obs)"
  using n std
proof (induction obs rule: rev_induct)
  case Nil
  have "get_max_sequence (m_objects m) (ucast ot_mnslp_ipfix_message) = 0"
    using h by (intro get_max_sequence_absent) (auto simp: header_only_def)
  with h show ?case by (simp add: header_only_def)
next
  case (snoc ob obs)
  let ?s = "m_objects m @ numbered 1 obs" and ?n = "1 + of_nat (length obs) :: u32"
  let ?k = "obj_key ot_mnslp_ipfix_message ?n"
  from snoc have IH: "fold configure_set_mspec_object obs m = m\<lparr>m_objects := ?s\<rparr>"
    "msg_wf (m\<lparr>m_objects := ?s\<rparr>)"
    "get_max_sequence ?s (ucast ot_mnslp_ipfix_message) = of_nat (length obs)"
    and std: "std_object (Mspec_Object ob)" by auto
  have un: "unat ?n = Suc (length obs)" using snoc.prems(1)
    by (simp add: unat_word_ariths unat_of_nat)
  have le: "(of_nat (length obs) :: u32) \<le> ?n"
    using un snoc.prems(1) by (simp add: word_le_nat_alt unat_of_nat_u32)
  have rk: "reserved_key ?k"
    using snoc.prems(1) un by (intro reserved_ipfix) simp_all
  have below: "ie_object_key_less j ?k" if jw: "(j, w) \<in> set ?s" for j w
  proof -
    have rj: "reserved_key j" using IH(2) jw by (auto simp: msg_wf_def keys_reserved_def)
    have "unat (k_object_type j + k_seq_nbr j) < unat (k_object_type ?k + k_seq_nbr ?k)"
    proof (cases "k_object_type j = 0xF9")
      case True
      then have "k_seq_nbr j \<le> of_nat (length obs)"
        using get_max_sequence_ge [OF jw, of "ucast ot_mnslp_ipfix_message"] IH(3) by (simp add: ot_defs)
      then have "unat (k_seq_nbr j) \<le> length obs"
        using snoc.prems(1) by (simp add: word_le_nat_alt unat_of_nat_u32)
      with True reserved_sum [OF rj] reserved_sum [OF rk] un show ?thesis
        by (simp add: obj_key_def ot_defs)
    next
      case False
      with reserved_sum [OF rj] reserved_sum [OF rk] reserved_type_le [OF rj] un show ?thesis
        by (simp add: obj_key_def ot_defs)
    qed
    then show ?thesis by (simp add: ie_object_key_less_def word_less_nat_alt)
  qed
  have set: "ie_store_set ?s ?k (Some (Mspec_Object ob)) = ?s @ [(?k, Mspec_Object ob)]"
    using below unfolding ie_store_set_def by (simp only: option.case) (rule ok.set_above, auto)
  have ty: "\<not> is_unique (Mspec_Object ob)" "get_object_type (Mspec_Object ob) = ot_mnslp_ipfix_message"
    using std by (simp_all add: is_unique_def get_object_type_def)
  have step: "configure_set_mspec_object ob (m\<lparr>m_objects := ?s\<rparr>) =
      m\<lparr>m_objects := ?s @ [(?k, Mspec_Object ob)]\<rparr>"
    using set by (simp add: configure_set_mspec_object_def msg_set_object_def ty IH(3) add.commute)
  have "msg_wf (m\<lparr>m_objects := ?s @ [(?k, Mspec_Object ob)]\<rparr>)"
    using msg_wf_store_set [OF IH(2) std rk] set ty by (simp add: obj_key_def)
  moreover have "get_max_sequence (?s @ [(?k, Mspec_Object ob)]) (ucast ot_mnslp_ipfix_message) = ?n"
    using IH(3) le by (subst get_max_sequence_snoc) (simp add: obj_key_def)
  ultimately show ?case
    using IH(1) step by (simp add: numbered_snoc add.commute)
qed

lemma get_set_mspec_objects:
  assumes "header_only m" and "length obs < 2 ^ 32 - 0xF9 - 1"
    and "\<forall>ob \<in> set obs. std_object (Mspec_Object ob)"
  shows "configure_get_mspec_objects (fold configure_set_mspec_object obs m) = Some obs"
proof -
  have "collect_mspec (m_objects m) = Some []"
    using assms(1) by (intro collect_mspec_header) (auto simp: header_only_def msg_wf_def keys_reserved_def)
  then show ?thesis
    using set_mspec_objects [OF assms]
    by (simp add: configure_get_mspec_objects_def collect_mspec_append collect_mspec_numbered)
qed

section \<open>Reading what was set\<close>

lemma value_or_0_set:
  assumes "msg_wf m" and "std_object ob" and "is_unique ob" and "reserved_key (obj_key t 1)"
  shows "value_or_0 cast t (msg_set_object m ob) =
    (if t = get_object_type ob then (case cast ob of None \<Rightarrow> 0 | Some v \<Rightarrow> v) else value_or_0 cast t m)"
  using msg_get_set_unique [OF assms] by (simp add: value_or_0_def)

lemma value_or_0_new [store_simps]: "value_or_0 cast t (new_msg c) = 0"
  by (simp add: value_or_0_def store_simps)

lemma smap_find_append:
  "smap_find lt k (s @ t) = (case smap_find lt k s of None \<Rightarrow> smap_find lt k t | Some v \<Rightarrow> Some v)"
  by (induction s) auto

lemma get_after_mspec:
  assumes "header_only m" and "length obs < 2 ^ 32 - 0xF9 - 1"
    and "\<forall>ob \<in> set obs. std_object (Mspec_Object ob)"
    and t: "reserved_key (obj_key t 1)" "t \<noteq> ot_mnslp_ipfix_message"
  shows "msg_get_object (fold configure_set_mspec_object obs m) (obj_key t 1) =
    msg_get_object m (obj_key t 1)"
proof -
  let ?m = "fold configure_set_mspec_object obs m"
  note r = set_mspec_objects [OF assms(1-3)]
  have ks: "keys_reserved (numbered 1 obs)"
    using r by (auto simp: msg_wf_def keys_reserved_def)
  have ty: "k_object_type k = ucast ot_mnslp_ipfix_message" if "(k, v) \<in> set (numbered n os)" for k v n os
    using that by (induction os arbitrary: n) (auto simp: obj_key_def)
  have "ie_store_get (numbered 1 obs) (obj_key t 1) = None"
  proof (rule ccontr)
    assume "ie_store_get (numbered 1 obs) (obj_key t 1) \<noteq> None"
    then obtain v where "ie_store_get (numbered 1 obs) (obj_key t 1) = Some v" by blast
    then have "(obj_key t 1, v) \<in> set (numbered 1 obs)" by (rule store_find_key [OF ks t(1)])
    then have "(ucast t :: u32) = ucast ot_mnslp_ipfix_message" using ty by (fastforce simp: obj_key_def)
    then show False using t(2) by simp
  qed
  with r show ?thesis
    by (simp add: msg_get_object_def ie_store_get_def smap_find_append split: option.splits)
qed

end
