(* ===== verification/Ntlp_Msg.thy ===== *)
theory Ntlp_Msg
  imports Mnslp_Msg
begin

text \<open>
  The envelope of a message on its way from or to the NTLP (src/msg/ntlp_msg.cpp), the
  exceptions of include/session.h and include/policy_rule_installer.h, and the comparison of
  message sequence numbers.
\<close>

text \<open>A 128-bit session ID, four words as in protlib's \<open>uint128\<close>\<close>

datatype sid = Session_Id u32 u32 u32 u32

datatype exc =
    Request_Error string u8 u8
  | Policy_Rule_Installer_Error string u8 u8
  | Override_Lifetime string u8 u8

text \<open>\<open>catch (request_error \<^bold>& e)\<close> also catches the derived installer error.\<close>

fun as_request_error :: "exc \<Rightarrow> (u8 \<times> u8) option" where
  "as_request_error (Request_Error _ s c) = Some (s, c)"
| "as_request_error (Policy_Rule_Installer_Error _ s c) = Some (s, c)"
| "as_request_error (Override_Lifetime _ _ _) = None"

text \<open>
  What the code needs of the NTLP's MRI class hierarchy: the constructor and the getters of
  a path-coupled MRI, the test for that class and the inversion of the direction.
\<close>

record 'h mri_fields =
  f_sourceaddress :: 'h
  f_sourceprefix :: u8
  f_sourceport :: u16
  f_destaddress :: 'h
  f_destprefix :: u8
  f_destport :: u16
  f_protocol :: u8
  f_flowlabel :: u16
  f_ds_field :: u16
  f_spi :: u32
  f_downstream :: bool

record ('h, 'r) mri_ops =
  mri_new_pathcoupled :: "'h mri_fields \<Rightarrow> 'r"
  mri_is_pathcoupled :: "'r \<Rightarrow> bool"
  mri_pc_fields :: "'r \<Rightarrow> 'h mri_fields"
  mri_invert_direction :: "'r \<Rightarrow> 'r"

record ('o, 'r) ntlp_msg =
  nm_sid :: sid
  nm_body :: "'o mnslp_msg option"
  nm_mri :: 'r
  nm_sii_handle :: u32

text \<open>\<open>None\<close>: the copied body is NULL and is dereferenced.\<close>

definition ntlp_copy :: "('o, 'r) ntlp_msg \<Rightarrow> ('o, 'r) ntlp_msg option" where
  "ntlp_copy m = map_option (\<lambda>b. m\<lparr>nm_body := Some (msg_copy b)\<rparr>) (nm_body m)"

definition copy_for_forwarding :: "'r option \<Rightarrow> ('o, 'r) ntlp_msg \<Rightarrow> ('o, 'r) ntlp_msg option" where
  "copy_for_forwarding new_mri m =
     map_option (\<lambda>b. m\<lparr>nm_body := Some (msg_copy b),
        nm_mri := (case new_mri of None \<Rightarrow> nm_mri m | Some r \<Rightarrow> r), nm_sii_handle := 0\<rparr>) (nm_body m)"

definition response_body :: "'o mnslp_msg option \<Rightarrow> u8 \<Rightarrow> u8 \<Rightarrow> 'o mnslp_msg" where
  "response_body msg severity code =
     (let resp = response_set_information_code severity code 0 (new_msg Mnslp_Response)
      in case msg of
           None \<Rightarrow> resp
         | Some b \<Rightarrow>
             if has_msg_sequence_number b
             then (case get_msg_sequence_number b of
                     Some msn \<Rightarrow> response_set_msg_sequence_number msn resp
                   | None \<Rightarrow> resp)
             else resp)"

definition create_response :: "('h, 'r) mri_ops \<Rightarrow> ('o, 'r) ntlp_msg \<Rightarrow> u8 \<Rightarrow> u8 \<Rightarrow> ('o, 'r) ntlp_msg" where
  "create_response M m severity code =
     \<lparr>nm_sid = nm_sid m, nm_body = Some (response_body (nm_body m) severity code),
      nm_mri = mri_invert_direction M (nm_mri m), nm_sii_handle = 0\<rparr>"

text \<open>The error is given by its severity and its code.\<close>

fun create_error_response :: "('h, 'r) mri_ops \<Rightarrow> ('o, 'r) ntlp_msg \<Rightarrow> u8 \<times> u8 \<Rightarrow> ('o, 'r) ntlp_msg" where
  "create_error_response M m (severity, code) = create_response M m severity code"

definition create_success_response :: "('h, 'r) mri_ops \<Rightarrow> ('o, 'r) ntlp_msg \<Rightarrow> u32 \<Rightarrow> ('o, 'r) ntlp_msg" where
  "create_success_response M m lifetime =
     (let r = create_response M m sc_success suc_successfully_processed
      in r\<lparr>nm_body := map_option (response_set_session_lifetime lifetime) (nm_body r)\<rparr>)"

text \<open>\<open>dynamic_cast\<close> of the body to one of the message classes\<close>

definition body_of_class :: "mclass \<Rightarrow> ('o, 'r) ntlp_msg \<Rightarrow> 'o mnslp_msg option" where
  "body_of_class c m =
     (case nm_body m of None \<Rightarrow> None | Some b \<Rightarrow> if m_class b = c then Some b else None)"

definition is_greater_than :: "u32 \<Rightarrow> u32 \<Rightarrow> bool" where
  "is_greater_than s1 s2 \<longleftrightarrow>
     (let LIMIT = 2147483648
      in s1 \<noteq> s2 \<and> ((s1 < s2 \<and> s2 - s1 > LIMIT) \<or> (s1 > s2 \<and> s1 - s2 < LIMIT)))"

section \<open>Sequence numbers\<close>

text \<open>
  The order of RFC 1982: the first number is greater when it is ahead by less than half of
  the number space, counted modulo $2^{32}$.
\<close>

lemma is_greater_than_iff:
  "is_greater_than s1 s2 \<longleftrightarrow> 0 < unat (s1 - s2) \<and> unat (s1 - s2) < 2 ^ 31"
proof (cases "s1 < s2")
  case True
  then have "unat s1 < unat s2" by (simp add: word_less_nat_alt)
  moreover have "unat (s2 - s1) = unat s2 - unat s1"
    using True by (intro unat_sub_if_le) simp
  moreover have "unat (s1 - s2) = 2 ^ 32 - (unat s2 - unat s1)"
    using True by (subst unat_sub_if_size) (auto simp: word_size word_less_nat_alt word_le_nat_alt)
  moreover have "unat s2 < 2 ^ 32" using unsigned_less [of s2] by simp
  ultimately show ?thesis
    using True by (auto simp: is_greater_than_def word_less_nat_alt)
next
  case False
  then have "s2 \<le> s1" by simp
  then have "unat (s1 - s2) = unat s1 - unat s2" by (rule unat_sub_if_le)
  with False show ?thesis
    by (auto simp: is_greater_than_def word_less_nat_alt word_unat_eq_iff)
qed

lemma is_greater_than_asym: "is_greater_than a b \<Longrightarrow> \<not> is_greater_than b a"
  by (auto simp: is_greater_than_def Let_def)

lemma is_greater_than_next:
  assumes "0 < k" and "k < 2 ^ 31"
  shows "is_greater_than (s + of_nat k) s"
  using assms by (simp add: is_greater_than_iff unat_of_nat_u32)

section \<open>Responses\<close>

lemma response_body_wf: "msg_wf (response_body msg s c)"
  by (simp add: response_body_def Let_def response_set_information_code_def
      response_set_msg_sequence_number_def store_simps split: option.split)

lemma response_body_class [store_simps]: "m_class (response_body msg s c) = Mnslp_Response"
  by (simp add: response_body_def Let_def response_set_information_code_def
      response_set_msg_sequence_number_def store_simps split: option.split)

lemma get_msn_if_has:
  assumes "has_msg_sequence_number b" and "m_class b \<noteq> Mnslp_Notify"
  obtains msn where "get_msg_sequence_number b = Some msn"
    and "value_or_0 as_msg_sequence_number ot_msg_sequence_number b = msn"
  using assms
  by (cases "m_class b")
    (auto simp: get_msg_sequence_number_def configure_get_msg_sequence_number_def
      response_get_msg_sequence_number_def options_get_msg_sequence_number_def
      refresh_get_msg_sequence_number_def)

text \<open>The response carries the severity and the code it was made with.\<close>

lemma response_body_information:
  fixes msg :: "'o mnslp_msg option"
  shows "msg_get_object (response_body msg s c) (obj_key ot_information_code 1) =
     Some (new_information_code s c 0)"
proof -
  have ic: "msg_get_object (response_set_information_code s c 0 (new_msg Mnslp_Response :: 'o mnslp_msg))
      (obj_key ot_information_code 1) = Some (new_information_code s c 0)"
    unfolding response_set_information_code_def
    by (subst msg_get_set_unique) (simp_all add: store_simps)
  have "msg_wf (response_set_information_code s c 0 (new_msg Mnslp_Response :: 'o mnslp_msg))"
    by (simp add: response_set_information_code_def store_simps)
  then have "msg_get_object (response_set_msg_sequence_number n
        (response_set_information_code s c 0 (new_msg Mnslp_Response :: 'o mnslp_msg)))
      (obj_key ot_information_code 1) = Some (new_information_code s c 0)" for n
    unfolding response_set_msg_sequence_number_def
    using ic by (subst msg_get_set_unique) (simp_all add: store_simps ot_eqs)
  with ic show ?thesis by (simp add: response_body_def Let_def split: option.split)
qed

lemma response_body_is_success:
  "response_is_success (response_body msg s c) \<longleftrightarrow> s = sc_success \<and> c = suc_successfully_processed"
  by (simp add: response_is_success_def response_body_information new_information_code_def
      ic_is_success_def)

section \<open>Properties\<close>

text \<open>
  C27: Sequence numbers are compared as RFC 1982 asks: \<open>a\<close> is greater than \<open>b\<close> when \<open>a\<close> is ahead
  of \<open>b\<close> by 1 to $2^{31} - 1$ steps modulo $2^{32}$; so the relation is irreflexive and
  asymmetric, and every increment moves up, across the wrap-around too.
\<close>

theorem is_greater_than_rfc1982:
  "(is_greater_than a b \<longleftrightarrow> unat (a - b) \<in> {1..<2 ^ 31}) \<and> \<not> is_greater_than a a \<and>
   \<not> (is_greater_than a b \<and> is_greater_than b a) \<and> is_greater_than (a + 1) a"
proof (intro conjI)
  show "is_greater_than a b \<longleftrightarrow> unat (a - b) \<in> {1..<2 ^ 31}"
    by (auto simp: is_greater_than_iff)
  show "\<not> is_greater_than a a" by (simp add: is_greater_than_iff)
  show "\<not> (is_greater_than a b \<and> is_greater_than b a)" using is_greater_than_asym by blast
  show "is_greater_than (a + 1) a" by (simp add: is_greater_than_iff)
qed

text \<open>
  An answer carries the severity and the code it was made with and counts as success
  for exactly one pair of them; it takes over session and sequence number of the message it
  answers and travels in the inverted direction.
\<close>

theorem create_response_contents:
  "nm_sid (create_response M m s c) = nm_sid m \<and>
   nm_mri (create_response M m s c) = mri_invert_direction M (nm_mri m) \<and>
   (\<exists>r. nm_body (create_response M m s c) = Some r \<and> m_class r = Mnslp_Response \<and>
      response_get_severity_class r = s \<and> response_get_response_code r = c \<and>
      (response_is_success r \<longleftrightarrow> s = 2 \<and> c = 1))"
  by (simp add: create_response_def response_body_class response_body_is_success
      response_get_severity_class_def response_get_response_code_def value_or_0_def
      response_body_information ic_value_def new_information_code_def)

end
