(* ===== verification/Msg_Build.thy ===== *)
theory Msg_Build
  imports Ntlp_Msg
begin

text \<open>
  What the messages the sessions build contain. The sessions set the header objects one after
  the other and then append metering objects; these lemmas read the result back, for the
  CONFIGURE of initiator and forwarder, the REFRESH of both, and the responses.
\<close>

lemma header_only_new: "header_only (new_msg c)"
  by (simp add: header_only_def store_simps) (simp add: new_msg_def ie_store_empty_def)

lemma header_only_set:
  assumes "header_only m" and "std_object ob" and "is_unique ob"
    and "get_object_type ob \<noteq> ot_information_code"
  shows "header_only (msg_set_object m ob)"
proof -
  have wf: "msg_wf m" and st: "store_wf (m_objects m)" "keys_reserved (m_objects m)"
    using assms(1) by (simp_all add: header_only_def msg_wf_def)
  have ty: "get_object_type ob \<noteq> ot_mnslp_ipfix_message"
    using std_object_type(1) [OF assms(2,3)] by (auto simp: ot_defs)
  have "set (m_objects (msg_set_object m ob)) \<subseteq>
      insert (obj_key (get_object_type ob) 1, ob) (set (m_objects m))"
    using set_ie_store_set [OF st reserved_std_unique [OF assms(2,3)], of ob] assms(3)
    by (simp add: msg_set_object_def)
  moreover have "msg_wf (msg_set_object m ob)" using wf assms(2,3) by (rule msg_wf_set_unique)
  ultimately show ?thesis
    using assms(1,4) ty unfolding header_only_def by (fastforce simp: obj_key_def)
qed

abbreviation configure_header :: "u32 \<Rightarrow> u32 \<Rightarrow> u32 \<Rightarrow> u32 \<Rightarrow> 'o mnslp_msg" where
  "configure_header l msn sme hops \<equiv>
     configure_set_message_hop_count hops (configure_set_selection_metering_entities sme
       (configure_set_msg_sequence_number msn (configure_set_session_lifetime l (new_msg Mnslp_Configure))))"

lemmas configure_setters = configure_set_message_hop_count_def
  configure_set_selection_metering_entities_def configure_set_msg_sequence_number_def
  configure_set_session_lifetime_def

lemma configure_header_only: "header_only (configure_header l msn sme hops)"
  unfolding configure_setters
  by (intro header_only_set header_only_new) (simp_all add: store_simps)

lemma configure_header_values:
  "value_or_0 as_session_lifetime ot_session_lifetime (configure_header l msn sme hops) = l"
  "value_or_0 as_msg_sequence_number ot_msg_sequence_number (configure_header l msn sme hops) = msn"
  "value_or_0 as_selection_metering_entities ot_selection_met_entities (configure_header l msn sme hops) = sme"
  "value_or_0 as_message_hop_count ot_message_hop_count (configure_header l msn sme hops) = hops"
  "msg_get_object (configure_header l msn sme hops) msn_key = Some (new_msg_sequence_number msn)"
  unfolding configure_setters
  by (simp_all add: value_or_0_def msg_get_set_unique store_simps msn_key_def)

text \<open>Metering objects that a message can number and that have the type of their class\<close>

definition mspec_list_ok :: "'o mspec_object list \<Rightarrow> bool" where
  "mspec_list_ok obs \<longleftrightarrow> length obs < 2 ^ 32 - 0xF9 - 1 \<and> (\<forall>ob \<in> set obs. std_object (Mspec_Object ob))"

text \<open>A CONFIGURE message with the given contents\<close>

definition configure_with :: "u32 \<Rightarrow> u32 \<Rightarrow> u32 \<Rightarrow> u32 \<Rightarrow> 'o mspec_object list \<Rightarrow> 'o mnslp_msg \<Rightarrow> bool" where
  "configure_with l msn sme hops obs m \<longleftrightarrow> m_class m = Mnslp_Configure \<and> msg_wf m \<and>
     configure_get_session_lifetime m = l \<and> configure_get_msg_sequence_number m = msn \<and>
     configure_get_selection_metering_entities m = sme \<and> configure_get_message_hop_count m = hops \<and>
     has_msg_sequence_number m \<and> configure_get_mspec_objects m = Some obs"

lemma value_or_0_cong:
  "msg_get_object m (obj_key t 1) = msg_get_object m' (obj_key t 1) \<Longrightarrow> value_or_0 c t m = value_or_0 c t m'"
  by (simp add: value_or_0_def)

lemma configure_built:
  assumes "mspec_list_ok obs"
  shows "configure_with l msn sme hops obs (fold configure_set_mspec_object obs (configure_header l msn sme hops))"
proof -
  let ?h = "configure_header l msn sme hops :: 'a mnslp_msg"
  let ?m = "fold configure_set_mspec_object obs ?h"
  have obs: "length obs < 2 ^ 32 - 0xF9 - 1" "\<forall>ob \<in> set obs. std_object (Mspec_Object ob)"
    using assms unfolding mspec_list_ok_def by blast+
  note r = set_mspec_objects [OF configure_header_only obs]
  have "m_class ?m = Mnslp_Configure"
    using r by (simp add: configure_setters store_simps)
  moreover have "msg_wf ?m" using r by blast
  moreover have "msg_get_object ?m (obj_key t 1) = msg_get_object ?h (obj_key t 1)"
    if "reserved_key (obj_key t 1)" "t \<noteq> ot_mnslp_ipfix_message" for t
    using get_after_mspec [OF configure_header_only obs that] .
  note get = this
  have "value_or_0 c t ?m = value_or_0 c t ?h"
    if "reserved_key (obj_key t 1)" "t \<noteq> ot_mnslp_ipfix_message" for c t
    using get [OF that] by (rule value_or_0_cong)
  note val = this
  have ot: "ot_session_lifetime \<noteq> ot_mnslp_ipfix_message" "ot_msg_sequence_number \<noteq> ot_mnslp_ipfix_message"
    "ot_selection_met_entities \<noteq> ot_mnslp_ipfix_message" "ot_message_hop_count \<noteq> ot_mnslp_ipfix_message"
    by (simp_all add: ot_defs)
  have "has_msg_sequence_number ?m"
    using get [of ot_msg_sequence_number] ot
    by (simp add: has_msg_sequence_number_def msn_key_def store_simps
        configure_header_values(5) [unfolded msn_key_def])
  ultimately show ?thesis
    using get_set_mspec_objects [OF configure_header_only obs] ot
      val [of ot_session_lifetime as_session_lifetime]
      val [of ot_msg_sequence_number as_msg_sequence_number]
      val [of ot_selection_met_entities as_selection_metering_entities]
      val [of ot_message_hop_count as_message_hop_count]
    by (simp add: configure_with_def configure_get_session_lifetime_def
        configure_get_msg_sequence_number_def configure_get_selection_metering_entities_def
        configure_get_message_hop_count_def configure_header_values store_simps)
qed

text \<open>A REFRESH message with the given contents\<close>

definition refresh_with :: "u32 \<Rightarrow> u32 \<Rightarrow> 'o mnslp_msg \<Rightarrow> bool" where
  "refresh_with l msn m \<longleftrightarrow> m_class m = Mnslp_Refresh \<and> msg_wf m \<and>
     refresh_get_session_lifetime m = l \<and> refresh_get_msg_sequence_number m = msn \<and>
     has_msg_sequence_number m \<and> refresh_check m"

lemma refresh_built:
  "refresh_with l msn (refresh_set_msg_sequence_number msn (refresh_set_session_lifetime l (new_msg Mnslp_Refresh)))"
proof -
  let ?k1 = "obj_key ot_session_lifetime 1" and ?k2 = "obj_key ot_msg_sequence_number 1"
  have "msg_get_num_objects (msg_set_object (msg_set_object (new_msg Mnslp_Refresh)
      (new_session_lifetime l)) (new_msg_sequence_number msn)) = 2"
    by (simp add: msg_set_object_def store_simps new_msg_def ie_store_set_def ie_store_empty_def
        msg_get_num_objects_def ie_store_size_def ie_object_key_less_def obj_key_def ot_defs)
  then show ?thesis
    by (simp add: refresh_with_def refresh_set_msg_sequence_number_def refresh_set_session_lifetime_def
        refresh_get_session_lifetime_def refresh_get_msg_sequence_number_def value_or_0_def
        msg_get_set_unique store_simps has_msg_sequence_number_def msn_key_def refresh_check_def)
qed

section \<open>Copies and responses\<close>

text \<open>A message that holds a well-formed body of class \<open>c\<close>\<close>

definition holds_msg :: "mclass \<Rightarrow> ('o, 'r) ntlp_msg \<Rightarrow> bool" where
  "holds_msg c m \<longleftrightarrow> (\<exists>b. nm_body m = Some b \<and> m_class b = c \<and> msg_wf b)"

lemma ntlp_copy_id:
  "holds_msg c m \<Longrightarrow> ntlp_copy m = Some m"
  by (auto simp: holds_msg_def ntlp_copy_def msg_copy_id)

lemma ntlp_copy_id_wf:
  "nm_body m = Some b \<Longrightarrow> msg_wf b \<Longrightarrow> ntlp_copy m = Some m"
  by (auto simp: ntlp_copy_def msg_copy_id)

lemma body_of_class_holds:
  "holds_msg c m \<Longrightarrow> \<exists>b. body_of_class c m = Some b"
  by (auto simp: holds_msg_def body_of_class_def)

lemma response_body_msn:
  assumes "has_msg_sequence_number b" and "get_msg_sequence_number b = Some msn"
  shows "has_msg_sequence_number (response_body (Some b) s c) \<and>
    response_get_msg_sequence_number (response_body (Some b) s c) = msn"
  using assms
  by (simp add: response_body_def Let_def response_set_msg_sequence_number_def
      response_set_information_code_def has_msg_sequence_number_def msn_key_def
      response_get_msg_sequence_number_def value_or_0_def msg_get_set_unique store_simps)

lemma response_set_lifetime_facts:
  fixes m :: "'o mnslp_msg"
  assumes "msg_wf m"
  shows "msg_wf (response_set_session_lifetime l m)"
    and "m_class (response_set_session_lifetime l m) = m_class m"
    and "response_get_session_lifetime (response_set_session_lifetime l m) = l"
    and "has_msg_sequence_number (response_set_session_lifetime l m) = has_msg_sequence_number m"
    and "response_get_msg_sequence_number (response_set_session_lifetime l m) =
      response_get_msg_sequence_number m"
    and "response_is_success (response_set_session_lifetime l m) = response_is_success m"
  using assms
  by (simp_all add: response_set_session_lifetime_def store_simps response_get_session_lifetime_def
      value_or_0_def msg_get_set_unique has_msg_sequence_number_def msn_key_def
      response_get_msg_sequence_number_def response_is_success_def)

section \<open>Properties\<close>

text \<open>
  Reading a CONFIGURE returns what was set: the four header values, and the metering
  objects complete and in the order in which they were added.
\<close>

theorem configure_round_trip:
  assumes "mspec_list_ok obs"
  shows "let m = fold configure_set_mspec_object obs
      (configure_set_message_hop_count hops (configure_set_selection_metering_entities sme
        (configure_set_msg_sequence_number msn (configure_set_session_lifetime l (new_msg Mnslp_Configure)))))
    in configure_get_session_lifetime m = l \<and> configure_get_msg_sequence_number m = msn \<and>
       configure_get_selection_metering_entities m = sme \<and> configure_get_message_hop_count m = hops \<and>
       configure_get_mspec_objects m = Some obs"
  using configure_built [OF assms, of l msn sme hops] by (simp add: configure_with_def Let_def)

theorem configure_round_trip_witness:
  "configure_get_mspec_objects (fold configure_set_mspec_object
     [\<lparr>ms_hdr = \<lparr>oh_object_type = 0xF9, oh_unique = False, oh_treatment = Tr_Mandatory\<rparr>, ms_body = 4 :: nat\<rparr>]
     (configure_set_message_hop_count 20 (configure_set_selection_metering_entities 1
        (configure_set_msg_sequence_number 7 (configure_set_session_lifetime 30 (new_msg Mnslp_Configure)))))) =
   Some [\<lparr>ms_hdr = \<lparr>oh_object_type = 0xF9, oh_unique = False, oh_treatment = Tr_Mandatory\<rparr>, ms_body = 4\<rparr>]"
  using configure_round_trip [of "[\<lparr>ms_hdr = \<lparr>oh_object_type = 0xF9, oh_unique = False,
      oh_treatment = Tr_Mandatory\<rparr>, ms_body = 4 :: nat\<rparr>]" 20 1 7 30]
  by (simp add: mspec_list_ok_def ot_defs Let_def)

text \<open>
  A CONFIGURE that also carries an information code passes its own check, and reading its
  metering objects dereferences NULL.
\<close>

theorem configure_information_code_crash:
  "let m = msg_set_object (configure_set_message_hop_count hops
      (configure_set_selection_metering_entities sme (configure_set_msg_sequence_number msn
        (configure_set_session_lifetime l (new_msg Mnslp_Configure))))) (new_information_code s c t)
   in configure_check m \<and> configure_get_mspec_objects m = None"
proof -
  let ?h = "configure_header l msn sme hops :: 'a mnslp_msg"
  let ?m = "msg_set_object ?h (new_information_code s c t)"
  have objs: "m_objects ?m =
      [(obj_key ot_information_code 1, new_information_code s c t),
       (obj_key ot_selection_met_entities 1, new_selection_metering_entities sme),
       (obj_key ot_message_hop_count 1, new_message_hop_count hops),
       (obj_key ot_msg_sequence_number 1, new_msg_sequence_number msn),
       (obj_key ot_session_lifetime 1, new_session_lifetime l)]"
    unfolding configure_setters
    by (simp add: msg_set_object_def store_simps new_msg_def ie_store_set_def ie_store_empty_def
        ie_object_key_less_def obj_key_def ot_defs)
  show ?thesis
    unfolding Let_def configure_check_def configure_get_mspec_objects_def objs
    by (simp add: obj_key_def ot_defs new_information_code_def)
qed

text \<open>
  Copying a message gives an equal message, object by object, and \<open>operator==\<close> accepts it.
\<close>

theorem msg_copy_equal:
  assumes "msg_wf m" and "\<And>ob. me ob ob"
  shows "msg_copy m = m \<and> msg_eq me m (msg_copy m)"
proof -
  have "store_wf (m_objects m)" using assms(1) by (simp add: msg_wf_def)
  then have "ie_store_eq (object_eq me) (m_objects m) (m_objects m)"
    using in_store_get [of "m_objects m"] object_eq_refl [of me] assms(2)
    by (auto simp: ie_store_eq_def list_all_iff)
  with msg_copy_id [OF assms(1)] show ?thesis by (simp add: msg_eq_def)
qed

theorem msg_copy_equal_witness:
  "msg_eq (\<lambda>a b :: nat mspec_object. a = b)
     (refresh_set_session_lifetime 60 (new_msg Mnslp_Refresh))
     (msg_copy (refresh_set_session_lifetime 60 (new_msg Mnslp_Refresh)))"
proof -
  have "msg_wf (refresh_set_session_lifetime 60 (new_msg Mnslp_Refresh) :: nat mnslp_msg)"
    by (simp add: refresh_set_session_lifetime_def store_simps)
  from msg_copy_equal [OF this, of "\<lambda>a b. a = b"] show ?thesis by blast
qed

end
