(* ===== verification/Events.thy ===== *)
theory Events
  imports Msg_Build
begin

text \<open>
  The events the dispatcher feeds to the sessions (include/events.h). The class of an event
  is the constructor of its body, the session ID of the base class is a component of its own
  that may be NULL. The tests \<open>is_...\<close> are the inline functions of the same names: a
  \<open>dynamic_cast\<close> of the event, for messages followed by one of the body. Addresses belong to
  the NTLP library and are the type variable \<open>'h\<close>; a return queue is only compared with NULL.
\<close>

record ('h, 'o) api_configure_event =
  ac_source_addr :: 'h
  ac_dest_addr :: 'h
  ac_source_port :: u16
  ac_dest_port :: u16
  ac_protocol :: u8
  ac_mspec_objects :: "'o mspec_object list"
  ac_session_lifetime :: u32
  ac_sel_met_entities :: u32
  ac_has_return_queue :: bool

record 'h api_refresh_event =
  ar_source_addr :: 'h
  ar_dest_addr :: 'h
  ar_source_port :: u16
  ar_dest_port :: u16
  ar_protocol :: u8
  ar_session_lifetime :: u32
  ar_msg_sequence_number :: u32
  ar_has_return_queue :: bool

record 'h api_notify_event =
  an_source_addr :: 'h
  an_dest_addr :: 'h
  an_source_port :: u16
  an_dest_port :: u16
  an_protocol :: u8
  an_severity :: u8
  an_response_code :: u8
  an_object_type :: u16
  an_has_return_queue :: bool

record 'h api_response_event =
  ap_source_addr :: 'h
  ap_dest_addr :: 'h
  ap_source_port :: u16
  ap_dest_port :: u16
  ap_protocol :: u8
  ap_session_lifetime :: u32
  ap_msg_sequence_number :: u32
  ap_severity :: u8
  ap_response_code :: u8
  ap_object_type :: u16
  ap_has_return_queue :: bool

record 'h api_options_event =
  ao_source_addr :: 'h
  ao_dest_addr :: 'h
  ao_source_port :: u16
  ao_dest_port :: u16
  ao_protocol :: u8
  ao_msg_sequence_number :: u32

record ('o, 'r) msg_event =
  me_msg :: "('o, 'r) ntlp_msg"
  me_for_this_node :: bool

datatype ('h, 'o, 'r) event_body =
    Network_Notification_Event
  | Route_Changed_Bad_Event
  | No_Next_Node_Found_Event
  | Routing_State_Check_Event "'r option"
  | Msg_Event "('o, 'r) msg_event"
  | Timer_Event nat
  | Api_Configure_Event "('h, 'o) api_configure_event"
  | Api_Refresh_Event "'h api_refresh_event"
  | Api_Notify_Event "'h api_notify_event"
  | Api_Response_Event "'h api_response_event"
  | Api_Options_Event "'h api_options_event"
  | Api_Teardown_Event

record ('h, 'o, 'r) event =
  ev_sid :: "sid option"
  ev_body :: "('h, 'o, 'r) event_body"

section \<open>Constructors\<close>

text \<open>
  The constructors of the Refresh and the Notify request take a session ID and hand none to
  the base class.
\<close>

definition new_network_notification_event :: "('h, 'o, 'r) event" where
  "new_network_notification_event = \<lparr>ev_sid = None, ev_body = Network_Notification_Event\<rparr>"

definition new_msg_event :: "sid \<Rightarrow> ('o, 'r) ntlp_msg \<Rightarrow> bool \<Rightarrow> ('h, 'o, 'r) event" where
  "new_msg_event sid msg for_this_node =
     \<lparr>ev_sid = Some sid, ev_body = Msg_Event \<lparr>me_msg = msg, me_for_this_node = for_this_node\<rparr>\<rparr>"

definition new_timer_event :: "sid \<Rightarrow> nat \<Rightarrow> ('h, 'o, 'r) event" where
  "new_timer_event sid i = \<lparr>ev_sid = Some sid, ev_body = Timer_Event i\<rparr>"

definition new_api_configure_event :: "('h, 'o) api_configure_event \<Rightarrow> ('h, 'o, 'r) event" where
  "new_api_configure_event c = \<lparr>ev_sid = None, ev_body = Api_Configure_Event c\<rparr>"

definition new_api_refresh_event :: "sid option \<Rightarrow> 'h api_refresh_event \<Rightarrow> ('h, 'o, 'r) event" where
  "new_api_refresh_event sid r = \<lparr>ev_sid = None, ev_body = Api_Refresh_Event r\<rparr>"

definition new_api_notify_event :: "sid option \<Rightarrow> 'h api_notify_event \<Rightarrow> ('h, 'o, 'r) event" where
  "new_api_notify_event sid n = \<lparr>ev_sid = None, ev_body = Api_Notify_Event n\<rparr>"

definition new_api_response_event :: "sid option \<Rightarrow> 'h api_response_event \<Rightarrow> ('h, 'o, 'r) event" where
  "new_api_response_event sid r = \<lparr>ev_sid = sid, ev_body = Api_Response_Event r\<rparr>"

definition new_api_options_event :: "'h api_options_event \<Rightarrow> ('h, 'o, 'r) event" where
  "new_api_options_event opt = \<lparr>ev_sid = None, ev_body = Api_Options_Event opt\<rparr>"

definition new_api_teardown_event :: "sid option \<Rightarrow> ('h, 'o, 'r) event" where
  "new_api_teardown_event sid = \<lparr>ev_sid = sid, ev_body = Api_Teardown_Event\<rparr>"

section \<open>Tests and casts\<close>

fun as_msg_event :: "('h, 'o, 'r) event_body \<Rightarrow> ('o, 'r) msg_event option" where
  "as_msg_event (Msg_Event e) = Some e"
| "as_msg_event _ = None"

fun as_timer_event :: "('h, 'o, 'r) event_body \<Rightarrow> nat option" where
  "as_timer_event (Timer_Event i) = Some i"
| "as_timer_event _ = None"

fun as_api_configure :: "('h, 'o, 'r) event_body \<Rightarrow> ('h, 'o) api_configure_event option" where
  "as_api_configure (Api_Configure_Event c) = Some c"
| "as_api_configure _ = None"

definition event_is_class :: "mclass \<Rightarrow> ('h, 'o, 'r) event \<Rightarrow> bool" where
  "event_is_class c evt \<longleftrightarrow>
     (case as_msg_event (ev_body evt) of None \<Rightarrow> False | Some e \<Rightarrow> body_of_class c (me_msg e) \<noteq> None)"

definition is_timer_of :: "('h, 'o, 'r) event \<Rightarrow> nat \<Rightarrow> bool" where
  "is_timer_of evt t \<longleftrightarrow>
     (case as_timer_event (ev_body evt) of None \<Rightarrow> False | Some i \<Rightarrow> i = t)"

definition is_timer :: "('h, 'o, 'r) event \<Rightarrow> bool" where
  "is_timer evt \<longleftrightarrow> as_timer_event (ev_body evt) \<noteq> None"

definition is_api_configure :: "('h, 'o, 'r) event \<Rightarrow> bool" where
  "is_api_configure evt \<longleftrightarrow> as_api_configure (ev_body evt) \<noteq> None"

definition is_api_teardown :: "('h, 'o, 'r) event \<Rightarrow> bool" where
  "is_api_teardown evt \<longleftrightarrow> (case ev_body evt of Api_Teardown_Event \<Rightarrow> True | _ \<Rightarrow> False)"

definition is_routing_state_check :: "('h, 'o, 'r) event \<Rightarrow> bool" where
  "is_routing_state_check evt \<longleftrightarrow>
     (case ev_body evt of Routing_State_Check_Event _ \<Rightarrow> True | _ \<Rightarrow> False)"

definition is_route_changed_bad_event :: "('h, 'o, 'r) event \<Rightarrow> bool" where
  "is_route_changed_bad_event evt \<longleftrightarrow>
     (case ev_body evt of Route_Changed_Bad_Event \<Rightarrow> True | _ \<Rightarrow> False)"

definition is_no_next_node_found_event :: "('h, 'o, 'r) event \<Rightarrow> bool" where
  "is_no_next_node_found_event evt \<longleftrightarrow>
     (case ev_body evt of No_Next_Node_Found_Event \<Rightarrow> True | _ \<Rightarrow> False)"

definition is_mnslp_configure :: "('h, 'o, 'r) event \<Rightarrow> bool" where
  "is_mnslp_configure evt \<longleftrightarrow> event_is_class Mnslp_Configure evt"

definition is_mnslp_refresh :: "('h, 'o, 'r) event \<Rightarrow> bool" where
  "is_mnslp_refresh evt \<longleftrightarrow> event_is_class Mnslp_Refresh evt"

definition is_invalid_mnslp_msg :: "('h, 'o, 'r) event \<Rightarrow> bool" where
  "is_invalid_mnslp_msg evt \<longleftrightarrow>
     (case as_msg_event (ev_body evt) of None \<Rightarrow> False | Some e \<Rightarrow> nm_body (me_msg e) = None)"

text \<open>A response that carries the sequence number \<open>msn\<close>\<close>

definition is_mnslp_response_msn :: "('h, 'o, 'r) event \<Rightarrow> u32 \<Rightarrow> bool" where
  "is_mnslp_response_msn evt msn \<longleftrightarrow>
     (case as_msg_event (ev_body evt) of
        None \<Rightarrow> False
      | Some e \<Rightarrow>
          (case body_of_class Mnslp_Response (me_msg e) of
             None \<Rightarrow> False
           | Some r \<Rightarrow> has_msg_sequence_number r \<and> msn = response_get_msg_sequence_number r))"

text \<open>
  A response to the given message, none if that has no sequence number. \<open>None\<close>: the
  assertion in the virtual getter of the base class fails.
\<close>

definition is_mnslp_response :: "('h, 'o, 'r) event \<Rightarrow> ('o, 'r) ntlp_msg \<Rightarrow> bool option" where
  "is_mnslp_response evt msg =
     (case nm_body msg of
        None \<Rightarrow> Some False
      | Some m \<Rightarrow>
          if \<not> has_msg_sequence_number m then Some False
          else map_option (is_mnslp_response_msn evt) (get_msg_sequence_number m))"

section \<open>Laws\<close>

lemma is_mnslp_response_not_None: "is_mnslp_response evt msg \<noteq> None"
proof (cases "nm_body msg")
  case None
  then show ?thesis by (simp add: is_mnslp_response_def)
next
  case (Some m)
  then show ?thesis
    by (cases "m_class m")
      (auto simp: is_mnslp_response_def get_msg_sequence_number_def has_msg_sequence_number_def
        base_get_msg_sequence_number_def)
qed

text \<open>What a matching response is.\<close>

lemma is_mnslp_responseD:
  assumes "is_mnslp_response evt msg = Some True"
  obtains e r m where "ev_body evt = Msg_Event e" and "nm_body (me_msg e) = Some r"
    and "m_class r = Mnslp_Response" and "has_msg_sequence_number r"
    and "nm_body msg = Some m" and "get_msg_sequence_number m = Some (response_get_msg_sequence_number r)"
proof -
  from assms obtain m where m: "nm_body msg = Some m" "has_msg_sequence_number m"
    by (auto simp: is_mnslp_response_def split: option.splits if_splits)
  with assms obtain msn where msn: "get_msg_sequence_number m = Some msn" "is_mnslp_response_msn evt msn"
    by (auto simp: is_mnslp_response_def)
  from msn(2) obtain e where e: "ev_body evt = Msg_Event e"
    by (cases "ev_body evt") (auto simp: is_mnslp_response_msn_def)
  with msn(2) obtain r where "body_of_class Mnslp_Response (me_msg e) = Some r"
    "has_msg_sequence_number r" "msn = response_get_msg_sequence_number r"
    by (auto simp: is_mnslp_response_msn_def split: option.splits)
  with e m msn(1) show ?thesis
    by (intro that) (auto simp: body_of_class_def split: option.splits if_splits)
qed

lemma body_of_classD:
  assumes "body_of_class c m = Some b"
  shows "nm_body m = Some b \<and> m_class b = c"
  using assms by (auto simp: body_of_class_def split: option.splits if_splits)

end
