(* ===== verification/Policy_Rule.thy ===== *)
theory Policy_Rule
  imports Ntlp_Msg "HOL-Library.List_Lexorder" "HOL-Library.Char_ord"
begin

text \<open>
  Metering policy rules (src/policy_rule.cpp, src/mspec_rule_key.cpp): the objects to be
  metered, each under a fresh UUID, and the commands the metering application has been given
  for them. A UUID is its 128-bit number, which libuuid's \<open>uuid_compare\<close> orders as an unsigned
  number; \<open>uuid_generate_time_safe\<close> is an argument of the operations that create keys.
  Iterators become folds over the entries in key order.
\<close>

type_synonym mspec_rule_key = "128 word"

definition mspec_rule_key_eq :: "mspec_rule_key \<Rightarrow> mspec_rule_key \<Rightarrow> bool" where
  "mspec_rule_key_eq a b \<longleftrightarrow> uint a = uint b"

definition mspec_rule_key_less :: "mspec_rule_key \<Rightarrow> mspec_rule_key \<Rightarrow> bool" where
  "mspec_rule_key_less a b \<longleftrightarrow> uint a < uint b"

interpretation rk: keyed_order mspec_rule_key_less uint
  by unfold_locales (simp add: mspec_rule_key_less_def)

record 'o mt_policy_rule =
  pr_objects :: "(mspec_rule_key, 'o mspec_object) smap"
  pr_rule_keys :: "(mspec_rule_key, string list) smap"

definition new_rule :: "'o mt_policy_rule" where
  "new_rule = \<lparr>pr_objects = [], pr_rule_keys = []\<rparr>"

text \<open>\<open>set_object(key, obj)\<close> replaces, \<open>set_object(obj)\<close> inserts under a new key.\<close>

definition rule_set_object_at :: "mspec_rule_key \<Rightarrow> 'o mspec_object option \<Rightarrow>
    'o mt_policy_rule \<Rightarrow> 'o mt_policy_rule" where
  "rule_set_object_at key obj r =
     (case obj of None \<Rightarrow> r
      | Some ob \<Rightarrow> r\<lparr>pr_objects := smap_set mspec_rule_key_less key ob (pr_objects r)\<rparr>)"

definition rule_set_object :: "mspec_rule_key \<Rightarrow> 'o mspec_object \<Rightarrow>
    'o mt_policy_rule \<Rightarrow> mspec_rule_key \<times> 'o mt_policy_rule" where
  "rule_set_object key obj r =
     (key, r\<lparr>pr_objects := smap_insert mspec_rule_key_less key obj (pr_objects r)\<rparr>)"

definition rule_set_commands :: "mspec_rule_key \<Rightarrow> string list \<Rightarrow>
    'o mt_policy_rule \<Rightarrow> 'o mt_policy_rule" where
  "rule_set_commands key commands r =
     r\<lparr>pr_rule_keys := smap_insert mspec_rule_key_less key commands (pr_rule_keys r)\<rparr>"

definition rule_clear_commands :: "'o mt_policy_rule \<Rightarrow> 'o mt_policy_rule" where
  "rule_clear_commands r = r\<lparr>pr_rule_keys := []\<rparr>"

definition get_number_mspec_objects :: "'o mt_policy_rule \<Rightarrow> nat" where
  "get_number_mspec_objects r = length (pr_objects r)"

definition get_number_rule_keys :: "'o mt_policy_rule \<Rightarrow> nat" where
  "get_number_rule_keys r = length (pr_rule_keys r)"

text \<open>Assignment adds to what the target holds; the copy constructor starts from nothing.\<close>

definition rule_assign :: "'o mt_policy_rule \<Rightarrow> 'o mt_policy_rule \<Rightarrow> 'o mt_policy_rule" where
  "rule_assign lhs rhs =
     fold (\<lambda>(k, cs). rule_set_commands k cs) (pr_rule_keys rhs)
       (fold (\<lambda>(k, ob). rule_set_object_at k (Some ob)) (pr_objects rhs) lhs)"

definition rule_copy :: "'o mt_policy_rule \<Rightarrow> 'o mt_policy_rule" where
  "rule_copy rhs =
     fold (\<lambda>(k, cs). rule_set_commands k cs) (pr_rule_keys rhs)
       (fold (\<lambda>(k, ob). rule_set_object_at k (Some ob)) (pr_objects rhs) new_rule)"

text \<open>
  \<open>are_equal\<close> sorts both lists and compares as many positions as the rule has keys, not as
  the lists have elements: \<open>None\<close> when that reads past the end of one of them.
\<close>

fun compare_prefix :: "nat \<Rightarrow> string list \<Rightarrow> string list \<Rightarrow> bool option" where
  "compare_prefix 0 left right = Some True"
| "compare_prefix (Suc n) (l # left) (r # right) =
     (if l \<noteq> r then Some False else compare_prefix n left right)"
| "compare_prefix (Suc n) left right = None"

definition are_equal :: "'o mt_policy_rule \<Rightarrow> string list \<Rightarrow> string list \<Rightarrow> bool option" where
  "are_equal r left right = compare_prefix (get_number_rule_keys r) (sort left) (sort right)"

fun rule_keys_eq :: "'o mt_policy_rule \<Rightarrow> (mspec_rule_key, string list) smap \<Rightarrow>
    (mspec_rule_key, string list) smap \<Rightarrow> bool option" where
  "rule_keys_eq r [] rhs = Some True"
| "rule_keys_eq r ((k, cs) # m) rhs =
     (case smap_find mspec_rule_key_less k rhs of
        None \<Rightarrow> Some False
      | Some ds \<Rightarrow>
          (case are_equal r cs ds of
             None \<Rightarrow> None
           | Some False \<Rightarrow> Some False
           | Some True \<Rightarrow> rule_keys_eq r m rhs))"

definition rule_eq :: "('o mspec_object \<Rightarrow> 'o mspec_object \<Rightarrow> bool) \<Rightarrow>
    'o mt_policy_rule \<Rightarrow> 'o mt_policy_rule \<Rightarrow> bool option" where
  "rule_eq eq a b =
     (if length (pr_objects a) \<noteq> length (pr_objects b) then Some False
      else if \<not> list_all (\<lambda>(k, ob). case smap_find mspec_rule_key_less k (pr_objects b) of
                None \<Rightarrow> False | Some ob' \<Rightarrow> eq ob ob') (pr_objects a)
      then Some False
      else if length (pr_rule_keys a) \<noteq> length (pr_rule_keys b) then Some False
      else rule_keys_eq a (pr_rule_keys a) (pr_rule_keys b))"

section \<open>Invariant and laws\<close>

definition rule_wf :: "'o mt_policy_rule \<Rightarrow> bool" where
  "rule_wf r \<longleftrightarrow> smap_wf mspec_rule_key_less (pr_objects r) \<and>
     smap_wf mspec_rule_key_less (pr_rule_keys r)"

lemma rule_wf_new [simp]: "rule_wf new_rule"
  by (simp add: rule_wf_def new_rule_def)

lemma rule_wf_set [simp]:
  "rule_wf r \<Longrightarrow> rule_wf (snd (rule_set_object k ob r))"
  "rule_wf r \<Longrightarrow> rule_wf (rule_set_object_at k x r)"
  "rule_wf r \<Longrightarrow> rule_wf (rule_set_commands k cs r)"
  "rule_wf r \<Longrightarrow> rule_wf (rule_clear_commands r)"
  by (simp_all add: rule_wf_def rule_set_object_def rule_set_object_at_def rule_set_commands_def
      rule_clear_commands_def rk.wf_insert rk.wf_set split: option.split)

lemma equiv_key_eq: "equiv_key mspec_rule_key_less a b \<longleftrightarrow> a = b"
  by (simp add: rk.equiv_num word_uint_eq_iff)

lemma fold_set_object_at:
  "fold (\<lambda>(k, ob). rule_set_object_at k (Some ob)) m r =
     r\<lparr>pr_objects := fold (\<lambda>(k, v). smap_set mspec_rule_key_less k v) m (pr_objects r)\<rparr>"
  by (induction m arbitrary: r) (auto simp: rule_set_object_at_def)

lemma fold_set_commands:
  "fold (\<lambda>(k, cs). rule_set_commands k cs) m r =
     r\<lparr>pr_rule_keys := fold (\<lambda>(k, v). smap_insert mspec_rule_key_less k v) m (pr_rule_keys r)\<rparr>"
  by (induction m arbitrary: r) (auto simp: rule_set_commands_def)

lemma rule_copy_id:
  assumes "rule_wf r"
  shows "rule_copy r = r"
  using assms
  by (simp add: rule_copy_def fold_set_object_at fold_set_commands rk.rebuild rk.rebuild_insert
      rule_wf_def new_rule_def)

lemma get_number_copy [simp]:
  assumes "rule_wf r"
  shows "get_number_mspec_objects (rule_copy r) = get_number_mspec_objects r"
    and "get_number_rule_keys (rule_copy r) = get_number_rule_keys r"
  using assms by (simp_all add: rule_copy_id)

text \<open>A new key adds the object, and the object is found under it.\<close>

lemma rule_set_object_fresh:
  assumes "rule_wf r" and "smap_find mspec_rule_key_less k (pr_objects r) = None"
  shows "get_number_mspec_objects (snd (rule_set_object k ob r)) = Suc (get_number_mspec_objects r)"
    and "smap_find mspec_rule_key_less j (pr_objects (snd (rule_set_object k ob r))) =
      (if j = k then Some ob else smap_find mspec_rule_key_less j (pr_objects r))"
  using assms
  by (simp_all add: rule_set_object_def smap_insert_def get_number_mspec_objects_def rule_wf_def
      rk.length_set rk.find_set equiv_key_eq)

lemma compare_prefix_None:
  "compare_prefix n left right = None \<Longrightarrow> length left < n \<or> length right < n"
  by (induction n left right rule: compare_prefix.induct) (auto split: if_splits)

lemma compare_prefix_refl:
  "compare_prefix n xs xs = (if length xs < n then None else Some True)"
proof (induction n arbitrary: xs)
  case 0
  then show ?case by simp
next
  case (Suc n)
  then show ?case by (cases xs) auto
qed

text \<open>
  A rule compared with itself: every command list must be as long as the rule has keys, or
  the comparison leaves the list.
\<close>

lemma smap_find_self:
  assumes "smap_wf mspec_rule_key_less m" and "(k, v) \<in> set m"
  shows "smap_find mspec_rule_key_less k m = Some v"
  using assms
proof (induction m)
  case Nil
  then show ?case by simp
next
  case (Cons p m)
  then show ?case
    by (cases p) (auto simp: equiv_key_eq rk.irrefl)
qed

lemma rule_keys_eq_self:
  assumes "smap_wf mspec_rule_key_less rhs" and "set m \<subseteq> set rhs"
  shows "rule_keys_eq r m rhs =
    (if \<forall>(k, cs) \<in> set m. get_number_rule_keys r \<le> length cs then Some True else None)"
  using assms(2)
proof (induction m)
  case Nil
  then show ?case by simp
next
  case (Cons p m)
  obtain k cs where p: "p = (k, cs)" by (cases p)
  have "smap_find mspec_rule_key_less k rhs = Some cs"
    using Cons.prems p by (intro smap_find_self [OF assms(1)]) simp
  with Cons p show ?case
    by (auto simp: are_equal_def compare_prefix_refl not_less)
qed

lemma rule_eq_self:
  assumes "rule_wf r" and "\<And>ob. eq ob ob"
  shows "rule_eq eq r r =
    (if \<forall>(k, cs) \<in> set (pr_rule_keys r). get_number_rule_keys r \<le> length cs then Some True else None)"
proof -
  have "list_all (\<lambda>(k, ob). case smap_find mspec_rule_key_less k (pr_objects r) of
      None \<Rightarrow> False | Some ob' \<Rightarrow> eq ob ob') (pr_objects r)"
    using assms smap_find_self [of "pr_objects r"] by (auto simp: list_all_iff rule_wf_def)
  then show ?thesis
    using assms rule_keys_eq_self [of "pr_rule_keys r" "pr_rule_keys r" r]
    by (simp add: rule_eq_def rule_wf_def)
qed

section \<open>Properties\<close>

text \<open>
  Copying a rule gives a rule with the same objects and the same commands; assigning to a
  rule that holds nothing does the same.
\<close>

theorem rule_copy_identity:
  assumes "rule_wf r"
  shows "rule_copy r = r \<and> rule_assign new_rule r = r"
  using rule_copy_id [OF assms] by (simp add: rule_assign_def rule_copy_def)

theorem rule_copy_identity_witness:
  "rule_copy (rule_set_commands 5 [''a''] new_rule :: nat mt_policy_rule) = rule_set_commands 5 [''a''] new_rule"
  using rule_copy_identity [of "rule_set_commands 5 [''a''] new_rule :: nat mt_policy_rule"] by simp

text \<open>
  \<open>operator==\<close> on a rule and itself: the comparison of command lists runs over as many
  positions as the rule has keys, so it reads behind the end of a list, undefined behaviour,
  as soon as one object has fewer commands than the rule has keys; otherwise it holds.
\<close>

theorem rule_eq_out_of_range:
  assumes "rule_wf r" and "\<And>ob. eq ob ob"
  shows "rule_eq eq r r =
    (if \<exists>(k, cs) \<in> set (pr_rule_keys r). length cs < get_number_rule_keys r then None else Some True)"
  using rule_eq_self [of r eq, OF assms]
  by (simp add: not_less [symmetric] split_beta split: if_splits)

theorem rule_eq_out_of_range_witness:
  "rule_eq (\<lambda>a b :: nat mspec_object. a = b)
     (rule_set_commands 6 [''b''] (rule_set_commands 5 [''a''] new_rule))
     (rule_set_commands 6 [''b''] (rule_set_commands 5 [''a''] new_rule)) = None"
proof -
  let ?r = "rule_set_commands 6 [''b''] (rule_set_commands 5 [''a''] new_rule) :: nat mt_policy_rule"
  have keys: "pr_rule_keys ?r = [(5, [''a'']), (6, [''b''])]"
    by (simp add: rule_set_commands_def new_rule_def smap_insert_def equiv_key_def mspec_rule_key_less_def)
  have "rule_wf ?r" by simp
  from rule_eq_out_of_range [OF this, of "\<lambda>a b. a = b"] show ?thesis
    by (simp add: keys get_number_rule_keys_def)
qed

end
