(* ===== verification/Services.thy ===== *)
theory Services
  imports Events Policy_Rule
begin

text \<open>
  What the sessions and the dispatcher see of their environment: the configuration
  (include/mnslp_config.h), the rule installer interface (include/policy_rule_installer.h)
  with its NOP implementation, and the services of the dispatcher (src/dispatcher.cpp). The
  dispatcher's effects are appended to a trace of actions in the order they happen. Values
  that come from outside, such as random numbers, UUIDs, timer numbers, are functions of a
  counter that every draw increments. Log statements, locks and \<open>delete\<close> have no counterpart.
\<close>

record mnslp_config =
  cf_dispatcher_threads :: u32
  cf_ni_max_session_lifetime :: u32
  cf_ni_max_retries :: u32
  cf_ni_response_timeout :: u32
  cf_ni_msg_hop_count :: u32
  cf_nf_max_session_lifetime :: u32
  cf_nf_response_timeout :: u32
  cf_is_ms_meter :: bool
  cf_ms_install_policy_rules :: bool
  cf_nr_max_session_lifetime :: u32

text \<open>The defaults \<open>registerAllPars\<close> registers\<close>

definition default_config :: mnslp_config where
  "default_config = \<lparr>cf_dispatcher_threads = 1, cf_ni_max_session_lifetime = 30,
     cf_ni_max_retries = 3, cf_ni_response_timeout = 2, cf_ni_msg_hop_count = 20,
     cf_nf_max_session_lifetime = 60, cf_nf_response_timeout = 2, cf_is_ms_meter = True,
     cf_ms_install_policy_rules = True, cf_nr_max_session_lifetime = 60\<rparr>"

text \<open>
  An installer has a state of its own. \<open>check\<close> reports whether it returns or throws the only
  exception its declaration allows; \<open>install\<close> and \<open>remove\<close> return a pointer to a rule.
\<close>

record ('o, 'i) policy_rule_installer =
  ri_check :: "'o mspec_object \<Rightarrow> 'i \<Rightarrow> bool \<times> 'i"
  ri_install :: "'o mt_policy_rule \<Rightarrow> 'i \<Rightarrow> (exc, 'o mt_policy_rule option, 'i) result"
  ri_remove :: "'o mt_policy_rule \<Rightarrow> 'i \<Rightarrow> (exc, 'o mt_policy_rule option, 'i) result"

record ('h, 'o, 'r, 'i) env =
  e_mri :: "('h, 'r) mri_ops"
  e_config :: mnslp_config
  e_installer :: "('o, 'i) policy_rule_installer"
  e_is_authorized :: "('o, 'r) msg_event \<Rightarrow> bool"
  e_uuid :: "nat \<Rightarrow> mspec_rule_key"
  e_timer_id :: "nat \<Rightarrow> nat"
  e_rand :: "nat \<Rightarrow> nat"
  e_random :: "nat \<Rightarrow> u32 option"
  e_session_id :: "nat \<Rightarrow> sid"

datatype ('o, 'r) action =
    Send "('o, 'r) ntlp_msg"
  | Start_Timer sid nat int
  | Report string
  | Return_Sid sid
  | Install_Rules "'o mt_policy_rule"
  | Remove_Rules "'o mt_policy_rule"
  | Accept_Query sid 'r

record ('o, 'r, 'i) world =
  w_actions :: "('o, 'r) action list"
  w_installer :: 'i
  w_tick :: nat

section \<open>Services of the dispatcher\<close>

definition act :: "('o, 'r) action \<Rightarrow> ('o, 'r, 'i) world \<Rightarrow> ('o, 'r, 'i) world" where
  "act a w = w\<lparr>w_actions := w_actions w @ [a]\<rparr>"

definition send_message :: "('o, 'r) ntlp_msg \<Rightarrow> ('o, 'r, 'i) world \<Rightarrow> ('o, 'r, 'i) world" where
  "send_message msg w = act (Send msg) w"

text \<open>The messages sent so far, in order\<close>

fun sent_of :: "('o, 'r) action list \<Rightarrow> ('o, 'r) ntlp_msg list" where
  "sent_of [] = []"
| "sent_of (Send m # as) = m # sent_of as"
| "sent_of (_ # as) = sent_of as"

definition sent :: "('o, 'r, 'i) world \<Rightarrow> ('o, 'r) ntlp_msg list" where
  "sent w = sent_of (w_actions w)"

lemma sent_of_append [simp]: "sent_of (as @ bs) = sent_of as @ sent_of bs"
  by (induction as rule: sent_of.induct) auto

definition report_async_event :: "string \<Rightarrow> ('o, 'r, 'i) world \<Rightarrow> ('o, 'r, 'i) world" where
  "report_async_event s w = act (Report s) w"

text \<open>\<open>uint32\<close> arguments are converted to the parameter's type \<open>int\<close>.\<close>

definition start_timer :: "('h, 'o, 'r, 'i) env \<Rightarrow> sid \<Rightarrow> u32 \<Rightarrow> ('o, 'r, 'i) world \<Rightarrow>
    nat \<times> ('o, 'r, 'i) world" where
  "start_timer E sid seconds w =
     (let i = e_timer_id E (w_tick w)
      in (i, act (Start_Timer sid i (sint seconds)) (w\<lparr>w_tick := Suc (w_tick w)\<rparr>)))"

definition stopped_timer :: nat where
  "stopped_timer = 0"

fun allow_installer_error :: "(exc, 'a, 's) result \<Rightarrow> (exc, 'a, 's) result" where
  "allow_installer_error (Exn (Policy_Rule_Installer_Error m s c) w) =
     Exn (Policy_Rule_Installer_Error m s c) w"
| "allow_installer_error (Exn (Request_Error m s c) w) = Abort"
| "allow_installer_error (Exn (Override_Lifetime m s c) w) = Abort"
| "allow_installer_error (Ret a w) = Ret a w"
| "allow_installer_error Abort = Abort"
| "allow_installer_error Undef = Undef"

fun in_world :: "('o, 'r, 'i) world \<Rightarrow> ('e, 'a, 'i) result \<Rightarrow> ('e, 'a, ('o, 'r, 'i) world) result" where
  "in_world w (Ret a i) = Ret a (w\<lparr>w_installer := i\<rparr>)"
| "in_world w (Exn e i) = Exn e (w\<lparr>w_installer := i\<rparr>)"
| "in_world w Abort = Abort"
| "in_world w Undef = Undef"

text \<open>
  Both calls are declared to throw \<open>policy_rule_installer_error\<close> only; another exception ends
  the program in \<open>std::unexpected\<close>.
\<close>

definition install_policy_rules :: "('h, 'o, 'r, 'i) env \<Rightarrow> 'o mt_policy_rule \<Rightarrow>
    ('o, 'r, 'i) world \<Rightarrow> (exc, 'o mt_policy_rule option, ('o, 'r, 'i) world) result" where
  "install_policy_rules E mt_rule w =
     allow_installer_error
       (in_world (act (Install_Rules mt_rule) w) (ri_install (e_installer E) mt_rule (w_installer w)))"

definition remove_policy_rules :: "('h, 'o, 'r, 'i) env \<Rightarrow> 'o mt_policy_rule \<Rightarrow>
    ('o, 'r, 'i) world \<Rightarrow> (exc, unit, ('o, 'r, 'i) world) result" where
  "remove_policy_rules E mt_rule w =
     allow_installer_error
       (r_bind (in_world (act (Remove_Rules mt_rule) w)
                  (ri_remove (e_installer E) mt_rule (w_installer w)))
          (\<lambda>result w. deref result (\<lambda>result.
             if get_number_rule_keys result \<noteq> get_number_rule_keys mt_rule
             then Exn (Policy_Rule_Installer_Error ''Invalid ipfix message''
                         sc_signaling_session_failures sigfail_wrong_conf_message) w
             else Ret () w)))"

text \<open>\<open>dispatcher::check\<close>\<close>

definition dispatcher_check :: "('h, 'o, 'r, 'i) env \<Rightarrow> 'o mspec_object \<Rightarrow>
    ('o, 'r, 'i) world \<Rightarrow> bool \<times> ('o, 'r, 'i) world" where
  "dispatcher_check E object w =
     (if cf_is_ms_meter (e_config E)
      then (let (ok, i) = ri_check (e_installer E) object (w_installer w)
            in (ok, w\<lparr>w_installer := i\<rparr>))
      else (False, w))"

text \<open>\<open>dispatcher::is_authorized\<close>, the only implementation of the virtual function\<close>

definition dispatcher_is_authorized :: "('o, 'r) msg_event \<Rightarrow> bool" where
  "dispatcher_is_authorized evt = True"

section \<open>The NOP installer\<close>

text \<open>\<open>uuid_unparse_lower\<close> is the argument \<open>to_str\<close>.\<close>

definition nop_check :: "'o mspec_object \<Rightarrow> 'i \<Rightarrow> bool \<times> 'i" where
  "nop_check object i = (True, i)"

definition nop_install :: "(mspec_rule_key \<Rightarrow> string) \<Rightarrow> 'o mt_policy_rule \<Rightarrow> 'i \<Rightarrow>
    (exc, 'o mt_policy_rule option, 'i) result" where
  "nop_install to_str mt_rule i =
     (let rule_return = rule_copy mt_rule
      in Ret (Some (fold (\<lambda>(k, ob). rule_set_commands k [to_str k])
                      (pr_objects rule_return) rule_return)) i)"

definition nop_remove :: "'o mt_policy_rule \<Rightarrow> 'i \<Rightarrow> (exc, 'o mt_policy_rule option, 'i) result" where
  "nop_remove mt_rule i = Ret (Some (rule_copy mt_rule)) i"

definition nop_installer :: "(mspec_rule_key \<Rightarrow> string) \<Rightarrow> ('o, 'i) policy_rule_installer" where
  "nop_installer to_str =
     \<lparr>ri_check = nop_check, ri_install = nop_install to_str, ri_remove = nop_remove\<rparr>"

lemma nop_install_eq:
  assumes "rule_wf r"
  shows "nop_install to_str r i = Ret (Some (r\<lparr>pr_rule_keys :=
    fold (\<lambda>(k, v). smap_insert mspec_rule_key_less k v)
      (map (\<lambda>(k, ob). (k, [to_str k])) (pr_objects r)) (pr_rule_keys r)\<rparr>)) i"
proof -
  have "fold (\<lambda>(k, ob). rule_set_commands k [to_str k]) m s =
      fold (\<lambda>(k, cs). rule_set_commands k cs) (map (\<lambda>(k, ob). (k, [to_str k])) m) s" for m s
    by (induction m arbitrary: s) auto
  then show ?thesis using assms by (simp add: nop_install_def rule_copy_id fold_set_commands)
qed

lemma smap_wf_map_snd:
  "smap_wf lt (map (\<lambda>(k, v). (k, f k v)) m) \<longleftrightarrow> smap_wf lt m"
proof -
  have "map fst (map (\<lambda>(k, v). (k, f k v)) m) = map fst m" by (induction m) auto
  then show ?thesis unfolding smap_wf_def by (simp only:)
qed

lemma wf_fold_insert:
  "smap_wf mspec_rule_key_less s \<Longrightarrow>
   smap_wf mspec_rule_key_less (fold (\<lambda>(k, v). smap_insert mspec_rule_key_less k v) m s)"
  by (induction m arbitrary: s) (auto simp: rk.wf_insert)

text \<open>A rule that carries no commands gets one for every object, under the object's key.\<close>

lemma nop_install_fresh:
  assumes "rule_wf r" and "pr_rule_keys r = []"
  shows "nop_install to_str r i =
    Ret (Some (r\<lparr>pr_rule_keys := map (\<lambda>(k, ob). (k, [to_str k])) (pr_objects r)\<rparr>)) i"
  using assms nop_install_eq [of r to_str i]
    rk.rebuild_insert [of "map (\<lambda>(k, ob). (k, [to_str k])) (pr_objects r)"]
  by (simp add: rule_wf_def smap_wf_map_snd)

section \<open>The contract of an installer\<close>

text \<open>
  What the sessions rely on: for a rule, not NULL, both calls end, in a well-formed rule or in
  the installer's own exception.
\<close>

locale rule_installer =
  fixes install remove :: "'o mt_policy_rule \<Rightarrow> 'i \<Rightarrow> (exc, 'o mt_policy_rule option, 'i) result"
  assumes install_outcome: "rule_wf r \<Longrightarrow>
      (\<exists>r' j. install r i = Ret (Some r') j \<and> rule_wf r') \<or>
      (\<exists>m s c j. install r i = Exn (Policy_Rule_Installer_Error m s c) j)"
    and remove_outcome: "rule_wf r \<Longrightarrow>
      (\<exists>r' j. remove r i = Ret (Some r') j) \<or>
      (\<exists>m s c j. remove r i = Exn (Policy_Rule_Installer_Error m s c) j)"

interpretation nop: rule_installer "nop_install to_str" nop_remove
proof unfold_locales
  fix r :: "'a mt_policy_rule" and i :: 'b
  assume "rule_wf r"
  then show "(\<exists>r' j. nop_install to_str r i = Ret (Some r') j \<and> rule_wf r') \<or>
      (\<exists>m s c j. nop_install to_str r i = Exn (Policy_Rule_Installer_Error m s c) j)"
    by (simp add: nop_install_eq rule_wf_def wf_fold_insert)
qed (simp add: nop_remove_def)

definition installer_ok :: "('o, 'i) policy_rule_installer \<Rightarrow> bool" where
  "installer_ok I \<longleftrightarrow> rule_installer (ri_install I) (ri_remove I)"

lemma nop_installer_ok: "installer_ok (nop_installer to_str)"
  unfolding installer_ok_def nop_installer_def by simp (rule nop.rule_installer_axioms)

section \<open>Properties\<close>

text \<open>
  The NOP installer installs a rule that carries no commands yet completely: the objects
  stay the same, each gets one command under its key, so the comparison of the object counts
  by which the sessions recognise a failed installation succeeds; and the removal of the
  installed rule never raises the error for a wrong number of keys.
\<close>

theorem nop_install_complete:
  assumes "rule_wf r" and "get_number_rule_keys r = 0"
  shows "\<exists>r'. nop_install to_str r i = Ret (Some r') i \<and> rule_wf r' \<and> pr_objects r' = pr_objects r \<and>
    get_number_rule_keys r' = get_number_mspec_objects r \<and>
    (e_installer E = nop_installer to_str \<longrightarrow>
       remove_policy_rules E r' w = Ret () (act (Remove_Rules r') w))"
proof -
  let ?r = "r\<lparr>pr_rule_keys := map (\<lambda>(k, ob). (k, [to_str k])) (pr_objects r)\<rparr>"
  have "pr_rule_keys r = []" using assms(2) by (simp add: get_number_rule_keys_def)
  from nop_install_fresh [OF assms(1) this]
  have eq: "nop_install to_str r i = Ret (Some ?r) i" .
  have wf: "rule_wf ?r" using assms(1) by (simp add: rule_wf_def smap_wf_map_snd)
  have "remove_policy_rules E ?r w = Ret () (act (Remove_Rules ?r) w)"
    if "e_installer E = nop_installer to_str"
    using that wf by (simp add: remove_policy_rules_def nop_installer_def nop_remove_def rule_copy_id act_def)
  then show ?thesis
    using eq wf by (intro exI [of _ ?r])
      (auto simp: get_number_rule_keys_def get_number_mspec_objects_def)
qed

theorem nop_install_complete_witness:
  "\<exists>r'. nop_install (\<lambda>k. ''key'') (snd (rule_set_object 5
      \<lparr>ms_hdr = \<lparr>oh_object_type = 0xF9, oh_unique = False, oh_treatment = Tr_Mandatory\<rparr>, ms_body = 1 :: nat\<rparr>
      new_rule)) () = Ret (Some r') () \<and> get_number_rule_keys r' = 1"
proof -
  let ?ob = "\<lparr>ms_hdr = \<lparr>oh_object_type = 0xF9, oh_unique = False, oh_treatment = Tr_Mandatory\<rparr>, ms_body = 1 :: nat\<rparr>"
  have r: "rule_wf (snd (rule_set_object 5 ?ob new_rule))"
    "get_number_rule_keys (snd (rule_set_object 5 ?ob new_rule)) = 0"
    "get_number_mspec_objects (snd (rule_set_object 5 ?ob new_rule)) = 1"
    by (simp_all add: rule_set_object_def new_rule_def get_number_rule_keys_def smap_insert_def
        get_number_mspec_objects_def rule_wf_def)
  from nop_install_complete [OF r(1,2), of "\<lambda>k. ''key''" "()"] r(3) show ?thesis by metis
qed

end
