(* ===== verification/Double_Arith.thy ===== *)
theory Double_Arith
  imports Mnslp_Prelude Complex_Main
begin

text \<open>
  The \<open>double\<close> arithmetic of the session timers: IEEE binary64 with rounding to nearest, ties
  to even. The values the code computes are zero or lie between $2^{-76}$ and $2^{64}$, so
  neither underflow nor overflow is modelled: a result is the exact rational rounded to 53
  significant bits. \<open>dbl_round_error\<close> and \<open>dbl_round_exact\<close> are all that is used of it.
\<close>

fun bit_len :: "nat \<Rightarrow> nat" where
  "bit_len n = (if n = 0 then 0 else Suc (bit_len (n div 2)))"

declare bit_len.simps [simp del]

definition round_half_even :: "rat \<Rightarrow> int" where
  "round_half_even q =
     (let f = \<lfloor>q\<rfloor>; d = q - of_int f
      in if d < 1 / 2 then f else if d > 1 / 2 then f + 1 else if even f then f else f + 1)"

text \<open>The weight of the last significant bit of \<open>x\<close>, then \<open>x\<close> rounded to a multiple of it.\<close>

definition dbl_ulp :: "rat \<Rightarrow> rat" where
  "dbl_ulp x = 2 ^ (bit_len (nat \<lfloor>x * 2 ^ 128\<rfloor>) - 53) / 2 ^ 128"

definition dbl_round :: "rat \<Rightarrow> rat" where
  "dbl_round x = of_int (round_half_even (x / dbl_ulp x)) * dbl_ulp x"

definition dbl_add :: "rat \<Rightarrow> rat \<Rightarrow> rat" where "dbl_add a b = dbl_round (a + b)"
definition dbl_mul :: "rat \<Rightarrow> rat \<Rightarrow> rat" where "dbl_mul a b = dbl_round (a * b)"
definition dbl_div :: "rat \<Rightarrow> rat \<Rightarrow> rat" where "dbl_div a b = dbl_round (a / b)"

section \<open>Rounding\<close>

lemma bit_len_bounds:
  assumes "0 < n"
  shows "2 ^ (bit_len n - 1) \<le> n \<and> n < 2 ^ bit_len n \<and> 0 < bit_len n"
  using assms
proof (induction n rule: bit_len.induct)
  case (1 n)
  show ?case
  proof (cases "n = 1")
    case True
    then show ?thesis by (simp add: bit_len.simps [of "Suc 0"] bit_len.simps [of 0])
  next
    case False
    with 1 have IH: "2 ^ (bit_len (n div 2) - 1) \<le> n div 2" "n div 2 < 2 ^ bit_len (n div 2)"
      "0 < bit_len (n div 2)" by auto
    have eq: "bit_len n = Suc (bit_len (n div 2))" using 1 by (simp add: bit_len.simps [of n])
    define p where "p = (2 :: nat) ^ (bit_len (n div 2) - 1)"
    have p2: "(2 :: nat) ^ bit_len (n div 2) = 2 * p"
      using IH(3) by (cases "bit_len (n div 2)") (simp_all add: p_def)
    with IH have "p \<le> n div 2" "n div 2 < 2 * p" by (simp_all add: p_def)
    then have "2 * p \<le> n \<and> n < 4 * p" by presburger
    then show ?thesis by (simp add: eq p2)
  qed
qed

lemma bit_len_le:
  assumes "n < 2 ^ k"
  shows "bit_len n \<le> k"
proof (cases "n = 0")
  case True
  then show ?thesis by (simp add: bit_len.simps)
next
  case False
  then have less: "(2 :: nat) ^ (bit_len n - 1) < 2 ^ k" and pos: "0 < bit_len n"
    using bit_len_bounds [of n] assms by (linarith, simp)
  have "bit_len n - 1 < k" by (rule power_less_imp_less_exp [OF _ less]) simp
  with pos show ?thesis by simp
qed

lemma round_half_even_error: "\<bar>of_int (round_half_even q) - q\<bar> \<le> 1 / 2"
proof -
  have "of_int \<lfloor>q\<rfloor> \<le> q" "q < of_int \<lfloor>q\<rfloor> + 1" by linarith+
  then show ?thesis by (auto simp: round_half_even_def Let_def abs_le_iff)
qed

lemma round_half_even_int: "round_half_even (of_int k) = k"
  by (simp add: round_half_even_def)

lemma dbl_ulp_pos: "0 < dbl_ulp x"
  by (simp add: dbl_ulp_def)

lemma dbl_round_half_ulp: "\<bar>dbl_round x - x\<bar> \<le> dbl_ulp x / 2"
proof -
  let ?u = "dbl_ulp x"
  have "dbl_round x - x = (of_int (round_half_even (x / ?u)) - x / ?u) * ?u"
    using dbl_ulp_pos [of x] by (simp add: dbl_round_def left_diff_distrib)
  then have "\<bar>dbl_round x - x\<bar> = \<bar>of_int (round_half_even (x / ?u)) - x / ?u\<bar> * ?u"
    using dbl_ulp_pos [of x] by (simp add: abs_mult)
  also have "\<dots> \<le> 1 / 2 * ?u"
    using round_half_even_error dbl_ulp_pos [of x] by (intro mult_right_mono) auto
  finally show ?thesis by simp
qed

lemma dbl_round_error:
  assumes "1 / 2 ^ 76 \<le> x"
  shows "\<bar>dbl_round x - x\<bar> \<le> x / 2 ^ 53"
proof -
  define n where "n = nat \<lfloor>x * 2 ^ 128\<rfloor>"
  have "2 ^ 52 \<le> x * 2 ^ 128" using assms by (simp add: field_simps)
  then have "2 ^ 52 \<le> \<lfloor>x * 2 ^ 128\<rfloor>" by (simp add: le_floor_iff)
  then have "nat (2 ^ 52) \<le> n" unfolding n_def by (rule nat_mono)
  then have n: "2 ^ 52 \<le> n" by simp
  have "of_nat n = (of_int \<lfloor>x * 2 ^ 128\<rfloor> :: rat)"
    using \<open>2 ^ 52 \<le> \<lfloor>x * 2 ^ 128\<rfloor>\<close> by (simp add: n_def)
  then have nx: "of_nat n \<le> x * 2 ^ 128" by (metis of_int_floor_le)
  have b: "2 ^ (bit_len n - 1) \<le> n" "n < 2 ^ bit_len n" using bit_len_bounds [of n] n by auto
  have less: "(2 :: nat) ^ 52 < 2 ^ bit_len n" using n b(2) by (rule le_less_trans)
  have "52 < bit_len n" by (rule power_less_imp_less_exp [OF _ less]) simp
  then have "bit_len n - 1 = (bit_len n - 53) + 52" by simp
  then have "(2 :: rat) ^ (bit_len n - 53) * 2 ^ 52 = of_nat (2 ^ (bit_len n - 1))"
    by (simp only: power_add [symmetric] of_nat_power of_nat_numeral)
  also have "\<dots> \<le> of_nat n" by (rule of_nat_mono [OF b(1)])
  also have "\<dots> \<le> x * 2 ^ 128" by (rule nx)
  finally have "dbl_ulp x / 2 \<le> x / 2 ^ 53"
    unfolding dbl_ulp_def n_def [symmetric] by (simp add: field_simps)
  with dbl_round_half_ulp [of x] show ?thesis by simp
qed

text \<open>A number of at most 53 significant bits is not changed.\<close>

lemma dbl_round_exact:
  assumes "x * 2 ^ 128 = of_nat (n * 2 ^ j)" and "n < 2 ^ 53"
  shows "dbl_round x = x"
proof -
  let ?m = "n * 2 ^ j"
  have "\<lfloor>x * 2 ^ 128\<rfloor> = int ?m" using assms(1) by (simp only: floor_of_nat)
  then have m: "nat \<lfloor>x * 2 ^ 128\<rfloor> = ?m" by (simp only: nat_int)
  have "?m < 2 ^ (53 + j)" using assms(2) by (simp add: power_add)
  then have "bit_len ?m \<le> 53 + j" by (rule bit_len_le)
  then obtain i where i: "j = (bit_len ?m - 53) + i" by (metis add.commute le_diff_conv le_add_diff_inverse)
  have "x / dbl_ulp x = x * 2 ^ 128 / 2 ^ (bit_len ?m - 53)"
    unfolding dbl_ulp_def m by simp
  also have "\<dots> = of_int (int (n * 2 ^ i))"
  proof -
    have "(2 :: rat) ^ j = 2 ^ (bit_len ?m - 53) * 2 ^ i" by (subst i) (rule power_add)
    then show ?thesis unfolding assms(1) by simp
  qed
  finally have q: "x / dbl_ulp x = of_int (int (n * 2 ^ i))" .
  then have "round_half_even (x / dbl_ulp x) = int (n * 2 ^ i)"
    by (simp only: round_half_even_int)
  then have "dbl_round x = x / dbl_ulp x * dbl_ulp x"
    using q by (simp only: dbl_round_def)
  then show ?thesis using dbl_ulp_pos [of x] by simp
qed

lemma dbl_round_nat: "n < 2 ^ 53 \<Longrightarrow> dbl_round (of_nat n) = of_nat n"
  by (rule dbl_round_exact [of _ n 128]) simp_all

lemma dbl_round_half: "n < 2 ^ 53 \<Longrightarrow> dbl_round (of_nat n / 2) = of_nat n / 2"
  by (rule dbl_round_exact [of _ n 127]) simp_all

lemma dbl_round_quarter: "n < 2 ^ 53 \<Longrightarrow> dbl_round (of_nat n / 4) = of_nat n / 4"
  by (rule dbl_round_exact [of _ n 126]) simp_all

text \<open>
  The ceiling of a rounded quotient of integers is the ceiling of the quotient when the
  dividend is too small for the rounding error to reach the next integer.
\<close>

lemma ceiling_dbl_round:
  assumes "0 < d" and "0 < a" and "a < 2 ^ 53" and "d < 2 ^ 53"
  shows "\<lceil>dbl_round (of_nat a / of_nat d)\<rceil> = \<lceil>of_nat a / of_nat d :: rat\<rceil>"
proof -
  define q :: rat where "q = of_nat a / of_nat d"
  define c where "c = \<lceil>q\<rceil>"
  have d: "0 < (of_nat d :: rat)" using assms(1) by simp
  have "of_nat d \<le> (2 ^ 53 :: rat)" using assms(4)
    by (metis less_imp_le of_nat_le_iff of_nat_numeral of_nat_power)
  then have "1 / 2 ^ 53 \<le> (1 / of_nat d :: rat)" using d by (simp add: frac_le)
  also have "\<dots> \<le> q" using assms d by (simp add: q_def divide_right_mono)
  finally have "1 / 2 ^ 76 \<le> q" by simp
  then have err: "\<bar>dbl_round q - q\<bar> \<le> q / 2 ^ 53" by (rule dbl_round_error)
  have aq: "of_nat a = q * of_nat d" using d by (simp add: q_def)
  have "(of_nat a :: rat) < 2 ^ 53" using assms(3) by (metis of_nat_less_iff of_nat_numeral of_nat_power)
  then have small: "q / 2 ^ 53 < 1 / of_nat d" using d by (simp add: q_def field_simps)
  have cq: "q \<le> of_int c" "of_int c - 1 < q" unfolding c_def by (simp, linarith)
  have step: "of_int k + 1 / of_nat d \<le> q" if "of_int k < q" for k :: int
  proof -
    have "of_int (k * int d) < (of_int (int a) :: rat)"
      using that d aq by (simp add: mult_strict_right_mono)
    then have "k * int d + 1 \<le> int a" by (simp only: of_int_less_iff)
    then have "of_int (k * int d + 1) \<le> (of_int (int a) :: rat)" by (simp only: of_int_le_iff)
    then have "(of_int k + 1 / of_nat d) * of_nat d \<le> q * of_nat d"
      using d aq by (simp add: distrib_right)
    then show ?thesis using d by (simp only: mult_le_cancel_right_pos)
  qed
  have step': "q + 1 / of_nat d \<le> of_int k" if "q < of_int k" for k :: int
  proof -
    have "of_int (int a) < (of_int (k * int d) :: rat)"
      using that d aq by (simp add: mult_strict_right_mono)
    then have "int a + 1 \<le> k * int d" by (simp only: of_int_less_iff)
    then have "of_int (int a + 1) \<le> (of_int (k * int d) :: rat)" by (simp only: of_int_le_iff)
    then have "(q + 1 / of_nat d) * of_nat d \<le> of_int k * of_nat d"
      using d aq by (simp add: distrib_right)
    then show ?thesis using d by (simp only: mult_le_cancel_right_pos)
  qed
  have low: "of_int c - 1 < dbl_round q"
  proof -
    have "of_int (c - 1) < q" using cq(2) by simp
    from step [OF this] have "of_int c - 1 + 1 / of_nat d \<le> q" by simp
    with err small show ?thesis by linarith
  qed
  have high: "dbl_round q \<le> of_int c"
  proof (cases "q = of_int c")
    case True
    have "0 < q" using assms d by (simp add: q_def)
    then have "0 < c" using True by simp
    moreover have "q \<le> of_nat a" using d assms(1,2) by (simp add: q_def field_simps)
    then have "of_int c \<le> (of_int (int a) :: rat)" using True by simp
    then have "c \<le> int a" by (simp only: of_int_le_iff)
    ultimately have c: "nat c < 2 ^ 53" "of_int c = (of_nat (nat c) :: rat)" using assms(3) by linarith+
    show ?thesis unfolding True c(2) by (simp only: dbl_round_nat [OF c(1)])
  next
    case False
    with cq(1) have "q < of_int c" by simp
    from step' [OF this] err small show ?thesis by linarith
  qed
  from low high have "\<lceil>dbl_round q\<rceil> = c" by (intro ceiling_unique) auto
  then show ?thesis by (simp add: c_def q_def)
qed

end
