(* ===== verification/Session.thy ===== *)
theory Session
  imports Services Double_Arith
begin

text \<open>
  The base class of the three session types (src/session.cpp), the timers a session owns
  (src/mnslp_timers.cpp), and the loop with which each of them sorts the objects it is asked
  to meter into those it installs and those it leaves to the next node. A timer is the number
  of the last timer message that was started, 0 when stopped. An operation of a session works
  on a pair of the session and the world.
\<close>

datatype session_type = St_Initiator | St_Forwarder | St_Receiver

datatype session_state = STATE_CLOSE | STATE_PENDING | STATE_METERING

record 'o session =
  s_id :: sid
  s_type :: session_type
  s_msn :: u32
  s_msg_hop_count :: u32
  s_rule :: "'o mt_policy_rule"

definition next_msg_sequence_number :: "('o, 'z) session_scheme \<Rightarrow> u32 \<times> ('o, 'z) session_scheme" where
  "next_msg_sequence_number s = (s_msn s + 1, s\<lparr>s_msn := s_msn s + 1\<rparr>)"

text \<open>The two checks throw (\<open>Some\<close>) or return.\<close>

definition check_lifetime :: "u32 \<Rightarrow> u32 \<Rightarrow> exc option" where
  "check_lifetime lifetime max_lifetime =
     (if lifetime > max_lifetime
      then Some (Override_Lifetime ''requested session lifetime too long''
                   sc_informational sigfail_lifetime_too_big)
      else None)"

definition check_authorization :: "('h, 'o, 'r, 'i) env \<Rightarrow> ('o, 'r) msg_event \<Rightarrow> exc option" where
  "check_authorization E e =
     (if \<not> e_is_authorized E e
      then Some (Request_Error ''authorization/authentication failed''
                   sc_permanent_failure fail_authentication_failed)
      else None)"

text \<open>The body of the \<open>try\<close> blocks that guard a request\<close>

definition check_preconditions :: "('h, 'o, 'r, 'i) env \<Rightarrow> ('o, 'r) msg_event \<Rightarrow> u32 \<Rightarrow> u32 \<Rightarrow> exc option" where
  "check_preconditions E e lifetime max_lifetime =
     (case check_lifetime lifetime max_lifetime of
        Some exc \<Rightarrow> Some exc
      | None \<Rightarrow> check_authorization E e)"

text \<open>
  How the handlers catch what the checks throw: a lifetime that is too long is replaced by
  the maximum, any other error is answered with its severity and code.
\<close>

datatype precheck = Proceed u32 | Refuse "u8 \<times> u8"

definition precheck :: "('h, 'o, 'r, 'i) env \<Rightarrow> ('o, 'r) msg_event \<Rightarrow> u32 \<Rightarrow> u32 \<Rightarrow> precheck" where
  "precheck E e lifetime max_lifetime =
     (case check_preconditions E e lifetime max_lifetime of
        None \<Rightarrow> Proceed lifetime
      | Some exc \<Rightarrow>
          (case as_request_error exc of
             Some codes \<Rightarrow> Refuse codes
           | None \<Rightarrow> Proceed max_lifetime))"

lemma precheck_eq:
  "precheck E e lifetime max_lifetime =
     (if max_lifetime < lifetime then Proceed max_lifetime
      else if e_is_authorized E e then Proceed lifetime
      else Refuse (sc_permanent_failure, fail_authentication_failed))"
  by (simp add: precheck_def check_preconditions_def check_lifetime_def check_authorization_def)

fun check_participating :: "session_type \<Rightarrow> u32 \<Rightarrow> bool" where
  "check_participating St_Initiator sme =
     (if sme = sme_all then True else if sme = sme_any then True
      else if sme = sme_first then True else if sme = sme_first_last then True else False)"
| "check_participating St_Forwarder sme =
     (if sme = sme_all then True else if sme = sme_any then True else False)"
| "check_participating St_Receiver sme =
     (if sme = sme_all then True else if sme = sme_any then True
      else if sme = sme_first_last then True else if sme = sme_last then True else False)"

section \<open>Sorting the objects of a request\<close>

text \<open>
  For each object: when this node takes part and the installer accepts the object, a copy
  goes into the rule under a fresh key, otherwise to the end of the missing objects.
\<close>

fun sort_objects :: "('h, 'o, 'r, 'i) env \<Rightarrow> bool \<Rightarrow> 'o mspec_object list \<Rightarrow> 'o mt_policy_rule \<Rightarrow>
    'o mspec_object list \<Rightarrow> ('o, 'r, 'i) world \<Rightarrow>
    'o mt_policy_rule \<times> 'o mspec_object list \<times> ('o, 'r, 'i) world" where
  "sort_objects E part [] rule missing w = (rule, missing, w)"
| "sort_objects E part (object # objects) rule missing w =
     (if part
      then (let (ok, w) = dispatcher_check E object w
            in if ok
               then sort_objects E part objects
                      (snd (rule_set_object (e_uuid E (w_tick w)) object rule)) missing
                      (w\<lparr>w_tick := Suc (w_tick w)\<rparr>)
               else sort_objects E part objects rule (missing @ [object]) w)
      else sort_objects E part objects rule (missing @ [object]) w)"

text \<open>The guarded removal of installed rules that every teardown path contains\<close>

definition uninstall :: "('h, 'o, 'r, 'i) env \<Rightarrow> ('o, 'z) session_scheme \<Rightarrow> ('o, 'r, 'i) world \<Rightarrow>
    (exc, unit, ('o, 'z) session_scheme \<times> ('o, 'r, 'i) world) result" where
  "uninstall E s w =
     (if get_number_rule_keys (s_rule s) > 0
      then (case remove_policy_rules E (s_rule s) w of
              Ret u w' \<Rightarrow> Ret () (s, w')
            | Exn e w' \<Rightarrow> Exn e (s, w')
            | Abort \<Rightarrow> Abort
            | Undef \<Rightarrow> Undef)
      else Ret () (s, w))"

text \<open>\<open>install_policy_rules\<close> followed by the first use of its result\<close>

definition install :: "('h, 'o, 'r, 'i) env \<Rightarrow> ('o, 'z) session_scheme \<Rightarrow> ('o, 'r, 'i) world \<Rightarrow>
    (exc, 'o mt_policy_rule, ('o, 'z) session_scheme \<times> ('o, 'r, 'i) world) result" where
  "install E s w =
     (case install_policy_rules E (s_rule s) w of
        Ret result w' \<Rightarrow> deref result (\<lambda>result. Ret result (s, w'))
      | Exn e w' \<Rightarrow> Exn e (s, w')
      | Abort \<Rightarrow> Abort
      | Undef \<Rightarrow> Undef)"

lemma uninstall_Ret:
  assumes "uninstall E s w = Ret u (s', w')"
  shows "s' = s \<and> w_actions w' = w_actions w @
    (if get_number_rule_keys (s_rule s) > 0 then [Remove_Rules (s_rule s)] else [])"
proof (cases "ri_remove (e_installer E) (s_rule s) (w_installer (act (Remove_Rules (s_rule s)) w))")
  case (Ret r i)
  with assms show ?thesis
    by (cases r) (auto simp: uninstall_def remove_policy_rules_def act_def split: if_splits)
next
  case (Exn x i)
  with assms show ?thesis
    by (cases x) (auto simp: uninstall_def remove_policy_rules_def act_def split: if_splits)
qed (use assms in \<open>auto simp: uninstall_def remove_policy_rules_def act_def split: if_splits\<close>)

lemma install_Ret:
  assumes "install E s w = Ret r (s', w')"
  shows "s' = s \<and> w_actions w' = w_actions w @ [Install_Rules (s_rule s)]"
proof (cases "ri_install (e_installer E) (s_rule s) (w_installer w)")
  case (Exn x i)
  with assms show ?thesis by (cases x) (auto simp: install_def install_policy_rules_def)
qed (use assms in \<open>auto simp: install_def install_policy_rules_def act_def deref_eq_Ret\<close>)

section \<open>The objects are split, none is lost\<close>

lemma sort_objects_missing:
  "\<not> part \<Longrightarrow> sort_objects E part objects rule missing w = (rule, missing @ objects, w)"
  by (induction objects arbitrary: missing) auto

lemma sort_objects_wf:
  "rule_wf rule \<Longrightarrow> sort_objects E part objects rule missing w = (r, m, w') \<Longrightarrow> rule_wf r"
  by (induction E part objects rule missing w rule: sort_objects.induct)
    (auto simp: Let_def split: if_splits prod.splits)

lemma sort_objects_commands:
  "sort_objects E part objects rule missing w = (r, m, w') \<Longrightarrow> pr_rule_keys r = pr_rule_keys rule"
  by (induction E part objects rule missing w rule: sort_objects.induct)
    (auto simp: Let_def rule_set_object_def split: if_splits prod.splits)

lemma dispatcher_check_actions [sess_simps]:
  "dispatcher_check E ob w = (b, w') \<Longrightarrow> w_actions w' = w_actions w \<and> w_tick w' = w_tick w"
  by (auto simp: dispatcher_check_def split: if_splits prod.splits)

lemma sort_objects_actions:
  "sort_objects E part objects rule missing w = (r, m, w') \<Longrightarrow>
   w_actions w' = w_actions w \<and> w_tick w \<le> w_tick w'"
proof (induction objects arbitrary: rule missing w)
  case Nil
  then show ?case by simp
next
  case (Cons ob objects)
  obtain ok w1 where ok: "dispatcher_check E ob w = (ok, w1)" by fastforce
  have "w_actions w1 = w_actions w" "w_tick w1 = w_tick w"
    using dispatcher_check_actions [OF ok] by simp_all
  moreover note Cons.IH [of _ _ w] Cons.IH [of _ _ w1] Cons.IH [of _ _ "w1\<lparr>w_tick := Suc (w_tick w1)\<rparr>"]
  ultimately show ?case
    using Cons.prems ok by (simp split: if_splits) fastforce
qed

lemma sort_objects_subset:
  assumes "sort_objects E part objects rule missing w = (r, m, w')"
  shows "set m \<subseteq> set missing \<union> set objects \<and> length m \<le> length missing + length objects"
  using assms
proof (induction objects arbitrary: rule missing w)
  case Nil
  then show ?case by simp
next
  case (Cons ob objects)
  obtain ok w1 where ok: "dispatcher_check E ob w = (ok, w1)" by fastforce
  let ?r = "snd (rule_set_object (e_uuid E (w_tick w1)) ob rule)"
  note IH = Cons.IH [of ?r missing "w1\<lparr>w_tick := Suc (w_tick w1)\<rparr>"]
    Cons.IH [of rule "missing @ [ob]" w1] Cons.IH [of rule "missing @ [ob]" w]
  show ?case using Cons.prems ok IH by (auto split: if_splits)
qed

lemma sort_objects_list_ok:
  assumes "sort_objects E part objects rule [] w = (r, m, w')" and "mspec_list_ok objects"
  shows "mspec_list_ok m"
  using sort_objects_subset [OF assms(1)] assms(2) unfolding mspec_list_ok_def by auto

text \<open>What arrives from the network and from the API is well-formed.\<close>

definition event_wf :: "('h, 'o, 'r) event \<Rightarrow> bool" where
  "event_wf evt \<longleftrightarrow>
     (case ev_body evt of
        Api_Configure_Event c \<Rightarrow> mspec_list_ok (ac_mspec_objects c)
      | Msg_Event e \<Rightarrow> (\<forall>b. nm_body (me_msg e) = Some b \<longrightarrow> msg_wf b)
      | _ \<Rightarrow> True)"

text \<open>
  The next \<open>n\<close> UUIDs to be drawn are new: they differ from each other and from the keys in use.
  libuuid documents the UUIDs of \<open>uuid_generate_time_safe\<close> as unique.
\<close>

definition uuids_fresh :: "('h, 'o, 'r, 'i) env \<Rightarrow> nat \<Rightarrow> nat \<Rightarrow> 'o mt_policy_rule \<Rightarrow> bool" where
  "uuids_fresh E t n rule \<longleftrightarrow> distinct (map (e_uuid E) [t..<t + n]) \<and>
     (\<forall>i \<in> {t..<t + n}. e_uuid E i \<notin> fst ` set (pr_objects rule))"

lemma uuids_fresh_find:
  assumes "uuids_fresh E t (Suc n) rule"
  shows "smap_find mspec_rule_key_less (e_uuid E t) (pr_objects rule) = None"
proof (rule ccontr)
  assume "smap_find mspec_rule_key_less (e_uuid E t) (pr_objects rule) \<noteq> None"
  then obtain v where "(e_uuid E t, v) \<in> set (pr_objects rule)"
    using smap_find_in [of mspec_rule_key_less "e_uuid E t" "pr_objects rule"]
    by (auto simp: equiv_key_eq)
  then have "e_uuid E t \<in> fst ` set (pr_objects rule)" by force
  with assms show False by (simp add: uuids_fresh_def)
qed

lemma uuids_fresh_less: "uuids_fresh E t (Suc n) rule \<Longrightarrow> uuids_fresh E t n rule"
  by (simp add: uuids_fresh_def)

lemma uuids_fresh_step:
  assumes "uuids_fresh E t (Suc n) rule"
  shows "uuids_fresh E (Suc t) n (snd (rule_set_object (e_uuid E t) ob rule))"
proof -
  have "fst ` set (pr_objects (snd (rule_set_object (e_uuid E t) ob rule))) \<subseteq>
      insert (e_uuid E t) (fst ` set (pr_objects rule))"
    using keys_smap_set [of mspec_rule_key_less "e_uuid E t" ob "pr_objects rule"]
    by (auto simp: rule_set_object_def smap_insert_def split: option.splits)
  moreover have "[t..<t + Suc n] = t # [Suc t..<Suc t + n]" by (subst upt_conv_Cons) simp_all
  then have "distinct (map (e_uuid E) [Suc t..<Suc t + n])"
    and nin: "e_uuid E t \<notin> e_uuid E ` {Suc t..<Suc t + n}"
    using assms unfolding uuids_fresh_def by (auto simp del: upt_Suc)
  moreover from nin have "\<forall>i \<in> {Suc t..<Suc t + n}. e_uuid E i \<noteq> e_uuid E t"
    by (metis image_eqI)
  moreover have "\<forall>i \<in> {Suc t..<Suc t + n}. e_uuid E i \<notin> fst ` set (pr_objects rule)"
    using assms unfolding uuids_fresh_def by simp
  ultimately show ?thesis unfolding uuids_fresh_def by blast
qed

lemma sort_objects_count:
  assumes "rule_wf rule" and "uuids_fresh E (w_tick w) (length objects) rule"
    and "sort_objects E part objects rule missing w = (r, m, w')"
  shows "get_number_mspec_objects r + length m =
    get_number_mspec_objects rule + length missing + length objects"
  using assms
proof (induction objects arbitrary: rule missing w)
  case Nil
  then show ?case by simp
next
  case (Cons ob objects)
  obtain ok w1 where ok: "dispatcher_check E ob w = (ok, w1)" by fastforce
  have t: "w_tick w1 = w_tick w" using ok by (simp add: sess_simps)
  have fresh: "uuids_fresh E (w_tick w) (Suc (length objects)) rule" using Cons.prems(2) by simp
  let ?r = "snd (rule_set_object (e_uuid E (w_tick w1)) ob rule)"
  show ?case
  proof (cases "part \<and> ok")
    case True
    have n: "get_number_mspec_objects ?r = Suc (get_number_mspec_objects rule)"
      unfolding t by (rule rule_set_object_fresh(1) [OF Cons.prems(1) uuids_fresh_find [OF fresh]])
    have "uuids_fresh E (w_tick (w1\<lparr>w_tick := Suc (w_tick w1)\<rparr>)) (length objects) ?r"
      using t uuids_fresh_step [OF fresh, of ob] by simp
    moreover have "sort_objects E part objects ?r missing (w1\<lparr>w_tick := Suc (w_tick w1)\<rparr>) = (r, m, w')"
      using Cons.prems(3) ok True by simp
    ultimately show ?thesis
      using Cons.IH [of ?r "w1\<lparr>w_tick := Suc (w_tick w1)\<rparr>" missing] Cons.prems(1) n by simp
  next
    case False
    have "uuids_fresh E (w_tick w1) (length objects) rule" "uuids_fresh E (w_tick w) (length objects) rule"
      using uuids_fresh_less [OF fresh] t by simp_all
    then show ?thesis
      using Cons.IH [of rule w "missing @ [ob]"] Cons.IH [of rule w1 "missing @ [ob]"]
        Cons.prems ok False by (auto split: if_splits)
  qed
qed

section \<open>What the environment guarantees\<close>

text \<open>
  The installer keeps its contract and no running timer has the number 0 that means stopped.
\<close>

locale session_env =
  rule_installer "ri_install (e_installer E)" "ri_remove (e_installer E)"
  for E :: "('h, 'o, 'r, 'i) env" +
  assumes timer_id_pos: "0 < e_timer_id E n"
begin

lemma install_outcome_wf:
  assumes "rule_wf (s_rule s)"
  shows "(\<exists>r w'. install E s w = Ret r (s, w') \<and> rule_wf r) \<or>
    (\<exists>m sv c w'. install E s w = Exn (Policy_Rule_Installer_Error m sv c) (s, w'))"
  using install_outcome [OF assms, of "w_installer (act (Install_Rules (s_rule s)) w)"]
  by (auto simp: install_def install_policy_rules_def act_def)

lemma uninstall_outcome:
  assumes "rule_wf (s_rule s)"
  shows "(\<exists>w'. uninstall E s w = Ret () (s, w')) \<or>
    (\<exists>m sv c w'. uninstall E s w = Exn (Policy_Rule_Installer_Error m sv c) (s, w'))"
proof (cases "get_number_rule_keys (s_rule s) > 0")
  case True
  from remove_outcome [OF assms, of "w_installer (act (Remove_Rules (s_rule s)) w)"] show ?thesis
  proof (elim disjE exE)
    fix r' j
    assume "ri_remove (e_installer E) (s_rule s) (w_installer (act (Remove_Rules (s_rule s)) w)) = Ret (Some r') j"
    with True show ?thesis
      by (cases "get_number_rule_keys r' = get_number_rule_keys (s_rule s)")
        (auto simp: uninstall_def remove_policy_rules_def act_def)
  next
    fix m sv c j
    assume "ri_remove (e_installer E) (s_rule s) (w_installer (act (Remove_Rules (s_rule s)) w)) =
      Exn (Policy_Rule_Installer_Error m sv c) j"
    then show ?thesis by (auto simp: uninstall_def remove_policy_rules_def act_def)
  qed
qed (simp add: uninstall_def)

end

text \<open>The environment of a daemon that uses the NOP installer\<close>

definition daemon_env :: "(mspec_rule_key \<Rightarrow> string) \<Rightarrow> ('h, 'r) mri_ops \<Rightarrow> mnslp_config \<Rightarrow>
    (nat \<Rightarrow> mspec_rule_key) \<Rightarrow> (nat \<Rightarrow> nat) \<Rightarrow> (nat \<Rightarrow> u32 option) \<Rightarrow> (nat \<Rightarrow> sid) \<Rightarrow>
    ('h, 'o, 'r, 'i) env" where
  "daemon_env to_str M conf uuids rands randoms sids =
     \<lparr>e_mri = M, e_config = conf, e_installer = nop_installer to_str,
      e_is_authorized = dispatcher_is_authorized, e_uuid = uuids, e_timer_id = Suc,
      e_rand = rands, e_random = randoms, e_session_id = sids\<rparr>"

lemma daemon_env_installer [simp]:
  "ri_install (e_installer (daemon_env to_str M conf uuids rands randoms sids)) = nop_install to_str"
  "ri_remove (e_installer (daemon_env to_str M conf uuids rands randoms sids)) = nop_remove"
  "e_timer_id (daemon_env to_str M conf uuids rands randoms sids) = Suc"
  by (simp_all add: daemon_env_def nop_installer_def)

interpretation nop_daemon: session_env "daemon_env to_str M conf uuids rands randoms sids"
  by (intro session_env.intro session_env_axioms.intro; simp only: daemon_env_installer)
    (rule nop.rule_installer_axioms)

section \<open>A concrete environment\<close>

text \<open>
  The parameters instantiated for runs on concrete inputs: an MRI is the record of its fields
  with numbers as addresses, a metering object is a number, all random values are constant
  but the session IDs, timers and UUIDs, which count.
\<close>

definition ex_mri :: "(nat, nat mri_fields) mri_ops" where
  "ex_mri = \<lparr>mri_new_pathcoupled = (\<lambda>f. f), mri_is_pathcoupled = (\<lambda>r. True),
     mri_pc_fields = (\<lambda>r. r), mri_invert_direction = (\<lambda>r. r\<lparr>f_downstream := \<not> f_downstream r\<rparr>)\<rparr>"

definition ex_env :: "(nat, nat, nat mri_fields, unit) env" where
  "ex_env = daemon_env (\<lambda>k. ''key'') ex_mri default_config of_nat (\<lambda>n. 500) (\<lambda>n. Some 7)
     (\<lambda>n. Session_Id (of_nat n) 0 0 0)"

lemma ex_session_env: "session_env ex_env"
  unfolding ex_env_def by (rule nop_daemon.session_env_axioms)

definition ex_route :: "bool \<Rightarrow> nat mri_fields" where
  "ex_route down = \<lparr>f_sourceaddress = 1, f_sourceprefix = 32, f_sourceport = 10, f_destaddress = 2,
     f_destprefix = 32, f_destport = 20, f_protocol = 17, f_flowlabel = 0, f_ds_field = 0, f_spi = 0,
     f_downstream = down\<rparr>"

definition ex_object :: "nat \<Rightarrow> nat mspec_object" where
  "ex_object n = \<lparr>ms_hdr = \<lparr>oh_object_type = ot_mnslp_ipfix_message, oh_unique = False,
     oh_treatment = Tr_Mandatory\<rparr>, ms_body = n\<rparr>"

definition ex_api_configure :: "(nat, nat) api_configure_event" where
  "ex_api_configure = \<lparr>ac_source_addr = 1, ac_dest_addr = 2, ac_source_port = 10, ac_dest_port = 20,
     ac_protocol = 17, ac_mspec_objects = [ex_object 1, ex_object 2], ac_session_lifetime = 30,
     ac_sel_met_entities = sme_last, ac_has_return_queue = True\<rparr>"

definition ex_world :: "(nat, nat mri_fields, unit) world" where
  "ex_world = \<lparr>w_actions = [], w_installer = (), w_tick = 0\<rparr>"

section \<open>Properties\<close>

text \<open>
  The objects of a request are split: each one goes either into the rule of this node or
  into the list for the next node, and as long as the UUIDs drawn are new none is lost. A
  node that does not take part leaves all of them, in order; one that meters and whose
  installer accepts everything keeps all of them.
\<close>

theorem sort_objects_split:
  assumes "rule_wf rule" and "uuids_fresh E (w_tick w) (length objects) rule"
    and "sort_objects E part objects rule [] w = (r, missing, w')"
  shows "get_number_mspec_objects r + length missing = get_number_mspec_objects rule + length objects \<and>
    set missing \<subseteq> set objects \<and> rule_wf r \<and> w_actions w' = w_actions w \<and>
    (\<not> part \<longrightarrow> r = rule \<and> missing = objects) \<and>
    (part \<and> cf_is_ms_meter (e_config E) \<and> (\<forall>ob i. fst (ri_check (e_installer E) ob i)) \<longrightarrow> missing = [])"
proof -
  have "sort_objects E True objs rl ms v = (r', ms', v') \<Longrightarrow> cf_is_ms_meter (e_config E) \<Longrightarrow>
      (\<forall>ob i. fst (ri_check (e_installer E) ob i)) \<Longrightarrow> ms' = ms" for objs rl ms v r' ms' v'
  proof (induction objs arbitrary: rl v)
    case Nil
    then show ?case by simp
  next
    case (Cons ob objs)
    obtain ok v1 where ok: "dispatcher_check E ob v = (ok, v1)" by fastforce
    have "ok = fst (dispatcher_check E ob v)" using ok by simp
    then have "ok" using Cons.prems(2,3) by (simp add: dispatcher_check_def split_beta)
    with Cons ok show ?case by simp
  qed
  then show ?thesis
    using sort_objects_count [OF assms] sort_objects_subset [OF assms(3)] sort_objects_wf [OF assms(1,3)]
      sort_objects_actions [OF assms(3)] sort_objects_missing [of part E objects rule "[]" w] assms(3)
    by (cases part) auto
qed

theorem sort_objects_split_witness:
  "fst (snd (sort_objects ex_env True [ex_object 1, ex_object 2] new_rule [] ex_world)) = []"
proof -
  obtain r m w where so: "sort_objects ex_env True [ex_object 1, ex_object 2] new_rule [] ex_world = (r, m, w)"
    by (metis prod.exhaust_sel)
  have "rule_wf (new_rule :: nat mt_policy_rule)" by simp
  moreover have "uuids_fresh ex_env (w_tick ex_world) (length [ex_object 1, ex_object 2]) new_rule"
    by (simp add: uuids_fresh_def ex_env_def daemon_env_def ex_world_def new_rule_def)
  ultimately have "m = []"
    using sort_objects_split [OF _ _ so]
    by (simp add: ex_env_def daemon_env_def default_config_def nop_installer_def nop_check_def)
  with so show ?thesis by simp
qed

text \<open>
  Which nodes meter: the initiator for all, any, first and first-last, the forwarder for
  all and any, the receiver for all, any, last and first-last, and nobody for other values.
\<close>

theorem check_participating_iff:
  "(check_participating St_Initiator sme \<longleftrightarrow> sme \<in> {sme_all, sme_any, sme_first, sme_first_last}) \<and>
   (check_participating St_Forwarder sme \<longleftrightarrow> sme \<in> {sme_all, sme_any}) \<and>
   (check_participating St_Receiver sme \<longleftrightarrow> sme \<in> {sme_all, sme_any, sme_last, sme_first_last})"
  by auto

text \<open>
  A request whose lifetime is above the maximum is not checked for authorization: the
  exception of the lifetime check leaves the block before, its handler replaces the lifetime
  by the maximum, and the request proceeds whoever sent it.
\<close>

theorem precheck_skips_authorization:
  assumes "maximum < lifetime"
  shows "precheck E e lifetime maximum = Proceed maximum"
  using assms by (simp add: precheck_eq)

theorem precheck_skips_authorization_witness:
  "precheck (ex_env\<lparr>e_is_authorized := \<lambda>e. False\<rparr>) \<lparr>me_msg = \<lparr>nm_sid = Session_Id 1 2 3 4, nm_body = None,
     nm_mri = ex_route True, nm_sii_handle = 0\<rparr>, me_for_this_node = True\<rparr> 61 60 = Proceed 60"
  by (rule precheck_skips_authorization) simp

end
