(* ===== verification/NI_Session.thy ===== *)
theory NI_Session
  imports Session
begin

text \<open>
  The initiator session (src/ni_session.cpp, include/ni_session.h): it sends the CONFIGURE an
  API request asks for, retransmits it until a response arrives or the retries are used up,
  installs its own rules when the path has accepted, and keeps the session alive with
  REFRESH messages. Pointers that may be NULL are options: the getters of the two stored
  messages and of the routing information assert that they are set.
\<close>

record ('o, 'r) ni_session = "'o session" +
  ni_state :: session_state
  ni_routing_info :: "'r option"
  ni_last_configure_msg :: "('o, 'r) ntlp_msg option"
  ni_last_refresh_msg :: "('o, 'r) ntlp_msg option"
  ni_lifetime :: u32
  ni_refresh_interval :: u32
  ni_response_timeout :: u32
  ni_configure_counter :: u32
  ni_refresh_counter :: u32
  ni_max_retries :: u32
  ni_response_timer :: nat
  ni_refresh_timer :: nat

type_synonym ('o, 'r, 'i) ni_pair = "('o, 'r) ni_session \<times> ('o, 'r, 'i) world"

definition new_ni_session :: "sid \<Rightarrow> mnslp_config \<Rightarrow> u32 \<Rightarrow> ('o, 'r) ni_session" where
  "new_ni_session sid conf random =
     \<lparr>s_id = sid, s_type = St_Initiator, s_msn = random,
      s_msg_hop_count = cf_ni_msg_hop_count conf, s_rule = new_rule,
      ni_state = STATE_CLOSE, ni_routing_info = None, ni_last_configure_msg = None,
      ni_last_refresh_msg = None, ni_lifetime = 0, ni_refresh_interval = 20,
      ni_response_timeout = cf_ni_response_timeout conf, ni_configure_counter = 0,
      ni_refresh_counter = 0, ni_max_retries = cf_ni_max_retries conf,
      ni_response_timer = stopped_timer, ni_refresh_timer = stopped_timer\<rparr>"

definition ni_is_final :: "('o, 'r) ni_session \<Rightarrow> bool" where
  "ni_is_final s \<longleftrightarrow> ni_state s = STATE_CLOSE"

section \<open>Intervals\<close>

text \<open>A \<open>double\<close> converted to a 32-bit integer type; \<open>None\<close>: it is out of range.\<close>

definition to_uint32 :: "int \<Rightarrow> u32 option" where
  "to_uint32 c = (if 0 \<le> c \<and> c < 2 ^ 32 then Some (word_of_int c) else None)"

definition to_int32 :: "int \<Rightarrow> u32 option" where
  "to_int32 c = (if - (2 ^ 31) \<le> c \<and> c < 2 ^ 31 then Some (word_of_int c) else None)"

definition ni_refresh_seconds :: "u32 \<Rightarrow> u32 \<Rightarrow> u32 option" where
  "ni_refresh_seconds lifetime max_retries =
     to_uint32 \<lceil>dbl_div (of_nat (unat lifetime))
                 (dbl_mul (dbl_add (of_nat (unat max_retries)) (1 / 2)) (3 / 2))\<rceil>"

definition ni_response_seconds :: "nat \<Rightarrow> u32 \<Rightarrow> u32 option" where
  "ni_response_seconds random r =
     to_int32 \<lceil>dbl_mul (dbl_add (dbl_div (of_nat (random mod 1000)) 1000) (1 / 2))
                 (of_nat (unat r))\<rceil>"

definition cal_refresh_interval :: "('o, 'r) ni_session \<Rightarrow> ('o, 'r) ni_session" where
  "cal_refresh_interval s = s\<lparr>ni_refresh_interval := ni_lifetime s * 2 div 3\<rparr>"

section \<open>Messages\<close>

definition ni_configure :: "('h, 'o) api_configure_event \<Rightarrow> u32 \<Rightarrow> u32 \<Rightarrow> u32 \<Rightarrow>
    'o mspec_object list \<Rightarrow> 'o mnslp_msg" where
  "ni_configure e lifetime msn hops missing_objects =
     (let configure = new_msg Mnslp_Configure;
          configure = (if lifetime \<le> ac_session_lifetime e
                       then configure_set_session_lifetime lifetime configure
                       else configure_set_session_lifetime (ac_session_lifetime e) configure);
          configure = configure_set_msg_sequence_number msn configure;
          configure = configure_set_selection_metering_entities (ac_sel_met_entities e) configure;
          configure = configure_set_message_hop_count hops configure
      in fold configure_set_mspec_object missing_objects configure)"

definition ni_build_configure_message :: "('h, 'o) api_configure_event \<Rightarrow> 'o mspec_object list \<Rightarrow>
    ('o, 'r, 'i) ni_pair \<Rightarrow> (exc, ('o, 'r) ntlp_msg, ('o, 'r, 'i) ni_pair) result" where
  "ni_build_configure_message e missing_objects = (\<lambda>(s, w).
     assert_some (ni_routing_info s) (\<lambda>mri.
       let (msn, s) = next_msg_sequence_number s
       in Ret \<lparr>nm_sid = s_id s,
               nm_body = Some (ni_configure e (ni_lifetime s) msn (s_msg_hop_count s) missing_objects),
               nm_mri = mri, nm_sii_handle = 0\<rparr> (s, w)))"

definition ni_refresh :: "u32 \<Rightarrow> u32 \<Rightarrow> 'o mnslp_msg" where
  "ni_refresh lifetime msn =
     refresh_set_msg_sequence_number msn
       (refresh_set_session_lifetime lifetime (new_msg Mnslp_Refresh))"

definition ni_build_refresh_message :: "('o, 'r, 'i) ni_pair \<Rightarrow>
    (exc, ('o, 'r) ntlp_msg, ('o, 'r, 'i) ni_pair) result" where
  "ni_build_refresh_message = (\<lambda>(s, w).
     assert_some (ni_routing_info s) (\<lambda>mri.
       let (msn, s) = next_msg_sequence_number s
       in Ret \<lparr>nm_sid = s_id s, nm_body = Some (ni_refresh (ni_lifetime s) msn),
               nm_mri = mri, nm_sii_handle = 0\<rparr> (s, w)))"

definition ni_start_response_timer :: "('h, 'o, 'r, 'i) env \<Rightarrow> ('o, 'r, 'i) ni_pair \<Rightarrow>
    ('o, 'r, 'i) ni_pair" where
  "ni_start_response_timer E = (\<lambda>(s, w).
     let (i, w) = start_timer E (s_id s) (ni_response_timeout s) w
     in (s\<lparr>ni_response_timer := i\<rparr>, w))"

definition ni_start_refresh_timer :: "('h, 'o, 'r, 'i) env \<Rightarrow> ('o, 'r, 'i) ni_pair \<Rightarrow>
    ('o, 'r, 'i) ni_pair" where
  "ni_start_refresh_timer E = (\<lambda>(s, w).
     let (i, w) = start_timer E (s_id s) (ni_refresh_interval s) w
     in (s\<lparr>ni_refresh_timer := i\<rparr>, w))"

text \<open>\<open>d->send_message(m->copy())\<close>\<close>

definition send_copy :: "('o, 'r) ntlp_msg \<Rightarrow> 's \<times> ('o, 'r, 'i) world \<Rightarrow>
    (exc, unit, 's \<times> ('o, 'r, 'i) world) result" where
  "send_copy m = (\<lambda>(s, w). deref (ntlp_copy m) (\<lambda>c. Ret () (s, send_message c w)))"

section \<open>Handlers\<close>

definition ni_setup_mri :: "('h, 'r) mri_ops \<Rightarrow> ('h, 'o) api_configure_event \<Rightarrow> 'r" where
  "ni_setup_mri M e = mri_new_pathcoupled M
     \<lparr>f_sourceaddress = ac_source_addr e, f_sourceprefix = 32, f_sourceport = ac_source_port e,
      f_destaddress = ac_dest_addr e, f_destprefix = 32, f_destport = ac_dest_port e,
      f_protocol = ac_protocol e, f_flowlabel = 0, f_ds_field = 0, f_spi = 0, f_downstream = True\<rparr>"

text \<open>Returns the objects that could not be placed here.\<close>

definition ni_setup_session :: "('h, 'o, 'r, 'i) env \<Rightarrow> ('h, 'o) api_configure_event \<Rightarrow>
    ('o, 'r, 'i) ni_pair \<Rightarrow> (exc, 'o mspec_object list, ('o, 'r, 'i) ni_pair) result" where
  "ni_setup_session E e = (\<lambda>(s, w).
     let s = s\<lparr>ni_routing_info := Some (ni_setup_mri (e_mri E) e)\<rparr>;
         s = (if ac_session_lifetime e \<noteq> 0 then s\<lparr>ni_lifetime := ac_session_lifetime e\<rparr> else s)
     in deref (ni_refresh_seconds (ni_lifetime s) (ni_max_retries s)) (\<lambda>r.
          if \<not> r > 0 then Abort
          else
            let s = s\<lparr>ni_refresh_interval := r\<rparr>
            in deref (ni_response_seconds (e_rand E (w_tick w)) r) (\<lambda>t.
                 let s = s\<lparr>ni_response_timeout := t\<rparr>;
                     w = w\<lparr>w_tick := Suc (w_tick w)\<rparr>;
                     (rule, missing, w) =
                       sort_objects E (check_participating (s_type s) (ac_sel_met_entities e))
                         (ac_mspec_objects e) (s_rule s) [] w
                 in Ret missing (s\<lparr>s_rule := rule\<rparr>, w))))"

definition ni_handle_state_close :: "('h, 'o, 'r, 'i) env \<Rightarrow> ('h, 'o, 'r) event \<Rightarrow>
    ('o, 'r, 'i) ni_pair \<Rightarrow> (exc, session_state, ('o, 'r, 'i) ni_pair) result" where
  "ni_handle_state_close E evt p =
     (case as_api_configure (ev_body evt) of
        Some e \<Rightarrow>
          r_bind (ni_setup_session E e p) (\<lambda>missing_objects p.
          r_bind (ni_build_configure_message e missing_objects p) (\<lambda>m (s, w).
          let s = s\<lparr>ni_last_configure_msg := Some m\<rparr>
          in r_bind (send_copy m (s, w)) (\<lambda>_ p.
             let (s, w) = ni_start_response_timer E p;
                 w = (if ac_has_return_queue e then act (Return_Sid (s_id s)) w else w)
             in Ret STATE_PENDING (s, w))))
      | None \<Rightarrow> Ret STATE_CLOSE p)"

text \<open>A response timeout while the CONFIGURE is outstanding\<close>

definition ni_pending_timeout :: "('h, 'o, 'r, 'i) env \<Rightarrow>
    ('o, 'r, 'i) ni_pair \<Rightarrow> (exc, session_state, ('o, 'r, 'i) ni_pair) result" where
  "ni_pending_timeout E = (\<lambda>(s, w).
     if ni_configure_counter s < ni_max_retries s
     then
       let s = s\<lparr>ni_configure_counter := ni_configure_counter s + 1\<rparr>
       in assert_some (ni_last_configure_msg s) (\<lambda>m.
            r_bind (send_copy m (s, w)) (\<lambda>_ p.
              Ret STATE_PENDING (ni_start_response_timer E p)))
     else Ret STATE_CLOSE (s, report_async_event ''got no response for our Configure'' w))"

text \<open>
  A successful response to the CONFIGURE. When fewer objects were installed than the rule
  has, the session sends its teardown, and control reaches the end of the function, which
  has no \<open>return\<close> there.
\<close>

definition ni_pending_success :: "('h, 'o, 'r, 'i) env \<Rightarrow> 'o mnslp_msg \<Rightarrow>
    ('o, 'r, 'i) ni_pair \<Rightarrow> (exc, session_state, ('o, 'r, 'i) ni_pair) result" where
  "ni_pending_success E resp = (\<lambda>(s, w).
     let w = report_async_event ''CONFIGURE session initiated'' w;
         s = s\<lparr>ni_response_timer := stopped_timer\<rparr>;
         s = (if response_get_session_lifetime resp \<noteq> ni_lifetime s
              then cal_refresh_interval (s\<lparr>ni_lifetime := response_get_session_lifetime resp\<rparr>)
              else s);
         (s, w) = ni_start_refresh_timer E (s, w)
     in r_bind (install E s w) (\<lambda>result (s, w).
          if get_number_mspec_objects result = get_number_mspec_objects (s_rule s)
          then Ret STATE_METERING (s\<lparr>s_rule := result, ni_configure_counter := 0\<rparr>, w)
          else
            let s = s\<lparr>ni_lifetime := 0, ni_last_configure_msg := None, s_rule := result\<rparr>
            in r_bind (uninstall E s w) (\<lambda>_ p.
               r_bind (ni_build_refresh_message p) (\<lambda>m (s, w).
               let w = send_message m w in Undef))))"

definition ni_pending_response :: "('h, 'o, 'r, 'i) env \<Rightarrow> ('h, 'o, 'r) event \<Rightarrow>
    ('o, 'r) ntlp_msg \<Rightarrow> ('o, 'r, 'i) ni_pair \<Rightarrow> (exc, session_state, ('o, 'r, 'i) ni_pair) result" where
  "ni_pending_response E evt prev = (\<lambda>(s, w).
     deref (as_msg_event (ev_body evt)) (\<lambda>e.
     deref (body_of_class Mnslp_Response (me_msg e)) (\<lambda>resp.
     deref (body_of_class Mnslp_Configure prev) (\<lambda>c.
       if \<not> is_response_to_configure resp c then Ret STATE_PENDING (s, w)
       else if response_is_success resp then ni_pending_success E resp (s, w)
       else Ret STATE_CLOSE (s, report_async_event ''cannot initiate Configure session'' w)))))"

definition ni_handle_state_pending :: "('h, 'o, 'r, 'i) env \<Rightarrow> ('h, 'o, 'r) event \<Rightarrow>
    ('o, 'r, 'i) ni_pair \<Rightarrow> (exc, session_state, ('o, 'r, 'i) ni_pair) result" where
  "ni_handle_state_pending E evt = (\<lambda>(s, w).
     if is_timer_of evt (ni_response_timer s) then ni_pending_timeout E (s, w)
     else if is_no_next_node_found_event evt then Ret STATE_CLOSE (s, w)
     else if is_api_teardown evt
     then
       let s = s\<lparr>ni_lifetime := 0, ni_last_configure_msg := None\<rparr>
       in r_bind (uninstall E s w) (\<lambda>_ p.
          r_bind (ni_build_refresh_message p) (\<lambda>m (s, w).
          Ret STATE_CLOSE (s, send_message m w)))
     else if is_timer evt then Ret STATE_PENDING (s, w)
     else
       assert_some (ni_last_configure_msg s) (\<lambda>prev.
       assert_some (is_mnslp_response evt prev) (\<lambda>matches.
         if matches then ni_pending_response E evt prev (s, w)
         else Ret STATE_PENDING (s, w))))"

definition ni_metering_response :: "('h, 'o, 'r, 'i) env \<Rightarrow> ('h, 'o, 'r) event \<Rightarrow>
    ('o, 'r) ntlp_msg \<Rightarrow> ('o, 'r, 'i) ni_pair \<Rightarrow> (exc, session_state, ('o, 'r, 'i) ni_pair) result" where
  "ni_metering_response E evt prev = (\<lambda>(s, w).
     deref (as_msg_event (ev_body evt)) (\<lambda>e.
     deref (body_of_class Mnslp_Response (me_msg e)) (\<lambda>resp.
     deref (body_of_class Mnslp_Refresh prev) (\<lambda>c.
       if \<not> is_response_to_refresh resp c then Ret STATE_METERING (s, w)
       else if response_is_success resp
       then
         let w = report_async_event ''REFRESH successful'' w;
             s = s\<lparr>ni_response_timer := stopped_timer\<rparr>;
             (s, w) = ni_start_refresh_timer E (s, w)
         in Ret STATE_METERING (s\<lparr>ni_refresh_counter := 0\<rparr>, w)
       else
         r_bind (uninstall E s w) (\<lambda>_ (s, w).
           Ret STATE_CLOSE (s, report_async_event ''REFRESH session died'' w))))))"

definition ni_handle_state_metering :: "('h, 'o, 'r, 'i) env \<Rightarrow> ('h, 'o, 'r) event \<Rightarrow>
    ('o, 'r, 'i) ni_pair \<Rightarrow> (exc, session_state, ('o, 'r, 'i) ni_pair) result" where
  "ni_handle_state_metering E evt = (\<lambda>(s, w).
     if is_timer_of evt (ni_refresh_timer s)
     then
       r_bind (ni_build_refresh_message (s, w)) (\<lambda>m (s, w).
       r_bind (send_copy m (s\<lparr>ni_last_refresh_msg := Some m\<rparr>, w)) (\<lambda>_ (s, w).
       Ret STATE_METERING (ni_start_response_timer E (s\<lparr>ni_refresh_counter := 0\<rparr>, w))))
     else if is_timer_of evt (ni_response_timer s)
     then
       if ni_refresh_counter s < ni_max_retries s
       then
         let s = s\<lparr>ni_refresh_counter := ni_refresh_counter s + 1\<rparr>
         in assert_some (ni_last_refresh_msg s) (\<lambda>m.
            r_bind (send_copy m (s, w)) (\<lambda>_ p.
            Ret STATE_METERING (ni_start_response_timer E p)))
       else
         r_bind (uninstall E s w) (\<lambda>_ (s, w).
           Ret STATE_CLOSE (s, report_async_event ''got no response to our REFRESH message'' w))
     else if is_api_teardown evt
     then
       let s = s\<lparr>ni_lifetime := 0, ni_last_refresh_msg := None\<rparr>
       in r_bind (uninstall E s w) (\<lambda>_ p.
          r_bind (ni_build_refresh_message p) (\<lambda>m (s, w).
          Ret STATE_CLOSE (s, send_message m w)))
     else if is_timer evt then Ret STATE_METERING (s, w)
     else
       assert_some (ni_last_refresh_msg s) (\<lambda>prev.
       assert_some (is_mnslp_response evt prev) (\<lambda>matches.
         if matches then ni_metering_response E evt prev (s, w)
         else Ret STATE_METERING (s, w))))"

text \<open>The transition function assigns the state the handler returns.\<close>

fun ni_handler :: "session_state \<Rightarrow> ('h, 'o, 'r, 'i) env \<Rightarrow> ('h, 'o, 'r) event \<Rightarrow>
    ('o, 'r, 'i) ni_pair \<Rightarrow> (exc, session_state, ('o, 'r, 'i) ni_pair) result" where
  "ni_handler STATE_CLOSE = ni_handle_state_close"
| "ni_handler STATE_PENDING = ni_handle_state_pending"
| "ni_handler STATE_METERING = ni_handle_state_metering"

definition ni_process_event :: "('h, 'o, 'r, 'i) env \<Rightarrow> ('h, 'o, 'r) event \<Rightarrow>
    ('o, 'r, 'i) ni_pair \<Rightarrow> (exc, unit, ('o, 'r, 'i) ni_pair) result" where
  "ni_process_event E evt p =
     r_bind (ni_handler (ni_state (fst p)) E evt p) (\<lambda>st (s, w). Ret () (s\<lparr>ni_state := st\<rparr>, w))"

section \<open>Intervals\<close>

text \<open>The rounding of the intermediate results does not show in the refresh interval.\<close>

lemma ni_refresh_divisor:
  "dbl_mul (dbl_add (of_nat (unat m)) (1 / 2)) (3 / 2) = of_nat (3 * (2 * unat (m :: u32) + 1)) / 4"
proof -
  have m: "unat m < 2 ^ 32" using unsigned_less [of m] by simp
  have "dbl_add (of_nat (unat m)) (1 / 2) = dbl_round (of_nat (2 * unat m + 1) / 2)"
    by (simp add: dbl_add_def add_divide_distrib add.commute)
  also have "\<dots> = of_nat (2 * unat m + 1) / 2" using m by (intro dbl_round_half) simp
  finally have "dbl_mul (dbl_add (of_nat (unat m)) (1 / 2)) (3 / 2) =
      dbl_round (of_nat (2 * unat m + 1) / 2 * (3 / 2))"
    by (simp only: dbl_mul_def)
  also have "of_nat (2 * unat m + 1) / 2 * (3 / 2) = (of_nat (3 * (2 * unat m + 1)) / 4 :: rat)"
    by simp
  also have "dbl_round (of_nat (3 * (2 * unat m + 1)) / 4) = of_nat (3 * (2 * unat m + 1)) / 4"
    using m by (intro dbl_round_quarter) simp
  finally show ?thesis .
qed

lemma ni_refresh_seconds_exact:
  "ni_refresh_seconds l m = to_uint32 \<lceil>of_nat (4 * unat l) / of_nat (3 * (2 * unat m + 1)) :: rat\<rceil>"
proof -
  have m: "unat m < 2 ^ 32" and l: "unat l < 2 ^ 32"
    using unsigned_less [of m] unsigned_less [of l] by simp_all
  let ?d = "3 * (2 * unat m + 1)"
  have "\<lceil>dbl_div (of_nat (unat l)) (of_nat ?d / 4)\<rceil> = \<lceil>dbl_round (of_nat (4 * unat l) / of_nat ?d)\<rceil>"
    by (simp add: dbl_div_def mult.commute)
  also have "\<dots> = \<lceil>of_nat (4 * unat l) / of_nat ?d :: rat\<rceil>"
  proof (cases "l = 0")
    case True
    then show ?thesis using dbl_round_nat [of 0] by simp
  next
    case False
    then have "0 < unat l" by (simp add: unat_gt_0)
    then show ?thesis using m l by (intro ceiling_dbl_round) simp_all
  qed
  finally show ?thesis by (simp only: ni_refresh_seconds_def ni_refresh_divisor)
qed

text \<open>
  The refresh interval is the least number of seconds of which $1.5 (m + 0.5)$ cover the
  lifetime.
\<close>

lemma ni_refresh_seconds_bounds:
  assumes "ni_refresh_seconds l m = Some r"
  shows "4 * unat l \<le> unat r * (3 * (2 * unat m + 1))"
    and "r \<noteq> 0 \<Longrightarrow> (unat r - 1) * (3 * (2 * unat m + 1)) < 4 * unat l"
    and "r = 0 \<longleftrightarrow> l = 0"
proof -
  let ?d = "3 * (2 * unat m + 1)" and ?a = "4 * unat l"
  define c where "c = \<lceil>of_nat ?a / of_nat ?d :: rat\<rceil>"
  have r: "0 \<le> c" "c < 2 ^ 32" "r = word_of_int c"
    using assms unfolding ni_refresh_seconds_exact c_def [symmetric] to_uint32_def
    by (auto split: if_splits)
  then have uc: "uint r = c" by (simp add: uint_word_of_int)
  then have rc: "of_nat (unat r) = (of_int c :: rat)" by (simp add: unat_eq_nat_uint r(1))
  have c: "of_int c - 1 < (of_nat ?a / of_nat ?d :: rat)" "(of_nat ?a / of_nat ?d :: rat) \<le> of_int c"
    unfolding c_def using ceiling_correct [of "of_nat ?a / of_nat ?d :: rat"] by simp_all
  have d: "0 < (of_nat ?d :: rat)" unfolding of_nat_0_less_iff by simp
  have "(of_nat ?a :: rat) \<le> of_int c * of_nat ?d" using c(2) d by (simp only: pos_divide_le_eq)
  then have "(of_nat ?a :: rat) \<le> of_nat (unat r * ?d)" by (simp only: rc [symmetric] of_nat_mult)
  then show le: "?a \<le> unat r * ?d" by (simp only: of_nat_le_iff)
  have "(of_int c - 1) * of_nat ?d < (of_nat ?a :: rat)" using c(1) d by (simp only: pos_less_divide_eq)
  then have lt: "(of_nat (unat r) - 1) * of_nat ?d < (of_nat ?a :: rat)" by (simp only: rc)
  have low: "(unat r - 1) * ?d < ?a" if "r \<noteq> 0"
  proof -
    have "1 \<le> unat r" using that by (simp add: unat_gt_0 Suc_le_eq)
    then have "of_nat ((unat r - 1) * ?d) < (of_nat ?a :: rat)" using lt by (simp add: of_nat_diff)
    then show ?thesis by (simp only: of_nat_less_iff)
  qed
  then show "r \<noteq> 0 \<Longrightarrow> (unat r - 1) * ?d < ?a" .
  show "r = 0 \<longleftrightarrow> l = 0"
  proof
    assume "r = 0"
    then have "unat l = 0" using le by simp
    then show "l = 0" by (simp add: unat_eq_0)
  next
    assume "l = 0"
    then show "r = 0" using low by auto
  qed
qed

section \<open>Invariant\<close>

text \<open>
  In PENDING the CONFIGURE is kept for retransmission, outside CLOSE the routing information
  is set, the counters never pass the configured number of retries, and what is kept are
  messages of this session of the expected class with a sequence number.
\<close>

definition stored_msg_ok :: "sid \<Rightarrow> mclass \<Rightarrow> ('o, 'r) ntlp_msg \<Rightarrow> bool" where
  "stored_msg_ok sid c m \<longleftrightarrow> holds_msg c m \<and> nm_sid m = sid \<and>
     (\<exists>b. nm_body m = Some b \<and> has_msg_sequence_number b)"

definition ni_inv :: "('o, 'r) ni_session \<Rightarrow> bool" where
  "ni_inv s \<longleftrightarrow> s_type s = St_Initiator \<and> rule_wf (s_rule s) \<and>
     ni_configure_counter s \<le> ni_max_retries s \<and> ni_refresh_counter s \<le> ni_max_retries s \<and>
     (ni_state s \<noteq> STATE_CLOSE \<longrightarrow> ni_routing_info s \<noteq> None) \<and>
     (ni_state s = STATE_PENDING \<longrightarrow> ni_last_configure_msg s \<noteq> None) \<and>
     (\<forall>m. ni_last_configure_msg s = Some m \<longrightarrow> stored_msg_ok (s_id s) Mnslp_Configure m) \<and>
     (\<forall>m. ni_last_refresh_msg s = Some m \<longrightarrow> stored_msg_ok (s_id s) Mnslp_Refresh m)"

lemma ni_inv_new: "ni_inv (new_ni_session sid conf random)"
  by (simp add: ni_inv_def new_ni_session_def)

lemma send_copy_ok [sess_simps]:
  "stored_msg_ok sid c m \<Longrightarrow> send_copy m (s, w) = Ret () (s, send_message m w)"
  by (auto simp: send_copy_def stored_msg_ok_def ntlp_copy_id)

lemma start_response_timer_eq [sess_simps]:
  "ni_start_response_timer E (s, w) =
     (s\<lparr>ni_response_timer := e_timer_id E (w_tick w)\<rparr>,
      act (Start_Timer (s_id s) (e_timer_id E (w_tick w)) (sint (ni_response_timeout s)))
        (w\<lparr>w_tick := Suc (w_tick w)\<rparr>))"
  by (simp add: ni_start_response_timer_def start_timer_def Let_def)

lemma start_refresh_timer_eq [sess_simps]:
  "ni_start_refresh_timer E (s, w) =
     (s\<lparr>ni_refresh_timer := e_timer_id E (w_tick w)\<rparr>,
      act (Start_Timer (s_id s) (e_timer_id E (w_tick w)) (sint (ni_refresh_interval s)))
        (w\<lparr>w_tick := Suc (w_tick w)\<rparr>))"
  by (simp add: ni_start_refresh_timer_def start_timer_def Let_def)

lemma build_refresh_eq [sess_simps]:
  "ni_build_refresh_message (s, w) =
     assert_some (ni_routing_info s) (\<lambda>mri.
       Ret \<lparr>nm_sid = s_id s, nm_body = Some (ni_refresh (ni_lifetime s) (s_msn s + 1)),
            nm_mri = mri, nm_sii_handle = 0\<rparr> (s\<lparr>s_msn := s_msn s + 1\<rparr>, w))"
  by (simp add: ni_build_refresh_message_def next_msg_sequence_number_def Let_def)

lemma build_configure_eq [sess_simps]:
  "ni_build_configure_message e missing (s, w) =
     assert_some (ni_routing_info s) (\<lambda>mri.
       Ret \<lparr>nm_sid = s_id s,
            nm_body = Some (ni_configure e (ni_lifetime s) (s_msn s + 1) (s_msg_hop_count s) missing),
            nm_mri = mri, nm_sii_handle = 0\<rparr> (s\<lparr>s_msn := s_msn s + 1\<rparr>, w))"
  by (simp add: ni_build_configure_message_def next_msg_sequence_number_def Let_def)

text \<open>Contents of the messages\<close>

lemma ni_refresh_with: "refresh_with l msn (ni_refresh l msn)"
  unfolding ni_refresh_def by (rule refresh_built)

lemma ni_configure_with:
  assumes "mspec_list_ok missing"
  shows "configure_with (min l (ac_session_lifetime e)) msn (ac_sel_met_entities e) hops missing
    (ni_configure e l msn hops missing)"
proof -
  have "ni_configure e l msn hops missing = fold configure_set_mspec_object missing
      (configure_header (min l (ac_session_lifetime e)) msn (ac_sel_met_entities e) hops)"
    by (simp add: ni_configure_def Let_def min_def)
  then show ?thesis using configure_built [OF assms] by simp
qed

lemma stored_refresh:
  "refresh_with l msn b \<Longrightarrow> stored_msg_ok sid Mnslp_Refresh \<lparr>nm_sid = sid, nm_body = Some b,
     nm_mri = r, nm_sii_handle = h\<rparr>"
  by (simp add: stored_msg_ok_def holds_msg_def refresh_with_def)

lemma stored_configure:
  "configure_with l msn sme hops obs b \<Longrightarrow> stored_msg_ok sid Mnslp_Configure \<lparr>nm_sid = sid,
     nm_body = Some b, nm_mri = r, nm_sii_handle = h\<rparr>"
  by (simp add: stored_msg_ok_def holds_msg_def configure_with_def)

lemmas stored_ni_refresh [sess_simps] = stored_refresh [OF ni_refresh_with]
lemmas stored_ni_configure [sess_simps] = stored_configure [OF ni_configure_with]

text \<open>
  Setting up a session: the rule keeps its form, the objects are split between the rule and
  the CONFIGURE. The outcomes other than \<open>Ret\<close> do not depend on the objects.
\<close>

lemma ni_setup_session_Ret:
  assumes "ni_setup_session E e (s, w) = Ret missing (s', w')"
  obtains r t rule where
    "s' = s\<lparr>ni_routing_info := Some (ni_setup_mri (e_mri E) e),
      ni_lifetime := (if ac_session_lifetime e \<noteq> 0 then ac_session_lifetime e else ni_lifetime s),
      ni_refresh_interval := r, ni_response_timeout := t, s_rule := rule\<rparr>"
    and "ni_refresh_seconds (ni_lifetime s') (ni_max_retries s) = Some r" and "0 < r"
    and "ni_response_seconds (e_rand E (w_tick w)) r = Some t"
    and "sort_objects E (check_participating (s_type s) (ac_sel_met_entities e))
      (ac_mspec_objects e) (s_rule s) [] (w\<lparr>w_tick := Suc (w_tick w)\<rparr>) = (rule, missing, w')"
proof -
  obtain rule m w1 where so: "sort_objects E (check_participating (s_type s) (ac_sel_met_entities e))
      (ac_mspec_objects e) (s_rule s) [] (w\<lparr>w_tick := Suc (w_tick w)\<rparr>) = (rule, m, w1)"
    by (metis prod.exhaust_sel)
  show thesis
    using assms so that
    by (auto simp: ni_setup_session_def Let_def deref_eq_Ret split: if_splits)
qed

section \<open>The handlers keep the invariant\<close>

text \<open>
  A response that carries the sequence number of the stored message is a response to it, so
  the comparison that follows in the handlers never fails.
\<close>

lemma holds_body_of_class:
  "holds_msg c m \<Longrightarrow> \<exists>b. body_of_class c m = Some b \<and> nm_body m = Some b \<and> m_class b = c"
  by (auto simp: holds_msg_def body_of_class_def)

lemma stored_holds: "stored_msg_ok sid c m \<Longrightarrow> holds_msg c m"
  by (simp add: stored_msg_ok_def)

lemma matching_response:
  assumes "holds_msg c m" and "is_mnslp_response evt m = Some True"
  shows "\<exists>e resp b. ev_body evt = Msg_Event e \<and>
    body_of_class Mnslp_Response (me_msg e) = Some resp \<and> nm_body (me_msg e) = Some resp \<and>
    body_of_class c m = Some b \<and> nm_body m = Some b \<and>
    (c = Mnslp_Configure \<longrightarrow> is_response_to_configure resp b) \<and>
    (c = Mnslp_Refresh \<longrightarrow> is_response_to_refresh resp b)"
proof -
  obtain e resp b where 1: "ev_body evt = Msg_Event e" "nm_body (me_msg e) = Some resp"
    "m_class resp = Mnslp_Response" "nm_body m = Some b"
    "get_msg_sequence_number b = Some (response_get_msg_sequence_number resp)"
    using assms(2) by (rule is_mnslp_responseD)
  from holds_body_of_class [OF assms(1)] 1(4) have 2: "body_of_class c m = Some b" "m_class b = c"
    by auto
  have 3: "body_of_class Mnslp_Response (me_msg e) = Some resp"
    using 1 by (simp add: body_of_class_def)
  have "(c = Mnslp_Configure \<longrightarrow> is_response_to_configure resp b) \<and>
      (c = Mnslp_Refresh \<longrightarrow> is_response_to_refresh resp b)"
    using 1(5) 2(2) by (auto simp: get_msg_sequence_number_def is_response_to_configure_def
        is_response_to_refresh_def)
  with 1 2 3 show ?thesis by blast
qed

definition ni_post :: "('o, 'r) ni_session \<Rightarrow> (exc, session_state, ('o, 'r, 'i) ni_pair) result \<Rightarrow> bool" where
  "ni_post s r \<longleftrightarrow> (\<forall>st s' w'. r = Ret st (s', w') \<longrightarrow>
     ni_inv (s'\<lparr>ni_state := st\<rparr>) \<and> s_id s' = s_id s)"

lemma ni_post_simps [simp]:
  "ni_post s (Ret st (s', w')) \<longleftrightarrow> ni_inv (s'\<lparr>ni_state := st\<rparr>) \<and> s_id s' = s_id s"
  "ni_post s (Exn x p)" "ni_post s Abort" "ni_post s Undef"
  by (auto simp: ni_post_def)

lemma ni_close_post:
  assumes "ni_inv s" and "ni_state s = STATE_CLOSE" and "event_wf evt"
  shows "ni_post s (ni_handle_state_close E evt (s, w))"
proof (cases "as_api_configure (ev_body evt)")
  case None
  with assms show ?thesis by (simp add: ni_handle_state_close_def ni_inv_def)
next
  case (Some e)
  show ?thesis
  proof (cases "ni_setup_session E e (s, w)")
    case (Ret missing p)
    obtain s' w' where p: "p = (s', w')" by (cases p)
    from Ret [unfolded p] obtain r t rule where
      s': "s' = s\<lparr>ni_routing_info := Some (ni_setup_mri (e_mri E) e),
        ni_lifetime := (if ac_session_lifetime e \<noteq> 0 then ac_session_lifetime e else ni_lifetime s),
        ni_refresh_interval := r, ni_response_timeout := t, s_rule := rule\<rparr>"
      and so: "sort_objects E (check_participating (s_type s) (ac_sel_met_entities e))
        (ac_mspec_objects e) (s_rule s) [] (w\<lparr>w_tick := Suc (w_tick w)\<rparr>) = (rule, missing, w')"
      by (rule ni_setup_session_Ret)
    have "ev_body evt = Api_Configure_Event e" using Some by (cases "ev_body evt") auto
    with assms(3) have "mspec_list_ok (ac_mspec_objects e)" by (simp add: event_wf_def)
    then have m: "mspec_list_ok missing" by (rule sort_objects_list_ok [OF so])
    have "rule_wf rule" using assms(1) sort_objects_wf [OF _ so] by (simp add: ni_inv_def)
    then show ?thesis
      using assms(1) Some Ret p s'
      by (simp add: ni_handle_state_close_def sess_simps send_copy_ok [OF stored_ni_configure [OF m]] Let_def ni_inv_def
          stored_ni_configure [OF m])
  qed (simp_all add: ni_handle_state_close_def Some)
qed

lemma ni_pending_response_eq:
  assumes "stored_msg_ok sid Mnslp_Configure m" and "is_mnslp_response evt m = Some True"
  shows "\<exists>e resp. ev_body evt = Msg_Event e \<and> nm_body (me_msg e) = Some resp \<and>
    ni_pending_response E evt m (s, w) =
    (if response_is_success resp then ni_pending_success E resp (s, w)
     else Ret STATE_CLOSE (s, report_async_event ''cannot initiate Configure session'' w))"
proof -
  from matching_response [OF stored_holds [OF assms(1)] assms(2)] obtain e resp b where "ev_body evt = Msg_Event e"
    "nm_body (me_msg e) = Some resp"
    "body_of_class Mnslp_Response (me_msg e) = Some resp"
    "body_of_class Mnslp_Configure m = Some b" "is_response_to_configure resp b"
    by auto
  then show ?thesis by (intro exI conjI) (assumption, assumption, simp add: ni_pending_response_def)
qed

lemma ni_metering_response_eq:
  assumes "stored_msg_ok sid Mnslp_Refresh m" and "is_mnslp_response evt m = Some True"
  shows "\<exists>e resp. ev_body evt = Msg_Event e \<and> nm_body (me_msg e) = Some resp \<and>
    ni_metering_response E evt m (s, w) =
    (if response_is_success resp
     then
       let w = report_async_event ''REFRESH successful'' w;
           s = s\<lparr>ni_response_timer := stopped_timer\<rparr>;
           (s, w) = ni_start_refresh_timer E (s, w)
       in Ret STATE_METERING (s\<lparr>ni_refresh_counter := 0\<rparr>, w)
     else
       r_bind (uninstall E s w) (\<lambda>_ (s, w).
         Ret STATE_CLOSE (s, report_async_event ''REFRESH session died'' w)))"
proof -
  from matching_response [OF stored_holds [OF assms(1)] assms(2)] obtain e resp b where "ev_body evt = Msg_Event e"
    "nm_body (me_msg e) = Some resp"
    "body_of_class Mnslp_Response (me_msg e) = Some resp"
    "body_of_class Mnslp_Refresh m = Some b" "is_response_to_refresh resp b"
    by auto
  then show ?thesis by (intro exI conjI) (assumption, assumption, simp add: ni_metering_response_def)
qed

lemma counter_step:
  fixes a b :: "'a::len word"
  shows "a < b \<Longrightarrow> a + 1 \<le> b"
  by (rule inc_le)

lemma ni_pending_timeout_eq:
  assumes "ni_inv s" and "ni_last_configure_msg s = Some m"
  shows "ni_pending_timeout E (s, w) =
    (if ni_configure_counter s < ni_max_retries s
     then Ret STATE_PENDING
       (s\<lparr>ni_configure_counter := ni_configure_counter s + 1, ni_response_timer := e_timer_id E (w_tick w)\<rparr>,
        act (Start_Timer (s_id s) (e_timer_id E (w_tick w)) (sint (ni_response_timeout s)))
          (act (Send m) (w\<lparr>w_tick := Suc (w_tick w)\<rparr>)))
     else Ret STATE_CLOSE (s, report_async_event ''got no response for our Configure'' w))"
proof -
  have "stored_msg_ok (s_id s) Mnslp_Configure m" using assms by (simp add: ni_inv_def)
  with assms(2) show ?thesis
    by (simp add: ni_pending_timeout_def Let_def sess_simps send_message_def act_def
        send_copy_ok [OF \<open>stored_msg_ok (s_id s) Mnslp_Configure m\<close>])
qed

context session_env
begin

lemma ni_pending_success_post:
  assumes "ni_inv s" and "ni_state s = STATE_PENDING"
  shows "ni_post s (ni_pending_success E resp (s, w))"
proof -
  define s1 where "s1 = (if response_get_session_lifetime resp \<noteq> ni_lifetime s
      then cal_refresh_interval (s\<lparr>ni_response_timer := stopped_timer, ni_lifetime := response_get_session_lifetime resp\<rparr>)
      else s\<lparr>ni_response_timer := stopped_timer\<rparr>)\<lparr>ni_refresh_timer := e_timer_id E (w_tick w)\<rparr>"
  define w1 where "w1 = act (Start_Timer (s_id s1) (e_timer_id E (w_tick w)) (sint (ni_refresh_interval s1)))
      (report_async_event ''CONFIGURE session initiated'' w\<lparr>w_tick := Suc (w_tick w)\<rparr>)"
  have inv: "ni_inv s1" "s_id s1 = s_id s" "ni_state s1 = STATE_PENDING"
    using assms by (simp_all add: s1_def ni_inv_def cal_refresh_interval_def)
  have eq: "ni_pending_success E resp (s, w) =
      r_bind (install E s1 w1) (\<lambda>result (s, w).
          if get_number_mspec_objects result = get_number_mspec_objects (s_rule s)
          then Ret STATE_METERING (s\<lparr>s_rule := result, ni_configure_counter := 0\<rparr>, w)
          else
            let s = s\<lparr>ni_lifetime := 0, ni_last_configure_msg := None, s_rule := result\<rparr>
            in r_bind (uninstall E s w) (\<lambda>_ p.
               r_bind (ni_build_refresh_message p) (\<lambda>m (s, w).
               let w = send_message m w in Undef)))"
    by (simp add: ni_pending_success_def Let_def sess_simps s1_def w1_def act_def report_async_event_def
        cal_refresh_interval_def)
  have "rule_wf (s_rule s1)" using inv(1) by (simp add: ni_inv_def)
  from install_outcome_wf [OF this, of w1] show ?thesis
  proof (elim disjE exE conjE)
    fix r w'
    assume r: "install E s1 w1 = Ret r (s1, w')" "rule_wf r"
    let ?s = "s1\<lparr>ni_lifetime := 0, ni_last_configure_msg := None, s_rule := r\<rparr>"
    show ?thesis
    proof (cases "get_number_mspec_objects r = get_number_mspec_objects (s_rule s1)")
      case True
      with inv r show ?thesis by (simp add: eq ni_inv_def)
    next
      case False
      have "rule_wf (s_rule ?s)" using r(2) by simp
      from uninstall_outcome [OF this, of w'] show ?thesis
        using r inv False by (auto simp: eq ni_inv_def sess_simps)
    qed
  qed (simp add: eq)
qed

text \<open>What both states do on a teardown request, after they have dropped a stored message\<close>

lemma ni_teardown_eq:
  assumes "rule_wf (s_rule s)" and "ni_routing_info s = Some mri"
  shows "(\<exists>w'. uninstall E s w = Ret () (s, w') \<and>
      r_bind (uninstall E s w) (\<lambda>_ p.
        r_bind (ni_build_refresh_message p) (\<lambda>m (s, w). Ret STATE_CLOSE (s, send_message m w))) =
      Ret STATE_CLOSE (s\<lparr>s_msn := s_msn s + 1\<rparr>,
        send_message \<lparr>nm_sid = s_id s, nm_body = Some (ni_refresh (ni_lifetime s) (s_msn s + 1)),
          nm_mri = mri, nm_sii_handle = 0\<rparr> w')) \<or>
    (\<exists>m sv c w'. r_bind (uninstall E s w) (\<lambda>_ p.
        r_bind (ni_build_refresh_message p) (\<lambda>m (s, w). Ret STATE_CLOSE (s, send_message m w))) =
      Exn (Policy_Rule_Installer_Error m sv c) (s, w'))"
  using uninstall_outcome [OF assms(1), of w] assms(2) by (auto simp: sess_simps)

lemma ni_pending_post:
  assumes "ni_inv s" and "ni_state s = STATE_PENDING"
  shows "ni_post s (ni_handle_state_pending E evt (s, w))"
proof -
  from assms obtain m mri where m: "ni_last_configure_msg s = Some m"
    "stored_msg_ok (s_id s) Mnslp_Configure m" and mri: "ni_routing_info s = Some mri"
    by (auto simp: ni_inv_def)
  have timeout: "ni_post s (ni_pending_timeout E (s, w))"
    using assms unfolding ni_pending_timeout_eq [OF assms(1) m(1)]
    by (auto simp: ni_inv_def counter_step)
  let ?s = "s\<lparr>ni_lifetime := 0, ni_last_configure_msg := None\<rparr>"
  have teardown: "ni_post s (r_bind (uninstall E ?s w) (\<lambda>_ p.
      r_bind (ni_build_refresh_message p) (\<lambda>m (s, w). Ret STATE_CLOSE (s, send_message m w))))"
    using ni_teardown_eq [of ?s mri w] assms mri by (auto simp: ni_inv_def)
  have response: "ni_post s (ni_pending_response E evt m (s, w))"
    if "is_mnslp_response evt m = Some True"
  proof -
    from ni_pending_response_eq [OF m(2) that, of E s w] obtain resp where
      "ni_pending_response E evt m (s, w) =
      (if response_is_success resp then ni_pending_success E resp (s, w)
       else Ret STATE_CLOSE (s, report_async_event ''cannot initiate Configure session'' w))"
      by blast
    then show ?thesis using assms ni_pending_success_post [OF assms] by (auto simp: ni_inv_def)
  qed
  have pending: "ni_post s (Ret STATE_PENDING (s, w))" using assms by (simp add: ni_inv_def)
  have close: "ni_post s (Ret STATE_CLOSE (s, w))" using assms by (simp add: ni_inv_def)
  obtain b where b: "is_mnslp_response evt m = Some b"
    using is_mnslp_response_not_None [of evt m] by auto
  show ?thesis
    using timeout teardown response pending close b m(1)
    by (simp add: ni_handle_state_pending_def Let_def)
qed

lemma ni_metering_post:
  assumes "ni_inv s" and "ni_state s = STATE_METERING"
  shows "ni_post s (ni_handle_state_metering E evt (s, w))"
proof -
  from assms obtain mri where mri: "ni_routing_info s = Some mri" and wf: "rule_wf (s_rule s)"
    by (auto simp: ni_inv_def)
  have stored: "stored_msg_ok (s_id s) Mnslp_Refresh m" if "ni_last_refresh_msg s = Some m" for m
    using assms that by (simp add: ni_inv_def)
  let ?m = "\<lparr>nm_sid = s_id s, nm_body = Some (ni_refresh (ni_lifetime s) (s_msn s + 1)),
            nm_mri = mri, nm_sii_handle = 0\<rparr>"
  have ok: "stored_msg_ok (s_id s) Mnslp_Refresh ?m" by (rule stored_ni_refresh)
  have refresh: "ni_post s (r_bind (ni_build_refresh_message (s, w)) (\<lambda>m (s, w).
       r_bind (send_copy m (s\<lparr>ni_last_refresh_msg := Some m\<rparr>, w)) (\<lambda>_ (s, w).
       Ret STATE_METERING (ni_start_response_timer E (s\<lparr>ni_refresh_counter := 0\<rparr>, w)))))"
    using assms mri ok by (simp add: sess_simps send_copy_ok [OF ok] ni_inv_def)
  have retry: "ni_post s (let s = s\<lparr>ni_refresh_counter := ni_refresh_counter s + 1\<rparr>
         in assert_some (ni_last_refresh_msg s) (\<lambda>m.
            r_bind (send_copy m (s, w)) (\<lambda>_ p. Ret STATE_METERING (ni_start_response_timer E p))))"
    if "ni_refresh_counter s < ni_max_retries s"
    using assms that stored
    by (cases "ni_last_refresh_msg s") (auto simp: Let_def sess_simps ni_inv_def counter_step)
  have died: "ni_post s (r_bind (uninstall E s w) (\<lambda>_ (s, w). Ret STATE_CLOSE (s, report_async_event msg w)))"
    for msg using uninstall_outcome [OF wf, of w] assms by (auto simp: ni_inv_def)
  let ?s = "s\<lparr>ni_lifetime := 0, ni_last_refresh_msg := None\<rparr>"
  have teardown: "ni_post s (r_bind (uninstall E ?s w) (\<lambda>_ p.
      r_bind (ni_build_refresh_message p) (\<lambda>m (s, w). Ret STATE_CLOSE (s, send_message m w))))"
    using ni_teardown_eq [of ?s mri w] assms mri by (auto simp: ni_inv_def)
  have metering: "ni_post s (Ret STATE_METERING (s, w))" using assms by (simp add: ni_inv_def)
  have response: "ni_post s (ni_metering_response E evt m (s, w))"
    if "is_mnslp_response evt m = Some True" and m: "ni_last_refresh_msg s = Some m" for m
  proof -
    from ni_metering_response_eq [OF stored [OF m] that(1), of E s w]
    obtain resp :: "'o mnslp_msg" where eq: "ni_metering_response E evt m (s, w) =
      (if response_is_success resp
       then
         let w = report_async_event ''REFRESH successful'' w;
             s = s\<lparr>ni_response_timer := stopped_timer\<rparr>;
             (s, w) = ni_start_refresh_timer E (s, w)
         in Ret STATE_METERING (s\<lparr>ni_refresh_counter := 0\<rparr>, w)
       else
         r_bind (uninstall E s w) (\<lambda>_ (s, w).
           Ret STATE_CLOSE (s, report_async_event ''REFRESH session died'' w)))"
      by (elim exE conjE)
    show ?thesis
      using died assms unfolding eq by (auto simp: Let_def sess_simps ni_inv_def)
  qed
  have rest: "ni_post s (assert_some (ni_last_refresh_msg s) (\<lambda>prev.
       assert_some (is_mnslp_response evt prev) (\<lambda>matches.
         if matches then ni_metering_response E evt prev (s, w) else Ret STATE_METERING (s, w))))"
  proof (cases "ni_last_refresh_msg s")
    case (Some m)
    obtain b where "is_mnslp_response evt m = Some b"
      using is_mnslp_response_not_None [of evt m] by auto
    then show ?thesis using Some response [OF _ Some] metering by simp
  qed simp
  show ?thesis
    unfolding ni_handle_state_metering_def prod.case
    using refresh retry died teardown metering rest by (simp add: Let_def)
qed

lemma ni_process_inv:
  assumes "ni_inv s" and "event_wf evt" and "ni_process_event E evt (s, w) = Ret u (s', w')"
  shows "ni_inv s' \<and> s_id s' = s_id s"
proof -
  have "ni_post s (ni_handler (ni_state s) E evt (s, w))"
    using assms ni_close_post ni_pending_post ni_metering_post by (cases "ni_state s") auto
  then show ?thesis
    using assms(3) by (auto simp: ni_process_event_def ni_post_def r_bind_eq_Ret)
qed

end

section \<open>The response timeout\<close>

text \<open>
  The timeout is the refresh interval times a random factor from 0.5 to 1.499; rounding does
  not carry it out of these bounds.
\<close>

lemma ni_response_double_bounds:
  fixes z :: rat and r :: u32
  assumes z: "z = dbl_mul (dbl_add (dbl_div (of_nat (random mod 1000)) 1000) (1 / 2)) (of_nat (unat r))"
  shows "of_nat (unat r) / 2 \<le> z \<and> z \<le> 3 / 2 * of_nat (unat r)"
proof -
  define k where "k = random mod 1000"
  define x where "x = dbl_div (of_nat k) 1000"
  define y where "y = dbl_add x (1 / 2)"
  have z_def: "z = dbl_mul y (of_nat (unat r))" unfolding z k_def x_def y_def ..
  have k: "k < 1000" by (simp add: k_def)
  have r: "unat r < 2 ^ 32" using unsigned_less [of r] by simp
  have y_bounds: "1 / 2 \<le> y \<and> y \<le> 3 / 2 - 1 / 2000 \<and> (k = 0 \<longrightarrow> y = 1 / 2) \<and> (k \<noteq> 0 \<longrightarrow> 1 / 2 + 1 / 2000 \<le> y)"
  proof (cases "k = 0")
    case True
    then have "x = 0" using dbl_round_nat [of 0] by (simp add: x_def dbl_div_def)
    then have "y = 1 / 2" using dbl_round_half [of 1] by (simp add: y_def dbl_add_def)
    with True show ?thesis by simp
  next
    case False
    define q :: rat where "q = of_nat k"
    have kr: "1 \<le> q" "q \<le> 999" using False k by (simp_all add: q_def)
    have "\<bar>x - q / 1000\<bar> \<le> q / 1000 / 2 ^ 53"
      unfolding x_def dbl_div_def q_def [symmetric] using kr by (intro dbl_round_error) simp
    also have "q / 1000 / 2 ^ 53 \<le> 1 / 10000" using kr by simp
    finally have x: "q / 1000 - 1 / 10000 \<le> x" "x \<le> q / 1000 + 1 / 10000" by linarith+
    have "1 / 2 ^ 76 \<le> x + 1 / 2" using x kr by simp
    then have "\<bar>y - (x + 1 / 2)\<bar> \<le> (x + 1 / 2) / 2 ^ 53"
      unfolding y_def dbl_add_def by (rule dbl_round_error)
    also have "(x + 1 / 2) / 2 ^ 53 \<le> 1 / 10000" using x kr by simp
    finally have "1 / 2 + 1 / 2000 \<le> y \<and> y \<le> 3 / 2 - 1 / 2000" using x kr by linarith
    then show ?thesis using False by simp
  qed
  show ?thesis
  proof (cases "r = 0")
    case True
    then have "z = 0" using dbl_round_nat [of 0] by (simp add: z_def dbl_mul_def)
    with True show ?thesis by simp
  next
    case False
    then have "1 \<le> unat r" by (simp add: unat_gt_0 Suc_le_eq)
    then have "of_nat 1 \<le> (of_nat (unat r) :: rat)" by (rule of_nat_mono)
    then have r1: "1 \<le> (of_nat (unat r) :: rat)" by simp
    show ?thesis
    proof (cases "k = 0")
      case True
      then have y: "y = 1 / 2" using y_bounds by blast
      have "z = dbl_round (of_nat (unat r) / 2)" unfolding z_def dbl_mul_def y by simp
      also have "\<dots> = of_nat (unat r) / 2" using r by (intro dbl_round_half) simp
      finally show ?thesis using r1 by simp
    next
      case False
      define q :: rat where "q = of_nat (unat r)"
      define p where "p = y * q"
      have q: "1 \<le> q" using r1 by (simp only: q_def)
      have yr: "1001 / 2000 * q \<le> p" "p \<le> 2999 / 2000 * q"
        unfolding p_def using y_bounds False q by (intro mult_right_mono; simp)+
      then have p1: "1 / 2 \<le> p" using q by linarith
      have "(1 / 2 ^ 76 :: rat) \<le> 1 / 2" by simp
      with p1 have "1 / 2 ^ 76 \<le> p" by linarith
      then have "\<bar>z - p\<bar> \<le> p / 2 ^ 53"
        unfolding z_def dbl_mul_def q_def [symmetric] p_def [symmetric] by (rule dbl_round_error)
      also have "p / 2 ^ 53 \<le> p / 4000" using p1 by simp
      finally have "q / 2 \<le> z \<and> z \<le> 3 / 2 * q" using yr q by linarith
      then show ?thesis by (simp only: q_def)
    qed
  qed
qed

lemma ni_response_ceiling:
  fixes r :: u32 and random :: nat
  defines "c \<equiv> \<lceil>dbl_mul (dbl_add (dbl_div (of_nat (random mod 1000)) 1000) (1 / 2)) (of_nat (unat r))\<rceil>"
  shows "0 \<le> c \<and> int (unat r) \<le> 2 * c \<and> 2 * c \<le> 3 * int (unat r) + 1"
proof -
  define q :: rat where "q = of_nat (unat r)"
  define z where "z = dbl_mul (dbl_add (dbl_div (of_nat (random mod 1000)) 1000) (1 / 2)) (of_nat (unat r))"
  have z: "q / 2 \<le> z" "z \<le> 3 / 2 * q"
    unfolding q_def using ni_response_double_bounds [OF z_def] by blast+
  have q: "0 \<le> q" "q = of_int (int (unat r))"
    unfolding q_def by (rule of_nat_0_le_iff, simp only: of_int_of_nat_eq)
  have c: "of_int c - 1 < z" "z \<le> of_int c"
    unfolding c_def z_def [symmetric] using ceiling_correct [of z] by simp_all
  have "(of_int 0 :: rat) \<le> of_int c" using c(2) z(1) q(1) by simp
  moreover have "(of_int (int (unat r)) :: rat) \<le> of_int (2 * c)" using c(2) z(1) q(2) by simp
  moreover have "(of_int (2 * c) :: rat) < of_int (3 * int (unat r) + 2)" using c(1) z(2) q(2) by simp
  ultimately show ?thesis unfolding of_int_le_iff of_int_less_iff by linarith
qed

lemma ni_response_seconds_bounds:
  assumes "ni_response_seconds random r = Some t"
  shows "unat r \<le> 2 * unat t \<and> 2 * unat t \<le> 3 * unat r + 1"
proof -
  define c where "c = \<lceil>dbl_mul (dbl_add (dbl_div (of_nat (random mod 1000)) 1000) (1 / 2)) (of_nat (unat r))\<rceil>"
  have b: "0 \<le> c" "int (unat r) \<le> 2 * c" "2 * c \<le> 3 * int (unat r) + 1"
    unfolding c_def using ni_response_ceiling by blast+
  have t: "c < 2 ^ 31" "t = word_of_int c"
    using assms unfolding ni_response_seconds_def c_def [symmetric] to_int32_def by (auto split: if_splits)
  then have "uint t = c" using b(1) by (simp add: uint_word_of_int)
  then have "int (unat t) = c" using b(1) by (simp add: unat_eq_nat_uint)
  then show ?thesis using b by linarith
qed

lemma ni_response_seconds_total:
  assumes "3 * unat r + 1 < 2 ^ 32"
  shows "\<exists>t. ni_response_seconds random r = Some t"
proof -
  define c where "c = \<lceil>dbl_mul (dbl_add (dbl_div (of_nat (random mod 1000)) 1000) (1 / 2)) (of_nat (unat r))\<rceil>"
  define n where "n = unat r"
  have "0 \<le> c" "2 * c \<le> 3 * int n + 1"
    unfolding c_def n_def using ni_response_ceiling by blast+
  moreover have "3 * n + 1 < 2 ^ 32" using assms by (simp only: n_def)
  ultimately have "- (2 ^ 31) \<le> c \<and> c < 2 ^ 31" by simp
  then show ?thesis unfolding ni_response_seconds_def c_def [symmetric] to_int32_def by simp
qed

text \<open>With one retry at least the intervals of any lifetime below $2^{31}$ can be represented.\<close>

lemma ni_refresh_seconds_total:
  assumes "1 \<le> unat m"
  shows "\<exists>r. ni_refresh_seconds l m = Some r"
proof -
  define a where "a = int (4 * unat l)"
  define d where "d = int (3 * (2 * unat m + 1))"
  have l: "4 * unat l < 2 ^ 34" using unsigned_less [of l] by simp
  have m: "9 \<le> 3 * (2 * unat m + 1)" using assms by simp
  have "of_nat (4 * unat l) / of_nat (3 * (2 * unat m + 1)) = (of_int a / of_int d :: rat)"
    by (simp only: a_def d_def of_int_of_nat_eq)
  then have "\<lceil>of_nat (4 * unat l) / of_nat (3 * (2 * unat m + 1)) :: rat\<rceil> = - (- a div d)"
    by (simp only: ceiling_divide_eq_div)
  moreover have "int 9 \<le> d" "0 \<le> a" "a < int (2 ^ 34)"
    unfolding a_def d_def by (simp_all only: of_nat_le_iff of_nat_less_iff of_nat_0_le_iff l m)
  then have "9 \<le> d" "0 \<le> a" "a < 2 ^ 34" by simp_all
  moreover have "0 \<le> - (- a div d)"
    using \<open>0 \<le> a\<close> \<open>9 \<le> d\<close> div_nonpos_pos_le0 [of "- a" d] by simp
  moreover have "- (2 ^ 32) < - a div d"
  proof -
    have "- (2 ^ 31) * d \<le> - a" using \<open>9 \<le> d\<close> \<open>a < 2 ^ 34\<close> by simp
    then have "- (2 ^ 31) * d div d \<le> - a div d" using \<open>9 \<le> d\<close> by (intro zdiv_mono1) simp_all
    moreover have "- (2 ^ 31) * d div d = - (2 ^ 31)"
      using \<open>9 \<le> d\<close> by (intro nonzero_mult_div_cancel_right) simp
    ultimately have "- (2 ^ 31) \<le> - a div d" by (simp only:)
    then show ?thesis by simp
  qed
  ultimately show ?thesis by (simp add: ni_refresh_seconds_exact to_uint32_def)
qed

section \<open>Properties\<close>

text \<open>A session as the session manager creates it, and the one that has sent its CONFIGURE\<close>

definition ex_ni :: "(nat, nat mri_fields) ni_session" where
  "ex_ni = new_ni_session (Session_Id 1 2 3 4) default_config 7"

definition ex_configure_msg :: "(nat, nat mri_fields) ntlp_msg" where
  "ex_configure_msg = \<lparr>nm_sid = Session_Id 1 2 3 4, nm_body = Some (ni_configure ex_api_configure 30 8 20 []),
     nm_mri = ex_route True, nm_sii_handle = 0\<rparr>"

definition ex_ni_pending :: "(nat, nat mri_fields) ni_session" where
  "ex_ni_pending = ex_ni\<lparr>ni_state := STATE_PENDING, ni_lifetime := 30, s_msn := 8,
     ni_routing_info := Some (ex_route True), ni_last_configure_msg := Some ex_configure_msg\<rparr>"

lemma ex_ni_inv: "ni_inv ex_ni"
  unfolding ex_ni_def by (rule ni_inv_new)

lemma ex_configure_with:
  "configure_with 30 8 sme_last 20 [] (ni_configure ex_api_configure 30 8 20 [])"
  using ni_configure_with [of "[] :: nat mspec_object list" 30 ex_api_configure 8 20]
  by (simp add: mspec_list_ok_def ex_api_configure_def)

lemma ex_ni_pending_inv: "ni_inv ex_ni_pending"
  using stored_configure [OF ex_configure_with, of "Session_Id 1 2 3 4" "ex_route True" 0]
  by (simp add: ni_inv_def ex_ni_pending_def ex_ni_def new_ni_session_def ex_configure_msg_def)



text \<open>The session after \<open>n\<close> expirations of its response timer\<close>

fun ni_timeouts :: "('h, 'o, 'r, 'i) env \<Rightarrow> nat \<Rightarrow> ('o, 'r, 'i) ni_pair \<Rightarrow>
    (exc, unit, ('o, 'r, 'i) ni_pair) result" where
  "ni_timeouts E 0 p = Ret () p"
| "ni_timeouts E (Suc n) p =
     r_bind (ni_process_event E (new_timer_event (s_id (fst p)) (ni_response_timer (fst p))) p)
       (\<lambda>u p. ni_timeouts E n p)"

lemma ni_timeout_step:
  assumes "ni_inv s" and "ni_state s = STATE_PENDING" and "ni_last_configure_msg s = Some m"
  shows "ni_process_event E (new_timer_event (s_id s) (ni_response_timer s)) (s, w) =
    (if ni_configure_counter s < ni_max_retries s
     then Ret ()
       (s\<lparr>ni_configure_counter := ni_configure_counter s + 1, ni_response_timer := e_timer_id E (w_tick w)\<rparr>,
        act (Start_Timer (s_id s) (e_timer_id E (w_tick w)) (sint (ni_response_timeout s)))
          (act (Send m) (w\<lparr>w_tick := Suc (w_tick w)\<rparr>)))
     else Ret () (s\<lparr>ni_state := STATE_CLOSE\<rparr>, report_async_event ''got no response for our Configure'' w))"
  using assms ni_pending_timeout_eq [OF assms(1,3), of E w]
  by (simp add: ni_process_event_def ni_handle_state_pending_def new_timer_event_def is_timer_of_def)

lemma ni_timeouts_resend:
  assumes "ni_inv s" and "ni_state s = STATE_PENDING" and "ni_last_configure_msg s = Some m"
    and "unat (ni_configure_counter s) + n \<le> unat (ni_max_retries s)"
  shows "\<exists>s' w'. ni_timeouts E n (s, w) = Ret () (s', w') \<and> ni_inv s' \<and> ni_state s' = STATE_PENDING \<and>
    s_id s' = s_id s \<and> ni_last_configure_msg s' = Some m \<and> ni_max_retries s' = ni_max_retries s \<and>
    unat (ni_configure_counter s') = unat (ni_configure_counter s) + n \<and> sent w' = sent w @ replicate n m"
  using assms
proof (induction n arbitrary: s w)
  case 0
  then show ?case by simp
next
  case (Suc n)
  have lt: "ni_configure_counter s < ni_max_retries s" using Suc.prems(4) by (simp add: word_less_nat_alt)
  have "unat (ni_configure_counter s) + unat (1 :: u32) < 2 ^ 32"
    using Suc.prems(4) unsigned_less [of "ni_max_retries s", where 'a = nat] by simp
  then have inc: "unat (ni_configure_counter s + 1) = unat (ni_configure_counter s) + 1"
    "ni_configure_counter s + 1 \<le> ni_max_retries s"
    using unat_add_no_wrap [of "ni_configure_counter s" 1] inc_le [OF lt] by simp_all
  let ?s = "s\<lparr>ni_configure_counter := ni_configure_counter s + 1, ni_response_timer := e_timer_id E (w_tick w)\<rparr>"
  let ?w = "act (Start_Timer (s_id s) (e_timer_id E (w_tick w)) (sint (ni_response_timeout s)))
          (act (Send m) (w\<lparr>w_tick := Suc (w_tick w)\<rparr>))"
  have "ni_inv ?s" using Suc.prems(1) inc(2) by (simp add: ni_inv_def)
  moreover have "sent ?w = sent w @ [m]" by (simp add: sent_def act_def)
  ultimately show ?case
    using Suc.IH [of ?s ?w] Suc.prems lt inc ni_timeout_step [OF Suc.prems(1-3), of E w] by auto
qed

text \<open>
  C22: The CONFIGURE is retransmitted unchanged and exactly as often as configured: after \<open>n\<close>
  response timeouts, up to that number, \<open>n\<close> further copies have been sent and the session
  still waits; the timeout after the last one sends nothing, reports the failure and closes.
\<close>

theorem ni_retransmission_bound:
  assumes "ni_inv s" and "ni_state s = STATE_PENDING" and "ni_last_configure_msg s = Some m"
    and "ni_configure_counter s = 0" and "n \<le> unat (ni_max_retries s)"
  shows "(\<exists>s' w'. ni_timeouts E n (s, w) = Ret () (s', w') \<and> ni_state s' = STATE_PENDING \<and>
      sent w' = sent w @ replicate n m \<and>
      (n = unat (ni_max_retries s) \<longrightarrow>
        ni_process_event E (new_timer_event (s_id s') (ni_response_timer s')) (s', w') =
          Ret () (s'\<lparr>ni_state := STATE_CLOSE\<rparr>,
            report_async_event ''got no response for our Configure'' w')))"
proof -
  have "unat (ni_configure_counter s) + n \<le> unat (ni_max_retries s)" using assms(4,5) by simp
  from ni_timeouts_resend [OF assms(1-3) this, of E w] obtain s' w' where
    s': "ni_timeouts E n (s, w) = Ret () (s', w')" "ni_inv s'" "ni_state s' = STATE_PENDING"
      "ni_last_configure_msg s' = Some m" "ni_max_retries s' = ni_max_retries s"
      "unat (ni_configure_counter s') = n" "sent w' = sent w @ replicate n m"
    using assms(4) by auto
  then show ?thesis
    using ni_timeout_step [OF s'(2-4), of E w'] by (intro exI [of _ s'] exI [of _ w']) (auto simp: word_less_nat_alt)
qed

theorem ni_retransmission_bound_witness:
  "\<exists>s' w'. ni_timeouts ex_env 3 (ex_ni_pending, ex_world) = Ret () (s', w') \<and>
     sent w' = replicate 3 ex_configure_msg"
proof -
  have "ni_last_configure_msg ex_ni_pending = Some ex_configure_msg" "ni_state ex_ni_pending = STATE_PENDING"
    "ni_configure_counter ex_ni_pending = 0" "(3 :: nat) \<le> unat (ni_max_retries ex_ni_pending)"
    by (simp_all add: ex_ni_pending_def ex_ni_def new_ni_session_def default_config_def)
  with ni_retransmission_bound [OF ex_ni_pending_inv, of ex_configure_msg 3 ex_env ex_world] show ?thesis
    by (auto simp: sent_def ex_world_def)
qed

lemma ni_response_handler:
  assumes "ni_inv s" and "ni_state s = STATE_PENDING" and "ni_last_configure_msg s = Some m"
    and "is_mnslp_response evt m = Some True" and "ev_body evt = Msg_Event e"
    and "nm_body (me_msg e) = Some resp" and "response_is_success resp"
  shows "ni_process_event E evt (s, w) = r_bind (ni_pending_success E resp (s, w))
    (\<lambda>st (s, w). Ret () (s\<lparr>ni_state := st\<rparr>, w))"
proof -
  have ok: "stored_msg_ok (s_id s) Mnslp_Configure m" using assms(1,3) by (simp add: ni_inv_def)
  from ni_pending_response_eq [OF ok assms(4), of E s w] assms(5-7)
  have "ni_pending_response E evt m (s, w) = ni_pending_success E resp (s, w)" by auto
  moreover have "\<not> is_timer_of evt t" "\<not> is_no_next_node_found_event evt" "\<not> is_api_teardown evt"
    "\<not> is_timer evt" for t
    using assms(5) by (simp_all add: is_timer_of_def is_no_next_node_found_event_def is_api_teardown_def is_timer_def)
  ultimately have "ni_handle_state_pending E evt (s, w) = ni_pending_success E resp (s, w)"
    using assms(3,4) by (simp add: ni_handle_state_pending_def)
  then show ?thesis using assms(2) by (simp add: ni_process_event_def)
qed

text \<open>
  C19: A positive response to the CONFIGURE starts metering when every object of the session's
  rule could be installed: the rule returned by the installer replaces the session's, the
  lifetime the path agreed on is taken over (with a refresh interval of two thirds of it when
  it differs from the requested one), the retries are reset, and the success is reported
  before the refresh timer is started and the rule is installed.
\<close>

theorem ni_accepted:
  assumes "ni_inv s" and "ni_state s = STATE_PENDING" and "ni_last_configure_msg s = Some m"
    and "is_mnslp_response evt m = Some True" and "ev_body evt = Msg_Event e"
    and "nm_body (me_msg e) = Some resp" and "response_is_success resp"
    and "ri_install (e_installer E) (s_rule s) (w_installer w) = Ret (Some r) i"
    and "get_number_mspec_objects r = get_number_mspec_objects (s_rule s)"
  shows "\<exists>s' w'. ni_process_event E evt (s, w) = Ret () (s', w') \<and> ni_state s' = STATE_METERING \<and>
    s_rule s' = r \<and> ni_configure_counter s' = 0 \<and> w_installer w' = i \<and>
    ni_lifetime s' = response_get_session_lifetime resp \<and>
    ni_refresh_interval s' = (if response_get_session_lifetime resp = ni_lifetime s
      then ni_refresh_interval s else response_get_session_lifetime resp * 2 div 3) \<and>
    w_actions w' = w_actions w @ [Report ''CONFIGURE session initiated'',
      Start_Timer (s_id s) (ni_refresh_timer s') (sint (ni_refresh_interval s')), Install_Rules (s_rule s)]"
  using ni_response_handler [OF assms(1-7), of E w] assms(8,9)
  by (simp add: ni_pending_success_def Let_def sess_simps report_async_event_def
        act_def install_def install_policy_rules_def cal_refresh_interval_def)

text \<open>A response that matches the CONFIGURE of the example\<close>

definition ex_response_event :: "u8 \<Rightarrow> u8 \<Rightarrow> (nat, nat, nat mri_fields) event" where
  "ex_response_event severity code = new_msg_event (Session_Id 1 2 3 4)
     (create_response ex_mri ex_configure_msg severity code) True"

lemma ex_response_matches:
  "is_mnslp_response (ex_response_event sev c) ex_configure_msg = Some True"
proof -
  have b: "has_msg_sequence_number (ni_configure ex_api_configure 30 8 20 [])"
    "get_msg_sequence_number (ni_configure ex_api_configure 30 8 20 []) = Some 8"
    using ex_configure_with by (simp_all add: configure_with_def get_msg_sequence_number_def)
  from response_body_msn [OF this, of sev c] b show ?thesis
    by (simp add: is_mnslp_response_def ex_configure_msg_def ex_response_event_def new_msg_event_def
        is_mnslp_response_msn_def create_response_def body_of_class_def response_body_class)
qed

theorem ni_accepted_witness:
  "\<exists>s' w'. ni_process_event ex_env (ex_response_event sc_success suc_successfully_processed)
     (ex_ni_pending, ex_world) = Ret () (s', w') \<and> ni_state s' = STATE_METERING"
proof -
  let ?evt = "ex_response_event sc_success suc_successfully_processed"
  let ?e = "\<lparr>me_msg = create_response ex_mri ex_configure_msg sc_success suc_successfully_processed,
    me_for_this_node = True\<rparr>"
  let ?resp = "response_body (nm_body ex_configure_msg) sc_success suc_successfully_processed"
  have st: "ni_state ex_ni_pending = STATE_PENDING" "ni_last_configure_msg ex_ni_pending = Some ex_configure_msg"
    by (simp_all add: ex_ni_pending_def)
  have ev: "ev_body ?evt = Msg_Event ?e" "nm_body (me_msg ?e) = Some ?resp" "response_is_success ?resp"
    by (simp_all add: ex_response_event_def new_msg_event_def create_response_def response_body_is_success)
  have "ri_install (e_installer ex_env) (s_rule ex_ni_pending) (w_installer ex_world) = Ret (Some new_rule) ()"
    "get_number_mspec_objects (new_rule :: nat mt_policy_rule) = get_number_mspec_objects (s_rule ex_ni_pending)"
    by (simp_all add: ex_env_def nop_install_def rule_copy_id ex_ni_pending_def ex_ni_def new_ni_session_def)
      (simp add: new_rule_def)
  from ni_accepted [OF ex_ni_pending_inv st ex_response_matches ev this] show ?thesis by blast
qed

text \<open>
  While the session waits for its response nothing but the four events it is waiting for
  has an effect: every event that is not its response timer, a missing next node, a teardown
  request or a response to its CONFIGURE leaves session and world as they are. A negative
  response closes the session without anything having been installed, and says so.
\<close>

theorem ni_pending_other_events:
  assumes "ni_inv s" and "ni_state s = STATE_PENDING" and "ni_last_configure_msg s = Some m"
    and "\<not> is_timer_of evt (ni_response_timer s)" and "\<not> is_no_next_node_found_event evt"
    and "\<not> is_api_teardown evt"
  shows "(is_mnslp_response evt m \<noteq> Some True \<longrightarrow> ni_process_event E evt (s, w) = Ret () (s, w)) \<and>
    (is_mnslp_response evt m = Some True \<and>
       (\<forall>e resp. ev_body evt = Msg_Event e \<longrightarrow> nm_body (me_msg e) = Some resp \<longrightarrow> \<not> response_is_success resp) \<longrightarrow>
     ni_process_event E evt (s, w) = Ret () (s\<lparr>ni_state := STATE_CLOSE\<rparr>,
       report_async_event ''cannot initiate Configure session'' w))"
proof -
  have upd: "s\<lparr>ni_state := STATE_PENDING\<rparr> = s" using assms(2) by simp
  obtain b where b: "is_mnslp_response evt m = Some b" using is_mnslp_response_not_None by fastforce
  have ok: "stored_msg_ok (s_id s) Mnslp_Configure m" using assms(1,3) by (simp add: ni_inv_def)
  have msg: "is_mnslp_response evt m = Some True \<Longrightarrow> \<not> is_timer evt"
    by (auto elim!: is_mnslp_responseD simp: is_timer_def)
  show ?thesis
  proof (intro conjI impI)
    assume "is_mnslp_response evt m \<noteq> Some True"
    then show "ni_process_event E evt (s, w) = Ret () (s, w)"
      using assms b upd by (simp add: ni_process_event_def ni_handle_state_pending_def)
  next
    assume A: "is_mnslp_response evt m = Some True \<and>
       (\<forall>e resp. ev_body evt = Msg_Event e \<longrightarrow> nm_body (me_msg e) = Some resp \<longrightarrow> \<not> response_is_success resp)"
    then have "ni_pending_response E evt m (s, w) =
        Ret STATE_CLOSE (s, report_async_event ''cannot initiate Configure session'' w)"
      using ni_pending_response_eq [OF ok, of evt E s w] by auto
    then show "ni_process_event E evt (s, w) = Ret () (s\<lparr>ni_state := STATE_CLOSE\<rparr>,
       report_async_event ''cannot initiate Configure session'' w)"
      using assms A msg by (simp add: ni_process_event_def ni_handle_state_pending_def)
  qed
qed

theorem ni_pending_other_events_witness:
  "ni_process_event ex_env (ex_response_event sc_permanent_failure fail_internal_error) (ex_ni_pending, ex_world) =
     Ret () (ex_ni_pending\<lparr>ni_state := STATE_CLOSE\<rparr>,
       report_async_event ''cannot initiate Configure session'' ex_world)"
proof -
  let ?evt = "ex_response_event sc_permanent_failure fail_internal_error"
  have "ni_state ex_ni_pending = STATE_PENDING" "ni_last_configure_msg ex_ni_pending = Some ex_configure_msg"
    by (simp_all add: ex_ni_pending_def)
  moreover have "\<not> is_timer_of ?evt (ni_response_timer ex_ni_pending)" "\<not> is_no_next_node_found_event ?evt"
    "\<not> is_api_teardown ?evt"
    by (simp_all add: ex_response_event_def new_msg_event_def is_timer_of_def is_no_next_node_found_event_def
        is_api_teardown_def)
  ultimately show ?thesis
    using ni_pending_other_events [OF ex_ni_pending_inv, of ex_configure_msg ?evt ex_env ex_world]
      ex_response_matches [of sc_permanent_failure fail_internal_error]
    by (simp add: ex_response_event_def new_msg_event_def create_response_def response_body_is_success)
qed

text \<open>
  C26: A teardown request ends a session in PENDING or METERING: the rules it has installed are
  removed, one REFRESH with lifetime 0 and the next sequence number follows the same route,
  and the session closes; the only other outcome is the installer's error.
\<close>

theorem ni_teardown:
  fixes E :: "('h, 'o, 'r, 'i) env"
  assumes "session_env E" and "ni_inv s" and "ni_state s \<noteq> STATE_CLOSE"
  shows "(\<exists>s' w' m b. ni_process_event E (new_api_teardown_event sid) (s, w) = Ret () (s', w') \<and>
      ni_state s' = STATE_CLOSE \<and> nm_sid m = s_id s \<and> ni_routing_info s = Some (nm_mri m) \<and>
      nm_body m = Some b \<and> refresh_with 0 (s_msn s + 1) b \<and>
      w_actions w' = w_actions w @
        (if get_number_rule_keys (s_rule s) > 0 then [Remove_Rules (s_rule s)] else []) @ [Send m]) \<or>
    (\<exists>m sv c p. ni_process_event E (new_api_teardown_event sid) (s, w) =
      Exn (Policy_Rule_Installer_Error m sv c) p)"
proof -
  let ?evt = "new_api_teardown_event sid :: ('h, 'o, 'r) event"
  from assms(2,3) obtain mri where mri: "ni_routing_info s = Some mri" and wf: "rule_wf (s_rule s)"
    by (auto simp: ni_inv_def)
  have ev: "\<not> is_timer_of ?evt t" "\<not> is_no_next_node_found_event ?evt" "is_api_teardown ?evt" for t
    by (simp_all add: new_api_teardown_event_def is_timer_of_def is_no_next_node_found_event_def is_api_teardown_def)
  define s1 where "s1 = (if ni_state s = STATE_PENDING then s\<lparr>ni_lifetime := 0, ni_last_configure_msg := None\<rparr>
    else s\<lparr>ni_lifetime := 0, ni_last_refresh_msg := None\<rparr>)"
  have s1: "rule_wf (s_rule s1)" "ni_routing_info s1 = Some mri" "s_id s1 = s_id s" "s_rule s1 = s_rule s"
    "s_msn s1 = s_msn s" "ni_lifetime s1 = 0"
    using wf mri by (simp_all add: s1_def)
  have eq: "ni_handler (ni_state s) E ?evt (s, w) = r_bind (uninstall E s1 w) (\<lambda>_ p.
        r_bind (ni_build_refresh_message p) (\<lambda>m (s, w). Ret STATE_CLOSE (s, send_message m w)))"
    using assms(3) ev by (cases "ni_state s")
      (simp_all add: ni_handle_state_pending_def ni_handle_state_metering_def s1_def Let_def)
  from session_env.ni_teardown_eq [OF assms(1) s1(1,2), of w] show ?thesis
  proof (elim disjE exE conjE)
    fix w'
    assume un: "uninstall E s1 w = Ret () (s1, w')" and
      "r_bind (uninstall E s1 w) (\<lambda>_ p.
        r_bind (ni_build_refresh_message p) (\<lambda>m (s, w). Ret STATE_CLOSE (s, send_message m w))) =
      Ret STATE_CLOSE (s1\<lparr>s_msn := s_msn s1 + 1\<rparr>,
        send_message \<lparr>nm_sid = s_id s1, nm_body = Some (ni_refresh (ni_lifetime s1) (s_msn s1 + 1)),
          nm_mri = mri, nm_sii_handle = 0\<rparr> w')"
    moreover define m :: "('o, 'r) ntlp_msg" where "m = \<lparr>nm_sid = s_id s, nm_body = Some (ni_refresh 0 (s_msn s + 1)),
          nm_mri = mri, nm_sii_handle = 0\<rparr>"
    ultimately have "ni_process_event E ?evt (s, w) =
        Ret () (s1\<lparr>s_msn := s_msn s + 1, ni_state := STATE_CLOSE\<rparr>, act (Send m) w')"
      using s1 eq by (simp add: ni_process_event_def send_message_def)
    moreover have "nm_sid m = s_id s" "nm_body m = Some (ni_refresh 0 (s_msn s + 1))" "nm_mri m = mri"
      by (simp_all add: m_def)
    ultimately show ?thesis
      using uninstall_Ret [OF un] s1(4) mri ni_refresh_with [of 0 "s_msn s + 1"]
      by (intro disjI1) (auto simp: act_def)
  qed (simp add: ni_process_event_def eq)
qed

theorem ni_teardown_witness:
  "(\<exists>s' w' m b. ni_process_event ex_env (new_api_teardown_event None) (ex_ni_pending, ex_world) = Ret () (s', w') \<and>
      ni_state s' = STATE_CLOSE \<and> nm_body m = Some b \<and> refresh_with 0 9 b \<and> w_actions w' = [Send m]) \<or>
   (\<exists>m sv c p. ni_process_event ex_env (new_api_teardown_event None) (ex_ni_pending, ex_world) =
      Exn (Policy_Rule_Installer_Error m sv c) p)"
proof -
  have "ni_state ex_ni_pending \<noteq> STATE_CLOSE" "s_msn ex_ni_pending + 1 = 9"
    "get_number_rule_keys (s_rule ex_ni_pending) = 0" "w_actions ex_world = []"
    by (simp_all add: ex_ni_pending_def ex_ni_def new_ni_session_def new_rule_def get_number_rule_keys_def ex_world_def)
  then show ?thesis
    using ni_teardown [OF ex_session_env ex_ni_pending_inv, of None ex_world] by simp blast
qed

text \<open>
  A session that is metering and has not yet sent a REFRESH cannot take any event that is
  neither a timer nor a teardown request: the assertion in the getter of the stored REFRESH
  ends the process. A duplicate of the response that started the session is enough.
\<close>

theorem ni_metering_before_refresh:
  assumes "ni_state s = STATE_METERING" and "ni_last_refresh_msg s = None"
    and "\<not> is_timer evt" and "\<not> is_api_teardown evt"
  shows "ni_process_event E evt (s, w) = Abort"
proof -
  have "\<not> is_timer_of evt t" for t
    using assms(3) by (auto simp: is_timer_def is_timer_of_def split: option.splits)
  with assms show ?thesis by (simp add: ni_process_event_def ni_handle_state_metering_def)
qed

theorem ni_metering_before_refresh_witness:
  "ni_process_event ex_env (ex_response_event sc_success suc_successfully_processed)
     (ex_ni_pending\<lparr>ni_state := STATE_METERING\<rparr>, ex_world) = Abort"
  by (rule ni_metering_before_refresh) (simp_all add: ex_ni_pending_def ex_ni_def new_ni_session_def
    ex_response_event_def new_msg_event_def is_timer_def is_api_teardown_def)

text \<open>
  A request without a lifetime, the default of the API, ends the process on a new session:
  the lifetime stays 0 (the configured lifetime is not consulted) and the assertion that the
  refresh interval is positive fails.
\<close>

theorem ni_zero_lifetime_abort:
  assumes "ac_session_lifetime c = 0"
  shows "ni_process_event E (new_api_configure_event c) (new_ni_session sid conf random, w) = Abort"
proof -
  have r: "ni_refresh_seconds 0 m = Some 0" for m
    by (simp add: ni_refresh_seconds_exact to_uint32_def)
  show ?thesis
    using assms by (simp add: ni_process_event_def new_api_configure_event_def ni_handle_state_close_def
        ni_setup_session_def new_ni_session_def Let_def r)
qed

theorem ni_zero_lifetime_abort_witness:
  "ni_process_event ex_env (new_api_configure_event (ex_api_configure\<lparr>ac_session_lifetime := 0\<rparr>))
     (new_ni_session (Session_Id 1 2 3 4) default_config 7, ex_world) = Abort"
  by (rule ni_zero_lifetime_abort) simp

text \<open>
  The refresh interval \<open>r\<close> is the least number of seconds of which $1.5 (m + 0.5)$ cover the
  lifetime, \<open>m\<close> the number of retries, whatever the floating-point rounding does, and the
  response timeout lies between half of it and one and a half times it.
\<close>

theorem ni_intervals:
  assumes "ni_refresh_seconds l m = Some r" and "ni_response_seconds random r = Some t"
  shows "4 * unat l \<le> unat r * (3 * (2 * unat m + 1)) \<and>
    (r \<noteq> 0 \<longrightarrow> (unat r - 1) * (3 * (2 * unat m + 1)) < 4 * unat l) \<and> (r = 0 \<longleftrightarrow> l = 0) \<and>
    unat r \<le> 2 * unat t \<and> 2 * unat t \<le> 3 * unat r + 1"
  using ni_refresh_seconds_bounds [OF assms(1)] ni_response_seconds_bounds [OF assms(2)] by blast

theorem ni_intervals_witness:
  "\<exists>r t. ni_refresh_seconds 30 3 = Some r \<and> ni_response_seconds 500 r = Some t \<and>
     unat r \<le> 2 * unat t \<and> 120 \<le> unat r * 21 \<and> (unat r - 1) * 21 < 120"
proof -
  obtain r where r: "ni_refresh_seconds 30 3 = Some r" using ni_refresh_seconds_total [of 3 30] by auto
  have r0: "r \<noteq> 0" using ni_refresh_seconds_bounds(3) [OF r] by simp
  have "unat r - 1 \<le> (unat r - 1) * 21" by simp
  also have "\<dots> < 120" using ni_refresh_seconds_bounds(2) [OF r r0] by simp
  finally have "3 * unat r + 1 < 2 ^ 32" by simp
  then obtain t where t: "ni_response_seconds 500 r = Some t" using ni_response_seconds_total by blast
  from ni_intervals [OF r t] r0 r t show ?thesis by (intro exI [of _ r] exI [of _ t]) simp
qed

text \<open>
  After a response with another lifetime the refresh interval is two thirds of it exactly
  for lifetimes below $2^{31}$; above, the multiplication wraps around, and for $2^{31}$
  seconds the session would refresh without any delay.
\<close>

theorem cal_refresh_interval_wraps:
  "(unat (ni_refresh_interval (cal_refresh_interval s)) = 2 * unat (ni_lifetime s) div 3 \<longleftrightarrow>
      ni_lifetime s < 2 ^ 31) \<and>
   ni_refresh_interval (cal_refresh_interval (s\<lparr>ni_lifetime := 2 ^ 31\<rparr>)) = 0"
proof -
  have l: "unat (ni_lifetime s) < 2 ^ 32" using unsigned_less [of "ni_lifetime s"] by simp
  have "unat (ni_lifetime s * 2 div 3) = (unat (ni_lifetime s) * 2 mod 2 ^ 32) div 3"
    by (simp add: unat_div unat_word_ariths)
  moreover have "(unat (ni_lifetime s) * 2 mod 2 ^ 32) div 3 = 2 * unat (ni_lifetime s) div 3 \<longleftrightarrow>
      unat (ni_lifetime s) < 2 ^ 31"
  proof (cases "unat (ni_lifetime s) < 2 ^ 31")
    case False
    then have "unat (ni_lifetime s) * 2 mod 2 ^ 32 = unat (ni_lifetime s) * 2 - 2 ^ 32"
      using l by (simp add: mod_if)
    with False l show ?thesis by simp
  qed (simp add: mult.commute)
  ultimately show ?thesis by (simp add: cal_refresh_interval_def word_less_nat_alt)
qed

text \<open>Refreshing: the timer and the retransmissions in METERING\<close>

lemma ni_refresh_timer_step:
  assumes "ni_inv s" and "ni_state s = STATE_METERING" and "ni_routing_info s = Some mri"
  shows "ni_process_event E (new_timer_event (s_id s) (ni_refresh_timer s)) (s, w) =
    (let m = \<lparr>nm_sid = s_id s, nm_body = Some (ni_refresh (ni_lifetime s) (s_msn s + 1)),
           nm_mri = mri, nm_sii_handle = 0\<rparr>
     in Ret ()
       (s\<lparr>s_msn := s_msn s + 1, ni_last_refresh_msg := Some m, ni_refresh_counter := 0,
          ni_response_timer := e_timer_id E (w_tick w)\<rparr>,
        act (Start_Timer (s_id s) (e_timer_id E (w_tick w)) (sint (ni_response_timeout s)))
          (act (Send m) (w\<lparr>w_tick := Suc (w_tick w)\<rparr>))))"
  using assms(2,3) by (cases s) (simp add: ni_process_event_def ni_handle_state_metering_def new_timer_event_def
      is_timer_of_def sess_simps send_copy_ok [OF stored_ni_refresh] send_message_def act_def Let_def)

lemma ni_metering_timeout_step:
  fixes E :: "('h, 'o, 'r, 'i) env"
  assumes "ni_inv s" and "ni_state s = STATE_METERING" and "ni_last_refresh_msg s = Some m"
    and "ni_response_timer s \<noteq> ni_refresh_timer s"
  shows "ni_process_event E (new_timer_event (s_id s) (ni_response_timer s)) (s, w) =
    (if ni_refresh_counter s < ni_max_retries s
     then Ret ()
       (s\<lparr>ni_refresh_counter := ni_refresh_counter s + 1, ni_response_timer := e_timer_id E (w_tick w)\<rparr>,
        act (Start_Timer (s_id s) (e_timer_id E (w_tick w)) (sint (ni_response_timeout s)))
          (act (Send m) (w\<lparr>w_tick := Suc (w_tick w)\<rparr>)))
     else r_bind (uninstall E s w) (\<lambda>_ (s, w).
       Ret () (s\<lparr>ni_state := STATE_CLOSE\<rparr>, report_async_event ''got no response to our REFRESH message'' w)))"
proof -
  have ok: "stored_msg_ok (s_id s) Mnslp_Refresh m" using assms(1,3) by (simp add: ni_inv_def)
  have "r_bind (r_bind r (\<lambda>_ (s, w). Ret STATE_CLOSE (s, f w))) (\<lambda>st (s, w). Ret () (s\<lparr>ni_state := st\<rparr>, w)) =
      r_bind r (\<lambda>_ (s, w). Ret () (s\<lparr>ni_state := STATE_CLOSE\<rparr>, f w))"
    for r :: "(exc, unit, ('o, 'r, 'i) ni_pair) result" and f
    by (cases r) (auto split: prod.split)
  with ok show ?thesis
    using assms(2-4)
    by (cases s) (simp add: ni_process_event_def ni_handle_state_metering_def new_timer_event_def is_timer_of_def
        Let_def sess_simps send_copy_ok [OF ok] send_message_def act_def)
qed

lemma ni_refresh_resend:
  assumes "ni_inv s" and "ni_state s = STATE_METERING" and "ni_last_refresh_msg s = Some m"
    and "ni_response_timer s \<noteq> ni_refresh_timer s"
    and "\<And>i. w_tick w \<le> i \<Longrightarrow> e_timer_id E i \<noteq> ni_refresh_timer s"
    and "unat (ni_refresh_counter s) + n \<le> unat (ni_max_retries s)"
  shows "\<exists>s' w'. ni_timeouts E n (s, w) = Ret () (s', w') \<and> ni_inv s' \<and> ni_state s' = STATE_METERING \<and>
    s_id s' = s_id s \<and> s_rule s' = s_rule s \<and> ni_last_refresh_msg s' = Some m \<and> ni_max_retries s' = ni_max_retries s \<and>
    ni_response_timer s' \<noteq> ni_refresh_timer s' \<and>
    unat (ni_refresh_counter s') = unat (ni_refresh_counter s) + n \<and> sent w' = sent w @ replicate n m"
  using assms
proof (induction n arbitrary: s w)
  case 0
  then show ?case by simp
next
  case (Suc n)
  have lt: "ni_refresh_counter s < ni_max_retries s" using Suc.prems(6) by (simp add: word_less_nat_alt)
  have "unat (ni_refresh_counter s) + unat (1 :: u32) < 2 ^ 32"
    using Suc.prems(6) unsigned_less [of "ni_max_retries s", where 'a = nat] by simp
  then have inc: "unat (ni_refresh_counter s + 1) = unat (ni_refresh_counter s) + 1"
    "ni_refresh_counter s + 1 \<le> ni_max_retries s"
    using unat_add_no_wrap [of "ni_refresh_counter s" 1] inc_le [OF lt] by simp_all
  let ?s = "s\<lparr>ni_refresh_counter := ni_refresh_counter s + 1, ni_response_timer := e_timer_id E (w_tick w)\<rparr>"
  let ?w = "act (Start_Timer (s_id s) (e_timer_id E (w_tick w)) (sint (ni_response_timeout s)))
          (act (Send m) (w\<lparr>w_tick := Suc (w_tick w)\<rparr>))"
  have "ni_inv ?s" using Suc.prems(1) inc(2) by (simp add: ni_inv_def)
  moreover have "sent ?w = sent w @ [m]" "w_tick ?w = Suc (w_tick w)" by (simp_all add: sent_def act_def)
  ultimately show ?case
    using Suc.IH [of ?s ?w] Suc.prems lt inc ni_metering_timeout_step [OF Suc.prems(1-4), of E w] by auto
qed

text \<open>
  C23: Refreshing: when the refresh timer expires the session sends a REFRESH with its lifetime
  and the next sequence number, and, while no response arrives, the same message again at each
  response timeout, up to the configured number of retries; the timeout after the last one
  removes the installed rules, reports the failure and closes. (No later timer has the number
  of the expired refresh timer.)
\<close>

theorem ni_refresh_cycle:
  fixes E :: "('h, 'o, 'r, 'i) env"
  assumes "session_env E" and "ni_inv s" and "ni_state s = STATE_METERING"
    and "\<forall>i \<ge> w_tick w. e_timer_id E i \<noteq> ni_refresh_timer s" and "n \<le> unat (ni_max_retries s)"
  shows "\<exists>m b s' w'. nm_sid m = s_id s \<and> ni_routing_info s = Some (nm_mri m) \<and> nm_body m = Some b \<and>
    refresh_with (ni_lifetime s) (s_msn s + 1) b \<and>
    r_bind (ni_process_event E (new_timer_event (s_id s) (ni_refresh_timer s)) (s, w))
      (\<lambda>u. ni_timeouts E n) = Ret () (s', w') \<and>
    ni_state s' = STATE_METERING \<and> sent w' = sent w @ replicate (Suc n) m \<and>
    (n = unat (ni_max_retries s) \<longrightarrow>
      (\<exists>w''. w_actions w'' = w_actions w' @
           (if get_number_rule_keys (s_rule s) > 0 then [Remove_Rules (s_rule s)] else []) \<and>
         ni_process_event E (new_timer_event (s_id s') (ni_response_timer s')) (s', w') =
           Ret () (s'\<lparr>ni_state := STATE_CLOSE\<rparr>,
             report_async_event ''got no response to our REFRESH message'' w'')) \<or>
      (\<exists>msg sv c p. ni_process_event E (new_timer_event (s_id s') (ni_response_timer s')) (s', w') =
         Exn (Policy_Rule_Installer_Error msg sv c) p))"
proof -
  obtain mri where mri: "ni_routing_info s = Some mri" using assms(2,3) by (auto simp: ni_inv_def)
  define m :: "('o, 'r) ntlp_msg" where
    "m = \<lparr>nm_sid = s_id s, nm_body = Some (ni_refresh (ni_lifetime s) (s_msn s + 1)),
    nm_mri = mri, nm_sii_handle = 0\<rparr>"
  define s1 where "s1 = s\<lparr>s_msn := s_msn s + 1, ni_last_refresh_msg := Some m, ni_refresh_counter := 0,
    ni_response_timer := e_timer_id E (w_tick w)\<rparr>"
  define w1 where "w1 = act (Start_Timer (s_id s) (e_timer_id E (w_tick w)) (sint (ni_response_timeout s)))
    (act (Send m) (w\<lparr>w_tick := Suc (w_tick w)\<rparr>))"
  have step: "ni_process_event E (new_timer_event (s_id s) (ni_refresh_timer s)) (s, w) = Ret () (s1, w1)"
    using ni_refresh_timer_step [OF assms(2,3) mri, of E w] by (simp add: s1_def w1_def m_def Let_def)
  have s1: "ni_inv s1" "ni_state s1 = STATE_METERING" "ni_last_refresh_msg s1 = Some m"
    "ni_response_timer s1 \<noteq> ni_refresh_timer s1" "s_id s1 = s_id s" "s_rule s1 = s_rule s"
    "unat (ni_refresh_counter s1) + n \<le> unat (ni_max_retries s1)"
    "ni_refresh_timer s1 = ni_refresh_timer s" "ni_max_retries s1 = ni_max_retries s" "ni_refresh_counter s1 = 0"
    using assms(2-5) stored_ni_refresh by (simp_all add: s1_def m_def ni_inv_def)
  have w1: "sent w1 = sent w @ [m]" "w_tick w1 = Suc (w_tick w)" by (simp_all add: w1_def sent_def act_def)
  have "\<And>i. w_tick w1 \<le> i \<Longrightarrow> e_timer_id E i \<noteq> ni_refresh_timer s1" using assms(4) w1(2) s1(8) by simp
  from ni_refresh_resend [where w = w1, OF s1(1-4) this s1(7)] obtain s' w' where
    s': "ni_timeouts E n (s1, w1) = Ret () (s', w')" "ni_inv s'" "ni_state s' = STATE_METERING"
      "ni_last_refresh_msg s' = Some m" "ni_response_timer s' \<noteq> ni_refresh_timer s'" "s_rule s' = s_rule s"
      "ni_max_retries s' = ni_max_retries s" "unat (ni_refresh_counter s') = n" "sent w' = sent w1 @ replicate n m"
    using s1 by auto
  have "rule_wf (s_rule s')" using s'(2) by (simp add: ni_inv_def)
  from session_env.uninstall_outcome [OF assms(1) this, of w'] have last:
    "(\<exists>w''. w_actions w'' = w_actions w' @
           (if get_number_rule_keys (s_rule s) > 0 then [Remove_Rules (s_rule s)] else []) \<and>
         ni_process_event E (new_timer_event (s_id s') (ni_response_timer s')) (s', w') =
           Ret () (s'\<lparr>ni_state := STATE_CLOSE\<rparr>,
             report_async_event ''got no response to our REFRESH message'' w'')) \<or>
      (\<exists>msg sv c p. ni_process_event E (new_timer_event (s_id s') (ni_response_timer s')) (s', w') =
         Exn (Policy_Rule_Installer_Error msg sv c) p)" if "n = unat (ni_max_retries s)"
    using ni_metering_timeout_step [OF s'(2-5), of E w'] s'(6-8) that
      uninstall_Ret [of E s' w' "()" s']
    by (auto simp: word_less_nat_alt)
  have "nm_sid m = s_id s" "nm_mri m = mri" "nm_body m = Some (ni_refresh (ni_lifetime s) (s_msn s + 1))"
    by (simp_all add: m_def)
  then show ?thesis
    using last s'(1,3,9) w1(1) step mri ni_refresh_with [of "ni_lifetime s" "s_msn s + 1"]
    by (intro exI [of _ m] exI [of _ "ni_refresh (ni_lifetime s) (s_msn s + 1)"] exI [of _ s'] exI [of _ w']) simp
qed

theorem ni_refresh_cycle_witness:
  "\<exists>m s' w'. r_bind (ni_process_event ex_env (new_timer_event (Session_Id 1 2 3 4) 1)
      (ex_ni_pending\<lparr>ni_state := STATE_METERING, ni_refresh_timer := 1\<rparr>, ex_world\<lparr>w_tick := 1\<rparr>))
      (\<lambda>u. ni_timeouts ex_env 2) = Ret () (s', w') \<and> sent w' = replicate 3 m"
proof -
  let ?s = "ex_ni_pending\<lparr>ni_state := STATE_METERING, ni_refresh_timer := 1\<rparr>"
  let ?w = "ex_world\<lparr>w_tick := 1\<rparr>"
  have s: "ni_inv ?s" "ni_state ?s = STATE_METERING" using ex_ni_pending_inv
    by (simp_all add: ni_inv_def ex_ni_pending_def)
  have t: "\<forall>i \<ge> w_tick ?w. e_timer_id ex_env i \<noteq> ni_refresh_timer ?s"
    by (simp add: ex_env_def)
  have n: "(2 :: nat) \<le> unat (ni_max_retries ?s)"
    by (simp add: ex_ni_pending_def ex_ni_def new_ni_session_def default_config_def)
  have e: "s_id ?s = Session_Id 1 2 3 4" "ni_refresh_timer ?s = 1" "sent ?w = []"
    by (simp_all add: sent_def ex_world_def ex_ni_pending_def ex_ni_def new_ni_session_def)
  obtain m s' w' where "r_bind (ni_process_event ex_env (new_timer_event (s_id ?s) (ni_refresh_timer ?s)) (?s, ?w))
      (\<lambda>u. ni_timeouts ex_env 2) = Ret () (s', w')" "sent w' = sent ?w @ replicate (Suc 2) m"
    using ni_refresh_cycle [OF ex_session_env s t n] by (elim exE conjE)
  then show ?thesis unfolding e numeral_3_eq_3 numeral_2_eq_2 by (intro exI conjI) (assumption, simp)
qed

text \<open>
  When the path has accepted the session but the own installer returns a rule with fewer
  objects, the session tears the path down, and control then leaves the handler without a
  \<open>return\<close>: no behaviour of the program is defined from there on, unless the removal of the
  rules has thrown the installer's error before.
\<close>

theorem ni_install_failure_undefined:
  fixes E :: "('h, 'o, 'r, 'i) env"
  assumes "session_env E" and "ni_inv s" and "ni_state s = STATE_PENDING"
    and "ni_last_configure_msg s = Some m" and "is_mnslp_response evt m = Some True"
    and "ev_body evt = Msg_Event e" and "nm_body (me_msg e) = Some resp" and "response_is_success resp"
    and "ri_install (e_installer E) (s_rule s) (w_installer w) = Ret (Some r) i"
    and "get_number_mspec_objects r \<noteq> get_number_mspec_objects (s_rule s)" and "rule_wf r"
  shows "ni_process_event E evt (s, w) = Undef \<or>
    (\<exists>msg sv c p. ni_process_event E evt (s, w) = Exn (Policy_Rule_Installer_Error msg sv c) p)"
proof -
  have ok: "stored_msg_ok (s_id s) Mnslp_Configure m" using assms(2,4) by (simp add: ni_inv_def)
  obtain mri where mri: "ni_routing_info s = Some mri" using assms(2,3) by (auto simp: ni_inv_def)
  from ni_pending_response_eq [OF ok assms(5), of E s w] assms(6-8)
  have resp: "ni_pending_response E evt m (s, w) = ni_pending_success E resp (s, w)" by auto
  have ev: "\<not> is_timer_of evt t" "\<not> is_no_next_node_found_event evt" "\<not> is_api_teardown evt"
    "\<not> is_timer evt" for t
    using assms(6) by (simp_all add: is_timer_of_def is_no_next_node_found_event_def is_api_teardown_def is_timer_def)
  have tail: "r_bind (uninstall E s1 w1) (\<lambda>_ p. r_bind (ni_build_refresh_message p) (\<lambda>m (s, w). Undef)) = Undef \<or>
      (\<exists>msg sv c a b. r_bind (uninstall E s1 w1) (\<lambda>_ p. r_bind (ni_build_refresh_message p) (\<lambda>m (s, w). Undef)) =
        Exn (Policy_Rule_Installer_Error msg sv c) (a, b))"
    if "rule_wf (s_rule s1)" "ni_routing_info s1 = Some mri" for s1 :: "('o, 'r) ni_session" and w1
    using session_env.uninstall_outcome [OF assms(1) that(1), of w1] that(2) by (auto simp: sess_simps)
  have "ni_pending_success E resp (s, w) = Undef \<or>
      (\<exists>msg sv c p. ni_pending_success E resp (s, w) = Exn (Policy_Rule_Installer_Error msg sv c) p)"
    using assms(9-11) mri
    by (simp add: ni_pending_success_def Let_def sess_simps report_async_event_def
        act_def install_def install_policy_rules_def cal_refresh_interval_def)
      (intro conjI impI; rule tail; simp)
  then show ?thesis
    using assms(3-5) ev resp by (auto simp: ni_process_event_def ni_handle_state_pending_def)
qed

text \<open>An installer that loses every object\<close>

definition ex_failing_env :: "(nat, nat, nat mri_fields, unit) env" where
  "ex_failing_env = ex_env\<lparr>e_installer := \<lparr>ri_check = nop_check,
     ri_install = \<lambda>r i. Ret (Some new_rule) i, ri_remove = nop_remove\<rparr>\<rparr>"

interpretation ex_failing: session_env ex_failing_env
proof unfold_locales
  fix r :: "nat mt_policy_rule" and i n
  assume "rule_wf r"
  show "(\<exists>r' j. ri_install (e_installer ex_failing_env) r i = Ret (Some r') j \<and> rule_wf r') \<or>
      (\<exists>m s c j. ri_install (e_installer ex_failing_env) r i = Exn (Policy_Rule_Installer_Error m s c) j)"
    and "(\<exists>r' j. ri_remove (e_installer ex_failing_env) r i = Ret (Some r') j) \<or>
      (\<exists>m s c j. ri_remove (e_installer ex_failing_env) r i = Exn (Policy_Rule_Installer_Error m s c) j)"
    by (simp_all add: ex_failing_env_def nop_remove_def)
next
  show "0 < e_timer_id ex_failing_env n" for n by (simp add: ex_failing_env_def ex_env_def)
qed

definition ex_rule :: "nat mt_policy_rule" where
  "ex_rule = snd (rule_set_object 5 (ex_object 1) new_rule)"

theorem ni_install_failure_undefined_witness:
  "ni_process_event ex_failing_env (ex_response_event sc_success suc_successfully_processed)
     (ex_ni_pending\<lparr>s_rule := ex_rule\<rparr>, ex_world) = Undef \<or>
   (\<exists>msg sv c p. ni_process_event ex_failing_env (ex_response_event sc_success suc_successfully_processed)
     (ex_ni_pending\<lparr>s_rule := ex_rule\<rparr>, ex_world) = Exn (Policy_Rule_Installer_Error msg sv c) p)"
proof -
  let ?s = "ex_ni_pending\<lparr>s_rule := ex_rule\<rparr>"
  let ?evt = "ex_response_event sc_success suc_successfully_processed"
  let ?e = "\<lparr>me_msg = create_response ex_mri ex_configure_msg sc_success suc_successfully_processed,
    me_for_this_node = True\<rparr>"
  let ?resp = "response_body (nm_body ex_configure_msg) sc_success suc_successfully_processed"
  have r: "rule_wf ex_rule" "get_number_mspec_objects ex_rule = 1"
    by (simp_all add: ex_rule_def rule_set_object_def new_rule_def smap_insert_def
        get_number_mspec_objects_def rule_wf_def)
  have s: "ni_inv ?s" "ni_state ?s = STATE_PENDING" "ni_last_configure_msg ?s = Some ex_configure_msg"
    using ex_ni_pending_inv r(1) by (simp_all add: ni_inv_def ex_ni_pending_def)
  have ev: "ev_body ?evt = Msg_Event ?e" "nm_body (me_msg ?e) = Some ?resp" "response_is_success ?resp"
    by (simp_all add: ex_response_event_def new_msg_event_def create_response_def response_body_is_success)
  have "ri_install (e_installer ex_failing_env) (s_rule ?s) (w_installer ex_world) = Ret (Some new_rule) ()"
    "get_number_mspec_objects (new_rule :: nat mt_policy_rule) \<noteq> get_number_mspec_objects (s_rule ?s)"
    "rule_wf (new_rule :: nat mt_policy_rule)"
    using r(2) by (simp_all add: ex_failing_env_def) (simp add: new_rule_def get_number_mspec_objects_def)
  from ni_install_failure_undefined [OF ex_failing.session_env_axioms s ex_response_matches ev this] show ?thesis .
qed

end
