(* ===== verification/NF_Session.thy ===== *)
theory NF_Session
  imports NI_Session
begin

text \<open>
  The forwarder session (src/nf_session.cpp, include/nf_session.h): it keeps the objects of a
  passing CONFIGURE it can meter itself, sends the others on, installs its rule when the
  response of the receiver passes, and forwards REFRESH messages and their responses until
  the lifetime ends. The configuration is the one of the environment.
\<close>

record ('o, 'r) nf_session = "'o session" +
  nf_state :: session_state
  nf_lifetime :: u32
  nf_max_lifetime :: u32
  nf_response_timeout :: u32
  nf_state_timer :: nat
  nf_response_timer :: nat
  nf_ni_mri :: "'r option"
  nf_nr_mri :: "'r option"
  nf_configure_message :: "('o, 'r) ntlp_msg option"
  nf_refresh_message :: "('o, 'r) ntlp_msg option"

type_synonym ('o, 'r, 'i) nf_pair = "('o, 'r) nf_session \<times> ('o, 'r, 'i) world"

text \<open>The constructor leaves the hop count unset; the forwarder never reads it.\<close>

definition new_nf_session :: "sid \<Rightarrow> ('o, 'r) nf_session" where
  "new_nf_session sid =
     \<lparr>s_id = sid, s_type = St_Forwarder, s_msn = 0, s_msg_hop_count = 0, s_rule = new_rule,
      nf_state = STATE_CLOSE, nf_lifetime = 0, nf_max_lifetime = 0, nf_response_timeout = 0,
      nf_state_timer = stopped_timer, nf_response_timer = stopped_timer,
      nf_ni_mri = None, nf_nr_mri = None, nf_configure_message = None, nf_refresh_message = None\<rparr>"

definition nf_is_final :: "('o, 'r) nf_session \<Rightarrow> bool" where
  "nf_is_final s \<longleftrightarrow> nf_state s = STATE_CLOSE"

section \<open>Utilities\<close>

text \<open>
  The assertion \<open>get_downstream() == true\<close> of both functions: \<open>None\<close> when it fails.
\<close>

definition create_mri_with_dest :: "('h, 'r) mri_ops \<Rightarrow> 'r \<Rightarrow> 'r option" where
  "create_mri_with_dest M orig_mri =
     (let f = mri_pc_fields M orig_mri
      in if \<not> f_downstream f then None
         else Some (mri_new_pathcoupled M
           \<lparr>f_sourceaddress = f_sourceaddress f, f_sourceprefix = f_sourceprefix f,
            f_sourceport = f_sourceport f, f_destaddress = f_destaddress f,
            f_destprefix = f_destprefix f, f_destport = f_destport f,
            f_protocol = f_protocol f, f_flowlabel = f_flowlabel f,
            f_ds_field = f_ds_field f, f_spi = f_spi f, f_downstream = f_downstream f\<rparr>))"

definition create_mri_inverted :: "('h, 'r) mri_ops \<Rightarrow> 'r \<Rightarrow> 'r option" where
  "create_mri_inverted M orig_mri =
     (if \<not> f_downstream (mri_pc_fields M orig_mri) then None
      else Some (mri_invert_direction M orig_mri))"

definition no_mri_error :: exc where
  "no_mri_error = Request_Error ''no path-coupled MRI found'' sc_permanent_failure fail_configuration_failed"

definition nf_set_pc_mri :: "('h, 'o, 'r, 'i) env \<Rightarrow> ('o, 'r) msg_event \<Rightarrow>
    ('o, 'r, 'i) nf_pair \<Rightarrow> (exc, unit, ('o, 'r, 'i) nf_pair) result" where
  "nf_set_pc_mri E e = (\<lambda>(s, w).
     let pc_mri = nm_mri (me_msg e)
     in if \<not> mri_is_pathcoupled (e_mri E) pc_mri then Exn no_mri_error (s, w)
        else if \<not> f_downstream (mri_pc_fields (e_mri E) pc_mri) then Abort
        else
          assert_some (create_mri_with_dest (e_mri E) pc_mri) (\<lambda>nr.
          assert_some (create_mri_inverted (e_mri E) pc_mri) (\<lambda>ni.
            Ret () (s\<lparr>nf_nr_mri := Some nr, nf_ni_mri := Some ni\<rparr>, w))))"

text \<open>Returns the missing objects; \<open>get_mspec_objects\<close> may dereference NULL.\<close>

definition nf_set_mt_policy_rule :: "('h, 'o, 'r, 'i) env \<Rightarrow> ('o, 'r) msg_event \<Rightarrow>
    ('o, 'r, 'i) nf_pair \<Rightarrow> (exc, 'o mspec_object list, ('o, 'r, 'i) nf_pair) result" where
  "nf_set_mt_policy_rule E e = (\<lambda>(s, w).
     assert_some (body_of_class Mnslp_Configure (me_msg e)) (\<lambda>configure.
     deref (configure_get_mspec_objects configure) (\<lambda>objects.
       let (rule, missing, w) =
             sort_objects E (check_participating (s_type s)
               (configure_get_selection_metering_entities configure)) objects (s_rule s) [] w
       in Ret missing (s\<lparr>s_rule := rule\<rparr>, w))))"

definition nf_configure :: "'o mnslp_msg \<Rightarrow> u32 \<Rightarrow> 'o mspec_object list \<Rightarrow> 'o mnslp_msg" where
  "nf_configure c lifetime missing_objects =
     (let configure = new_msg Mnslp_Configure;
          configure = (if lifetime \<le> configure_get_session_lifetime c
                       then configure_set_session_lifetime lifetime configure
                       else configure_set_session_lifetime (configure_get_session_lifetime c) configure);
          configure = configure_set_msg_sequence_number (configure_get_msg_sequence_number c) configure;
          configure = configure_set_selection_metering_entities
                        (configure_get_selection_metering_entities c) configure;
          configure = configure_set_message_hop_count (configure_get_message_hop_count c) configure
      in fold configure_set_mspec_object missing_objects configure)"

definition nf_build_configure_message :: "('o, 'r) msg_event \<Rightarrow> 'o mspec_object list \<Rightarrow>
    ('o, 'r, 'i) nf_pair \<Rightarrow> (exc, ('o, 'r) ntlp_msg, ('o, 'r, 'i) nf_pair) result" where
  "nf_build_configure_message e missing_objects = (\<lambda>(s, w).
     assert_some (nf_nr_mri s) (\<lambda>mri.
     deref (body_of_class Mnslp_Configure (me_msg e)) (\<lambda>c.
       Ret \<lparr>nm_sid = s_id s, nm_body = Some (nf_configure c (nf_lifetime s) missing_objects),
            nm_mri = mri, nm_sii_handle = 0\<rparr> (s, w))))"

definition nf_build_teardown_message :: "('o, 'r, 'i) nf_pair \<Rightarrow>
    (exc, ('o, 'r) ntlp_msg, ('o, 'r, 'i) nf_pair) result" where
  "nf_build_teardown_message = (\<lambda>(s, w).
     assert_some (nf_nr_mri s) (\<lambda>mri.
       let refresh = refresh_set_session_lifetime 0 (new_msg Mnslp_Refresh);
           (msn, s) = next_msg_sequence_number s
       in Ret \<lparr>nm_sid = s_id s, nm_body = Some (refresh_set_msg_sequence_number msn refresh),
               nm_mri = mri, nm_sii_handle = 0\<rparr> (s, w)))"

text \<open>\<open>create_msg_for_nr\<close> and \<open>create_msg_for_ni\<close>, both \<open>copy_for_forwarding()\<close>\<close>

definition nf_forward :: "('o, 'r) ntlp_msg \<Rightarrow> ('o, 'r, 'i) nf_pair \<Rightarrow>
    (exc, unit, ('o, 'r, 'i) nf_pair) result" where
  "nf_forward msg = (\<lambda>(s, w).
     deref (copy_for_forwarding None msg) (\<lambda>c. Ret () (s, send_message c w)))"

definition nf_start_state_timer :: "('h, 'o, 'r, 'i) env \<Rightarrow> u32 \<Rightarrow> ('o, 'r, 'i) nf_pair \<Rightarrow>
    ('o, 'r, 'i) nf_pair" where
  "nf_start_state_timer E seconds = (\<lambda>(s, w).
     let (i, w) = start_timer E (s_id s) seconds w in (s\<lparr>nf_state_timer := i\<rparr>, w))"

definition nf_start_response_timer :: "('h, 'o, 'r, 'i) env \<Rightarrow> u32 \<Rightarrow> ('o, 'r, 'i) nf_pair \<Rightarrow>
    ('o, 'r, 'i) nf_pair" where
  "nf_start_response_timer E seconds = (\<lambda>(s, w).
     let (i, w) = start_timer E (s_id s) seconds w in (s\<lparr>nf_response_timer := i\<rparr>, w))"

section \<open>State CLOSE\<close>

text \<open>The body of the \<open>try\<close> block of \<open>process_state_close\<close>\<close>

definition nf_try_configure :: "('h, 'o, 'r, 'i) env \<Rightarrow> ('o, 'r) msg_event \<Rightarrow>
    ('o, 'r, 'i) nf_pair \<Rightarrow> (exc, session_state, ('o, 'r, 'i) nf_pair) result" where
  "nf_try_configure E e p =
     r_bind (nf_set_pc_mri E e p) (\<lambda>_ p.
     r_bind (nf_set_mt_policy_rule E e p) (\<lambda>missing_objects p.
     if \<not> mri_is_pathcoupled (e_mri E) (nm_mri (me_msg e)) then Abort
     else
       r_bind (nf_build_configure_message e missing_objects p) (\<lambda>m (s, w).
       Ret STATE_PENDING (nf_start_state_timer E (nf_lifetime s) (s, send_message m w)))))"

text \<open>Both \<open>catch\<close> clauses answer with the error and close.\<close>

definition nf_catch_error :: "('h, 'o, 'r, 'i) env \<Rightarrow> ('o, 'r) ntlp_msg \<Rightarrow>
    (exc, session_state, ('o, 'r, 'i) nf_pair) result \<Rightarrow>
    (exc, session_state, ('o, 'r, 'i) nf_pair) result" where
  "nf_catch_error E msg r =
     (case r of
        Exn exc p \<Rightarrow>
          (case as_request_error exc of
             Some codes \<Rightarrow>
               Ret STATE_CLOSE (fst p, send_message (create_error_response (e_mri E) msg codes) (snd p))
           | None \<Rightarrow> Exn exc p)
      | _ \<Rightarrow> r)"

definition nf_process_state_close :: "('h, 'o, 'r, 'i) env \<Rightarrow> ('h, 'o, 'r) event \<Rightarrow>
    ('o, 'r, 'i) nf_pair \<Rightarrow> (exc, session_state, ('o, 'r, 'i) nf_pair) result" where
  "nf_process_state_close E evt = (\<lambda>(s, w).
     deref (as_msg_event (ev_body evt)) (\<lambda>e.
     let msg = me_msg e
     in deref (ntlp_copy msg) (\<lambda>c.
          nf_catch_error E msg (nf_try_configure E e (s\<lparr>nf_configure_message := Some c\<rparr>, w)))))"

text \<open>An event that is no CONFIGURE reaches the end of the function without a \<open>return\<close>.\<close>

definition nf_handle_state_close :: "('h, 'o, 'r, 'i) env \<Rightarrow> ('h, 'o, 'r) event \<Rightarrow>
    ('o, 'r, 'i) nf_pair \<Rightarrow> (exc, session_state, ('o, 'r, 'i) nf_pair) result" where
  "nf_handle_state_close E evt = (\<lambda>(s, w).
     if is_mnslp_configure evt
     then
       deref (as_msg_event (ev_body evt)) (\<lambda>e.
       let msg = me_msg e
       in deref (body_of_class Mnslp_Configure msg) (\<lambda>c.
            let msn = configure_get_msg_sequence_number c;
                s = s\<lparr>nf_max_lifetime := cf_nf_max_session_lifetime (e_config E),
                      nf_response_timeout := cf_nf_max_session_lifetime (e_config E)\<rparr>
            in case precheck E e (configure_get_session_lifetime c) (nf_max_lifetime s) of
                 Refuse codes \<Rightarrow>
                   Ret STATE_CLOSE (s, send_message (create_error_response (e_mri E) msg codes) w)
               | Proceed lifetime \<Rightarrow>
                   if lifetime = 0 then Ret STATE_CLOSE (s, w)
                   else nf_process_state_close E evt (s\<lparr>nf_lifetime := lifetime, s_msn := msn\<rparr>, w)))
     else Undef)"

section \<open>State PENDING\<close>

definition nf_pending_configure :: "('h, 'o, 'r, 'i) env \<Rightarrow> ('h, 'o, 'r) event \<Rightarrow> ('o, 'r) msg_event \<Rightarrow>
    ('o, 'r, 'i) nf_pair \<Rightarrow> (exc, session_state, ('o, 'r, 'i) nf_pair) result" where
  "nf_pending_configure E evt e = (\<lambda>(s, w).
     let msg = me_msg e
     in deref (body_of_class Mnslp_Configure msg) (\<lambda>configure.
        assert_some (nf_configure_message s) (\<lambda>prev.
        assert_some (body_of_class Mnslp_Configure prev) (\<lambda>previous.
          case check_authorization E e of
            Some exc \<Rightarrow>
              (case as_request_error exc of
                 Some codes \<Rightarrow>
                   Ret STATE_PENDING (s, send_message (create_error_response (e_mri E) msg codes) w)
               | None \<Rightarrow> Exn exc (s, w))
          | None \<Rightarrow>
              if configure_get_msg_sequence_number configure > configure_get_msg_sequence_number previous
                 \<and> configure_get_session_lifetime configure = 0
              then
                r_bind (nf_forward msg (s\<lparr>nf_state_timer := stopped_timer\<rparr>, w)) (\<lambda>_ p.
                Ret STATE_CLOSE p)
              else if configure_get_msg_sequence_number configure =
                        configure_get_msg_sequence_number previous
              then
                r_bind (nf_forward msg (s, w)) (\<lambda>_ (s, w).
                Ret STATE_PENDING (nf_start_state_timer E (nf_response_timeout s) (s, w)))
              else
                nf_process_state_close E evt
                  (s\<lparr>nf_lifetime := configure_get_session_lifetime configure,
                     s_msn := configure_get_msg_sequence_number configure\<rparr>, w)))))"

definition nf_pending_success :: "('h, 'o, 'r, 'i) env \<Rightarrow> ('o, 'r) ntlp_msg \<Rightarrow>
    ('o, 'r, 'i) nf_pair \<Rightarrow> (exc, session_state, ('o, 'r, 'i) nf_pair) result" where
  "nf_pending_success E msg = (\<lambda>(s, w).
     r_bind (install E s w) (\<lambda>result (s, w).
       if get_number_mspec_objects result = get_number_mspec_objects (s_rule s)
       then
         r_bind (nf_forward msg (s\<lparr>s_rule := result\<rparr>, w)) (\<lambda>_ (s, w).
         Ret STATE_METERING (nf_start_state_timer E (nf_lifetime s) (s, w)))
       else
         let s = s\<lparr>nf_lifetime := 0, s_rule := result\<rparr>
         in r_bind (uninstall E s w) (\<lambda>_ p.
            r_bind (nf_build_teardown_message p) (\<lambda>tear_down (s, w).
            Ret STATE_CLOSE (s, send_message (create_response (e_mri E) msg sc_permanent_failure fail_internal_error)
              (send_message tear_down w))))))"

definition nf_pending_response :: "('h, 'o, 'r, 'i) env \<Rightarrow> ('h, 'o, 'r) event \<Rightarrow>
    ('o, 'r) ntlp_msg \<Rightarrow> ('o, 'r, 'i) nf_pair \<Rightarrow> (exc, session_state, ('o, 'r, 'i) nf_pair) result" where
  "nf_pending_response E evt prev = (\<lambda>(s, w).
     deref (as_msg_event (ev_body evt)) (\<lambda>e.
     deref (body_of_class Mnslp_Response (me_msg e)) (\<lambda>resp.
     deref (body_of_class Mnslp_Configure prev) (\<lambda>c.
       if \<not> is_response_to_configure resp c then Ret STATE_PENDING (s, w)
       else if response_is_success resp then nf_pending_success E (me_msg e) (s, w)
       else
         r_bind (nf_forward (me_msg e) (s\<lparr>nf_state_timer := stopped_timer\<rparr>, w)) (\<lambda>_ p.
         Ret STATE_CLOSE p)))))"

definition nf_handle_state_pending :: "('h, 'o, 'r, 'i) env \<Rightarrow> ('h, 'o, 'r) event \<Rightarrow>
    ('o, 'r, 'i) nf_pair \<Rightarrow> (exc, session_state, ('o, 'r, 'i) nf_pair) result" where
  "nf_handle_state_pending E evt = (\<lambda>(s, w).
     if is_mnslp_configure evt
     then deref (as_msg_event (ev_body evt)) (\<lambda>e. nf_pending_configure E evt e (s, w))
     else if is_no_next_node_found_event evt \<or> is_timer_of evt (nf_state_timer s)
     then
       assert_some (nf_configure_message s) (\<lambda>latest.
         Ret STATE_CLOSE (s, send_message
           (create_response (e_mri E) latest sc_permanent_failure fail_nr_not_reached) w))
     else if is_timer evt then Ret STATE_PENDING (s, w)
     else
       assert_some (nf_configure_message s) (\<lambda>prev.
       assert_some (is_mnslp_response evt prev) (\<lambda>matches.
         if matches then nf_pending_response E evt prev (s, w)
         else Ret STATE_PENDING (s, w))))"

section \<open>State METERING\<close>

definition nf_metering_refresh :: "('h, 'o, 'r, 'i) env \<Rightarrow> ('o, 'r) msg_event \<Rightarrow>
    ('o, 'r, 'i) nf_pair \<Rightarrow> (exc, session_state, ('o, 'r, 'i) nf_pair) result" where
  "nf_metering_refresh E e = (\<lambda>(s, w).
     let msg = me_msg e
     in deref (body_of_class Mnslp_Refresh msg) (\<lambda>refresh.
        let msn = refresh_get_msg_sequence_number refresh
        in case precheck E e (refresh_get_session_lifetime refresh) (nf_max_lifetime s) of
             Refuse codes \<Rightarrow>
               Ret STATE_METERING (s, send_message (create_error_response (e_mri E) msg codes) w)
           | Proceed lifetime \<Rightarrow>
               if \<not> is_greater_than msn (s_msn s) then Ret STATE_METERING (s, w)
               else
                 let s = s\<lparr>nf_lifetime := lifetime\<rparr>
                 in if lifetime > 0
                    then
                      let s = s\<lparr>nf_response_timer := stopped_timer, s_msn := msn\<rparr>
                      in deref (ntlp_copy msg) (\<lambda>c.
                         r_bind (nf_forward msg (s\<lparr>nf_refresh_message := Some c\<rparr>, w)) (\<lambda>_ (s, w).
                         Ret STATE_METERING (nf_start_response_timer E (nf_response_timeout s) (s, w))))
                    else
                      r_bind (nf_forward msg (s\<lparr>nf_response_timer := stopped_timer\<rparr>, w)) (\<lambda>_ (s, w).
                      deref (ntlp_copy msg) (\<lambda>c.
                      Ret STATE_METERING (nf_start_response_timer E (nf_response_timeout s)
                        (s\<lparr>nf_refresh_message := Some c\<rparr>, w))))))"

definition nf_metering_response :: "('h, 'o, 'r, 'i) env \<Rightarrow> ('h, 'o, 'r) event \<Rightarrow>
    ('o, 'r) ntlp_msg \<Rightarrow> ('o, 'r, 'i) nf_pair \<Rightarrow> (exc, session_state, ('o, 'r, 'i) nf_pair) result" where
  "nf_metering_response E evt prev = (\<lambda>(s, w).
     deref (as_msg_event (ev_body evt)) (\<lambda>e.
     deref (body_of_class Mnslp_Response (me_msg e)) (\<lambda>response.
     deref (body_of_class Mnslp_Refresh prev) (\<lambda>c.
       if \<not> is_response_to_refresh response c then Ret STATE_METERING (s, w)
       else if response_is_success response
       then
         r_bind (nf_forward (me_msg e) (s, w)) (\<lambda>_ (s, w).
           if nf_lifetime s = 0
           then
             r_bind (uninstall E (s\<lparr>nf_state_timer := stopped_timer\<rparr>) w) (\<lambda>_ p. Ret STATE_CLOSE p)
           else Ret STATE_METERING (nf_start_state_timer E (nf_lifetime s) (s, w)))
       else
         r_bind (uninstall E (s\<lparr>nf_state_timer := stopped_timer\<rparr>) w) (\<lambda>_ p.
         r_bind (nf_forward (me_msg e) p) (\<lambda>_ p. Ret STATE_CLOSE p))))))"

definition nf_handle_state_metering :: "('h, 'o, 'r, 'i) env \<Rightarrow> ('h, 'o, 'r) event \<Rightarrow>
    ('o, 'r, 'i) nf_pair \<Rightarrow> (exc, session_state, ('o, 'r, 'i) nf_pair) result" where
  "nf_handle_state_metering E evt = (\<lambda>(s, w).
     if is_mnslp_refresh evt
     then deref (as_msg_event (ev_body evt)) (\<lambda>e. nf_metering_refresh E e (s, w))
     else if is_no_next_node_found_event evt \<or> is_timer_of evt (nf_response_timer s)
     then
       r_bind (uninstall E (s\<lparr>nf_state_timer := stopped_timer\<rparr>) w) (\<lambda>_ (s, w).
       assert_some (nf_refresh_message s) (\<lambda>latest.
         Ret STATE_CLOSE (s, send_message
           (create_response (e_mri E) latest sc_permanent_failure fail_nr_not_reached) w)))
     else if is_timer_of evt (nf_state_timer s)
     then
       r_bind (uninstall E (s\<lparr>nf_response_timer := stopped_timer\<rparr>) w) (\<lambda>_ p. Ret STATE_CLOSE p)
     else if is_route_changed_bad_event evt
     then r_bind (uninstall E s w) (\<lambda>_ p. Ret STATE_CLOSE p)
     else
       assert_some (nf_refresh_message s) (\<lambda>prev.
       assert_some (is_mnslp_response evt prev) (\<lambda>matches.
         if matches then nf_metering_response E evt prev (s, w)
         else if is_timer evt then Ret STATE_METERING (s, w)
         else Ret STATE_METERING (s, w))))"

fun nf_handler :: "session_state \<Rightarrow> ('h, 'o, 'r, 'i) env \<Rightarrow> ('h, 'o, 'r) event \<Rightarrow>
    ('o, 'r, 'i) nf_pair \<Rightarrow> (exc, session_state, ('o, 'r, 'i) nf_pair) result" where
  "nf_handler STATE_CLOSE = nf_handle_state_close"
| "nf_handler STATE_PENDING = nf_handle_state_pending"
| "nf_handler STATE_METERING = nf_handle_state_metering"

definition nf_process_event :: "('h, 'o, 'r, 'i) env \<Rightarrow> ('h, 'o, 'r) event \<Rightarrow>
    ('o, 'r, 'i) nf_pair \<Rightarrow> (exc, unit, ('o, 'r, 'i) nf_pair) result" where
  "nf_process_event E evt p =
     r_bind (nf_handler (nf_state (fst p)) E evt p) (\<lambda>st (s, w). Ret () (s\<lparr>nf_state := st\<rparr>, w))"

section \<open>Invariant\<close>

text \<open>
  Outside CLOSE the forwarder has the CONFIGURE that created it and the routing information
  towards both ends; the stored messages are of their class.
\<close>

definition nf_inv :: "('o, 'r) nf_session \<Rightarrow> bool" where
  "nf_inv s \<longleftrightarrow> s_type s = St_Forwarder \<and> rule_wf (s_rule s) \<and>
     (nf_state s \<noteq> STATE_CLOSE \<longrightarrow> nf_configure_message s \<noteq> None \<and> nf_nr_mri s \<noteq> None \<and> nf_ni_mri s \<noteq> None) \<and>
     (\<forall>m. nf_configure_message s = Some m \<longrightarrow> holds_msg Mnslp_Configure m) \<and>
     (\<forall>m. nf_refresh_message s = Some m \<longrightarrow> holds_msg Mnslp_Refresh m)"

lemma nf_inv_new: "nf_inv (new_nf_session sid)"
  by (simp add: nf_inv_def new_nf_session_def)

definition nf_post :: "('o, 'r) nf_session \<Rightarrow> (exc, session_state, ('o, 'r, 'i) nf_pair) result \<Rightarrow> bool" where
  "nf_post s r \<longleftrightarrow> (\<forall>st s' w'. r = Ret st (s', w') \<longrightarrow>
     nf_inv (s'\<lparr>nf_state := st\<rparr>) \<and> s_id s' = s_id s)"

lemma nf_post_simps [simp]:
  "nf_post s (Ret st (s', w')) \<longleftrightarrow> nf_inv (s'\<lparr>nf_state := st\<rparr>) \<and> s_id s' = s_id s"
  "nf_post s (Exn x p)" "nf_post s Abort" "nf_post s Undef"
  by (auto simp: nf_post_def)

lemma nf_post_upd: "nf_post (s\<lparr>nf_state_timer := t\<rparr>) = nf_post s"
  by (simp add: nf_post_def fun_eq_iff)

lemma nf_start_state_timer_eq [sess_simps]:
  "nf_start_state_timer E seconds (s, w) =
     (s\<lparr>nf_state_timer := e_timer_id E (w_tick w)\<rparr>,
      act (Start_Timer (s_id s) (e_timer_id E (w_tick w)) (sint seconds)) (w\<lparr>w_tick := Suc (w_tick w)\<rparr>))"
  by (simp add: nf_start_state_timer_def start_timer_def Let_def)

lemma nf_start_response_timer_eq [sess_simps]:
  "nf_start_response_timer E seconds (s, w) =
     (s\<lparr>nf_response_timer := e_timer_id E (w_tick w)\<rparr>,
      act (Start_Timer (s_id s) (e_timer_id E (w_tick w)) (sint seconds)) (w\<lparr>w_tick := Suc (w_tick w)\<rparr>))"
  by (simp add: nf_start_response_timer_def start_timer_def Let_def)

text \<open>What passes the node: the message with the same body and MRI\<close>

definition forwarded :: "('o, 'r) ntlp_msg \<Rightarrow> ('o, 'r) ntlp_msg" where
  "forwarded m = m\<lparr>nm_sii_handle := 0\<rparr>"

lemma copy_for_forwarding_eq:
  assumes "nm_body m = Some b" and "msg_wf b"
  shows "copy_for_forwarding None m = Some (forwarded m)"
  using assms by (simp add: copy_for_forwarding_def forwarded_def msg_copy_id)

lemma nf_forward_eq:
  assumes "nm_body m = Some b" and "msg_wf b"
  shows "nf_forward m (s, w) = Ret () (s, send_message (forwarded m) w)"
  using copy_for_forwarding_eq [OF assms] by (simp add: nf_forward_def)

lemma nf_forward_post:
  assumes "nf_inv (s\<lparr>nf_state := st\<rparr>)"
  shows "nf_post s (r_bind (nf_forward m (s, w)) (\<lambda>_ p. Ret st p))"
  using assms by (cases "copy_for_forwarding None m") (simp_all add: nf_forward_def)

lemma nf_configure_with:
  assumes "mspec_list_ok missing"
  shows "configure_with (min l (configure_get_session_lifetime c)) (configure_get_msg_sequence_number c)
    (configure_get_selection_metering_entities c) (configure_get_message_hop_count c) missing
    (nf_configure c l missing)"
proof -
  have "nf_configure c l missing = fold configure_set_mspec_object missing
      (configure_header (min l (configure_get_session_lifetime c)) (configure_get_msg_sequence_number c)
        (configure_get_selection_metering_entities c) (configure_get_message_hop_count c))"
    by (simp add: nf_configure_def Let_def min_def)
  then show ?thesis using configure_built [OF assms] by simp
qed

text \<open>The outcome of the \<open>try\<close> block on a message the node can route\<close>

lemma nf_try_configure_outcome:
  assumes wf: "nf_inv s" and c: "body_of_class Mnslp_Configure (me_msg e) = Some c"
  shows "(\<exists>objects rule missing w' nr ni.
      configure_get_mspec_objects c = Some objects \<and>
      mri_is_pathcoupled (e_mri E) (nm_mri (me_msg e)) \<and>
      sort_objects E (check_participating St_Forwarder (configure_get_selection_metering_entities c))
        objects (s_rule s) [] w = (rule, missing, w') \<and> rule_wf rule \<and>
      create_mri_with_dest (e_mri E) (nm_mri (me_msg e)) = Some nr \<and>
      create_mri_inverted (e_mri E) (nm_mri (me_msg e)) = Some ni \<and>
      nf_try_configure E e (s, w) = Ret STATE_PENDING (nf_start_state_timer E (nf_lifetime s)
        (s\<lparr>nf_nr_mri := Some nr, nf_ni_mri := Some ni, s_rule := rule\<rparr>,
         send_message \<lparr>nm_sid = s_id s, nm_body = Some (nf_configure c (nf_lifetime s) missing),
           nm_mri = nr, nm_sii_handle = 0\<rparr> w'))) \<or>
    (\<not> mri_is_pathcoupled (e_mri E) (nm_mri (me_msg e)) \<and>
      nf_try_configure E e (s, w) = Exn no_mri_error (s, w)) \<or>
    (mri_is_pathcoupled (e_mri E) (nm_mri (me_msg e)) \<and>
      \<not> f_downstream (mri_pc_fields (e_mri E) (nm_mri (me_msg e))) \<and>
      nf_try_configure E e (s, w) = Abort) \<or>
    (configure_get_mspec_objects c = None \<and> nf_try_configure E e (s, w) = Undef)"
proof (cases "mri_is_pathcoupled (e_mri E) (nm_mri (me_msg e)) \<and>
    f_downstream (mri_pc_fields (e_mri E) (nm_mri (me_msg e)))")
  case True
  then obtain nr ni where mri: "create_mri_with_dest (e_mri E) (nm_mri (me_msg e)) = Some nr"
    "create_mri_inverted (e_mri E) (nm_mri (me_msg e)) = Some ni"
    by (simp add: create_mri_with_dest_def create_mri_inverted_def Let_def)
  have ty: "s_type s = St_Forwarder" "rule_wf (s_rule s)" using wf by (simp_all add: nf_inv_def)
  show ?thesis
  proof (cases "configure_get_mspec_objects c")
    case None
    then show ?thesis
      using True mri c by (simp add: nf_try_configure_def nf_set_pc_mri_def nf_set_mt_policy_rule_def)
  next
    case (Some objects)
    obtain rule missing w' where so: "sort_objects E
        (check_participating St_Forwarder (configure_get_selection_metering_entities c))
        objects (s_rule s) [] w = (rule, missing, w')" by (metis prod.exhaust_sel)
    moreover have "rule_wf rule" using sort_objects_wf [OF ty(2) so] .
    ultimately show ?thesis
      using True mri c Some ty
      by (simp add: nf_try_configure_def nf_set_pc_mri_def nf_set_mt_policy_rule_def
          nf_build_configure_message_def)
  qed
next
  case False
  then show ?thesis
    by (cases "mri_is_pathcoupled (e_mri E) (nm_mri (me_msg e))")
      (simp_all add: nf_try_configure_def nf_set_pc_mri_def Let_def)
qed

lemma nf_process_close_post:
  assumes "nf_inv s" and "ev_body evt = Msg_Event e" and c: "body_of_class Mnslp_Configure (me_msg e) = Some c"
    and "msg_wf c"
  shows "nf_post s (nf_process_state_close E evt (s, w))"
proof -
  have h: "holds_msg Mnslp_Configure (me_msg e)"
    using body_of_classD [OF c] assms(4) by (simp add: holds_msg_def)
  let ?s = "s\<lparr>nf_configure_message := Some (me_msg e)\<rparr>"
  have inv: "nf_inv ?s" using assms(1) h by (auto simp: nf_inv_def)
  have eq: "nf_process_state_close E evt (s, w) = nf_catch_error E (me_msg e) (nf_try_configure E e (?s, w))"
    using assms(2) ntlp_copy_id [OF h] by (simp add: nf_process_state_close_def Let_def)
  from nf_try_configure_outcome [OF inv c, of E w] show ?thesis
  proof (elim disjE exE conjE)
    assume "nf_try_configure E e (?s, w) = Exn no_mri_error (?s, w)"
    then show ?thesis using inv by (simp add: eq nf_catch_error_def no_mri_error_def nf_inv_def)
  next
    fix rule missing w' nr ni
    assume "rule_wf rule" and "nf_try_configure E e (?s, w) = Ret STATE_PENDING (nf_start_state_timer E (nf_lifetime ?s)
        (?s\<lparr>nf_nr_mri := Some nr, nf_ni_mri := Some ni, s_rule := rule\<rparr>,
         send_message \<lparr>nm_sid = s_id ?s, nm_body = Some (nf_configure c (nf_lifetime ?s) missing),
           nm_mri = nr, nm_sii_handle = 0\<rparr> w'))"
    then show ?thesis using inv by (simp add: eq nf_catch_error_def nf_inv_def sess_simps)
  qed (simp_all add: eq nf_catch_error_def)
qed

section \<open>The handlers keep the invariant\<close>

text \<open>What an event of a message class is\<close>

lemma event_is_classD:
  assumes "event_is_class c evt" and "event_wf evt"
  obtains e b where "ev_body evt = Msg_Event e" and "as_msg_event (ev_body evt) = Some e"
    and "body_of_class c (me_msg e) = Some b" and "nm_body (me_msg e) = Some b" and "m_class b = c"
    and "msg_wf b" and "holds_msg c (me_msg e)"
proof -
  from assms(1) obtain e b where eb: "ev_body evt = Msg_Event e" "body_of_class c (me_msg e) = Some b"
    by (cases "ev_body evt") (auto simp: event_is_class_def)
  have nb: "nm_body (me_msg e) = Some b" "m_class b = c" using body_of_classD [OF eb(2)] by simp_all
  moreover have "msg_wf b" using assms(2) eb(1) nb(1) by (simp add: event_wf_def)
  ultimately show thesis using eb by (intro that [of e b]) (auto simp: holds_msg_def)
qed

lemma nf_close_post:
  assumes "nf_inv s" and "nf_state s = STATE_CLOSE" and "event_wf evt"
  shows "nf_post s (nf_handle_state_close E evt (s, w))"
proof (cases "is_mnslp_configure evt")
  case False
  then show ?thesis by (simp add: nf_handle_state_close_def)
next
  case True
  then obtain e c where e: "ev_body evt = Msg_Event e" "as_msg_event (ev_body evt) = Some e"
    "body_of_class Mnslp_Configure (me_msg e) = Some c" "msg_wf c"
    unfolding is_mnslp_configure_def using assms(3) by (elim event_is_classD)
  let ?max = "cf_nf_max_session_lifetime (e_config E)"
  have close: "nf_post s (Ret STATE_CLOSE (s\<lparr>nf_max_lifetime := ?max, nf_response_timeout := ?max\<rparr>, w'))" for w'
    using assms(1) by (simp add: nf_inv_def)
  have go: "nf_post s (nf_process_state_close E evt (s\<lparr>nf_max_lifetime := ?max,
      nf_response_timeout := ?max, nf_lifetime := l, s_msn := n\<rparr>, w'))" for l n w'
  proof -
    let ?s = "s\<lparr>nf_max_lifetime := ?max, nf_response_timeout := ?max, nf_lifetime := l, s_msn := n\<rparr>"
    have "nf_inv ?s" using assms(1,2) by (simp add: nf_inv_def)
    from nf_process_close_post [OF this e(1,3,4)] show ?thesis by (simp add: nf_post_def)
  qed
  show ?thesis
    using True e(2,3) close go
    by (simp add: nf_handle_state_close_def Let_def split: precheck.split)
qed

context session_env
begin

lemma nf_pending_configure_post:
  assumes inv: "nf_inv s" and st: "nf_state s = STATE_PENDING" and e: "ev_body evt = Msg_Event e"
    and c: "body_of_class Mnslp_Configure (me_msg e) = Some c" and wf: "msg_wf c"
  shows "nf_post s (nf_pending_configure E evt e (s, w))"
proof -
  from inv st obtain prev where prev: "nf_configure_message s = Some prev" "holds_msg Mnslp_Configure prev"
    by (auto simp: nf_inv_def)
  from holds_body_of_class [OF prev(2)] obtain b where b: "body_of_class Mnslp_Configure prev = Some b" by blast
  have pend: "nf_post s (Ret STATE_PENDING (s, w'))" for w' using inv st by (simp add: nf_inv_def)
  have fwd: "nf_forward (me_msg e) (s', w') = Ret () (s', send_message (forwarded (me_msg e)) w')" for s' w'
    using body_of_classD [OF c] wf by (intro nf_forward_eq) auto
  have go: "nf_post s (nf_process_state_close E evt (s\<lparr>nf_lifetime := l, s_msn := n\<rparr>, w))" for l n
  proof -
    have "nf_inv (s\<lparr>nf_lifetime := l, s_msn := n\<rparr>)" using inv by (simp add: nf_inv_def)
    from nf_process_close_post [OF this e c wf] show ?thesis by (simp add: nf_post_def)
  qed
  show ?thesis
    using inv st prev b c pend go
    by (auto simp: nf_pending_configure_def Let_def check_authorization_def fwd sess_simps nf_inv_def)
qed

lemma nf_pending_success_post:
  assumes inv: "nf_inv s" and st: "nf_state s = STATE_PENDING"
  shows "nf_post s (nf_pending_success E msg (s, w))"
proof -
  have "rule_wf (s_rule s)" using inv by (simp add: nf_inv_def)
  from install_outcome_wf [OF this, of w] show ?thesis
  proof (elim disjE exE conjE)
    fix r w'
    assume r: "install E s w = Ret r (s, w')" "rule_wf r"
    let ?s = "s\<lparr>nf_lifetime := 0, s_rule := r\<rparr>"
    have "rule_wf (s_rule ?s)" using r(2) by simp
    from uninstall_outcome [OF this, of w'] have "nf_post s (r_bind (uninstall E ?s w') (\<lambda>_ p.
            r_bind (nf_build_teardown_message p) (\<lambda>tear_down (s, w).
            Ret STATE_CLOSE (s, send_message (create_response (e_mri E) msg sc_permanent_failure fail_internal_error)
              (send_message tear_down w)))))"
      using inv st r(2) by (auto simp: nf_build_teardown_message_def nf_inv_def next_msg_sequence_number_def)
    moreover have "nf_post s (r_bind (nf_forward msg (s\<lparr>s_rule := r\<rparr>, w')) (\<lambda>_ (s, w).
         Ret STATE_METERING (nf_start_state_timer E (nf_lifetime s) (s, w))))"
      using inv st r(2) by (cases "copy_for_forwarding None msg")
        (simp_all add: nf_forward_def sess_simps nf_inv_def)
    ultimately show ?thesis using r(1) by (simp add: nf_pending_success_def Let_def)
  qed (simp add: nf_pending_success_def)
qed

lemma nf_pending_post:
  assumes inv: "nf_inv s" and st: "nf_state s = STATE_PENDING" and ev: "event_wf evt"
  shows "nf_post s (nf_handle_state_pending E evt (s, w))"
proof -
  from inv st obtain prev where prev: "nf_configure_message s = Some prev" "holds_msg Mnslp_Configure prev"
    by (auto simp: nf_inv_def)
  have pend: "nf_post s (Ret STATE_PENDING (s, w))" using inv st by (simp add: nf_inv_def)
  have close: "nf_post s (Ret STATE_CLOSE (s, w'))" for w' using inv by (simp add: nf_inv_def)
  have conf: "nf_post s (deref (as_msg_event (ev_body evt)) (\<lambda>e. nf_pending_configure E evt e (s, w)))"
    if cf: "is_mnslp_configure evt"
  proof -
    obtain e c where "ev_body evt = Msg_Event e" "as_msg_event (ev_body evt) = Some e"
      "body_of_class Mnslp_Configure (me_msg e) = Some c" "msg_wf c"
      using cf ev unfolding is_mnslp_configure_def by (elim event_is_classD)
    then show ?thesis using nf_pending_configure_post [OF inv st] by simp
  qed
  have resp: "nf_post s (nf_pending_response E evt prev (s, w))"
  proof -
    have inv': "nf_inv (s\<lparr>nf_state_timer := stopped_timer, nf_state := STATE_CLOSE\<rparr>)"
      using inv by (simp add: nf_inv_def)
    have fwd: "nf_post s (r_bind (nf_forward m (s\<lparr>nf_state_timer := stopped_timer\<rparr>, w)) (\<lambda>_ p. Ret STATE_CLOSE p))" for m
      using nf_forward_post [of STATE_CLOSE "s\<lparr>nf_state_timer := stopped_timer\<rparr>" m w] inv'
      by (simp add: nf_post_upd)
    show ?thesis
      using pend fwd nf_pending_success_post [OF inv st]
      by (auto simp: nf_pending_response_def deref_def split: option.split)
  qed
  obtain b where b: "is_mnslp_response evt prev = Some b"
    using is_mnslp_response_not_None [of evt prev] by auto
  show ?thesis
    using conf pend close resp prev(1) b by (simp add: nf_handle_state_pending_def)
qed

lemma nf_metering_refresh_post:
  assumes inv: "nf_inv s" and st: "nf_state s = STATE_METERING"
    and r: "body_of_class Mnslp_Refresh (me_msg e) = Some r" and wf: "msg_wf r"
  shows "nf_post s (nf_metering_refresh E e (s, w))"
proof -
  have h: "holds_msg Mnslp_Refresh (me_msg e)"
    using body_of_classD [OF r] wf by (simp add: holds_msg_def)
  have fwd: "nf_forward (me_msg e) (s', w') = Ret () (s', send_message (forwarded (me_msg e)) w')" for s' w'
    using body_of_classD [OF r] wf by (intro nf_forward_eq) auto
  show ?thesis
    using inv st r h
    by (auto simp: nf_metering_refresh_def Let_def fwd ntlp_copy_id [OF h] sess_simps nf_inv_def
        split: precheck.split)
qed

lemma nf_metering_response_post:
  assumes inv: "nf_inv s" and st: "nf_state s = STATE_METERING"
  shows "nf_post s (nf_metering_response E evt prev (s, w))"
proof -
  have un: "nf_post s (r_bind (uninstall E (s\<lparr>nf_state_timer := stopped_timer\<rparr>) w') (\<lambda>_ p. Ret STATE_CLOSE p))"
    and un2: "nf_post s (r_bind (uninstall E (s\<lparr>nf_state_timer := stopped_timer\<rparr>) w') (\<lambda>_ p.
         r_bind (nf_forward m p) (\<lambda>_ p. Ret STATE_CLOSE p)))" for w' m
  proof -
    have "rule_wf (s_rule (s\<lparr>nf_state_timer := stopped_timer\<rparr>))" using inv by (simp add: nf_inv_def)
    from uninstall_outcome [OF this, of w']
    show "nf_post s (r_bind (uninstall E (s\<lparr>nf_state_timer := stopped_timer\<rparr>) w') (\<lambda>_ p. Ret STATE_CLOSE p))"
      and "nf_post s (r_bind (uninstall E (s\<lparr>nf_state_timer := stopped_timer\<rparr>) w') (\<lambda>_ p.
         r_bind (nf_forward m p) (\<lambda>_ p. Ret STATE_CLOSE p)))"
      using inv by (cases "copy_for_forwarding None m"; auto simp: nf_inv_def nf_forward_def)+
  qed
  show ?thesis
    using inv st un un2
    by (auto simp: nf_metering_response_def deref_def nf_forward_def sess_simps nf_inv_def split: option.split)
qed

lemma nf_metering_post:
  assumes inv: "nf_inv s" and st: "nf_state s = STATE_METERING" and ev: "event_wf evt"
  shows "nf_post s (nf_handle_state_metering E evt (s, w))"
proof -
  have wf: "rule_wf (s_rule s)" using inv by (simp add: nf_inv_def)
  have met: "nf_post s (Ret STATE_METERING (s, w))" using inv st by (simp add: nf_inv_def)
  have refr: "nf_post s (deref (as_msg_event (ev_body evt)) (\<lambda>e. nf_metering_refresh E e (s, w)))"
    if rf: "is_mnslp_refresh evt"
  proof -
    obtain e r where "as_msg_event (ev_body evt) = Some e"
      "body_of_class Mnslp_Refresh (me_msg e) = Some r" "msg_wf r"
      using rf ev unfolding is_mnslp_refresh_def by (elim event_is_classD)
    then show ?thesis using nf_metering_refresh_post [OF inv st] by simp
  qed
  have un: "nf_post s (r_bind (uninstall E s' w) f)"
    if "s' = s \<or> s' = s\<lparr>nf_state_timer := stopped_timer\<rparr> \<or> s' = s\<lparr>nf_response_timer := stopped_timer\<rparr>"
      and "\<And>w'. nf_post s (f () (s', w'))" for s' f
  proof -
    have "rule_wf (s_rule s')" using that(1) wf by auto
    from uninstall_outcome [OF this, of w] show ?thesis using that(2) by auto
  qed
  have close: "nf_inv (s\<lparr>nf_state_timer := stopped_timer, nf_state := STATE_CLOSE\<rparr>)"
    "nf_inv (s\<lparr>nf_response_timer := stopped_timer, nf_state := STATE_CLOSE\<rparr>)"
    "nf_inv (s\<lparr>nf_state := STATE_CLOSE\<rparr>)"
    using inv by (simp_all add: nf_inv_def)
  have u1: "nf_post s (r_bind (uninstall E (s\<lparr>nf_state_timer := stopped_timer\<rparr>) w) (\<lambda>_ (s, w).
       assert_some (nf_refresh_message s) (\<lambda>latest.
         Ret STATE_CLOSE (s, send_message
           (create_response (e_mri E) latest sc_permanent_failure fail_nr_not_reached) w))))"
    by (rule un) (simp, (cases "nf_refresh_message s"; simp add: close))
  have u2: "nf_post s (r_bind (uninstall E (s\<lparr>nf_response_timer := stopped_timer\<rparr>) w) (\<lambda>_ p. Ret STATE_CLOSE p))"
    and u3: "nf_post s (r_bind (uninstall E s w) (\<lambda>_ p. Ret STATE_CLOSE p))"
    by (rule un; simp add: close)+
  have rest: "nf_post s (assert_some (nf_refresh_message s) (\<lambda>prev.
       assert_some (is_mnslp_response evt prev) (\<lambda>matches.
         if matches then nf_metering_response E evt prev (s, w)
         else if is_timer evt then Ret STATE_METERING (s, w)
         else Ret STATE_METERING (s, w))))"
    using met nf_metering_response_post [OF inv st]
    by (auto simp: assert_some_def split: option.split)
  show ?thesis
    unfolding nf_handle_state_metering_def prod.case using refr u1 u2 u3 rest by simp
qed

lemma nf_process_inv:
  assumes "nf_inv s" and "event_wf evt" and "nf_process_event E evt (s, w) = Ret u (s', w')"
  shows "nf_inv s' \<and> s_id s' = s_id s"
proof -
  have "nf_post s (nf_handler (nf_state s) E evt (s, w))"
    using assms nf_close_post nf_pending_post nf_metering_post by (cases "nf_state s") auto
  then show ?thesis
    using assms(3) by (auto simp: nf_process_event_def nf_post_def r_bind_eq_Ret)
qed

end

section \<open>Properties\<close>

text \<open>A CONFIGURE for every node on the path, and a forwarder that has passed it on\<close>

definition ex_path_configure :: "nat mnslp_msg" where
  "ex_path_configure = fold configure_set_mspec_object [ex_object 1, ex_object 2]
     (configure_header 30 8 sme_all 20)"

definition ex_path_msg :: "(nat, nat mri_fields) ntlp_msg" where
  "ex_path_msg = \<lparr>nm_sid = Session_Id 1 2 3 4, nm_body = Some ex_path_configure,
     nm_mri = ex_route True, nm_sii_handle = 5\<rparr>"

definition ex_path_event :: "(nat, nat, nat mri_fields) event" where
  "ex_path_event = new_msg_event (Session_Id 1 2 3 4) ex_path_msg False"

definition ex_nf_pending :: "(nat, nat mri_fields) nf_session" where
  "ex_nf_pending = (new_nf_session (Session_Id 1 2 3 4))\<lparr>nf_state := STATE_PENDING, nf_lifetime := 30,
     s_msn := 8, nf_max_lifetime := 60, nf_response_timeout := 60, nf_state_timer := 1,
     nf_ni_mri := Some (ex_route False), nf_nr_mri := Some (ex_route True),
     nf_configure_message := Some ex_path_msg\<rparr>"

lemma ex_path_configure_with:
  "configure_with 30 8 sme_all 20 [ex_object 1, ex_object 2] ex_path_configure"
  unfolding ex_path_configure_def by (rule configure_built) (simp add: mspec_list_ok_def ex_object_def)

lemma ex_path_facts:
  "m_class ex_path_configure = Mnslp_Configure" "msg_wf ex_path_configure"
  "configure_get_session_lifetime ex_path_configure = 30"
  "configure_get_msg_sequence_number ex_path_configure = 8"
  "has_msg_sequence_number ex_path_configure"
  "configure_get_mspec_objects ex_path_configure = Some [ex_object 1, ex_object 2]"
  using ex_path_configure_with by (simp_all add: configure_with_def)

lemma ex_nf_pending_inv: "nf_inv ex_nf_pending"
  by (simp add: nf_inv_def ex_nf_pending_def new_nf_session_def holds_msg_def ex_path_msg_def ex_path_facts)

lemma refresh_built_lifetime:
  "refresh_get_session_lifetime (refresh_set_msg_sequence_number n
     (refresh_set_session_lifetime l (new_msg Mnslp_Refresh))) = l"
  by (rule refresh_built [unfolded refresh_with_def, THEN conjunct2, THEN conjunct2, THEN conjunct1])

text \<open>Events of a message class are none of the others.\<close>

lemma msg_event_tests:
  assumes "ev_body evt = Msg_Event e"
  shows "\<not> is_timer_of evt t" "\<not> is_timer evt" "\<not> is_no_next_node_found_event evt"
    "\<not> is_api_teardown evt" "\<not> is_route_changed_bad_event evt" "as_msg_event (ev_body evt) = Some e"
  using assms by (simp_all add: is_timer_of_def is_timer_def is_no_next_node_found_event_def
      is_api_teardown_def is_route_changed_bad_event_def)

lemma msg_event_class:
  assumes "ev_body evt = Msg_Event e" and "nm_body (me_msg e) = Some b"
  shows "event_is_class c evt \<longleftrightarrow> m_class b = c"
    and "body_of_class c (me_msg e) = (if m_class b = c then Some b else None)"
  using assms by (auto simp: event_is_class_def body_of_class_def)



lemma nf_response_handler:
  assumes "nf_inv s" and "nf_state s = STATE_PENDING" and "nf_configure_message s = Some prev"
    and "is_mnslp_response evt prev = Some True" and "ev_body evt = Msg_Event e"
    and "nm_body (me_msg e) = Some resp" and "response_is_success resp"
  shows "nf_process_event E evt (s, w) = r_bind (nf_pending_success E (me_msg e) (s, w))
    (\<lambda>st (s, w). Ret () (s\<lparr>nf_state := st\<rparr>, w))"
proof -
  have h: "holds_msg Mnslp_Configure prev" using assms(1,3) by (simp add: nf_inv_def)
  from matching_response [OF h assms(4)] obtain e' resp' b where m: "ev_body evt = Msg_Event e'"
    "body_of_class Mnslp_Response (me_msg e') = Some resp'" "nm_body (me_msg e') = Some resp'"
    "body_of_class Mnslp_Configure prev = Some b" "is_response_to_configure resp' b"
    by auto
  then have e: "e' = e" "resp' = resp" using assms(5,6) by auto
  have "m_class resp = Mnslp_Response" using body_of_classD [OF m(2)] e by simp
  then have "\<not> is_mnslp_configure evt"
    using msg_event_class(1) [OF assms(5,6)] by (simp add: is_mnslp_configure_def)
  then show ?thesis
    using assms(2-5,7) m(2,4,5) e msg_event_tests [OF assms(5)]
    by (simp add: nf_process_event_def nf_handle_state_pending_def nf_pending_response_def)
qed

text \<open>
  C20: When the response of the receiver is positive the forwarder installs its own rule,
  passes the response on unchanged, and meters for the lifetime it had accepted.
\<close>

theorem nf_accepted:
  assumes "nf_inv s" and "nf_state s = STATE_PENDING" and "nf_configure_message s = Some prev"
    and "is_mnslp_response evt prev = Some True" and "ev_body evt = Msg_Event e"
    and "nm_body (me_msg e) = Some resp" and "response_is_success resp" and "msg_wf resp"
    and "ri_install (e_installer E) (s_rule s) (w_installer w) = Ret (Some r) i"
    and "get_number_mspec_objects r = get_number_mspec_objects (s_rule s)"
  shows "\<exists>s' w' m. nf_process_event E evt (s, w) = Ret () (s', w') \<and> nf_state s' = STATE_METERING \<and>
    s_rule s' = r \<and> w_installer w' = i \<and> nm_sid m = nm_sid (me_msg e) \<and> nm_body m = Some resp \<and>
    nm_mri m = nm_mri (me_msg e) \<and>
    w_actions w' = w_actions w @ [Install_Rules (s_rule s), Send m,
      Start_Timer (s_id s) (nf_state_timer s') (sint (nf_lifetime s))]"
  using nf_response_handler [OF assms(1-7), of E w] assms(6,9,10)
  by (simp add: nf_forward_eq [OF assms(6,8)] nf_pending_success_def install_def install_policy_rules_def act_def sess_simps
      send_message_def forwarded_def)

text \<open>The response of the receiver to that CONFIGURE\<close>

definition ex_nf_response_event :: "(nat, nat, nat mri_fields) event" where
  "ex_nf_response_event = new_msg_event (Session_Id 1 2 3 4)
     (create_response ex_mri ex_path_msg sc_success suc_successfully_processed) False"

lemma ex_nf_response:
  defines "e \<equiv> \<lparr>me_msg = create_response ex_mri ex_path_msg sc_success suc_successfully_processed,
    me_for_this_node = False\<rparr>"
  shows "is_mnslp_response ex_nf_response_event ex_path_msg = Some True"
    and "ev_body ex_nf_response_event = Msg_Event e"
    and "nm_body (me_msg e) = Some (response_body (Some ex_path_configure) sc_success suc_successfully_processed)"
    and "response_is_success (response_body (Some ex_path_configure) sc_success suc_successfully_processed)"
proof -
  have b: "has_msg_sequence_number ex_path_configure" "get_msg_sequence_number ex_path_configure = Some 8"
    by (simp_all add: ex_path_facts get_msg_sequence_number_def)
  from response_body_msn [OF this, of sc_success suc_successfully_processed] b
  show "is_mnslp_response ex_nf_response_event ex_path_msg = Some True"
    by (simp add: is_mnslp_response_def ex_path_msg_def ex_nf_response_event_def new_msg_event_def
        is_mnslp_response_msn_def create_response_def body_of_class_def response_body_class)
qed (simp_all add: e_def ex_nf_response_event_def new_msg_event_def create_response_def ex_path_msg_def
    response_body_is_success)

lemma ex_nf_pending_state:
  "nf_state ex_nf_pending = STATE_PENDING" "nf_configure_message ex_nf_pending = Some ex_path_msg"
  "s_rule ex_nf_pending = new_rule"
  by (simp_all add: ex_nf_pending_def new_nf_session_def)

theorem nf_accepted_witness:
  "\<exists>s' w'. nf_process_event ex_env ex_nf_response_event (ex_nf_pending, ex_world) = Ret () (s', w') \<and>
     nf_state s' = STATE_METERING"
proof -
  have "ri_install (e_installer ex_env) (s_rule ex_nf_pending) (w_installer ex_world) = Ret (Some new_rule) ()"
    "get_number_mspec_objects (new_rule :: nat mt_policy_rule) = get_number_mspec_objects (s_rule ex_nf_pending)"
    by (simp_all add: ex_env_def nop_install_def rule_copy_id ex_nf_pending_state) (simp add: new_rule_def)
  from nf_accepted [OF ex_nf_pending_inv ex_nf_pending_state(1,2) ex_nf_response response_body_wf this]
  show ?thesis by blast
qed

text \<open>
  When the forwarder cannot install its rule after the response has arrived, it tears the
  rest of the path down with a REFRESH of lifetime 0 and sends an internal error, but the
  error is made from the response: its direction is the inverse of the response's, so it
  travels away from the initiator it is meant for, after the teardown.
\<close>

theorem nf_install_failure_answer:
  assumes "session_env E" and "nf_inv s" and "nf_state s = STATE_PENDING"
    and "nf_configure_message s = Some prev"
    and "is_mnslp_response evt prev = Some True" and "ev_body evt = Msg_Event e"
    and "nm_body (me_msg e) = Some resp" and "response_is_success resp" and "rule_wf r"
    and "ri_install (e_installer E) (s_rule s) (w_installer w) = Ret (Some r) i"
    and "get_number_mspec_objects r \<noteq> get_number_mspec_objects (s_rule s)"
  shows "(\<exists>s' w' tear err tb eb. nf_process_event E evt (s, w) = Ret () (s', w') \<and>
      nf_state s' = STATE_CLOSE \<and> sent w' = sent w @ [tear, err] \<and>
      nf_nr_mri s = Some (nm_mri tear) \<and> nm_body tear = Some tb \<and> refresh_get_session_lifetime tb = 0 \<and>
      nm_mri err = mri_invert_direction (e_mri E) (nm_mri (me_msg e)) \<and> nm_body err = Some eb \<and>
      \<not> response_is_success eb) \<or>
    (\<exists>msg sv c p. nf_process_event E evt (s, w) = Exn (Policy_Rule_Installer_Error msg sv c) p)"
proof -
  obtain nr where nr: "nf_nr_mri s = Some nr" using assms(2,3) by (auto simp: nf_inv_def)
  let ?s = "s\<lparr>nf_lifetime := 0, s_rule := r\<rparr>"
  let ?w = "w\<lparr>w_actions := w_actions w @ [Install_Rules (s_rule s)], w_installer := i\<rparr>"
  have eq: "nf_pending_success E (me_msg e) (s, w) = r_bind (uninstall E ?s ?w) (\<lambda>_ p.
            r_bind (nf_build_teardown_message p) (\<lambda>tear_down (s, w).
            Ret STATE_CLOSE (s, send_message (create_response (e_mri E) (me_msg e) sc_permanent_failure fail_internal_error)
              (send_message tear_down w))))"
    using assms(10,11) by (simp add: nf_pending_success_def install_def install_policy_rules_def act_def Let_def)
  have "rule_wf (s_rule ?s)" using assms(9) by simp
  from session_env.uninstall_outcome [OF assms(1) this, of ?w] show ?thesis
  proof (elim disjE exE)
    fix w'
    assume un: "uninstall E ?s ?w = Ret () (?s, w')"
    have "sent w' = sent w" using uninstall_Ret [OF un] by (simp add: sent_def)
    then show ?thesis
      using nf_response_handler [OF assms(2-8), of E w] un nr
      by (intro disjI1) (simp add: eq refresh_built_lifetime nf_build_teardown_message_def Let_def next_msg_sequence_number_def
        send_message_def act_def sent_def create_response_def response_body_is_success)
  qed (use nf_response_handler [OF assms(2-8), of E w] in \<open>simp add: eq\<close>)
qed

theorem nf_install_failure_answer_witness:
  "(\<exists>s' w' tear err. nf_process_event ex_failing_env ex_nf_response_event
      (ex_nf_pending\<lparr>s_rule := ex_rule\<rparr>, ex_world) = Ret () (s', w') \<and>
      sent w' = [tear, err] \<and> f_downstream (nm_mri tear) \<and> f_downstream (nm_mri err)) \<or>
   (\<exists>msg sv c p. nf_process_event ex_failing_env ex_nf_response_event
      (ex_nf_pending\<lparr>s_rule := ex_rule\<rparr>, ex_world) = Exn (Policy_Rule_Installer_Error msg sv c) p)"
proof -
  let ?s = "ex_nf_pending\<lparr>s_rule := ex_rule\<rparr>"
  let ?e = "\<lparr>me_msg = create_response ex_mri ex_path_msg sc_success suc_successfully_processed, me_for_this_node = False\<rparr>"
  have r: "rule_wf ex_rule" "get_number_mspec_objects ex_rule = 1"
    by (simp_all add: ex_rule_def rule_set_object_def new_rule_def smap_insert_def
        get_number_mspec_objects_def rule_wf_def)
  have s: "nf_inv ?s" "nf_state ?s = STATE_PENDING" "nf_configure_message ?s = Some ex_path_msg"
    using ex_nf_pending_inv r(1) by (simp_all add: nf_inv_def ex_nf_pending_state)
  have "rule_wf (new_rule :: nat mt_policy_rule)"
    "ri_install (e_installer ex_failing_env) (s_rule ?s) (w_installer ex_world) = Ret (Some new_rule) ()"
    "get_number_mspec_objects (new_rule :: nat mt_policy_rule) \<noteq> get_number_mspec_objects (s_rule ?s)"
    using r(2) by (simp_all add: ex_failing_env_def) (simp add: new_rule_def get_number_mspec_objects_def)
  note fact = nf_install_failure_answer [OF ex_failing.session_env_axioms s ex_nf_response this]
  have dir: "f_downstream (mri_invert_direction (e_mri ex_failing_env) (nm_mri (me_msg ?e)))"
    "nf_nr_mri ?s = Some (ex_route True)" "sent ex_world = []" "f_downstream (ex_route True)"
    by (simp_all add: ex_failing_env_def ex_env_def daemon_env_def ex_mri_def create_response_def ex_path_msg_def
        ex_route_def ex_nf_pending_def sent_def ex_world_def)
  from fact show ?thesis
  proof (elim disjE exE conjE)
    fix s' w' tear err tb eb
    assume "nf_process_event ex_failing_env ex_nf_response_event (?s, ex_world) = Ret () (s', w')"
      "sent w' = sent ex_world @ [tear, err]" "nf_nr_mri ?s = Some (nm_mri tear)"
      "nm_mri err = mri_invert_direction (e_mri ex_failing_env) (nm_mri (me_msg ?e))"
    then show ?thesis using dir by auto
  qed blast
qed

text \<open>
  A CONFIGURE that replaces a pending one escapes the limit on the lifetime: whatever
  lifetime it asks for is stored, forwarded and used for the timer, where the CONFIGURE that
  opened the session would have been cut to the configured maximum.
\<close>

theorem nf_replace_unlimited:
  assumes "nf_inv s" and "nf_state s = STATE_PENDING" and "nf_configure_message s = Some prev"
    and "nm_body prev = Some p" and "ev_body evt = Msg_Event e"
    and "nm_body (me_msg e) = Some c" and "m_class c = Mnslp_Configure" and "msg_wf c"
    and "configure_get_mspec_objects c = Some objects" and "e_is_authorized E e"
    and "configure_get_msg_sequence_number c \<noteq> configure_get_msg_sequence_number p"
    and "configure_get_session_lifetime c \<noteq> 0"
    and "mri_is_pathcoupled (e_mri E) (nm_mri (me_msg e))"
    and "f_downstream (mri_pc_fields (e_mri E) (nm_mri (me_msg e)))"
  shows "\<exists>s' w' m. nf_process_event E evt (s, w) = Ret () (s', w') \<and> nf_state s' = STATE_PENDING \<and>
    nf_lifetime s' = configure_get_session_lifetime c \<and>
    w_actions w' = w_actions w @ [Send m,
      Start_Timer (s_id s) (nf_state_timer s') (sint (configure_get_session_lifetime c))]"
proof -
  note cls = msg_event_class [OF assms(5,6)]
  have body: "body_of_class Mnslp_Configure (me_msg e) = Some c" using cls assms(7) by simp
  have h: "holds_msg Mnslp_Configure (me_msg e)" using assms(6-8) by (simp add: holds_msg_def)
  have "holds_msg Mnslp_Configure prev" using assms(1,3) by (simp add: nf_inv_def)
  then have prev: "body_of_class Mnslp_Configure prev = Some p"
    using assms(4) by (simp add: holds_msg_def body_of_class_def)
  define s1 where "s1 = s\<lparr>nf_lifetime := configure_get_session_lifetime c,
    s_msn := configure_get_msg_sequence_number c, nf_configure_message := Some (me_msg e)\<rparr>"
  have s1: "nf_inv s1" "nf_lifetime s1 = configure_get_session_lifetime c" "s_id s1 = s_id s"
    using assms(1) h by (auto simp: s1_def nf_inv_def)
  obtain objects' rule missing wk nr ni where so: "sort_objects E
      (check_participating St_Forwarder (configure_get_selection_metering_entities c)) objects' (s_rule s1) [] w =
      (rule, missing, wk)"
    and ret: "nf_try_configure E e (s1, w) = Ret STATE_PENDING (nf_start_state_timer E (nf_lifetime s1)
        (s1\<lparr>nf_nr_mri := Some nr, nf_ni_mri := Some ni, s_rule := rule\<rparr>,
         send_message \<lparr>nm_sid = s_id s1, nm_body = Some (nf_configure c (nf_lifetime s1) missing),
           nm_mri = nr, nm_sii_handle = 0\<rparr> wk))"
    using nf_try_configure_outcome [OF s1(1) body, of E w] assms(9,13,14) by auto
  have "nf_process_event E evt (s, w) =
      r_bind (nf_catch_error E (me_msg e) (nf_try_configure E e (s1, w)))
        (\<lambda>st (s, w). Ret () (s\<lparr>nf_state := st\<rparr>, w))"
    using assms(2,3,5,10-12) cls(1) assms(7) body prev ntlp_copy_id [OF h]
    by (simp add: nf_process_event_def nf_handle_state_pending_def nf_pending_configure_def
        nf_process_state_close_def is_mnslp_configure_def Let_def s1_def check_authorization_def)
  then show ?thesis
    using ret s1 sort_objects_actions [OF so]
    by (simp add: nf_catch_error_def sess_simps send_message_def act_def)
qed

theorem nf_replace_unlimited_witness:
  "\<exists>s' w'. nf_process_event ex_env (new_msg_event (Session_Id 1 2 3 4)
       (ex_path_msg\<lparr>nm_body := Some (configure_header 1000 9 sme_all 20)\<rparr>) False) (ex_nf_pending, ex_world) =
     Ret () (s', w') \<and> nf_lifetime s' = 1000 \<and> nf_max_lifetime ex_nf_pending = 60"
proof -
  let ?c = "configure_header 1000 9 sme_all 20 :: nat mnslp_msg"
  let ?m = "ex_path_msg\<lparr>nm_body := Some ?c\<rparr>"
  let ?e = "\<lparr>me_msg = ?m, me_for_this_node = False\<rparr>"
  let ?evt = "new_msg_event (Session_Id 1 2 3 4) ?m False :: (nat, nat, nat mri_fields) event"
  have "configure_with 1000 9 sme_all 20 [] ?c"
    using configure_built [of "[] :: nat mspec_object list" 1000 9 sme_all 20] by (simp add: mspec_list_ok_def)
  then have c: "m_class ?c = Mnslp_Configure" "msg_wf ?c" "configure_get_mspec_objects ?c = Some []"
    "configure_get_session_lifetime ?c = 1000" "configure_get_msg_sequence_number ?c = 9"
    by (simp_all add: configure_with_def)
  have p: "nm_body ex_path_msg = Some ex_path_configure" by (simp add: ex_path_msg_def)
  have e: "ev_body ?evt = Msg_Event ?e" "nm_body (me_msg ?e) = Some ?c" by (simp_all add: new_msg_event_def)
  have rest: "e_is_authorized ex_env ?e"
    "configure_get_msg_sequence_number ?c \<noteq> configure_get_msg_sequence_number ex_path_configure"
    "configure_get_session_lifetime ?c \<noteq> 0" "mri_is_pathcoupled (e_mri ex_env) (nm_mri (me_msg ?e))"
    "f_downstream (mri_pc_fields (e_mri ex_env) (nm_mri (me_msg ?e)))"
    unfolding c ex_path_facts
    by (simp_all add: ex_env_def daemon_env_def dispatcher_is_authorized_def ex_mri_def ex_path_msg_def ex_route_def)
  have "nf_max_lifetime ex_nf_pending = 60" by (simp add: ex_nf_pending_def)
  with nf_replace_unlimited [OF ex_nf_pending_inv ex_nf_pending_state(1,2) p e c(1-3) rest, of ex_world]
  show ?thesis unfolding c by blast
qed

text \<open>
  C24: While metering, a REFRESH that is not newer than the last one is dropped without any
  effect. A newer one is passed on unchanged and kept, the node's lifetime becomes the
  requested one cut to the maximum, and the response timer is started; the sequence number is
  taken over unless the REFRESH ends the session.
\<close>

theorem nf_refresh_handled:
  assumes "nf_state s = STATE_METERING" and "ev_body evt = Msg_Event e" and "nm_body (me_msg e) = Some r"
    and "m_class r = Mnslp_Refresh" and "msg_wf r"
    and "precheck E e (refresh_get_session_lifetime r) (nf_max_lifetime s) = Proceed l"
  shows "(\<not> is_greater_than (refresh_get_msg_sequence_number r) (s_msn s) \<longrightarrow>
      nf_process_event E evt (s, w) = Ret () (s, w)) \<and>
    (is_greater_than (refresh_get_msg_sequence_number r) (s_msn s) \<longrightarrow>
      (\<exists>s' w' m. nf_process_event E evt (s, w) = Ret () (s', w') \<and> nf_state s' = STATE_METERING \<and>
         nf_lifetime s' = min (refresh_get_session_lifetime r) (nf_max_lifetime s) \<and>
         s_msn s' = (if nf_lifetime s' = 0 then s_msn s else refresh_get_msg_sequence_number r) \<and>
         nf_refresh_message s' = Some (me_msg e) \<and> s_rule s' = s_rule s \<and>
         nm_sid m = nm_sid (me_msg e) \<and> nm_body m = Some r \<and> nm_mri m = nm_mri (me_msg e) \<and>
         w_actions w' = w_actions w @ [Send m,
           Start_Timer (s_id s) (nf_response_timer s') (sint (nf_response_timeout s))]))"
proof -
  note cls = msg_event_class [OF assms(2,3)]
  have body: "body_of_class Mnslp_Refresh (me_msg e) = Some r" using cls assms(4) by simp
  have h: "holds_msg Mnslp_Refresh (me_msg e)" using assms(3-5) by (simp add: holds_msg_def)
  have l: "l = min (refresh_get_session_lifetime r) (nf_max_lifetime s)"
    using assms(6) by (auto simp: precheck_eq min_def split: if_splits)
  have upd: "s\<lparr>nf_state := STATE_METERING\<rparr> = s" using assms(1) by simp
  have eq: "nf_process_event E evt (s, w) = r_bind (nf_metering_refresh E e (s, w))
      (\<lambda>st (s, w). Ret () (s\<lparr>nf_state := st\<rparr>, w))"
    using assms(1,2,4) cls(1) by (simp add: nf_process_event_def nf_handle_state_metering_def is_mnslp_refresh_def)
  define m where "m = forwarded (me_msg e)"
  have m: "nm_sid m = nm_sid (me_msg e)" "nm_body m = Some r" "nm_mri m = nm_mri (me_msg e)"
    using assms(3) by (simp_all add: m_def forwarded_def)
  show ?thesis
  proof (intro conjI impI)
    assume "\<not> is_greater_than (refresh_get_msg_sequence_number r) (s_msn s)"
    then show "nf_process_event E evt (s, w) = Ret () (s, w)"
      using body assms(6) upd by (simp add: eq nf_metering_refresh_def Let_def)
  next
    assume gt: "is_greater_than (refresh_get_msg_sequence_number r) (s_msn s)"
    define s2 where "s2 = (if l > 0 then s\<lparr>nf_lifetime := l, s_msn := refresh_get_msg_sequence_number r,
        nf_refresh_message := Some (me_msg e), nf_response_timer := e_timer_id E (w_tick w)\<rparr>
      else s\<lparr>nf_lifetime := l, nf_refresh_message := Some (me_msg e),
        nf_response_timer := e_timer_id E (w_tick w)\<rparr>)"
    define w2 where "w2 = act (Start_Timer (s_id s) (nf_response_timer s2) (sint (nf_response_timeout s)))
      (act (Send m) (w\<lparr>w_tick := Suc (w_tick w)\<rparr>))"
    have "nf_process_event E evt (s, w) = Ret () (s2, w2)"
      unfolding eq using body assms(1,6) gt
      by (cases s) (simp add: nf_metering_refresh_def Let_def nf_forward_eq [OF assms(3,5)] ntlp_copy_id [OF h]
          sess_simps s2_def w2_def m_def send_message_def act_def)
    moreover have "nf_lifetime s2 = min (refresh_get_session_lifetime r) (nf_max_lifetime s)"
      using l by (simp add: s2_def)
    moreover have "nf_state s2 = STATE_METERING" "s_msn s2 = (if nf_lifetime s2 = 0 then s_msn s else refresh_get_msg_sequence_number r)"
      "nf_refresh_message s2 = Some (me_msg e)" "s_rule s2 = s_rule s"
      using assms(1) by (simp_all add: s2_def word_gt_0)
    moreover have "w_actions w2 = w_actions w @ [Send m,
        Start_Timer (s_id s) (nf_response_timer s2) (sint (nf_response_timeout s))]"
      by (simp add: w2_def act_def)
    ultimately show "\<exists>s' w' m. nf_process_event E evt (s, w) = Ret () (s', w') \<and> nf_state s' = STATE_METERING \<and>
         nf_lifetime s' = min (refresh_get_session_lifetime r) (nf_max_lifetime s) \<and>
         s_msn s' = (if nf_lifetime s' = 0 then s_msn s else refresh_get_msg_sequence_number r) \<and>
         nf_refresh_message s' = Some (me_msg e) \<and> s_rule s' = s_rule s \<and>
         nm_sid m = nm_sid (me_msg e) \<and> nm_body m = Some r \<and> nm_mri m = nm_mri (me_msg e) \<and>
         w_actions w' = w_actions w @ [Send m,
           Start_Timer (s_id s) (nf_response_timer s') (sint (nf_response_timeout s))]"
      using m by blast
  qed
qed

text \<open>A REFRESH of the initiator\<close>

definition ex_refresh_event :: "u32 \<Rightarrow> u32 \<Rightarrow> (nat, nat, nat mri_fields) event" where
  "ex_refresh_event lifetime msn = new_msg_event (Session_Id 1 2 3 4)
     \<lparr>nm_sid = Session_Id 1 2 3 4, nm_body = Some (ni_refresh lifetime msn), nm_mri = ex_route True,
      nm_sii_handle = 0\<rparr> False"

definition ex_nf_metering :: "(nat, nat mri_fields) nf_session" where
  "ex_nf_metering = ex_nf_pending\<lparr>nf_state := STATE_METERING\<rparr>"

theorem nf_refresh_handled_witness:
  "nf_process_event ex_env (ex_refresh_event 50 8) (ex_nf_metering, ex_world) = Ret () (ex_nf_metering, ex_world) \<and>
   (\<exists>s' w'. nf_process_event ex_env (ex_refresh_event 1000 9) (ex_nf_metering, ex_world) = Ret () (s', w') \<and>
      nf_lifetime s' = 60)"
proof -
  let ?m = "\<lambda>lt msn. \<lparr>nm_sid = Session_Id 1 2 3 4, nm_body = Some (ni_refresh lt msn :: nat mnslp_msg),
    nm_mri = ex_route True, nm_sii_handle = 0\<rparr>"
  let ?e = "\<lambda>lt msn. \<lparr>me_msg = ?m lt msn, me_for_this_node = False\<rparr>"
  have e: "ev_body (ex_refresh_event lt msn) = Msg_Event (?e lt msn)"
    "nm_body (me_msg (?e lt msn)) = Some (ni_refresh lt msn)" for lt msn
    by (simp_all add: ex_refresh_event_def new_msg_event_def)
  have r: "m_class (ni_refresh lt msn :: nat mnslp_msg) = Mnslp_Refresh" "msg_wf (ni_refresh lt msn :: nat mnslp_msg)"
    "refresh_get_session_lifetime (ni_refresh lt msn :: nat mnslp_msg) = lt"
    "refresh_get_msg_sequence_number (ni_refresh lt msn :: nat mnslp_msg) = msn" for lt msn
    using ni_refresh_with [of lt msn, where 'a = nat] by (simp_all add: refresh_with_def)
  have s: "nf_state ex_nf_metering = STATE_METERING" "s_msn ex_nf_metering = 8" "nf_max_lifetime ex_nf_metering = 60"
    by (simp_all add: ex_nf_metering_def ex_nf_pending_def)
  have pre: "precheck ex_env (?e lt msn) (refresh_get_session_lifetime (ni_refresh lt msn :: nat mnslp_msg))
      (nf_max_lifetime ex_nf_metering) = Proceed (if 60 < lt then 60 else lt)" for lt msn
    by (simp add: precheck_eq r s ex_env_def daemon_env_def dispatcher_is_authorized_def)
  have "\<not> is_greater_than 8 8" "is_greater_than 9 8" by (simp_all add: is_greater_than_def)
  then show ?thesis
    using nf_refresh_handled [OF s(1) e r(1,2) pre, of 50 8 ex_world]
      nf_refresh_handled [OF s(1) e r(1,2) pre, of 1000 9 ex_world]
    unfolding r s by (auto simp: min_def)
qed

text \<open>
  A forwarder that meters and has not seen a REFRESH yet does not survive any event other
  than a REFRESH, the end of its lifetime or a broken route: a lost next node, an outdated
  timer and a repeated response all end in the failing assertion of the getter of the stored
  REFRESH, unless the installer throws before.
\<close>

theorem nf_metering_before_refresh:
  assumes "session_env E" and "nf_inv s" and "nf_state s = STATE_METERING" and "nf_refresh_message s = None"
    and "\<not> is_mnslp_refresh evt" and "\<not> is_timer_of evt (nf_state_timer s)" and "\<not> is_route_changed_bad_event evt"
  shows "nf_process_event E evt (s, w) = Abort \<or>
    (\<exists>msg sv c p. nf_process_event E evt (s, w) = Exn (Policy_Rule_Installer_Error msg sv c) p)"
proof -
  have "rule_wf (s_rule (s\<lparr>nf_state_timer := stopped_timer\<rparr>))" using assms(2) by (simp add: nf_inv_def)
  from session_env.uninstall_outcome [OF assms(1) this, of w] show ?thesis
    using assms(3-7) by (auto simp: nf_process_event_def nf_handle_state_metering_def)
qed

theorem nf_metering_before_refresh_witness:
  "nf_process_event ex_env (new_timer_event (Session_Id 1 2 3 4) 5) (ex_nf_metering, ex_world) = Abort \<or>
   (\<exists>msg sv c p. nf_process_event ex_env (new_timer_event (Session_Id 1 2 3 4) 5) (ex_nf_metering, ex_world) =
      Exn (Policy_Rule_Installer_Error msg sv c) p)"
proof (rule nf_metering_before_refresh [OF ex_session_env])
  show "nf_inv ex_nf_metering" using ex_nf_pending_inv
    by (simp add: nf_inv_def ex_nf_metering_def ex_nf_pending_def)
qed (simp_all add: ex_nf_metering_def ex_nf_pending_def new_nf_session_def new_timer_event_def is_mnslp_refresh_def
    event_is_class_def is_timer_of_def is_route_changed_bad_event_def)

end
