(* ===== verification/NR_Session.thy ===== *)
theory NR_Session
  imports NF_Session
begin

text \<open>
  The receiver session (src/nr_session.cpp, include/nr_session.h), the last node of the path:
  it must be able to install every object that is left in the CONFIGURE, answers it and
  each REFRESH, and meters until the lifetime has passed or a REFRESH with lifetime 0 arrives.
\<close>

record 'o nr_session = "'o session" +
  nr_state :: session_state
  nr_lifetime :: u32
  nr_max_lifetime :: u32
  nr_state_timer :: nat

type_synonym ('o, 'r, 'i) nr_pair = "'o nr_session \<times> ('o, 'r, 'i) world"

definition new_nr_session :: "sid \<Rightarrow> mnslp_config \<Rightarrow> 'o nr_session" where
  "new_nr_session sid conf =
     \<lparr>s_id = sid, s_type = St_Receiver, s_msn = 0, s_msg_hop_count = 0, s_rule = new_rule,
      nr_state = STATE_CLOSE, nr_lifetime = 0, nr_max_lifetime = cf_nr_max_session_lifetime conf,
      nr_state_timer = stopped_timer\<rparr>"

definition nr_is_final :: "'o nr_session \<Rightarrow> bool" where
  "nr_is_final s \<longleftrightarrow> nr_state s = STATE_CLOSE"

text \<open>Returns the missing objects; no handler catches the error it throws.\<close>

definition nr_save_mt_policy_rule :: "('h, 'o, 'r, 'i) env \<Rightarrow> ('o, 'r) msg_event \<Rightarrow>
    ('o, 'r, 'i) nr_pair \<Rightarrow> (exc, 'o mspec_object list, ('o, 'r, 'i) nr_pair) result" where
  "nr_save_mt_policy_rule E e = (\<lambda>(s, w).
     assert_some (body_of_class Mnslp_Configure (me_msg e)) (\<lambda>configure.
     if \<not> mri_is_pathcoupled (e_mri E) (nm_mri (me_msg e)) then Exn no_mri_error (s, w)
     else
       deref (configure_get_mspec_objects configure) (\<lambda>objects.
         let (rule, missing, w) =
               sort_objects E (check_participating (s_type s)
                 (configure_get_selection_metering_entities configure)) objects (s_rule s) [] w
         in Ret missing (s\<lparr>s_rule := rule\<rparr>, w))))"

definition nr_start_state_timer :: "('h, 'o, 'r, 'i) env \<Rightarrow> u32 \<Rightarrow> ('o, 'r, 'i) nr_pair \<Rightarrow>
    ('o, 'r, 'i) nr_pair" where
  "nr_start_state_timer E seconds = (\<lambda>(s, w).
     let (i, w) = start_timer E (s_id s) seconds w in (s\<lparr>nr_state_timer := i\<rparr>, w))"

definition nr_install :: "('h, 'o, 'r, 'i) env \<Rightarrow> ('o, 'r) ntlp_msg \<Rightarrow> u32 \<Rightarrow>
    ('o, 'r, 'i) nr_pair \<Rightarrow> (exc, session_state, ('o, 'r, 'i) nr_pair) result" where
  "nr_install E msg lifetime = (\<lambda>(s, w).
     r_bind (install E s w) (\<lambda>result (s, w).
       if get_number_mspec_objects result = get_number_mspec_objects (s_rule s)
       then
         Ret STATE_METERING (nr_start_state_timer E lifetime
           (s\<lparr>s_rule := result\<rparr>, send_message (create_success_response (e_mri E) msg lifetime) w))
       else
         let s = s\<lparr>nr_lifetime := 0, s_rule := result\<rparr>
         in r_bind (uninstall E s w) (\<lambda>_ (s, w).
            Ret STATE_CLOSE (s, send_message
              (create_response (e_mri E) msg sc_permanent_failure fail_internal_error) w))))"

definition nr_handle_state_close :: "('h, 'o, 'r, 'i) env \<Rightarrow> ('h, 'o, 'r) event \<Rightarrow>
    ('o, 'r, 'i) nr_pair \<Rightarrow> (exc, session_state, ('o, 'r, 'i) nr_pair) result" where
  "nr_handle_state_close E evt = (\<lambda>(s, w).
     if is_mnslp_configure evt
     then
       deref (as_msg_event (ev_body evt)) (\<lambda>e.
       let msg = me_msg e
       in deref (body_of_class Mnslp_Configure msg) (\<lambda>c.
            let msn = configure_get_msg_sequence_number c
            in case precheck E e (configure_get_session_lifetime c) (nr_max_lifetime s) of
                 Refuse codes \<Rightarrow>
                   Ret STATE_CLOSE (s, send_message (create_error_response (e_mri E) msg codes) w)
               | Proceed lifetime \<Rightarrow>
                   if lifetime > 0
                   then
                     r_bind (nr_save_mt_policy_rule E e (s\<lparr>nr_lifetime := lifetime, s_msn := msn\<rparr>, w))
                       (\<lambda>missing_objects (s, w).
                         if length missing_objects > 0
                         then Ret STATE_CLOSE (s, send_message
                                (create_response (e_mri E) msg sc_permanent_failure fail_internal_error) w)
                         else nr_install E msg lifetime (s, w))
                   else
                     Ret STATE_CLOSE (s, send_message
                       (create_response (e_mri E) msg sc_permanent_failure fail_configuration_failed) w)))
     else Ret STATE_CLOSE (s, w))"

definition nr_metering_refresh :: "('h, 'o, 'r, 'i) env \<Rightarrow> ('o, 'r) msg_event \<Rightarrow>
    ('o, 'r, 'i) nr_pair \<Rightarrow> (exc, session_state, ('o, 'r, 'i) nr_pair) result" where
  "nr_metering_refresh E e = (\<lambda>(s, w).
     let msg = me_msg e
     in deref (body_of_class Mnslp_Refresh msg) (\<lambda>c.
        let msn = refresh_get_msg_sequence_number c
        in case precheck E e (refresh_get_session_lifetime c) (nr_max_lifetime s) of
             Refuse codes \<Rightarrow>
               Ret STATE_METERING (s, send_message (create_error_response (e_mri E) msg codes) w)
           | Proceed lifetime \<Rightarrow>
               if \<not> is_greater_than msn (s_msn s) then Ret STATE_METERING (s, w)
               else if lifetime > 0
               then
                 let s = s\<lparr>nr_lifetime := lifetime, s_msn := msn\<rparr>
                 in Ret STATE_METERING (nr_start_state_timer E lifetime
                      (s, send_message (create_success_response (e_mri E) msg lifetime) w))
               else if lifetime = 0
               then
                 r_bind (uninstall E s w) (\<lambda>_ (s, w).
                   Ret STATE_CLOSE (s\<lparr>nr_state_timer := stopped_timer\<rparr>,
                     send_message (create_success_response (e_mri E) msg lifetime) w))
               else Ret STATE_METERING (s, w)))"

definition nr_handle_state_metering :: "('h, 'o, 'r, 'i) env \<Rightarrow> ('h, 'o, 'r) event \<Rightarrow>
    ('o, 'r, 'i) nr_pair \<Rightarrow> (exc, session_state, ('o, 'r, 'i) nr_pair) result" where
  "nr_handle_state_metering E evt = (\<lambda>(s, w).
     if is_mnslp_refresh evt
     then deref (as_msg_event (ev_body evt)) (\<lambda>e. nr_metering_refresh E e (s, w))
     else if is_timer_of evt (nr_state_timer s)
     then
       r_bind (uninstall E s w) (\<lambda>_ (s, w).
         Ret STATE_CLOSE (s, report_async_event ''session timed out'' w))
     else if is_timer evt then Ret STATE_METERING (s, w)
     else Ret STATE_METERING (s, w))"

text \<open>The transition function asserts that the state is never PENDING.\<close>

fun nr_handler :: "session_state \<Rightarrow> ('h, 'o, 'r, 'i) env \<Rightarrow> ('h, 'o, 'r) event \<Rightarrow>
    ('o, 'r, 'i) nr_pair \<Rightarrow> (exc, session_state, ('o, 'r, 'i) nr_pair) result" where
  "nr_handler STATE_CLOSE = nr_handle_state_close"
| "nr_handler STATE_METERING = nr_handle_state_metering"
| "nr_handler STATE_PENDING = (\<lambda>E evt p. Abort)"

definition nr_process_event :: "('h, 'o, 'r, 'i) env \<Rightarrow> ('h, 'o, 'r) event \<Rightarrow>
    ('o, 'r, 'i) nr_pair \<Rightarrow> (exc, unit, ('o, 'r, 'i) nr_pair) result" where
  "nr_process_event E evt p =
     r_bind (nr_handler (nr_state (fst p)) E evt p) (\<lambda>st (s, w). Ret () (s\<lparr>nr_state := st\<rparr>, w))"

section \<open>Invariant\<close>

text \<open>
  The receiver is never PENDING, never promises more than its configured maximum, and while
  it meters its lifetime is positive and its timer runs.
\<close>

definition nr_inv :: "'o nr_session \<Rightarrow> bool" where
  "nr_inv s \<longleftrightarrow> s_type s = St_Receiver \<and> rule_wf (s_rule s) \<and> nr_state s \<noteq> STATE_PENDING \<and>
     nr_lifetime s \<le> nr_max_lifetime s \<and>
     (nr_state s = STATE_METERING \<longrightarrow> 0 < nr_lifetime s \<and> nr_state_timer s \<noteq> stopped_timer)"

lemma nr_inv_new: "nr_inv (new_nr_session sid conf)"
  by (simp add: nr_inv_def new_nr_session_def)

lemma nr_start_state_timer_eq [sess_simps]:
  "nr_start_state_timer E seconds (s, w) =
     (s\<lparr>nr_state_timer := e_timer_id E (w_tick w)\<rparr>,
      act (Start_Timer (s_id s) (e_timer_id E (w_tick w)) (sint seconds)) (w\<lparr>w_tick := Suc (w_tick w)\<rparr>))"
  by (simp add: nr_start_state_timer_def start_timer_def Let_def)

text \<open>Whatever the checks let through is within the maximum.\<close>

lemma precheck_le: "precheck E e l m = Proceed k \<Longrightarrow> k \<le> m"
  by (auto simp: precheck_eq split: if_splits)

definition nr_post :: "'o nr_session \<Rightarrow> (exc, session_state, ('o, 'r, 'i) nr_pair) result \<Rightarrow> bool" where
  "nr_post s r \<longleftrightarrow>
     (case r of
        Ret st (s', w') \<Rightarrow> nr_inv (s'\<lparr>nr_state := st\<rparr>) \<and> s_id s' = s_id s \<and>
          nr_max_lifetime s' = nr_max_lifetime s
      | _ \<Rightarrow> True)"

lemma nr_post_simps [simp]:
  "nr_post s (Ret st (s', w')) \<longleftrightarrow> nr_inv (s'\<lparr>nr_state := st\<rparr>) \<and> s_id s' = s_id s \<and>
     nr_max_lifetime s' = nr_max_lifetime s"
  "nr_post s (Exn x p)" "nr_post s Abort" "nr_post s Undef"
  by (simp_all add: nr_post_def split: prod.split)

context session_env
begin

text \<open>
  Under the contract of the installer every call of the two handlers returns or throws, with
  one exception: the dereference of NULL in \<open>get_mspec_objects\<close>.
\<close>

lemma nr_install_cases:
  assumes "rule_wf (s_rule s)"
  shows "(\<exists>r w'. install E s w = Ret r (s, w') \<and> rule_wf r \<and>
      get_number_mspec_objects r = get_number_mspec_objects (s_rule s) \<and>
      nr_install E msg lifetime (s, w) = Ret STATE_METERING
        (s\<lparr>s_rule := r, nr_state_timer := e_timer_id E (w_tick w')\<rparr>,
         act (Start_Timer (s_id s) (e_timer_id E (w_tick w')) (sint lifetime))
          (act (Send (create_success_response (e_mri E) msg lifetime)) (w'\<lparr>w_tick := Suc (w_tick w')\<rparr>)))) \<or>
    (\<exists>r w' w''. install E s w = Ret r (s, w') \<and> rule_wf r \<and>
      get_number_mspec_objects r \<noteq> get_number_mspec_objects (s_rule s) \<and>
      uninstall E (s\<lparr>nr_lifetime := 0, s_rule := r\<rparr>) w' = Ret () (s\<lparr>nr_lifetime := 0, s_rule := r\<rparr>, w'') \<and>
      nr_install E msg lifetime (s, w) = Ret STATE_CLOSE (s\<lparr>nr_lifetime := 0, s_rule := r\<rparr>,
        send_message (create_response (e_mri E) msg sc_permanent_failure fail_internal_error) w'')) \<or>
    (\<exists>m sv c p. nr_install E msg lifetime (s, w) = Exn (Policy_Rule_Installer_Error m sv c) p)"
  using install_outcome_wf [OF assms, of w]
proof (elim disjE exE conjE)
  fix r w'
  assume r: "install E s w = Ret r (s, w')" "rule_wf r"
  show ?thesis
  proof (cases "get_number_mspec_objects r = get_number_mspec_objects (s_rule s)")
    case True
    with r show ?thesis
      by (intro disjI1 exI [of _ r] exI [of _ w'])
        (simp add: nr_install_def sess_simps send_message_def act_def)
  next
    case False
    let ?s = "s\<lparr>nr_lifetime := 0, s_rule := r\<rparr>"
    have "rule_wf (s_rule ?s)" using r(2) by simp
    from uninstall_outcome [OF this, of w'] show ?thesis
      using r False by (auto simp: nr_install_def Let_def)
  qed
qed (simp add: nr_install_def)

lemma nr_close_post:
  assumes inv: "nr_inv s" and ev: "event_wf evt"
  shows "nr_post s (nr_handle_state_close E evt (s, w))"
proof (cases "is_mnslp_configure evt")
  case False
  then show ?thesis using inv by (simp add: nr_handle_state_close_def nr_inv_def)
next
  case True
  then obtain e c where e: "as_msg_event (ev_body evt) = Some e"
    "body_of_class Mnslp_Configure (me_msg e) = Some c"
    unfolding is_mnslp_configure_def using ev by (elim event_is_classD)
  have close: "nr_inv (s\<lparr>nr_state := STATE_CLOSE\<rparr>)" using inv by (simp add: nr_inv_def)
  have go: "nr_post s (r_bind (nr_save_mt_policy_rule E e (s\<lparr>nr_lifetime := l, s_msn := n\<rparr>, w))
       (\<lambda>missing_objects (s, w).
         if length missing_objects > 0
         then Ret STATE_CLOSE (s, send_message
                (create_response (e_mri E) (me_msg e) sc_permanent_failure fail_internal_error) w)
         else nr_install E (me_msg e) l (s, w)))"
    if l: "0 < l" "l \<le> nr_max_lifetime s" for l n
  proof (cases "configure_get_mspec_objects c")
    case None
    then show ?thesis using e by (simp add: nr_save_mt_policy_rule_def)
  next
    case (Some objects)
    let ?s = "s\<lparr>nr_lifetime := l, s_msn := n\<rparr>"
    obtain rule missing w' where so: "sort_objects E (check_participating (s_type s)
        (configure_get_selection_metering_entities c)) objects (s_rule s) [] w = (rule, missing, w')"
      by (metis prod.exhaust_sel)
    have "rule_wf rule" using sort_objects_wf [OF _ so] inv by (simp add: nr_inv_def)
    then have wf: "rule_wf (s_rule (?s\<lparr>s_rule := rule\<rparr>))" by simp
    have "nr_post s (nr_install E (me_msg e) l (?s\<lparr>s_rule := rule\<rparr>, w'))"
      using nr_install_cases [OF wf, of w' "me_msg e" l] timer_id_pos inv l
      by (elim disjE exE conjE) (simp_all add: nr_inv_def stopped_timer_def)
    then show ?thesis
      using e Some so inv l \<open>rule_wf rule\<close>
      by (simp add: nr_save_mt_policy_rule_def nr_inv_def)
  qed
  show ?thesis
    using True e close go
    by (auto simp: nr_handle_state_close_def Let_def word_gt_0 dest: precheck_le split: precheck.split)
qed

lemma nr_metering_post:
  assumes inv: "nr_inv s" and st: "nr_state s = STATE_METERING" and ev: "event_wf evt"
  shows "nr_post s (nr_handle_state_metering E evt (s, w))"
proof -
  have wf: "rule_wf (s_rule s)" using inv by (simp add: nr_inv_def)
  have met: "nr_inv (s\<lparr>nr_state := STATE_METERING\<rparr>)" using inv st by (simp add: nr_inv_def)
  have timeout: "nr_post s (r_bind (uninstall E s w) (\<lambda>_ (s, w).
         Ret STATE_CLOSE (s, report_async_event m w)))" for m
    using uninstall_outcome [OF wf, of w] inv by (auto simp: nr_inv_def)
  have "nr_post s (nr_metering_refresh E e (s, w))"
    if "body_of_class Mnslp_Refresh (me_msg e) = Some c" for e c
    using that inv st met uninstall_outcome [OF wf, of w] timer_id_pos
    by (auto simp: nr_metering_refresh_def Let_def sess_simps nr_inv_def word_gt_0 stopped_timer_def
        dest: precheck_le split: precheck.split)
  then have refr: "nr_post s (deref (as_msg_event (ev_body evt)) (\<lambda>e. nr_metering_refresh E e (s, w)))"
    if rf: "is_mnslp_refresh evt"
    using rf ev unfolding is_mnslp_refresh_def by (elim event_is_classD; simp; blast)
  show ?thesis
    using refr timeout met by (simp add: nr_handle_state_metering_def)
qed

lemma nr_process_inv:
  assumes "nr_inv s" and "event_wf evt" and "nr_process_event E evt (s, w) = Ret u (s', w')"
  shows "nr_inv s' \<and> s_id s' = s_id s \<and> nr_max_lifetime s' = nr_max_lifetime s"
proof -
  have "nr_post s (nr_handler (nr_state s) E evt (s, w))"
    using assms nr_close_post nr_metering_post by (cases "nr_state s") auto
  then show ?thesis
    using assms(3) by (auto simp: nr_process_event_def r_bind_eq_Ret)
qed

end

section \<open>The answer of a receiver that meters\<close>

text \<open>What a receiver that has started to meter has answered\<close>

lemma nr_install_metering:
  assumes "nr_install E msg l (s, w) = Ret STATE_METERING (s', w')"
  shows "nr_lifetime s' = nr_lifetime s \<and> sent w' = sent w @ [create_success_response (e_mri E) msg l]"
proof -
  from assms obtain r w1 where r: "install E s w = Ret r (s, w1)"
      "get_number_mspec_objects r = get_number_mspec_objects (s_rule s)"
    by (auto simp: nr_install_def r_bind_eq_Ret Let_def dest!: install_Ret split: if_splits)
  have "sent w1 = sent w" using install_Ret [OF r(1)] by (simp add: sent_def)
  then show ?thesis
    using assms r by (auto simp: nr_install_def nr_start_state_timer_eq send_message_def sent_def act_def)
qed

lemma nr_metering_answer:
  assumes "nr_state n = STATE_CLOSE" and "ev_body evt = Msg_Event e" and "nm_body (me_msg e) = Some c"
    and "nr_process_event E evt (n, v) = Ret u (n', v')" and "nr_state n' = STATE_METERING"
  shows "m_class c = Mnslp_Configure \<and> 0 < nr_lifetime n' \<and> nr_lifetime n' \<le> nr_max_lifetime n \<and>
    sent v' = sent v @ [create_success_response (e_mri E) (me_msg e) (nr_lifetime n')]"
proof -
  note cls = msg_event_class [OF assms(2,3)]
  from assms(1,4,5) obtain n0 where h: "nr_handle_state_close E evt (n, v) = Ret STATE_METERING (n0, v')"
    and n': "nr_lifetime n' = nr_lifetime n0"
    by (auto simp: nr_process_event_def r_bind_eq_Ret)
  from h have c: "m_class c = Mnslp_Configure"
    using cls(1) by (auto simp: nr_handle_state_close_def is_mnslp_configure_def split: if_splits)
  then have body: "body_of_class Mnslp_Configure (me_msg e) = Some c" using cls(2) by simp
  from h obtain l where l: "precheck E e (configure_get_session_lifetime c) (nr_max_lifetime n) = Proceed l" "0 < l"
    and save: "r_bind (nr_save_mt_policy_rule E e (n\<lparr>nr_lifetime := l, s_msn := configure_get_msg_sequence_number c\<rparr>, v))
       (\<lambda>missing_objects (s, w).
         if length missing_objects > 0
         then Ret STATE_CLOSE (s, send_message
                (create_response (e_mri E) (me_msg e) sc_permanent_failure fail_internal_error) w)
         else nr_install E (me_msg e) l (s, w)) = Ret STATE_METERING (n0, v')"
    using body c assms(2) cls(1)
    by (auto simp: nr_handle_state_close_def is_mnslp_configure_def Let_def split: if_splits precheck.splits)
  from save obtain missing n1 v1 where mid:
    "nr_save_mt_policy_rule E e (n\<lparr>nr_lifetime := l, s_msn := configure_get_msg_sequence_number c\<rparr>, v) =
      Ret missing (n1, v1)" and s1: "nr_install E (me_msg e) l (n1, v1) = Ret STATE_METERING (n0, v')"
    unfolding r_bind_eq_Ret by (auto split: if_splits)
  from mid obtain objects where ob: "configure_get_mspec_objects c = Some objects"
    using body by (cases "configure_get_mspec_objects c") (auto simp: nr_save_mt_policy_rule_def split: if_splits)
  obtain rule m w1 where so: "sort_objects E (check_participating (s_type n)
      (configure_get_selection_metering_entities c)) objects (s_rule n) [] v = (rule, m, w1)"
    by (metis prod.exhaust_sel)
  have n1: "nr_lifetime n1 = l" "w_actions v1 = w_actions v"
    using mid body ob so sort_objects_actions [OF so]
    by (auto simp: nr_save_mt_policy_rule_def split: if_splits)
  show ?thesis
    using nr_install_metering [OF s1] n1 l precheck_le [OF l(1)] n' c by (simp add: sent_def)
qed

section \<open>Properties\<close>

text \<open>The response to a message: the success response and what it carries\<close>

lemma success_response_contents:
  fixes c :: "'o mnslp_msg" and m :: "('o, 'r) ntlp_msg"
  assumes "nm_body m = Some c" and "has_msg_sequence_number c" and "get_msg_sequence_number c = Some msn"
  obtains rb where "nm_body (create_success_response M m l) = Some rb" and "m_class rb = Mnslp_Response"
    and "response_is_success rb" and "response_get_session_lifetime rb = l"
    and "response_get_msg_sequence_number rb = msn" and "has_msg_sequence_number rb"
    and "nm_sid (create_success_response M m l) = nm_sid m"
    and "nm_mri (create_success_response M m l) = mri_invert_direction M (nm_mri m)"
proof
  let ?b = "response_body (nm_body m) sc_success suc_successfully_processed"
  let ?rb = "response_set_session_lifetime l ?b"
  note f = response_set_lifetime_facts [OF response_body_wf, of l]
  have n: "has_msg_sequence_number ?b" "response_get_msg_sequence_number ?b = msn"
    using response_body_msn [OF assms(2,3)] assms(1) by simp_all
  show "nm_body (create_success_response M m l) = Some ?rb"
    "nm_sid (create_success_response M m l) = nm_sid m"
    "nm_mri (create_success_response M m l) = mri_invert_direction M (nm_mri m)"
    by (simp_all add: create_success_response_def create_response_def Let_def)
  show "m_class ?rb = Mnslp_Response" "response_is_success ?rb" "response_get_session_lifetime ?rb = l"
    "response_get_msg_sequence_number ?rb = msn" "has_msg_sequence_number ?rb"
    unfolding f response_body_class response_body_is_success n by (simp_all add: n)
qed

text \<open>
  C9: The receiver answers a CONFIGURE all of whose objects it can install positively: the
  response goes back the way the message came, echoes its sequence number and states the
  lifetime granted, which is the requested one cut to the configured maximum; the rule is
  installed before the response leaves, and the timer for exactly that lifetime runs.
\<close>

theorem nr_accepted:
  assumes "nr_inv s" and "nr_state s = STATE_CLOSE" and "ev_body evt = Msg_Event e"
    and "nm_body (me_msg e) = Some c" and "m_class c = Mnslp_Configure" and "has_msg_sequence_number c"
    and "configure_get_mspec_objects c = Some objects" and "mri_is_pathcoupled (e_mri E) (nm_mri (me_msg e))"
    and "precheck E e (configure_get_session_lifetime c) (nr_max_lifetime s) = Proceed l" and "0 < l"
    and "sort_objects E (check_participating St_Receiver (configure_get_selection_metering_entities c))
      objects (s_rule s) [] w = (rule, [], wk)"
    and "ri_install (e_installer E) rule (w_installer wk) = Ret (Some r) i"
    and "get_number_mspec_objects r = get_number_mspec_objects rule"
  shows "\<exists>s' w' m rb. nr_process_event E evt (s, w) = Ret () (s', w') \<and> nr_state s' = STATE_METERING \<and>
    s_rule s' = r \<and> nr_lifetime s' = l \<and> l = min (configure_get_session_lifetime c) (nr_max_lifetime s) \<and>
    nm_sid m = nm_sid (me_msg e) \<and> nm_mri m = mri_invert_direction (e_mri E) (nm_mri (me_msg e)) \<and>
    nm_body m = Some rb \<and> response_is_success rb \<and> response_get_session_lifetime rb = l \<and>
    response_get_msg_sequence_number rb = configure_get_msg_sequence_number c \<and>
    w_actions w' = w_actions w @
      [Install_Rules rule, Send m, Start_Timer (s_id s) (nr_state_timer s') (sint l)]"
proof -
  note cls = msg_event_class [OF assms(3,4)]
  have body: "body_of_class Mnslp_Configure (me_msg e) = Some c" using cls assms(5) by simp
  have ty: "s_type s = St_Receiver" using assms(1) by (simp add: nr_inv_def)
  have l: "l = min (configure_get_session_lifetime c) (nr_max_lifetime s)"
    using assms(9) by (auto simp: precheck_eq min_def split: if_splits)
  have "get_msg_sequence_number c = Some (configure_get_msg_sequence_number c)"
    using assms(5) by (simp add: get_msg_sequence_number_def)
  from success_response_contents [OF assms(4,6) this, of "e_mri E" l] obtain rb where
    rb: "nm_body (create_success_response (e_mri E) (me_msg e) l) = Some rb" "response_is_success rb"
      "response_get_session_lifetime rb = l"
      "response_get_msg_sequence_number rb = configure_get_msg_sequence_number c"
      "nm_sid (create_success_response (e_mri E) (me_msg e) l) = nm_sid (me_msg e)"
      "nm_mri (create_success_response (e_mri E) (me_msg e) l) = mri_invert_direction (e_mri E) (nm_mri (me_msg e))"
    by metis
  define s2 where "s2 = s\<lparr>nr_lifetime := l, s_msn := configure_get_msg_sequence_number c, s_rule := r,
    nr_state_timer := e_timer_id E (w_tick wk), nr_state := STATE_METERING\<rparr>"
  define w2 where "w2 = act (Start_Timer (s_id s) (e_timer_id E (w_tick wk)) (sint l))
    (act (Send (create_success_response (e_mri E) (me_msg e) l))
      (act (Install_Rules rule) (wk\<lparr>w_installer := i, w_tick := Suc (w_tick wk)\<rparr>)))"
  have "nr_process_event E evt (s, w) = Ret () (s2, w2)"
    using assms(2,3,5,7-13) cls(1) body ty
    by (simp add: nr_process_event_def nr_handle_state_close_def is_mnslp_configure_def Let_def
        nr_save_mt_policy_rule_def nr_install_def install_def install_policy_rules_def act_def sess_simps
        send_message_def s2_def w2_def)
  moreover have "nr_state s2 = STATE_METERING" "s_rule s2 = r" "nr_lifetime s2 = l"
    by (simp_all add: s2_def)
  moreover have "w_actions w2 = w_actions w @ [Install_Rules rule,
      Send (create_success_response (e_mri E) (me_msg e) l), Start_Timer (s_id s) (nr_state_timer s2) (sint l)]"
    using sort_objects_actions [OF assms(11)] by (simp add: w2_def s2_def act_def)
  ultimately show ?thesis using rb l by blast
qed

definition ex_nr :: "nat nr_session" where
  "ex_nr = new_nr_session (Session_Id 1 2 3 4) default_config"

theorem nr_accepted_witness:
  "\<exists>s' w'. nr_process_event ex_env ex_path_event (ex_nr, ex_world) = Ret () (s', w') \<and>
     nr_state s' = STATE_METERING \<and> nr_lifetime s' = 30"
proof -
  let ?e = "\<lparr>me_msg = ex_path_msg, me_for_this_node = False\<rparr>"
  have s: "nr_inv ex_nr" "nr_state ex_nr = STATE_CLOSE" "nr_max_lifetime ex_nr = 60" "s_rule ex_nr = new_rule"
    by (simp_all add: ex_nr_def nr_inv_new) (simp_all add: new_nr_session_def default_config_def)
  have e: "ev_body ex_path_event = Msg_Event ?e" "nm_body (me_msg ?e) = Some ex_path_configure"
    by (simp_all add: ex_path_event_def new_msg_event_def ex_path_msg_def)
  have mri: "mri_is_pathcoupled (e_mri ex_env) (nm_mri (me_msg ?e))"
    by (simp add: ex_env_def daemon_env_def ex_mri_def)
  have pre: "precheck ex_env ?e (configure_get_session_lifetime ex_path_configure) (nr_max_lifetime ex_nr) = Proceed 30"
    by (simp add: precheck_eq ex_path_facts s ex_env_def daemon_env_def dispatcher_is_authorized_def)
  obtain rule missing wk where so: "sort_objects ex_env (check_participating St_Receiver
      (configure_get_selection_metering_entities ex_path_configure)) [ex_object 1, ex_object 2] (s_rule ex_nr) []
      ex_world = (rule, missing, wk)" by (metis prod.exhaust_sel)
  have sme: "configure_get_selection_metering_entities ex_path_configure = sme_all"
    using ex_path_configure_with by (simp add: configure_with_def)
  have "missing = []" and wf: "rule_wf rule" and cmd: "pr_rule_keys rule = []"
    using so sort_objects_wf [OF _ so] sort_objects_commands [OF so] unfolding sme
    by (auto simp: ex_env_def daemon_env_def dispatcher_check_def default_config_def nop_installer_def nop_check_def s)
      (simp add: new_rule_def)
  have so: "sort_objects ex_env (check_participating St_Receiver
      (configure_get_selection_metering_entities ex_path_configure)) [ex_object 1, ex_object 2] (s_rule ex_nr) []
      ex_world = (rule, [], wk)" using so \<open>missing = []\<close> by simp
  let ?r = "rule\<lparr>pr_rule_keys := map (\<lambda>(k, ob). (k, [''key''])) (pr_objects rule)\<rparr>"
  have "ri_install (e_installer ex_env) rule (w_installer wk) = Ret (Some ?r) (w_installer wk)"
    using nop_install_fresh [OF wf cmd] by (simp add: ex_env_def)
  moreover have "get_number_mspec_objects ?r = get_number_mspec_objects rule"
    by (simp add: get_number_mspec_objects_def)
  ultimately show ?thesis
    using nr_accepted [OF s(1,2) e ex_path_facts(1,5,6) mri pre _ so] by (simp (no_asm_use)) blast
qed


text \<open>A node that is configured not to meter\<close>

definition ex_no_meter_env :: "(nat, nat, nat mri_fields, unit) env" where
  "ex_no_meter_env = ex_env\<lparr>e_config := default_config\<lparr>cf_is_ms_meter := False\<rparr>\<rparr>"


text \<open>
  C25: While metering the receiver acts on a REFRESH once: one that is not newer than the last
  has no effect at all. A newer one with a positive lifetime extends the session by the granted
  lifetime and restarts the timer; one with lifetime 0 removes the rules, is acknowledged and
  closes the session. Both are answered positively, with the lifetime granted.
\<close>

theorem nr_refresh_handled:
  assumes "session_env E" and "nr_inv s" and "nr_state s = STATE_METERING" and "ev_body evt = Msg_Event e"
    and "nm_body (me_msg e) = Some r" and "m_class r = Mnslp_Refresh"
    and "precheck E e (refresh_get_session_lifetime r) (nr_max_lifetime s) = Proceed l"
  shows "(\<not> is_greater_than (refresh_get_msg_sequence_number r) (s_msn s) \<longrightarrow>
      nr_process_event E evt (s, w) = Ret () (s, w)) \<and>
    (is_greater_than (refresh_get_msg_sequence_number r) (s_msn s) \<and> 0 < l \<longrightarrow>
      (\<exists>s' w'. nr_process_event E evt (s, w) = Ret () (s', w') \<and> nr_state s' = STATE_METERING \<and>
         nr_lifetime s' = l \<and> s_msn s' = refresh_get_msg_sequence_number r \<and> s_rule s' = s_rule s \<and>
         w_actions w' = w_actions w @ [Send (create_success_response (e_mri E) (me_msg e) l),
           Start_Timer (s_id s) (nr_state_timer s') (sint l)])) \<and>
    (is_greater_than (refresh_get_msg_sequence_number r) (s_msn s) \<and> l = 0 \<longrightarrow>
      (\<exists>s' w'. nr_process_event E evt (s, w) = Ret () (s', w') \<and> nr_state s' = STATE_CLOSE \<and>
         w_actions w' = w_actions w @
           (if get_number_rule_keys (s_rule s) > 0 then [Remove_Rules (s_rule s)] else []) @
           [Send (create_success_response (e_mri E) (me_msg e) 0)]) \<or>
      (\<exists>msg sv c p. nr_process_event E evt (s, w) = Exn (Policy_Rule_Installer_Error msg sv c) p))"
proof -
  note cls = msg_event_class [OF assms(4,5)]
  have body: "body_of_class Mnslp_Refresh (me_msg e) = Some r" using cls assms(6) by simp
  have upd: "s\<lparr>nr_state := STATE_METERING\<rparr> = s" using assms(3) by simp
  have wf: "rule_wf (s_rule s)" using assms(2) by (simp add: nr_inv_def)
  have eq: "nr_process_event E evt (s, w) = r_bind (nr_metering_refresh E e (s, w))
      (\<lambda>st (s, w). Ret () (s\<lparr>nr_state := st\<rparr>, w))"
    using assms(3,4,6) cls(1) by (simp add: nr_process_event_def nr_handle_state_metering_def is_mnslp_refresh_def)
  have zero: "(\<exists>s' w'. nr_process_event E evt (s, w) = Ret () (s', w') \<and> nr_state s' = STATE_CLOSE \<and>
         w_actions w' = w_actions w @
           (if get_number_rule_keys (s_rule s) > 0 then [Remove_Rules (s_rule s)] else []) @
           [Send (create_success_response (e_mri E) (me_msg e) 0)]) \<or>
      (\<exists>msg sv c p. nr_process_event E evt (s, w) = Exn (Policy_Rule_Installer_Error msg sv c) p)"
    if gt: "is_greater_than (refresh_get_msg_sequence_number r) (s_msn s)" and "l = 0"
    using session_env.uninstall_outcome [OF assms(1) wf, of w]
  proof (elim disjE exE)
    fix w'
    assume un: "uninstall E s w = Ret () (s, w')"
    show ?thesis
      using uninstall_Ret [OF un] body assms(7) gt \<open>l = 0\<close>
      by (simp add: eq nr_metering_refresh_def Let_def un send_message_def act_def)
  qed (use body assms(7) gt \<open>l = 0\<close> in \<open>simp add: eq nr_metering_refresh_def Let_def\<close>)
  have old: "nr_process_event E evt (s, w) = Ret () (s, w)"
    if "\<not> is_greater_than (refresh_get_msg_sequence_number r) (s_msn s)"
    unfolding eq using body assms(7) that upd by (simp add: nr_metering_refresh_def Let_def)
  have extend: "\<exists>s' w'. nr_process_event E evt (s, w) = Ret () (s', w') \<and> nr_state s' = STATE_METERING \<and>
         nr_lifetime s' = l \<and> s_msn s' = refresh_get_msg_sequence_number r \<and> s_rule s' = s_rule s \<and>
         w_actions w' = w_actions w @ [Send (create_success_response (e_mri E) (me_msg e) l),
           Start_Timer (s_id s) (nr_state_timer s') (sint l)]"
    if "is_greater_than (refresh_get_msg_sequence_number r) (s_msn s)" "0 < l"
    unfolding eq using body assms(7) that
    by (simp add: nr_metering_refresh_def Let_def sess_simps send_message_def act_def)
  from old extend zero show ?thesis by blast
qed

definition ex_nr_metering :: "nat nr_session" where
  "ex_nr_metering = ex_nr\<lparr>nr_state := STATE_METERING, nr_lifetime := 30, s_msn := 8, nr_state_timer := 1\<rparr>"

theorem nr_refresh_handled_witness:
  "nr_process_event ex_env (ex_refresh_event 50 8) (ex_nr_metering, ex_world) = Ret () (ex_nr_metering, ex_world) \<and>
   (\<exists>s' w'. nr_process_event ex_env (ex_refresh_event 50 9) (ex_nr_metering, ex_world) = Ret () (s', w') \<and>
      nr_lifetime s' = 50)"
proof -
  let ?m = "\<lambda>lt msn. \<lparr>nm_sid = Session_Id 1 2 3 4, nm_body = Some (ni_refresh lt msn :: nat mnslp_msg),
    nm_mri = ex_route True, nm_sii_handle = 0\<rparr>"
  let ?e = "\<lambda>lt msn. \<lparr>me_msg = ?m lt msn, me_for_this_node = False\<rparr>"
  have e: "ev_body (ex_refresh_event lt msn) = Msg_Event (?e lt msn)"
    "nm_body (me_msg (?e lt msn)) = Some (ni_refresh lt msn)" for lt msn
    by (simp_all add: ex_refresh_event_def new_msg_event_def)
  have r: "m_class (ni_refresh lt msn :: nat mnslp_msg) = Mnslp_Refresh"
    "refresh_get_session_lifetime (ni_refresh lt msn :: nat mnslp_msg) = lt"
    "refresh_get_msg_sequence_number (ni_refresh lt msn :: nat mnslp_msg) = msn" for lt msn
    using ni_refresh_with [of lt msn, where 'a = nat] by (simp_all add: refresh_with_def)
  have s: "nr_inv ex_nr_metering" "nr_state ex_nr_metering = STATE_METERING" "s_msn ex_nr_metering = 8"
    "nr_max_lifetime ex_nr_metering = 60"
    by (simp_all add: ex_nr_metering_def ex_nr_def new_nr_session_def default_config_def nr_inv_def stopped_timer_def)
  have pre: "precheck ex_env (?e lt msn) (refresh_get_session_lifetime (ni_refresh lt msn :: nat mnslp_msg))
      (nr_max_lifetime ex_nr_metering) = Proceed (if 60 < lt then 60 else lt)" for lt msn
    by (simp add: precheck_eq r s ex_env_def daemon_env_def dispatcher_is_authorized_def)
  have "\<not> is_greater_than 8 8" "is_greater_than 9 8" by (simp_all add: is_greater_than_def)
  then show ?thesis
    using nr_refresh_handled [OF ex_session_env s(1,2) e r(1) pre, of 50 8 ex_world]
      nr_refresh_handled [OF ex_session_env s(1,2) e r(1) pre, of 50 9 ex_world]
    unfolding r s by auto
qed

end
