(* ===== verification/Dispatcher.thy ===== *)
theory Dispatcher
  imports NR_Session
begin

text \<open>
  The session table (src/session_manager.cpp) and the dispatcher (src/dispatcher.cpp), with
  the loop of the daemon's worker thread (src/mnslp_daemon.cpp) as a step relation over the
  events it takes from its queue. Session objects are values here: the dispatcher writes the
  session back under its ID after \<open>process\<close>, which is what the shared pointer does. The locks
  are left out, so this is the behaviour with the default of one dispatcher thread.
\<close>

datatype ('o, 'r) any_session =
    NI "('o, 'r) ni_session"
  | NF "('o, 'r) nf_session"
  | NR "'o nr_session"

type_synonym ('o, 'r) session_table = "sid \<Rightarrow> ('o, 'r) any_session option"

record ('o, 'r, 'i) daemon =
  d_table :: "('o, 'r) session_table"
  d_world :: "('o, 'r, 'i) world"

fun any_id :: "('o, 'r) any_session \<Rightarrow> sid" where
  "any_id (NI s) = s_id s"
| "any_id (NF s) = s_id s"
| "any_id (NR s) = s_id s"

fun any_is_final :: "('o, 'r) any_session \<Rightarrow> bool" where
  "any_is_final (NI s) = ni_is_final s"
| "any_is_final (NF s) = nf_is_final s"
| "any_is_final (NR s) = nr_is_final s"

section \<open>The session manager\<close>

text \<open>
  Session IDs are drawn until one is not in the table; the result has the counter behind the
  last draw. The loop is not bounded by the code: \<open>None\<close> means it does not end.
\<close>

partial_function (option) create_unique_id ::
    "('h, 'o, 'r, 'i) env \<Rightarrow> ('o, 'r) session_table \<Rightarrow> nat \<Rightarrow> (sid \<times> nat) option" where
  "create_unique_id E T t =
     (let i = e_session_id E t
      in if T i \<noteq> None then create_unique_id E T (Suc t) else Some (i, Suc t))"

text \<open>\<open>create_ni_session\<close>: the constructor draws the initial sequence number.\<close>

definition create_ni_session :: "('h, 'o, 'r, 'i) env \<Rightarrow> ('o, 'r, 'i) daemon \<Rightarrow>
    (exc, ('o, 'r) any_session, ('o, 'r, 'i) daemon) result option" where
  "create_ni_session E d =
     (case create_unique_id E (d_table d) (w_tick (d_world d)) of
        None \<Rightarrow> None
      | Some (i, t) \<Rightarrow> Some (assert_some (e_random E t) (\<lambda>random.
          let s = NI (new_ni_session i (e_config E) random)
          in Ret s (d\<lparr>d_table := (d_table d)(i \<mapsto> s),
                     d_world := (d_world d)\<lparr>w_tick := Suc t\<rparr>\<rparr>))))"

definition create_nf_session :: "sid \<Rightarrow> ('o, 'r, 'i) daemon \<Rightarrow> ('o, 'r) any_session \<times> ('o, 'r, 'i) daemon" where
  "create_nf_session sid d =
     (let s = NF (new_nf_session sid) in (s, d\<lparr>d_table := (d_table d)(sid \<mapsto> s)\<rparr>))"

definition create_nr_session :: "('h, 'o, 'r, 'i) env \<Rightarrow> sid \<Rightarrow> ('o, 'r, 'i) daemon \<Rightarrow>
    ('o, 'r) any_session \<times> ('o, 'r, 'i) daemon" where
  "create_nr_session E sid d =
     (let s = NR (new_nr_session sid (e_config E)) in (s, d\<lparr>d_table := (d_table d)(sid \<mapsto> s)\<rparr>))"

definition get_session :: "('o, 'r, 'i) daemon \<Rightarrow> sid \<Rightarrow> ('o, 'r) any_session option" where
  "get_session d sid = d_table d sid"

definition remove_session :: "sid \<Rightarrow> ('o, 'r, 'i) daemon \<Rightarrow>
    ('o, 'r) any_session option \<times> ('o, 'r, 'i) daemon" where
  "remove_session sid d = (d_table d sid, d\<lparr>d_table := (d_table d)(sid := None)\<rparr>)"

section \<open>The dispatcher\<close>

text \<open>\<open>s->process(d, evt)\<close>, a virtual call\<close>

fun any_process :: "('h, 'o, 'r, 'i) env \<Rightarrow> ('h, 'o, 'r) event \<Rightarrow> ('o, 'r) any_session \<Rightarrow>
    ('o, 'r, 'i) world \<Rightarrow> (exc, unit, ('o, 'r) any_session \<times> ('o, 'r, 'i) world) result" where
  "any_process E evt (NI s) w =
     (case ni_process_event E evt (s, w) of
        Ret u (s', w') \<Rightarrow> Ret () (NI s', w') | Exn x (s', w') \<Rightarrow> Exn x (NI s', w')
      | Abort \<Rightarrow> Abort | Undef \<Rightarrow> Undef)"
| "any_process E evt (NF s) w =
     (case nf_process_event E evt (s, w) of
        Ret u (s', w') \<Rightarrow> Ret () (NF s', w') | Exn x (s', w') \<Rightarrow> Exn x (NF s', w')
      | Abort \<Rightarrow> Abort | Undef \<Rightarrow> Undef)"
| "any_process E evt (NR s) w =
     (case nr_process_event E evt (s, w) of
        Ret u (s', w') \<Rightarrow> Ret () (NR s', w') | Exn x (s', w') \<Rightarrow> Exn x (NR s', w')
      | Abort \<Rightarrow> Abort | Undef \<Rightarrow> Undef)"

definition send_receive_answer :: "('h, 'o, 'r) event \<Rightarrow> 'r option \<Rightarrow> ('o, 'r, 'i) daemon \<Rightarrow>
    (exc, unit, ('o, 'r, 'i) daemon) result" where
  "send_receive_answer evt mri d =
     deref (ev_sid evt) (\<lambda>sid. deref mri (\<lambda>r.
       Ret () (d\<lparr>d_world := act (Accept_Query sid r) (d_world d)\<rparr>)))"

text \<open>The session that is created for an event without one, if any\<close>

definition dispatcher_create_session :: "('h, 'o, 'r, 'i) env \<Rightarrow> ('h, 'o, 'r) event \<Rightarrow>
    ('o, 'r, 'i) daemon \<Rightarrow> (exc, ('o, 'r) any_session option, ('o, 'r, 'i) daemon) result option" where
  "dispatcher_create_session E evt d =
     (if is_api_configure evt
      then map_option (\<lambda>r. r_bind r (\<lambda>s d. Ret (Some s) d)) (create_ni_session E d)
      else if is_mnslp_configure evt
      then Some (deref (as_msg_event (ev_body evt)) (\<lambda>e. deref (ev_sid evt) (\<lambda>sid.
             if me_for_this_node e
             then (let (s, d) = create_nr_session E sid d in Ret (Some s) d)
             else (let (s, d) = create_nf_session sid d in Ret (Some s) d))))
      else Some (Ret None d))"

text \<open>
  A session processes an event; it is removed when it throws or ends in its final state. Its
  ID is set by the constructor and never changes.
\<close>

definition run_session :: "('h, 'o, 'r, 'i) env \<Rightarrow> ('h, 'o, 'r) event \<Rightarrow> ('o, 'r) any_session \<Rightarrow>
    ('o, 'r, 'i) daemon \<Rightarrow> (exc, unit, ('o, 'r, 'i) daemon) result" where
  "run_session E evt s d =
     (case any_process E evt s (d_world d) of
        Abort \<Rightarrow> Abort
      | Undef \<Rightarrow> Undef
      | Exn x (s', w) \<Rightarrow> Ret () (snd (remove_session (any_id s) (d\<lparr>d_world := w\<rparr>)))
      | Ret u (s', w) \<Rightarrow>
          (let d = d\<lparr>d_table := (d_table d)(any_id s \<mapsto> s'), d_world := w\<rparr>
           in if any_is_final s' then Ret () (snd (remove_session (any_id s) d))
              else Ret () d))"

text \<open>The second half of \<open>process\<close>: look the session up or create it, then run it\<close>

definition dispatch_to_session :: "('h, 'o, 'r, 'i) env \<Rightarrow> ('h, 'o, 'r) event \<Rightarrow>
    ('o, 'r, 'i) daemon \<Rightarrow> (exc, unit, ('o, 'r, 'i) daemon) result option" where
  "dispatch_to_session E evt d =
     (case Option.bind (ev_sid evt) (get_session d) of
        Some s \<Rightarrow> Some (run_session E evt s d)
      | None \<Rightarrow>
          map_option (\<lambda>r. r_bind r (\<lambda>s d.
            case s of None \<Rightarrow> Ret () d | Some s \<Rightarrow> run_session E evt s d))
            (dispatcher_create_session E evt d))"

definition dispatcher_process :: "('h, 'o, 'r, 'i) env \<Rightarrow> ('h, 'o, 'r) event \<Rightarrow>
    ('o, 'r, 'i) daemon \<Rightarrow> (exc, unit, ('o, 'r, 'i) daemon) result option" where
  "dispatcher_process E evt d =
     (if as_msg_event (ev_body evt) \<noteq> None \<and> ev_sid evt = None then Some Abort
      else case ev_body evt of
        Routing_State_Check_Event mri \<Rightarrow> Some (send_receive_answer evt mri d)
      | _ \<Rightarrow>
        (if is_invalid_mnslp_msg evt
         then Some (deref (as_msg_event (ev_body evt)) (\<lambda>e.
                Ret () (d\<lparr>d_world := send_message
                  (create_response (e_mri E) (me_msg e) sc_protocol_error 0) (d_world d)\<rparr>)))
         else dispatch_to_session E evt d))"

section \<open>The daemon\<close>

definition empty_daemon :: "'i \<Rightarrow> ('o, 'r, 'i) daemon" where
  "empty_daemon i = \<lparr>d_table = Map.empty, d_world = \<lparr>w_actions = [], w_installer = i, w_tick = 0\<rparr>\<rparr>"

text \<open>The states of the worker loop: each event that is processed to its end is a step.\<close>

inductive reachable :: "('h, 'o, 'r, 'i) env \<Rightarrow> ('o, 'r, 'i) daemon \<Rightarrow> bool"
  for E :: "('h, 'o, 'r, 'i) env" where
  start: "reachable E (empty_daemon i)"
| step: "reachable E d \<Longrightarrow> event_wf evt \<Longrightarrow> dispatcher_process E evt d = Some (Ret u d') \<Longrightarrow> reachable E d'"

inductive_cases reachable_cases: "reachable E d"

text \<open>A sequence of events, as far as every one of them is processed to its end\<close>

fun daemon_run :: "('h, 'o, 'r, 'i) env \<Rightarrow> ('h, 'o, 'r) event list \<Rightarrow> ('o, 'r, 'i) daemon \<Rightarrow>
    ('o, 'r, 'i) daemon option" where
  "daemon_run E [] d = Some d"
| "daemon_run E (evt # evts) d =
     (case dispatcher_process E evt d of
        Some (Ret u d') \<Rightarrow> daemon_run E evts d'
      | _ \<Rightarrow> None)"

lemma daemon_run_reachable:
  assumes "reachable E d" and "\<forall>evt \<in> set evts. event_wf evt" and "daemon_run E evts d = Some d'"
  shows "reachable E d'"
  using assms
proof (induction evts arbitrary: d)
  case Nil
  then show ?case by simp
next
  case (Cons evt evts)
  then show ?case
    by (auto split: option.splits result.splits intro: reachable.step)
qed

section \<open>Unique session IDs\<close>

lemma create_unique_id_fresh:
  assumes "create_unique_id E T t = Some p"
  shows "T (fst p) = None \<and> t < snd p"
  by (rule create_unique_id.raw_induct [OF _ assms, where P = "\<lambda>E T t p. T (fst p) = None \<and> t < snd p"])
    (fastforce simp: Let_def split: if_splits)

text \<open>The loop ends when one of the IDs to come is not in use.\<close>

lemma create_unique_id_ends:
  assumes "T (e_session_id E (t + k)) = None"
  shows "\<exists>p. create_unique_id E T t = Some p"
  using assms
proof (induction k arbitrary: t)
  case 0
  then show ?case by (subst create_unique_id.simps) (simp add: Let_def)
next
  case (Suc k)
  then have "\<exists>p. create_unique_id E T (Suc t) = Some p" by simp
  then show ?case by (subst create_unique_id.simps) (simp add: Let_def)
qed

section \<open>The invariant of the session table\<close>

text \<open>
  Every session of the table is stored under its own ID, satisfies the invariant of its type
  and is not in its final state.
\<close>

fun any_inv :: "('o, 'r) any_session \<Rightarrow> bool" where
  "any_inv (NI s) \<longleftrightarrow> ni_inv s"
| "any_inv (NF s) \<longleftrightarrow> nf_inv s"
| "any_inv (NR s) \<longleftrightarrow> nr_inv s"

definition table_inv :: "('o, 'r) session_table \<Rightarrow> bool" where
  "table_inv T \<longleftrightarrow> (\<forall>sid s. T sid = Some s \<longrightarrow> any_id s = sid \<and> any_inv s \<and> \<not> any_is_final s)"

lemma table_inv_empty: "table_inv Map.empty"
  by (simp add: table_inv_def)

lemma table_inv_remove: "table_inv (T(sid := x)) \<Longrightarrow> table_inv (T(sid := None))"
  unfolding table_inv_def by (metis fun_upd_apply option.distinct(1))

lemma table_inv_upd:
  "table_inv (T(sid := x)) \<Longrightarrow> any_id s = sid \<Longrightarrow> any_inv s \<Longrightarrow> \<not> any_is_final s \<Longrightarrow> table_inv (T(sid \<mapsto> s))"
  unfolding table_inv_def by (metis fun_upd_apply option.inject)

text \<open>What processing an event does to the table: one session runs, at most one is created.\<close>

lemma dispatcher_process_cases:
  assumes r: "dispatcher_process E evt d = Some (Ret u d')"
  obtains (none) "d_table d' = d_table d"
    | (table) sid s where "ev_sid evt = Some sid" "d_table d sid = Some s" "run_session E evt s d = Ret u d'"
    | (new) s d1 where "Option.bind (ev_sid evt) (get_session d) = None"
        "dispatcher_create_session E evt d = Some (Ret (Some s) d1)" "run_session E evt s d1 = Ret u d'"
proof -
  have "d_table d' = d_table d \<or> dispatch_to_session E evt d = Some (Ret u d')"
    using r by (cases "ev_body evt")
      (auto simp: dispatcher_process_def send_receive_answer_def deref_eq_Ret split: if_splits)
  moreover have "(\<exists>s. dispatcher_create_session E evt d = Some (Ret (Some s) d1) \<and> run_session E evt s d1 = Ret u d') \<or>
      (dispatcher_create_session E evt d = Some (Ret None d1) \<and> d1 = d')"
    if "dispatcher_create_session E evt d = Some (Ret a d1)"
      "(case a of None \<Rightarrow> Ret () d1 | Some s \<Rightarrow> run_session E evt s d1) = Ret u d'" for a d1
    using that by (cases a) auto
  moreover have "d' = d" if "dispatcher_create_session E evt d = Some (Ret None d')"
    using that by (auto simp: dispatcher_create_session_def create_nf_session_def
        create_nr_session_def deref_eq_Ret r_bind_eq_Ret Let_def split: if_splits)
  ultimately show thesis
    using none table new
    by (fastforce simp: dispatch_to_session_def r_bind_eq_Ret get_session_def bind_eq_Some_conv split: option.splits)
qed

lemma run_session_frame:
  "run_session E evt s d = Ret u d' \<Longrightarrow> i \<noteq> any_id s \<Longrightarrow> d_table d' i = d_table d i"
  by (auto simp: run_session_def remove_session_def Let_def split: result.splits prod.splits if_splits)

lemma create_session_frame:
  assumes "dispatcher_create_session E evt d = Some (Ret (Some s) d1)"
  shows "(i \<noteq> any_id s \<longrightarrow> d_table d1 i = d_table d i) \<and>
    (is_api_configure evt \<and> d_table d (any_id s) = None \<or>
     is_mnslp_configure evt \<and> ev_sid evt = Some (any_id s))"
proof (cases "is_api_configure evt")
  case True
  then obtain j t random where c: "create_unique_id E (d_table d) (w_tick (d_world d)) = Some (j, t)"
    "s = NI (new_ni_session j (e_config E) random)" "d_table d1 = (d_table d)(j \<mapsto> s)"
    using assms by (auto simp: dispatcher_create_session_def create_ni_session_def Let_def r_bind_eq_Ret
        assert_some_eq_Ret split: option.splits prod.splits)
  then show ?thesis
    using True create_unique_id_fresh [OF c(1)] by (simp add: new_ni_session_def)
next
  case False
  then show ?thesis
    using assms by (auto simp: dispatcher_create_session_def create_nf_session_def create_nr_session_def
        deref_eq_Ret Let_def new_nf_session_def new_nr_session_def split: if_splits)
qed

context session_env
begin

lemma any_process_inv:
  assumes "any_inv s" and "event_wf evt" and "any_process E evt s w = Ret u (s', w')"
  shows "any_inv s' \<and> any_id s' = any_id s"
proof (cases s)
  case (NI n)
  with assms ni_process_inv [of n evt w] show ?thesis by (fastforce split: result.splits)
next
  case (NF n)
  with assms nf_process_inv [of n evt w] show ?thesis by (fastforce split: result.splits)
next
  case (NR n)
  with assms nr_process_inv [of n evt w] show ?thesis by (fastforce split: result.splits)
qed

lemma run_session_inv:
  assumes T: "table_inv ((d_table d)(any_id s := x))" and s: "any_inv s"
    and ev: "event_wf evt" and r: "run_session E evt s d = Ret u d'"
  shows "table_inv (d_table d')"
proof (cases "any_process E evt s (d_world d)")
  case (Ret a p)
  obtain s' w where p: "p = (s', w)" by (cases p)
  have s': "any_inv s'" "any_id s' = any_id s"
    using any_process_inv [OF s ev] Ret p by blast+
  show ?thesis
    using r Ret p table_inv_remove [OF T] table_inv_upd [OF T s'(2,1)]
    by (auto simp: run_session_def remove_session_def Let_def split: if_splits)
next
  case (Exn e p)
  then show ?thesis
    using r table_inv_remove [OF T] by (cases p) (auto simp: run_session_def remove_session_def)
qed (use r in \<open>simp_all add: run_session_def\<close>)

lemma create_session_inv:
  assumes T: "table_inv (d_table d)" and r: "dispatcher_create_session E evt d = Some (Ret (Some s) d')"
  shows "any_inv s \<and> (\<exists>x. table_inv ((d_table d')(any_id s := x)))"
proof (cases "is_api_configure evt")
  case True
  then obtain i t random where c: "create_unique_id E (d_table d) (w_tick (d_world d)) = Some (i, t)"
    "s = NI (new_ni_session i (e_config E) random)" "d_table d' = (d_table d)(i \<mapsto> s)"
    using r by (auto simp: dispatcher_create_session_def create_ni_session_def Let_def r_bind_eq_Ret
        assert_some_eq_Ret split: option.splits prod.splits)
  have "d_table d i = None" using create_unique_id_fresh [OF c(1)] by simp
  then have "(d_table d')(any_id s := None) = d_table d"
    using c by (simp add: new_ni_session_def fun_upd_idem)
  with T have "table_inv ((d_table d')(any_id s := None))" by simp
  moreover have "any_inv s" using c(2) ni_inv_new by simp
  ultimately show ?thesis by blast
next
  case False
  then obtain e sid where e: "as_msg_event (ev_body evt) = Some e" "ev_sid evt = Some sid"
    "s = (if me_for_this_node e then NR (new_nr_session sid (e_config E)) else NF (new_nf_session sid))"
    "d_table d' = (d_table d)(sid \<mapsto> s)"
    using r by (auto simp: dispatcher_create_session_def create_nf_session_def create_nr_session_def
        deref_eq_Ret Let_def split: if_splits)
  have id: "any_id s = sid" using e(3) by (simp add: new_nr_session_def new_nf_session_def)
  have "table_inv ((d_table d)(sid := None))"
    by (rule table_inv_remove [where x = "d_table d sid"]) (simp add: T)
  then have "table_inv ((d_table d')(any_id s := None))" using e(4) id by simp
  moreover have "any_inv s" using e(3) by (simp add: nr_inv_new nf_inv_new)
  ultimately show ?thesis by blast
qed

lemma dispatcher_process_inv:
  assumes T: "table_inv (d_table d)" and ev: "event_wf evt"
    and r: "dispatcher_process E evt d = Some (Ret u d')"
  shows "table_inv (d_table d')"
  using r
proof (cases rule: dispatcher_process_cases)
  case (table sid s)
  with T have "any_inv s" "any_id s = sid" "d_table d = (d_table d)(any_id s := Some s)"
    unfolding table_inv_def by auto
  with T ev table(3) run_session_inv [of d s "Some s" evt] show ?thesis by simp
next
  case (new s d1)
  with create_session_inv [OF T new(2)] run_session_inv [of d1 s _ evt] ev show ?thesis by blast
next
  case none
  with T show ?thesis by simp
qed

lemma reachable_inv: "reachable E d \<Longrightarrow> table_inv (d_table d)"
proof (induction rule: reachable.induct)
  case (start i)
  then show ?case by (simp add: empty_daemon_def table_inv_empty)
next
  case (step d evt u d')
  then show ?case using dispatcher_process_inv by blast
qed

end

section \<open>Properties\<close>

text \<open>A CONFIGURE that arrives at the receiver, and the daemon after it\<close>

definition ex_nr_event :: "(nat, nat, nat mri_fields) event" where
  "ex_nr_event = new_msg_event (Session_Id 1 2 3 4) ex_path_msg True"

lemma ex_nr_event_wf: "event_wf ex_nr_event"
  by (simp add: event_wf_def ex_nr_event_def new_msg_event_def ex_path_msg_def ex_path_facts)

declare create_unique_id.simps [code]

definition ex_nr_run :: "(nat, nat mri_fields, unit) daemon option" where
  "ex_nr_run = daemon_run ex_env [ex_nr_event] (empty_daemon ())"

lemma ex_nr_run_session:
  "\<exists>d n. ex_nr_run = Some d \<and> get_session d (Session_Id 1 2 3 4) = Some (NR n)"
proof -
  have "case ex_nr_run of None \<Rightarrow> False
    | Some d \<Rightarrow> (case get_session d (Session_Id 1 2 3 4) of Some (NR n) \<Rightarrow> True | _ \<Rightarrow> False)"
    by code_simp
  then show ?thesis by (auto split: option.splits any_session.splits)
qed

lemma ex_nr_run_reachable: "ex_nr_run = Some d \<Longrightarrow> reachable ex_env d"
  unfolding ex_nr_run_def
  by (rule daemon_run_reachable [OF reachable.start, where evts = "[ex_nr_event]"]) (simp_all add: ex_nr_event_wf)

text \<open>
  C1: Whatever sequence of events the daemon has processed, every session of its table is
  stored under its own ID, satisfies the invariant of its type and is not closed; so a
  receiver in the table has promised a positive lifetime within its maximum and its timer
  runs, an initiator that waits has the CONFIGURE it may have to repeat, and a forwarder knows
  the way to both ends.
\<close>

theorem reachable_sessions_ok:
  assumes "session_env E" and "reachable E d" and "get_session d sid = Some s"
  shows "any_id s = sid \<and> any_inv s \<and> \<not> any_is_final s \<and>
    (case s of
       NI n \<Rightarrow> ni_routing_info n \<noteq> None \<and>
         (ni_state n = STATE_PENDING \<longrightarrow> ni_last_configure_msg n \<noteq> None)
     | NF n \<Rightarrow> nf_configure_message n \<noteq> None \<and> nf_nr_mri n \<noteq> None \<and> nf_ni_mri n \<noteq> None
     | NR n \<Rightarrow> nr_state n = STATE_METERING \<and> 0 < nr_lifetime n \<and> nr_lifetime n \<le> nr_max_lifetime n \<and>
         nr_state_timer n \<noteq> stopped_timer)"
proof -
  have s: "any_id s = sid" "any_inv s" "\<not> any_is_final s"
    using session_env.reachable_inv [OF assms(1,2)] assms(3) by (auto simp: table_inv_def get_session_def)
  then show ?thesis
    by (cases s) (auto simp: ni_inv_def ni_is_final_def nf_inv_def nf_is_final_def nr_inv_def nr_is_final_def
        intro: session_state.exhaust)
qed

theorem reachable_sessions_ok_witness:
  "\<exists>d n. ex_nr_run = Some d \<and> get_session d (Session_Id 1 2 3 4) = Some (NR n) \<and>
     0 < nr_lifetime n \<and> nr_lifetime n \<le> nr_max_lifetime n"
proof -
  obtain d n where d: "ex_nr_run = Some d" "get_session d (Session_Id 1 2 3 4) = Some (NR n)"
    using ex_nr_run_session by blast
  from reachable_sessions_ok [OF ex_session_env ex_nr_run_reachable [OF d(1)] d(2)] d show ?thesis by auto
qed

text \<open>
  C35: Looking for a new session ID ends after at most one draw more than there are sessions,
  provided the IDs drawn are different, and the ID is not in use.
\<close>

theorem create_unique_id_terminates:
  assumes "finite (dom T)" and "distinct (map (e_session_id E) [t..<t + Suc (card (dom T))])"
  shows "\<exists>i t'. create_unique_id E T t = Some (i, t') \<and> T i = None \<and> t < t' \<and> t' \<le> t + Suc (card (dom T))"
proof -
  let ?n = "card (dom T)"
  have step: "\<exists>i t'. create_unique_id E T u = Some (i, t') \<and> t' \<le> Suc (u + k)"
    if "T (e_session_id E (u + k)) = None" for u k
    using that
  proof (induction k arbitrary: u)
    case 0
    then show ?case by (subst create_unique_id.simps) (simp add: Let_def)
  next
    case (Suc k)
    then have "T (e_session_id E (Suc u + k)) = None" by simp
    from Suc.IH [OF this] show ?case by (subst create_unique_id.simps) (simp add: Let_def)
  qed
  have "\<exists>k \<le> ?n. T (e_session_id E (t + k)) = None"
  proof (rule ccontr)
    assume no: "\<not> ?thesis"
    have "T (e_session_id E i) \<noteq> None" if "i \<in> set [t..<t + Suc ?n]" for i
    proof -
      have "i - t \<le> ?n" "t + (i - t) = i" using that by auto
      with no show ?thesis by metis
    qed
    then have "set (map (e_session_id E) [t..<t + Suc ?n]) \<subseteq> dom T" by auto
    from card_mono [OF assms(1) this] assms(2) show False
      by (simp only: distinct_card length_map length_upt)
  qed
  then obtain k where "k \<le> ?n" "T (e_session_id E (t + k)) = None" by blast
  with step [of t k] obtain i t' where "create_unique_id E T t = Some (i, t')" "t' \<le> Suc (t + ?n)"
    by fastforce
  with create_unique_id_fresh [of E T t "(i, t')"] show ?thesis by auto
qed

theorem create_unique_id_terminates_witness:
  "\<exists>i t'. create_unique_id ex_env [Session_Id 3 0 0 0 \<mapsto> NR ex_nr] 3 = Some (i, t') \<and> i \<noteq> Session_Id 3 0 0 0 \<and> t' \<le> 5"
proof -
  let ?T = "[Session_Id 3 0 0 0 \<mapsto> NR ex_nr] :: (nat, nat mri_fields) session_table"
  have "finite (dom ?T)" "distinct (map (e_session_id ex_env) [3..<3 + Suc (card (dom ?T))])"
    by (simp_all add: ex_env_def daemon_env_def upt_rec)
  from create_unique_id_terminates [OF this] show ?thesis by (auto split: if_splits)
qed

text \<open>
  The requests of the API to refresh a session or to send a notification never reach the
  session they name: their constructors lose the session ID, so the dispatcher finds no
  session and discards them without any effect.
\<close>

theorem api_refresh_notify_discarded:
  "dispatcher_process E (new_api_refresh_event sid r) d = Some (Ret () d) \<and>
   dispatcher_process E (new_api_notify_event sid n) d = Some (Ret () d)"
  by (simp add: dispatcher_process_def new_api_refresh_event_def new_api_notify_event_def
      is_invalid_mnslp_msg_def dispatch_to_session_def dispatcher_create_session_def
      is_api_configure_def is_mnslp_configure_def event_is_class_def)

text \<open>
  The receiver does not answer a CONFIGURE for which it has no path-coupled routing
  information: the exception leaves the handler, the dispatcher drops the session it had just
  created, and the sender hears nothing; all that remains is the unchanged session table.
\<close>

theorem nr_unroutable_dropped:
  assumes "get_session d sid = None" and "nm_body msg = Some c" and "m_class c = Mnslp_Configure"
    and "\<not> mri_is_pathcoupled (e_mri E) (nm_mri msg)"
    and "precheck E \<lparr>me_msg = msg, me_for_this_node = True\<rparr> (configure_get_session_lifetime c)
      (cf_nr_max_session_lifetime (e_config E)) = Proceed l" and "0 < l"
  shows "dispatcher_process E (new_msg_event sid msg True) d = Some (Ret () d)"
proof -
  let ?evt = "new_msg_event sid msg True"
  let ?e = "\<lparr>me_msg = msg, me_for_this_node = True\<rparr>"
  have e: "ev_body ?evt = Msg_Event ?e" "nm_body (me_msg ?e) = Some c" by (simp_all add: new_msg_event_def assms(2))
  note cls = msg_event_class [OF e]
  have "d\<lparr>d_table := (d_table d)(sid := None)\<rparr> = d"
    using assms(1) by (cases d) (simp add: get_session_def fun_upd_idem)
  then show ?thesis
    using assms e cls
    by (simp add: dispatcher_process_def new_msg_event_def is_invalid_mnslp_msg_def dispatch_to_session_def
        dispatcher_create_session_def is_api_configure_def is_mnslp_configure_def create_nr_session_def
        Let_def run_session_def nr_process_event_def new_nr_session_def nr_handle_state_close_def
        nr_save_mt_policy_rule_def remove_session_def get_session_def body_of_class_def)
qed

definition ex_unroutable_env :: "(nat, nat, nat mri_fields, unit) env" where
  "ex_unroutable_env = ex_env\<lparr>e_mri := ex_mri\<lparr>mri_is_pathcoupled := \<lambda>r. False\<rparr>\<rparr>"

theorem nr_unroutable_dropped_witness:
  "dispatcher_process ex_unroutable_env ex_nr_event (empty_daemon ()) = Some (Ret () (empty_daemon ()))"
  unfolding ex_nr_event_def
proof (rule nr_unroutable_dropped)
  show "nm_body ex_path_msg = Some ex_path_configure" by (simp add: ex_path_msg_def)
  show "precheck ex_unroutable_env \<lparr>me_msg = ex_path_msg, me_for_this_node = True\<rparr>
      (configure_get_session_lifetime ex_path_configure)
      (cf_nr_max_session_lifetime (e_config ex_unroutable_env)) = Proceed 30"
    by (simp add: precheck_eq ex_path_facts ex_unroutable_env_def ex_env_def daemon_env_def
        default_config_def dispatcher_is_authorized_def)
qed (simp_all add: ex_unroutable_env_def ex_path_facts get_session_def empty_daemon_def)

text \<open>
  C5: Sessions do not interfere: an event changes the entry of a session ID in the table only
  when it names that ID, or when it is a CONFIGURE request of the API and the ID was free; and
  only a CONFIGURE, from the API or from the network, brings a session into being.
\<close>

theorem dispatcher_frame:
  assumes "session_env E" and "reachable E d" and "dispatcher_process E evt d = Some (Ret u d')"
    and "get_session d' sid \<noteq> get_session d sid"
  shows "(ev_sid evt = Some sid \<or> is_api_configure evt \<and> get_session d sid = None) \<and>
    (get_session d sid = None \<longrightarrow> is_api_configure evt \<or> is_mnslp_configure evt)"
  using assms(3)
proof (cases rule: dispatcher_process_cases)
  case none
  with assms(4) show ?thesis by (simp add: get_session_def)
next
  case (table j s)
  have "any_id s = j"
    using session_env.reachable_inv [OF assms(1,2)] table(2) by (auto simp: table_inv_def)
  then have "sid = j"
    using run_session_frame [OF table(3), of sid] assms(4) by (auto simp: get_session_def)
  then show ?thesis using table(1,2) by (simp add: get_session_def)
next
  case (new s d1)
  have "sid = any_id s"
    using run_session_frame [OF new(3), of sid] create_session_frame [OF new(2), of sid] assms(4)
    by (auto simp: get_session_def)
  then show ?thesis
    using create_session_frame [OF new(2), of sid] by (auto simp: get_session_def)
qed

theorem dispatcher_frame_witness:
  "\<exists>d. dispatcher_process ex_env ex_nr_event (empty_daemon ()) = Some (Ret () d) \<and>
     get_session d (Session_Id 1 2 3 4) \<noteq> None \<and> is_mnslp_configure ex_nr_event"
proof -
  obtain d n where d: "ex_nr_run = Some d" "get_session d (Session_Id 1 2 3 4) = Some (NR n)"
    using ex_nr_run_session by blast
  from d(1) have r: "dispatcher_process ex_env ex_nr_event (empty_daemon ()) = Some (Ret () d)"
    by (auto simp: ex_nr_run_def split: option.splits result.splits)
  have "get_session (empty_daemon ()) (Session_Id 1 2 3 4) = (None :: (nat, nat mri_fields) any_session option)"
    by (simp add: get_session_def empty_daemon_def)
  moreover have "reachable ex_env (empty_daemon ())" by (rule reachable.start)
  moreover have "\<not> is_api_configure ex_nr_event"
    by (simp add: is_api_configure_def ex_nr_event_def new_msg_event_def)
  ultimately show ?thesis
    using dispatcher_frame [OF ex_session_env _ r, of "Session_Id 1 2 3 4"] r d(2) by auto
qed

end
