(* ===== verification/Wire_Object.thy ===== *)
theory Wire_Object
  imports Ntlp_Msg
begin

unbundle bit_operations_syntax

text \<open>
  The wire format of an object (src/msg/mnslp_object.cpp and the five concrete classes): a
  32-bit header with treatment, type and length of the body in 32-bit words, then the body.
  The buffer class \<open>NetMsg\<close> and the base class \<open>IE\<close> belong to the library protlib, which is not
  part of the repository: their operations are the record \<open>net_ops\<close>, their documented
  behaviour is the predicate \<open>net_laws\<close>. It looks at a buffer as the bytes before the position
  and the bytes from there on. A metering object codes its body itself, through the virtual
  functions of the record \<open>body_ops\<close>.
\<close>

section \<open>The buffer\<close>

datatype coding = Protocol_V1 | Other_Coding nat

datatype ie_category = Cat_Msg | Cat_Object | Cat_Default_Msg | Cat_Default_Object | Cat_Other nat

datatype ie_error =
    IE_Msg_Too_Short coding ie_category u32
  | PDU_Syntax_Error coding ie_category u16 u16 u32
  | IE_Wrong_Type
  | IE_Wrong_Subtype
  | IE_Category
  | IE_Obj_Set_Failed
  | IE_Not_Serializable

datatype wire_exn = NetMsg_Error | IE_Error ie_error | Ipfix_Error

datatype obj_class = Cl_Session_Lifetime | Cl_Msg_Sequence_Number | Cl_Message_Hop_Count |
  Cl_Selection_Metering_Entities | Cl_Information_Code | Cl_Ipfix_Message

text \<open>What is registered with the manager: a prototype under category, type and subtype.\<close>

datatype ie_proto = Proto_Msg mclass | Proto_Object obj_class

type_synonym ie_registry = "((ie_category \<times> u16 \<times> u16) \<times> ie_proto) list"

record 'n net_ops =
  net_of_size :: "nat \<Rightarrow> 'n"
  net_of_buffer :: "u8 list \<Rightarrow> 'n"
  net_get_buffer :: "'n \<Rightarrow> u8 list"
  net_get_pos :: "'n \<Rightarrow> u32"
  net_set_pos :: "u32 \<Rightarrow> 'n \<Rightarrow> 'n"
  net_bytes_left :: "'n \<Rightarrow> u32"
  net_decode32 :: "'n \<Rightarrow> (u32 \<times> 'n) option"
  net_peek32 :: "'n \<Rightarrow> u32 option"
  net_encode8 :: "u8 \<Rightarrow> 'n \<Rightarrow> 'n option"
  net_encode16 :: "u16 \<Rightarrow> 'n \<Rightarrow> 'n option"
  net_encode32 :: "u32 \<Rightarrow> 'n \<Rightarrow> 'n option"
  ie_check_deser_args :: "bool \<Rightarrow> ie_error list \<Rightarrow> bool \<times> ie_error list"
  ie_check_ser_args :: "bool \<Rightarrow> bool \<Rightarrow> ie_error option"
  ie_lookup :: "ie_registry \<Rightarrow> ie_category \<times> u16 \<times> u16 \<Rightarrow> ie_proto option"

definition word16_be :: "u16 \<Rightarrow> u8 list" where
  "word16_be w = [ucast (drop_bit 8 w), ucast w]"

definition word32_be :: "u32 \<Rightarrow> u8 list" where
  "word32_be w = [ucast (drop_bit 24 w), ucast (drop_bit 16 w), ucast (drop_bit 8 w), ucast w]"

fun word32_of_be :: "u8 list \<Rightarrow> u32" where
  "word32_of_be [a, b, c, d] =
     push_bit 24 (ucast a) OR push_bit 16 (ucast b) OR push_bit 8 (ucast c) OR ucast d"
| "word32_of_be _ = 0"

text \<open>
  Integers are in network byte order; reading or writing beyond the end throws and moves
  nothing; the argument checks of \<open>IE\<close> accept a supported coding and, for writing, a valid
  object; the registry of \<open>IEManager\<close> finds what was registered.
\<close>

definition put_bytes :: "('n \<Rightarrow> u8 list \<times> u8 list) \<Rightarrow> u8 list \<Rightarrow> 'n \<Rightarrow> 'n option \<Rightarrow> bool" where
  "put_bytes V bs n r \<longleftrightarrow>
     (if length (snd (V n)) < length bs then r = None
      else case r of None \<Rightarrow> False
           | Some n' \<Rightarrow> V n' = (fst (V n) @ bs, drop (length bs) (snd (V n))))"

definition get_word :: "('n \<Rightarrow> u8 list \<times> u8 list) \<Rightarrow> 'n \<Rightarrow> (u32 \<times> 'n) option \<Rightarrow> bool" where
  "get_word V n r \<longleftrightarrow>
     (if length (snd (V n)) < 4 then r = None
      else case r of None \<Rightarrow> False
           | Some (w, n') \<Rightarrow> w = word32_of_be (take 4 (snd (V n))) \<and>
               V n' = (fst (V n) @ take 4 (snd (V n)), drop 4 (snd (V n))))"

definition net_pos_laws :: "'n net_ops \<Rightarrow> ('n \<Rightarrow> u8 list \<times> u8 list) \<Rightarrow> bool" where
  "net_pos_laws N V \<longleftrightarrow>
     (\<forall>n. length (fst (V n)) + length (snd (V n)) < 2 ^ 32) \<and>
     (\<forall>n. net_get_buffer N n = fst (V n) @ snd (V n)) \<and>
     (\<forall>n. net_get_pos N n = of_nat (length (fst (V n)))) \<and>
     (\<forall>n. net_bytes_left N n = of_nat (length (snd (V n)))) \<and>
     (\<forall>n p. unat p \<le> length (fst (V n) @ snd (V n)) \<longrightarrow>
        V (net_set_pos N p n) = (take (unat p) (fst (V n) @ snd (V n)), drop (unat p) (fst (V n) @ snd (V n)))) \<and>
     (\<forall>bs. length bs < 2 ^ 32 \<longrightarrow> V (net_of_buffer N bs) = ([], bs)) \<and>
     (\<forall>k. k < 2 ^ 32 \<longrightarrow> fst (V (net_of_size N k)) = [] \<and> length (snd (V (net_of_size N k))) = k)"

definition net_coding_laws :: "'n net_ops \<Rightarrow> ('n \<Rightarrow> u8 list \<times> u8 list) \<Rightarrow> bool" where
  "net_coding_laws N V \<longleftrightarrow>
     (\<forall>n. get_word V n (net_decode32 N n)) \<and>
     (\<forall>n. net_peek32 N n =
        (if length (snd (V n)) < 4 then None else Some (word32_of_be (take 4 (snd (V n)))))) \<and>
     (\<forall>w n. put_bytes V [w] n (net_encode8 N w n)) \<and>
     (\<forall>w n. put_bytes V (word16_be w) n (net_encode16 N w n)) \<and>
     (\<forall>w n. put_bytes V (word32_be w) n (net_encode32 N w n))"

definition ie_arg_laws :: "'n net_ops \<Rightarrow> bool" where
  "ie_arg_laws N \<longleftrightarrow>
     (\<forall>s es. fst (ie_check_deser_args N s es) = s) \<and>
     (\<forall>es. snd (ie_check_deser_args N True es) = es) \<and>
     (\<forall>s c. ie_check_ser_args N s c = None \<longleftrightarrow> s \<and> c) \<and>
     (\<forall>reg k. distinct (map fst reg) \<longrightarrow> ie_lookup N reg k = map_of reg k)"

definition net_laws :: "'n net_ops \<Rightarrow> ('n \<Rightarrow> u8 list \<times> u8 list) \<Rightarrow> bool" where
  "net_laws N V \<longleftrightarrow> net_pos_laws N V \<and> net_coding_laws N V \<and> ie_arg_laws N"

section \<open>Header\<close>

definition extract_object_type :: "u32 \<Rightarrow> u16" where
  "extract_object_type header_raw = ucast (drop_bit 16 header_raw AND 0xFFF)"

fun set_obj_header :: "(obj_hdr \<Rightarrow> obj_hdr) \<Rightarrow> 'o mnslp_object \<Rightarrow> 'o mnslp_object" where
  "set_obj_header f (Session_Lifetime h v) = Session_Lifetime (f h) v"
| "set_obj_header f (Msg_Sequence_Number h v) = Msg_Sequence_Number (f h) v"
| "set_obj_header f (Message_Hop_Count h v) = Message_Hop_Count (f h) v"
| "set_obj_header f (Selection_Metering_Entities h v) = Selection_Metering_Entities (f h) v"
| "set_obj_header f (Information_Code h ic) = Information_Code (f h) ic"
| "set_obj_header f (Mspec_Object m) = Mspec_Object (m\<lparr>ms_hdr := f (ms_hdr m)\<rparr>)"

text \<open>The result says whether the header could be read, and gives the length of the body.\<close>

definition deserialize_header ::
    "'n net_ops \<Rightarrow> 'o mnslp_object \<Rightarrow> 'n \<Rightarrow> ie_error list \<Rightarrow>
      bool \<times> u16 \<times> 'o mnslp_object \<times> 'n \<times> ie_error list" where
  "deserialize_header N ob n errs =
     (let start_pos = net_get_pos N n
      in case net_decode32 N n of
           None \<Rightarrow> (False, 0, ob, n, errs @ [IE_Msg_Too_Short Protocol_V1 Cat_Object start_pos])
         | Some (header_raw, n1) \<Rightarrow>
             let ob1 = set_obj_header (\<lambda>h. h\<lparr>oh_treatment := treatment_of (drop_bit 30 header_raw),
                   oh_object_type := extract_object_type header_raw\<rparr>) ob;
                 body_length = ucast ((header_raw AND 0xFFF) * 4)
             in if net_bytes_left N n1 < ucast body_length
                then (False, body_length, ob1, net_set_pos N start_pos n1,
                      errs @ [IE_Msg_Too_Short Protocol_V1 Cat_Object start_pos])
                else (True, body_length, ob1, n1, errs))"

definition obj_header_word :: "obj_hdr \<Rightarrow> u16 \<Rightarrow> u32" where
  "obj_header_word h body_length =
     push_bit 30 (treatment_code (oh_treatment h)) OR push_bit 16 (ucast (oh_object_type h))
       OR (ucast body_length div 4)"

definition serialize_header :: "'n net_ops \<Rightarrow> 'o mnslp_object \<Rightarrow> u16 \<Rightarrow> 'n \<Rightarrow> 'n option" where
  "serialize_header N ob body_length n = net_encode32 N (obj_header_word (obj_header ob) body_length) n"

section \<open>Bodies\<close>

text \<open>The virtual functions of a metering object\<close>

record ('o, 'n) body_ops =
  bo_new_instance :: "'o mspec_object"
  bo_check_body :: "'o mspec_object \<Rightarrow> bool"
  bo_get_serialized_size :: "'o mspec_object \<Rightarrow> nat"
  bo_deserialize_body :: "'o mspec_object \<Rightarrow> u16 \<Rightarrow> bool \<Rightarrow> 'n \<Rightarrow> ie_error list \<Rightarrow>
    (wire_exn, bool \<times> 'o mspec_object, 'n \<times> ie_error list) result"
  bo_serialize_body :: "'o mspec_object \<Rightarrow> 'n \<Rightarrow> (wire_exn, unit, 'n) result"

text \<open>\<open>NetMsg::decode32\<close> and \<open>encode32\<close> as calls that may throw\<close>

definition decode32_or_throw :: "'n net_ops \<Rightarrow> 'n \<Rightarrow> ie_error list \<Rightarrow>
    (wire_exn, u32, 'n \<times> ie_error list) result" where
  "decode32_or_throw N n errs =
     (case net_decode32 N n of None \<Rightarrow> Exn NetMsg_Error (n, errs) | Some (w, n') \<Rightarrow> Ret w (n', errs))"

definition encode_or_throw :: "('n \<Rightarrow> 'n option) \<Rightarrow> 'n \<Rightarrow> (wire_exn, unit, 'n) result" where
  "encode_or_throw f n = (case f n of None \<Rightarrow> Exn NetMsg_Error n | Some n' \<Rightarrow> Ret () n')"

definition info_code_of_word :: "u32 \<Rightarrow> info_code" where
  "info_code_of_word value =
     \<lparr>ic_severity_class = ucast (drop_bit 24 value AND 0xF),
      ic_response_code = ucast (drop_bit 16 value AND 0xFF),
      ic_response_object_type = ucast (value AND 0xFFFF)\<rparr>"

text \<open>The bodies of the four numbers ignore the length of the body in the header.\<close>

fun deserialize_body :: "'n net_ops \<Rightarrow> ('o, 'n) body_ops \<Rightarrow> 'o mnslp_object \<Rightarrow> u16 \<Rightarrow> bool \<Rightarrow>
    'n \<Rightarrow> ie_error list \<Rightarrow> (wire_exn, bool \<times> 'o mnslp_object, 'n \<times> ie_error list) result" where
  "deserialize_body N B (Session_Lifetime h _) body_length skip n errs =
     r_bind (decode32_or_throw N n errs) (\<lambda>w s. Ret (True, Session_Lifetime h w) s)"
| "deserialize_body N B (Msg_Sequence_Number h _) body_length skip n errs =
     r_bind (decode32_or_throw N n errs) (\<lambda>w s. Ret (True, Msg_Sequence_Number h w) s)"
| "deserialize_body N B (Message_Hop_Count h _) body_length skip n errs =
     r_bind (decode32_or_throw N n errs) (\<lambda>w s. Ret (True, Message_Hop_Count h w) s)"
| "deserialize_body N B (Selection_Metering_Entities h _) body_length skip n errs =
     r_bind (decode32_or_throw N n errs) (\<lambda>w s. Ret (True, Selection_Metering_Entities h w) s)"
| "deserialize_body N B (Information_Code h _) body_length skip n errs =
     r_bind (decode32_or_throw N n errs) (\<lambda>value (n1, errs1).
       let ob = Information_Code h (info_code_of_word value)
       in if \<not> object_check (bo_check_body B) ob
          then Ret (skip, ob) (n1, errs1 @ [PDU_Syntax_Error Protocol_V1 Cat_Object
                 (oh_object_type h) 0 (net_get_pos N n1 - 4)])
          else Ret (True, ob) (n1, errs1))"
| "deserialize_body N B (Mspec_Object m) body_length skip n errs =
     r_bind (bo_deserialize_body B m body_length skip n errs) (\<lambda>(ok, m1) s. Ret (ok, Mspec_Object m1) s)"

fun serialize_body :: "'n net_ops \<Rightarrow> ('o, 'n) body_ops \<Rightarrow> 'o mnslp_object \<Rightarrow> 'n \<Rightarrow>
    (wire_exn, unit, 'n) result" where
  "serialize_body N B (Session_Lifetime _ v) n = encode_or_throw (net_encode32 N v) n"
| "serialize_body N B (Msg_Sequence_Number _ v) n = encode_or_throw (net_encode32 N v) n"
| "serialize_body N B (Message_Hop_Count _ v) n = encode_or_throw (net_encode32 N v) n"
| "serialize_body N B (Selection_Metering_Entities _ v) n = encode_or_throw (net_encode32 N v) n"
| "serialize_body N B (Information_Code _ ic) n =
     r_bind (encode_or_throw (net_encode8 N (ic_severity_class ic AND 0xF)) n) (\<lambda>_ n1.
     r_bind (encode_or_throw (net_encode8 N (ic_response_code ic)) n1) (\<lambda>_ n2.
     encode_or_throw (net_encode16 N (ic_response_object_type ic AND 0xFFFF)) n2))"
| "serialize_body N B (Mspec_Object m) n = bo_serialize_body B m n"

text \<open>The size in bytes, header included\<close>

fun get_serialized_size :: "('o, 'n) body_ops \<Rightarrow> 'o mnslp_object \<Rightarrow> nat" where
  "get_serialized_size B (Session_Lifetime _ _) = 4 + 4"
| "get_serialized_size B (Msg_Sequence_Number _ _) = 4 + 4"
| "get_serialized_size B (Message_Hop_Count _ _) = 4 + 4"
| "get_serialized_size B (Selection_Metering_Entities _ _) = 4 + 4"
| "get_serialized_size B (Information_Code _ _) = 4 + 4"
| "get_serialized_size B (Mspec_Object m) = bo_get_serialized_size B m"

section \<open>Objects\<close>

definition supports_coding :: "coding \<Rightarrow> bool" where
  "supports_coding c \<longleftrightarrow> c = Protocol_V1"

text \<open>
  Returns the object (\<open>None\<close>: NULL) and the bytes read. Only the header catches the exception
  of the buffer, the body lets it out.
\<close>

definition object_deserialize :: "'n net_ops \<Rightarrow> ('o, 'n) body_ops \<Rightarrow> 'o mnslp_object \<Rightarrow> bool \<Rightarrow>
    'n \<Rightarrow> ie_error list \<Rightarrow> (wire_exn, ('o mnslp_object option) \<times> u32, 'n \<times> ie_error list) result" where
  "object_deserialize N B ob skip n errs =
     (let start_pos = net_get_pos N n;
          (ok, errs1) = ie_check_deser_args N (supports_coding Protocol_V1) errs
      in if \<not> ok then Ret (None, 0) (n, errs1)
         else
           (let (ok, body_length, ob1, n1, errs2) = deserialize_header N ob n errs1
            in if \<not> ok then Ret (None, 0) (n1, errs2)
               else r_bind (deserialize_body N B ob1 body_length skip n1 errs2)
                 (\<lambda>(ok, ob2) (n2, errs3).
                    if \<not> ok then Ret (None, 0) (n2, errs3)
                    else Ret (Some ob2, net_get_pos N n2 - start_pos) (n2, errs3))))"

text \<open>\<open>catch (NetMsgError) { throw IEMsgTooShort(...) }\<close>\<close>

fun catch_netmsg :: "'n net_ops \<Rightarrow> coding \<Rightarrow> ie_category \<Rightarrow> (wire_exn, 'a, 'n) result \<Rightarrow>
    (wire_exn, 'a, 'n) result" where
  "catch_netmsg N c cat (Exn NetMsg_Error n) = Exn (IE_Error (IE_Msg_Too_Short c cat (net_get_pos N n))) n"
| "catch_netmsg N c cat r = r"

definition object_serialize :: "'n net_ops \<Rightarrow> ('o, 'n) body_ops \<Rightarrow> 'o mnslp_object \<Rightarrow> coding \<Rightarrow>
    'n \<Rightarrow> (wire_exn, u32, 'n) result" where
  "object_serialize N B ob coding n =
     (let start_pos = net_get_pos N n
      in case ie_check_ser_args N (supports_coding coding) (object_check (bo_check_body B) ob) of
           Some e \<Rightarrow> Exn (IE_Error e) n
         | None \<Rightarrow>
             let body_length = of_nat (get_serialized_size B ob - 4)
             in r_bind (catch_netmsg N Protocol_V1 Cat_Object
                  (encode_or_throw (serialize_header N ob body_length) n)) (\<lambda>_ n1.
                r_bind (catch_netmsg N Protocol_V1 Cat_Object (serialize_body N B ob n1)) (\<lambda>_ n2.
                  Ret (net_get_pos N n2 - start_pos) n2)))"

text \<open>A new instance of each class\<close>

fun class_of_object :: "'o mnslp_object \<Rightarrow> obj_class" where
  "class_of_object (Session_Lifetime _ _) = Cl_Session_Lifetime"
| "class_of_object (Msg_Sequence_Number _ _) = Cl_Msg_Sequence_Number"
| "class_of_object (Message_Hop_Count _ _) = Cl_Message_Hop_Count"
| "class_of_object (Selection_Metering_Entities _ _) = Cl_Selection_Metering_Entities"
| "class_of_object (Information_Code _ _) = Cl_Information_Code"
| "class_of_object (Mspec_Object _) = Cl_Ipfix_Message"

fun new_object_instance :: "('o, 'n) body_ops \<Rightarrow> obj_class \<Rightarrow> 'o mnslp_object" where
  "new_object_instance B Cl_Session_Lifetime = new_session_lifetime 0"
| "new_object_instance B Cl_Msg_Sequence_Number = new_msg_sequence_number 0"
| "new_object_instance B Cl_Message_Hop_Count = new_message_hop_count 0"
| "new_object_instance B Cl_Selection_Metering_Entities = new_selection_metering_entities sme_all"
| "new_object_instance B Cl_Information_Code = new_information_code 0 0 0"
| "new_object_instance B Cl_Ipfix_Message = Mspec_Object (bo_new_instance B)"

section \<open>Bits\<close>

lemma word32_round_trip [simp]: "word32_of_be (word32_be w) = w"
proof (rule bit_word_eqI)
  fix n assume n: "n < LENGTH(32)"
  consider "n < 8" | "8 \<le> n" "n < 16" | "16 \<le> n" "n < 24" | "24 \<le> n" by linarith
  then show "bit (word32_of_be (word32_be w)) n = bit w n"
    using n by cases (auto simp: word32_be_def bit_simps)
qed

lemma length_word_be [simp]: "length (word32_be w) = 4" "length (word16_be v) = 2"
  by (simp_all add: word32_be_def word16_be_def)

lemma mask_u32: "(0xFFF :: u32) = mask 12" "(0xFFF :: u16) = mask 12"
  by (simp_all add: mask_eq_exp_minus_1)

lemma and_not_mask_bits:
  fixes t :: "'a::len word"
  shows "t AND NOT (mask k) = 0 \<longleftrightarrow> (\<forall>n. bit t n \<longrightarrow> n < k)"
proof -
  have "t AND NOT (mask k) = 0 \<longleftrightarrow> (\<forall>n. \<not> bit (t AND NOT (mask k)) n)"
    by (metis bit_0_eq bit_eq_iff bot_apply bot_bool_def)
  then show ?thesis
    by (auto simp: bit_simps dest: bit_imp_le_length intro: ccontr)
qed

lemma header_word_fields:
  fixes a l :: u32 and t :: u16
  assumes a: "\<forall>n. bit a n \<longrightarrow> n < 2" and t: "\<forall>n. bit t n \<longrightarrow> n < 12" and l: "\<forall>n. bit l n \<longrightarrow> n < 12"
  defines "w \<equiv> push_bit 30 a OR push_bit 16 (ucast t) OR l"
  shows "drop_bit 30 w = a" and "(ucast (drop_bit 16 w AND mask 12) :: u16) = t" and "w AND mask 12 = l"
proof -
  show "drop_bit 30 w = a"
    using a t l by (intro bit_word_eqI) (force simp: w_def bit_simps)
  show "(ucast (drop_bit 16 w AND mask 12) :: u16) = t"
    using a t l by (intro bit_word_eqI) (force simp: w_def bit_simps)
  show "w AND mask 12 = l"
    using a t l by (intro bit_word_eqI) (force simp: w_def bit_simps)
qed

lemma treatment_of_code [simp]: "treatment_of (treatment_code t) = t"
  by (cases t) (simp_all add: treatment_of_def)

lemma take_bit_bits: "take_bit k w = (w :: 'a::len word) \<Longrightarrow> bit w n \<Longrightarrow> n < k"
  by (metis bit_take_bit_iff)

lemma treatment_code_bits: "bit (treatment_code t) n \<Longrightarrow> n < 2"
  by (rule take_bit_bits [of 2 "treatment_code t"]) (cases t; simp)+

text \<open>What the receiver reads in a header word is what the sender put there.\<close>

lemma obj_header_word_fields:
  assumes "oh_object_type h AND NOT 0xFFF = 0" and "k < 4096"
  defines "w \<equiv> obj_header_word h (of_nat (4 * k))"
  shows "treatment_of (drop_bit 30 w) = oh_treatment h" and "extract_object_type w = oh_object_type h"
    and "ucast ((w AND 0xFFF) * 4) = (of_nat (4 * k) :: u16)"
proof -
  have k4: "(ucast (of_nat (4 * k) :: u16) :: u32) = of_nat (4 * k)"
    using assms(2) by (simp add: word_unat_eq_iff unsigned_ucast_eq unat_of_nat unat_word_ariths take_bit_nat_eq_self)
  have "(of_nat (4 * k) :: u32) div 4 = of_nat k"
    using assms(2) by (simp add: word_unat_eq_iff unat_div unat_word_ariths unat_of_nat)
  with k4 have l: "(ucast (of_nat (4 * k) :: u16) :: u32) div 4 = of_nat k" by simp
  have "take_bit 12 (of_nat k :: u32) = of_nat k"
    using assms(2) by (simp add: word_unat_eq_iff unsigned_take_bit_eq take_bit_nat_eq_self unat_of_nat)
  then have lb: "\<forall>n. bit (of_nat k :: u32) n \<longrightarrow> n < 12" using take_bit_bits by blast
  have tb: "\<forall>n. bit (oh_object_type h) n \<longrightarrow> n < 12"
    using assms(1) and_not_mask_bits [of "oh_object_type h" 12] by (simp add: mask_u32)
  note f = header_word_fields [OF _ tb lb, of "treatment_code (oh_treatment h)"]
  have w: "w = push_bit 30 (treatment_code (oh_treatment h)) OR push_bit 16 (ucast (oh_object_type h)) OR of_nat k"
    unfolding w_def obj_header_word_def l ..
  show "treatment_of (drop_bit 30 w) = oh_treatment h"
    unfolding w using f(1) treatment_code_bits by simp
  show "extract_object_type w = oh_object_type h"
    unfolding w extract_object_type_def mask_u32 using f(2) treatment_code_bits by blast
  show "ucast ((w AND 0xFFF) * 4) = (of_nat (4 * k) :: u16)"
    unfolding w mask_u32 using f(3) treatment_code_bits assms(2)
    by (simp add: word_unat_eq_iff unsigned_ucast_eq unat_word_ariths unat_of_nat take_bit_nat_eq_self)
qed

lemma info_code_round_trip:
  fixes ic :: info_code
  assumes "ic_severity_class ic AND 0xF0 = 0"
  shows "word32_of_be ([ic_severity_class ic AND 0xF, ic_response_code ic] @ word16_be (ic_response_object_type ic AND 0xFFFF)) = w
    \<Longrightarrow> info_code_of_word w = ic"
proof -
  assume w: "word32_of_be ([ic_severity_class ic AND 0xF, ic_response_code ic] @
    word16_be (ic_response_object_type ic AND 0xFFFF)) = w"
  obtain s c t where ic: "ic = \<lparr>ic_severity_class = s, ic_response_code = c, ic_response_object_type = t\<rparr>"
    by (cases ic)
  have f0: "(0xF0 :: u8) = NOT (mask 4)" by (simp add: mask_eq_exp_minus_1)
  have sb: "bit s n \<Longrightarrow> n < 4" for n
    using assms and_not_mask_bits [of s 4] by (simp add: ic f0)
  have m: "(0xF :: u8) = mask 4" "(0xF :: u32) = mask 4" "(0xFF :: u32) = mask 8"
    "(0xFFFF :: u32) = mask 16" "(0xFFFF :: u16) = mask 16"
    by (simp_all add: mask_eq_exp_minus_1)
  have "ucast (drop_bit 24 w AND 0xF) = s"
    unfolding w [symmetric] ic m by (intro bit_word_eqI) (auto simp: bit_simps word16_be_def dest: sb bit_imp_le_length)
  moreover have "ucast (drop_bit 16 w AND 0xFF) = c"
    unfolding w [symmetric] ic m by (intro bit_word_eqI) (auto simp: bit_simps word16_be_def)
  moreover have "ucast (w AND 0xFFFF) = t"
  proof (rule bit_word_eqI)
    fix n assume n: "n < LENGTH(16)"
    consider "n < 8" | "8 \<le> n" by linarith
    then show "bit (ucast (w AND 0xFFFF) :: u16) n = bit t n"
      using n unfolding w [symmetric] ic m by cases (auto simp: bit_simps word16_be_def)
  qed
  ultimately show ?thesis by (simp add: info_code_of_word_def ic)
qed

section \<open>Reading and writing at a position\<close>

lemma net_decode32_get:
  assumes "net_laws N V"
  shows "get_word V n (net_decode32 N n)"
  using assms unfolding net_laws_def net_coding_laws_def by blast

lemma net_decode32_at:
  assumes "net_laws N V" and "V n = (d, word32_be w @ r)"
  shows "\<exists>n'. net_decode32 N n = Some (w, n') \<and> V n' = (d @ word32_be w, r)"
  using net_decode32_get [OF assms(1), of n] assms(2) by (auto simp: get_word_def split: option.splits)

lemma net_decode32_short:
  assumes "net_laws N V" and "length (snd (V n)) < 4"
  shows "net_decode32 N n = None"
  using net_decode32_get [OF assms(1), of n] assms(2) by (simp add: get_word_def)

lemma net_peek32_at:
  assumes "net_laws N V" and "V n = (d, word32_be w @ r)"
  shows "net_peek32 N n = Some w"
  using assms by (simp add: net_laws_def net_coding_laws_def)

lemma net_pos_left:
  assumes "net_laws N V"
  shows "net_get_pos N n = of_nat (length (fst (V n)))"
    and "net_bytes_left N n = of_nat (length (snd (V n)))"
    and "length (fst (V n)) + length (snd (V n)) < 2 ^ 32"
  using assms by (simp_all only: net_laws_def net_pos_laws_def)

lemma net_pos_diff:
  assumes "net_laws N V" and "V n = (d, r)" and "V n' = (d @ bs, r')"
  shows "net_get_pos N n' - net_get_pos N n = of_nat (length bs)"
  using net_pos_left(1) [OF assms(1)] assms(2,3) by simp

lemma unat_bytes_left:
  assumes "net_laws N V"
  shows "unat (net_bytes_left N n) = length (snd (V n))"
  using net_pos_left(2,3) [OF assms, of n] by (simp add: unat_of_nat_u32)

lemma put_bytesD:
  assumes "put_bytes V bs n r" and "length bs \<le> length (snd (V n))"
  shows "\<exists>n'. r = Some n' \<and> V n' = (fst (V n) @ bs, drop (length bs) (snd (V n)))"
  using assms by (auto simp: put_bytes_def split: option.splits)

lemma encode_or_throw_at:
  assumes "put_bytes V bs n (f n)" and "length bs \<le> length (snd (V n))"
  shows "\<exists>n'. encode_or_throw f n = Ret () n' \<and> V n' = (fst (V n) @ bs, drop (length bs) (snd (V n)))"
  using put_bytesD [OF assms] by (auto simp: encode_or_throw_def)

lemma net_put:
  assumes "net_laws N V"
  shows "put_bytes V [b] n (net_encode8 N b n)" and "put_bytes V (word16_be h) n (net_encode16 N h n)"
    and "put_bytes V (word32_be w) n (net_encode32 N w n)"
  using assms by (simp_all only: net_laws_def net_coding_laws_def)

lemma net_checks:
  assumes "net_laws N V"
  shows "ie_check_ser_args N s c = None \<longleftrightarrow> s \<and> c"
    and "ie_check_deser_args N True es = (True, es)"
  using assms by (auto simp: net_laws_def ie_arg_laws_def intro: prod_eqI)

section \<open>The wire format of an object\<close>

text \<open>The bytes of a body; those of a metering object are the argument \<open>mb\<close>.\<close>

fun body_bytes :: "('o mspec_object \<Rightarrow> u8 list) \<Rightarrow> 'o mnslp_object \<Rightarrow> u8 list" where
  "body_bytes mb (Session_Lifetime _ v) = word32_be v"
| "body_bytes mb (Msg_Sequence_Number _ v) = word32_be v"
| "body_bytes mb (Message_Hop_Count _ v) = word32_be v"
| "body_bytes mb (Selection_Metering_Entities _ v) = word32_be v"
| "body_bytes mb (Information_Code _ ic) =
     [ic_severity_class ic AND 0xF, ic_response_code ic] @ word16_be (ic_response_object_type ic AND 0xFFFF)"
| "body_bytes mb (Mspec_Object m) = mb m"

definition object_bytes :: "('o mspec_object \<Rightarrow> u8 list) \<Rightarrow> 'o mnslp_object \<Rightarrow> u8 list" where
  "object_bytes mb ob =
     word32_be (obj_header_word (obj_header ob) (of_nat (length (body_bytes mb ob)))) @ body_bytes mb ob"

text \<open>
  A metering object that a message can carry: it is valid, its bytes fill whole words and fit
  the length field of the header, it writes just these bytes and reads them back.
\<close>

definition body_laws :: "('n \<Rightarrow> u8 list \<times> u8 list) \<Rightarrow> ('o, 'n) body_ops \<Rightarrow>
    ('o mspec_object \<Rightarrow> u8 list) \<Rightarrow> 'o mspec_object \<Rightarrow> bool" where
  "body_laws V B mb m \<longleftrightarrow>
     bo_check_body B m \<and> \<not> oh_unique (ms_hdr (bo_new_instance B)) \<and>
     bo_get_serialized_size B m = 4 + length (mb m) \<and>
     length (mb m) mod 4 = 0 \<and> length (mb m) < 4 * 4096 \<and>
     (\<forall>n. length (mb m) \<le> length (snd (V n)) \<longrightarrow>
        (\<exists>n'. bo_serialize_body B m n = Ret () n' \<and>
           V n' = (fst (V n) @ mb m, drop (length (mb m)) (snd (V n))))) \<and>
     (\<forall>n errs skip d r. V n = (d, mb m @ r) \<longrightarrow>
        (\<exists>n'. bo_deserialize_body B ((bo_new_instance B)\<lparr>ms_hdr := ms_hdr m\<rparr>)
             (of_nat (length (mb m))) skip n errs = Ret (True, m) (n', errs) \<and>
           V n' = (d @ mb m, r)))"

text \<open>The objects a message can carry over the wire\<close>

definition wire_ok :: "('n \<Rightarrow> u8 list \<times> u8 list) \<Rightarrow> ('o, 'n) body_ops \<Rightarrow>
    ('o mspec_object \<Rightarrow> u8 list) \<Rightarrow> 'o mnslp_object \<Rightarrow> bool" where
  "wire_ok V B mb ob \<longleftrightarrow> std_object ob \<and>
     (case ob of Information_Code h ic \<Rightarrow> object_check (bo_check_body B) ob
      | Mspec_Object m \<Rightarrow> body_laws V B mb m
      | _ \<Rightarrow> True)"

lemma wire_ok_check:
  assumes "wire_ok V B mb ob"
  shows "object_check (bo_check_body B) ob"
proof (cases ob)
  case (Information_Code h ic)
  with assms show ?thesis by (simp add: wire_ok_def)
qed (use assms in \<open>auto simp: wire_ok_def object_check_def get_object_type_def ot_defs body_laws_def\<close>)

lemma wire_ok_type: "wire_ok V B mb ob \<Longrightarrow> oh_object_type (obj_header ob) AND NOT 0xFFF = 0"
  using wire_ok_check [of V B mb ob] by (auto simp: object_check_def get_object_type_def split: if_splits)

lemma wire_ok_size:
  assumes "wire_ok V B mb ob"
  shows "get_serialized_size B ob = 4 + length (body_bytes mb ob)"
    and "\<exists>k < 4096. length (body_bytes mb ob) = 4 * k"
proof -
  show "get_serialized_size B ob = 4 + length (body_bytes mb ob)"
    using assms by (cases ob) (auto simp: wire_ok_def body_laws_def)
  have "length (body_bytes mb ob) mod 4 = 0 \<and> length (body_bytes mb ob) < 4 * 4096"
    using assms by (cases ob) (auto simp: wire_ok_def body_laws_def)
  then show "\<exists>k < 4096. length (body_bytes mb ob) = 4 * k"
    by (intro exI [of _ "length (body_bytes mb ob) div 4"]) auto
qed

lemma serialize_body_bytes:
  assumes N: "net_laws N V" and ok: "wire_ok V B mb ob"
    and room: "length (body_bytes mb ob) \<le> length (snd (V n))"
  shows "\<exists>n'. serialize_body N B ob n = Ret () n' \<and>
    V n' = (fst (V n) @ body_bytes mb ob, drop (length (body_bytes mb ob)) (snd (V n)))"
proof (cases ob)
  case (Information_Code h ic)
  let ?a = "ic_severity_class ic AND 0xF" and ?c = "ic_response_code ic"
    and ?t = "ic_response_object_type ic AND 0xFFFF"
  from room have r4: "4 \<le> length (snd (V n))" by (simp add: Information_Code)
  obtain n1 where 1: "encode_or_throw (net_encode8 N ?a) n = Ret () n1"
    "V n1 = (fst (V n) @ [?a], drop 1 (snd (V n)))"
    using encode_or_throw_at [of V "[?a]" n "net_encode8 N ?a"] net_put(1) [OF N] r4 by force
  obtain n2 where 2: "encode_or_throw (net_encode8 N ?c) n1 = Ret () n2"
    "V n2 = (fst (V n) @ [?a, ?c], drop 2 (snd (V n)))"
    using encode_or_throw_at [of V "[?c]" n1 "net_encode8 N ?c"] net_put(1) [OF N, of ?c n1] 1(2) r4
    by (force simp: drop_Suc eval_nat_numeral)
  obtain n3 where 3: "encode_or_throw (net_encode16 N ?t) n2 = Ret () n3"
    "V n3 = (fst (V n) @ [?a, ?c] @ word16_be ?t, drop 4 (snd (V n)))"
    using encode_or_throw_at [of V "word16_be ?t" n2 "net_encode16 N ?t"] net_put(2) [OF N] 2(2) r4 by force
  from 1 2 3 show ?thesis by (simp add: Information_Code)
next
  case (Mspec_Object m)
  with ok room show ?thesis by (simp add: wire_ok_def body_laws_def)
next
  case (Session_Lifetime h v)
  with encode_or_throw_at [of V "word32_be v" n "net_encode32 N v"] net_put(3) [OF N] room
  show ?thesis by simp
next
  case (Msg_Sequence_Number h v)
  with encode_or_throw_at [of V "word32_be v" n "net_encode32 N v"] net_put(3) [OF N] room
  show ?thesis by simp
next
  case (Message_Hop_Count h v)
  with encode_or_throw_at [of V "word32_be v" n "net_encode32 N v"] net_put(3) [OF N] room
  show ?thesis by simp
next
  case (Selection_Metering_Entities h v)
  with encode_or_throw_at [of V "word32_be v" n "net_encode32 N v"] net_put(3) [OF N] room
  show ?thesis by simp
qed

lemma object_serialize_bytes:
  assumes N: "net_laws N V" and ok: "wire_ok V B mb ob"
    and room: "length (object_bytes mb ob) \<le> length (snd (V n))"
  shows "\<exists>n'. object_serialize N B ob Protocol_V1 n = Ret (of_nat (length (object_bytes mb ob))) n' \<and>
    V n' = (fst (V n) @ object_bytes mb ob, drop (length (object_bytes mb ob)) (snd (V n)))"
proof -
  let ?b = "body_bytes mb ob"
  let ?w = "obj_header_word (obj_header ob) (of_nat (length ?b))"
  have room': "4 + length ?b \<le> length (snd (V n))" using room by (simp add: object_bytes_def)
  have chk: "ie_check_ser_args N (supports_coding Protocol_V1) (object_check (bo_check_body B) ob) = None"
    using net_checks(1) [OF N] wire_ok_check [OF ok] by (simp add: supports_coding_def)
  obtain n1 where 1: "encode_or_throw (serialize_header N ob (of_nat (length ?b))) n = Ret () n1"
    "V n1 = (fst (V n) @ word32_be ?w, drop 4 (snd (V n)))"
    using encode_or_throw_at [of V "word32_be ?w" n "serialize_header N ob (of_nat (length ?b))"]
      net_put(3) [OF N] room' by (fastforce simp: serialize_header_def)
  obtain n2 where 2: "serialize_body N B ob n1 = Ret () n2"
    "V n2 = (fst (V n1) @ ?b, drop (length ?b) (snd (V n1)))"
    using serialize_body_bytes [OF N ok, of n1] 1(2) room' by fastforce
  have V2: "V n2 = (fst (V n) @ object_bytes mb ob, drop (length (object_bytes mb ob)) (snd (V n)))"
    using 1 2 by (simp add: object_bytes_def add.commute)
  have "net_get_pos N n2 - net_get_pos N n = of_nat (length (object_bytes mb ob))"
    by (rule net_pos_diff [OF N _ V2]) (rule prod.collapse [symmetric])
  with chk 1 2 V2 show ?thesis
    by (simp add: object_serialize_def wire_ok_size(1) [OF ok])
qed

section \<open>Reading an object back\<close>

lemma deserialize_header_bytes:
  assumes N: "net_laws N V" and ty: "oh_object_type h AND NOT 0xFFF = 0" and k: "k < 4096"
    and V: "V n = (d, word32_be (obj_header_word h (of_nat (4 * k))) @ r)" and len: "4 * k \<le> length r"
  shows "\<exists>n'. deserialize_header N ob n errs =
      (True, of_nat (4 * k), set_obj_header (\<lambda>g. g\<lparr>oh_treatment := oh_treatment h,
         oh_object_type := oh_object_type h\<rparr>) ob, n', errs) \<and>
    V n' = (d @ word32_be (obj_header_word h (of_nat (4 * k))), r)"
proof -
  let ?w = "obj_header_word h (of_nat (4 * k))"
  obtain n' where n': "net_decode32 N n = Some (?w, n')" "V n' = (d @ word32_be ?w, r)"
    using net_decode32_at [OF N V] by blast
  have "unat (ucast (of_nat (4 * k) :: u16) :: u32) = 4 * k"
    using k by (simp add: unsigned_ucast_eq unat_of_nat unat_word_ariths take_bit_nat_eq_self)
  moreover have "unat (net_bytes_left N n') = length r"
    using unat_bytes_left [OF N, of n'] n'(2) by simp
  ultimately have "\<not> net_bytes_left N n' < ucast (of_nat (4 * k) :: u16)"
    using len by (simp add: word_less_nat_alt)
  with n' show ?thesis
    by (simp only: deserialize_header_def Let_def obj_header_word_fields [OF ty k] option.case prod.case)
      simp
qed

lemma body_laws_read:
  assumes "body_laws V B mb m" and "V n = (d, mb m @ r)"
  shows "\<exists>n'. bo_deserialize_body B ((bo_new_instance B)\<lparr>ms_hdr := ms_hdr m\<rparr>)
      (of_nat (length (mb m))) skip n errs = Ret (True, m) (n', errs) \<and> V n' = (d @ mb m, r)"
  using assms unfolding body_laws_def by blast

lemma decode32_or_throw_at:
  assumes "net_laws N V" and "V n = (d, word32_be w @ r)"
  shows "\<exists>n'. decode32_or_throw N n errs = Ret w (n', errs) \<and> V n' = (d @ word32_be w, r)"
  using net_decode32_at [OF assms] by (auto simp: decode32_or_throw_def)

lemma info_code_word:
  "\<exists>w. word32_be w = [s AND 0xF, c] @ word16_be (t AND 0xFFFF) \<and>
     w = word32_of_be ([s AND 0xF, c] @ word16_be (t AND 0xFFFF))"
proof -
  let ?l = "[s AND 0xF, c] @ word16_be (t AND 0xFFFF)"
  have *: "word32_be (word32_of_be [a, b, c, d]) = [a, b, c, d]" for a b c d
  proof -
    have "ucast (drop_bit 24 (word32_of_be [a, b, c, d])) = a"
      by (intro bit_word_eqI) (auto simp: bit_simps dest: bit_imp_le_length)
    moreover have "ucast (drop_bit 16 (word32_of_be [a, b, c, d])) = b"
      by (intro bit_word_eqI) (auto simp: bit_simps dest: bit_imp_le_length)
    moreover have "ucast (drop_bit 8 (word32_of_be [a, b, c, d])) = c"
      by (intro bit_word_eqI) (auto simp: bit_simps dest: bit_imp_le_length)
    moreover have "ucast (word32_of_be [a, b, c, d]) = d"
      by (intro bit_word_eqI) (auto simp: bit_simps dest: bit_imp_le_length)
    ultimately show ?thesis by (simp add: word32_be_def)
  qed
  have "\<exists>a b c d. ?l = [a, b, c, d]" by (simp add: word16_be_def)
  then have "word32_be (word32_of_be ?l) = ?l" using * by metis
  then show ?thesis by blast
qed

lemma deserialize_body_bytes:
  assumes N: "net_laws N V" and ok: "wire_ok V B mb ob" and V: "V n = (d, body_bytes mb ob @ r)"
  defines "h \<equiv> obj_header ob"
  shows "\<exists>n'. deserialize_body N B (set_obj_header (\<lambda>g. g\<lparr>oh_treatment := oh_treatment h,
         oh_object_type := oh_object_type h\<rparr>) (new_object_instance B (class_of_object ob)))
       (of_nat (length (body_bytes mb ob))) skip n errs = Ret (True, ob) (n', errs) \<and>
    V n' = (d @ body_bytes mb ob, r)"
proof (cases ob)
  case (Information_Code g ic)
  obtain w where w: "word32_be w = body_bytes mb ob" "w = word32_of_be (body_bytes mb ob)"
    using info_code_word [of "ic_severity_class ic" "ic_response_code ic" "ic_response_object_type ic"]
    by (auto simp: Information_Code)
  obtain n' where n': "decode32_or_throw N n errs = Ret w (n', errs)" "V n' = (d @ word32_be w, r)"
    using decode32_or_throw_at [OF N, of n d w r errs] V w(1) by auto
  have chk: "object_check (bo_check_body B) ob" using ok by (rule wire_ok_check)
  then have "ic_severity_class ic AND 0xF0 = 0"
    by (simp add: Information_Code object_check_def split: if_splits)
  then have ic: "info_code_of_word w = ic"
    by (rule info_code_round_trip) (use w(2) in \<open>simp add: Information_Code\<close>)
  have "oh_unique g" using ok by (simp add: Information_Code wire_ok_def)
  then have "(\<lparr>oh_object_type = oh_object_type g, oh_unique = True, oh_treatment = oh_treatment g\<rparr>) = g"
    by (cases g) simp
  with n' ic chk w(1) show ?thesis
    by (simp add: Information_Code h_def new_information_code_def)
next
  case (Mspec_Object m)
  have l: "body_laws V B mb m" "\<not> oh_unique (ms_hdr m)"
    using ok by (simp_all add: wire_ok_def Mspec_Object)
  then have "(ms_hdr (bo_new_instance B))\<lparr>oh_treatment := oh_treatment (ms_hdr m),
      oh_object_type := oh_object_type (ms_hdr m)\<rparr> = ms_hdr m"
    by (cases "ms_hdr m"; cases "ms_hdr (bo_new_instance B)") (simp add: body_laws_def)
  moreover obtain n' where "bo_deserialize_body B ((bo_new_instance B)\<lparr>ms_hdr := ms_hdr m\<rparr>)
      (of_nat (length (mb m))) skip n errs = Ret (True, m) (n', errs)" "V n' = (d @ mb m, r)"
    using body_laws_read [OF l(1), of n d r skip errs] V by (auto simp: Mspec_Object)
  ultimately show ?thesis by (simp add: Mspec_Object h_def)
next
  case (Session_Lifetime g v)
  then have "g\<lparr>oh_unique := True\<rparr> = g" using ok by (cases g) (simp add: wire_ok_def)
  then have "(\<lparr>oh_object_type = oh_object_type g, oh_unique = True, oh_treatment = oh_treatment g\<rparr>) = g"
    by (cases g) simp
  with decode32_or_throw_at [OF N, of n d v r errs] V show ?thesis
    by (auto simp: Session_Lifetime h_def new_session_lifetime_def)
next
  case (Msg_Sequence_Number g v)
  then have "(\<lparr>oh_object_type = oh_object_type g, oh_unique = True, oh_treatment = oh_treatment g\<rparr>) = g"
    using ok by (cases g) (simp add: wire_ok_def)
  with decode32_or_throw_at [OF N, of n d v r errs] V show ?thesis
    by (auto simp: Msg_Sequence_Number h_def new_msg_sequence_number_def)
next
  case (Message_Hop_Count g v)
  then have "(\<lparr>oh_object_type = oh_object_type g, oh_unique = True, oh_treatment = oh_treatment g\<rparr>) = g"
    using ok by (cases g) (simp add: wire_ok_def)
  with decode32_or_throw_at [OF N, of n d v r errs] V show ?thesis
    by (auto simp: Message_Hop_Count h_def new_message_hop_count_def)
next
  case (Selection_Metering_Entities g v)
  then have "(\<lparr>oh_object_type = oh_object_type g, oh_unique = True, oh_treatment = oh_treatment g\<rparr>) = g"
    using ok by (cases g) (simp add: wire_ok_def)
  with decode32_or_throw_at [OF N, of n d v r errs] V show ?thesis
    by (auto simp: Selection_Metering_Entities h_def new_selection_metering_entities_def)
qed

lemma object_deserialize_bytes:
  assumes N: "net_laws N V" and ok: "wire_ok V B mb ob" and V: "V n = (d, object_bytes mb ob @ r)"
  shows "\<exists>n'. object_deserialize N B (new_object_instance B (class_of_object ob)) skip n errs =
      Ret (Some ob, of_nat (length (object_bytes mb ob))) (n', errs) \<and>
    V n' = (d @ object_bytes mb ob, r)"
proof -
  obtain k where k: "k < 4096" "length (body_bytes mb ob) = 4 * k" using wire_ok_size(2) [OF ok] by blast
  let ?h = "obj_header ob" let ?w = "obj_header_word ?h (of_nat (4 * k))"
  let ?o = "set_obj_header (\<lambda>g. g\<lparr>oh_treatment := oh_treatment ?h, oh_object_type := oh_object_type ?h\<rparr>)
    (new_object_instance B (class_of_object ob))"
  have ob: "object_bytes mb ob = word32_be ?w @ body_bytes mb ob" by (simp add: object_bytes_def k(2))
  obtain n1 where 1: "deserialize_header N (new_object_instance B (class_of_object ob)) n errs =
      (True, of_nat (4 * k), ?o, n1, errs)" "V n1 = (d @ word32_be ?w, body_bytes mb ob @ r)"
    using deserialize_header_bytes [OF N wire_ok_type [OF ok] k(1), of n d "body_bytes mb ob @ r"] V k(2) ob
    by auto
  obtain n2 where 2: "deserialize_body N B ?o (of_nat (4 * k)) skip n1 errs = Ret (True, ob) (n2, errs)"
    "V n2 = ((d @ word32_be ?w) @ body_bytes mb ob, r)"
    using deserialize_body_bytes [OF N ok 1(2), of skip errs] k(2) by auto
  have V2: "V n2 = (d @ object_bytes mb ob, r)" using 2(2) ob by simp
  from 1 2(1) V2 show ?thesis
    by (simp add: object_deserialize_def supports_coding_def net_checks(2) [OF N]
        net_pos_diff [OF N V V2])
qed

end
