(* ===== verification/Msg_Codec.thy ===== *)
theory Msg_Codec
  imports Wire_Object Msg_Build
begin

unbundle bit_operations_syntax

text \<open>
  The wire format of a message (\<open>serialize\<close> and \<open>deserialize\<close> of src/msg/mnslp_msg.cpp and of the
  five message classes) and the manager that chooses the class from the type on the wire
  (src/msg/mnslp_ie.cpp). A message is a header word with its type, then its objects.
\<close>

section \<open>Writing\<close>

definition msg_get_serialized_size :: "('o, 'n) body_ops \<Rightarrow> 'o mnslp_msg \<Rightarrow> nat" where
  "msg_get_serialized_size B m = fold (\<lambda>(k, ob) size. size + get_serialized_size B ob) (m_objects m) 4"

definition base_serialize :: "'n net_ops \<Rightarrow> 'o mnslp_msg \<Rightarrow> coding \<Rightarrow> 'n \<Rightarrow> (wire_exn, u32, 'n) result" where
  "base_serialize N m coding n =
     (case ie_check_ser_args N (supports_coding coding) (msg_check m) of
        Some e \<Rightarrow> Exn (IE_Error e) n
      | None \<Rightarrow>
          r_bind (catch_netmsg N coding Cat_Msg
            (encode_or_throw (net_encode32 N (push_bit 24 (ucast (m_msg_type m)))) n))
            (\<lambda>_ n1. Ret 4 n1))"

text \<open>\<open>Undef\<close>: the object is missing and the function ends without a \<open>return\<close>.\<close>

definition serialize_object :: "'n net_ops \<Rightarrow> ('o, 'n) body_ops \<Rightarrow> 'o mnslp_msg \<Rightarrow> coding \<Rightarrow>
    ie_object_key \<Rightarrow> 'n \<Rightarrow> (wire_exn, u32, 'n) result" where
  "serialize_object N B m coding k n =
     (case msg_get_object m k of None \<Rightarrow> Undef | Some ob \<Rightarrow> object_serialize N B ob coding n)"

fun serialize_objects :: "'n net_ops \<Rightarrow> ('o, 'n) body_ops \<Rightarrow> 'o mnslp_msg \<Rightarrow> coding \<Rightarrow>
    ie_object_key list \<Rightarrow> u32 \<Rightarrow> 'n \<Rightarrow> (wire_exn, u32, 'n) result" where
  "serialize_objects N B m coding [] bytes_written n = Ret bytes_written n"
| "serialize_objects N B m coding (k # ks) bytes_written n =
     r_bind (serialize_object N B m coding k n)
       (\<lambda>w n1. serialize_objects N B m coding ks (bytes_written + w) n1)"

text \<open>The keys of the loop over the IPFIX messages, from 1 to the highest number\<close>

definition ipfix_keys :: "'o mnslp_msg \<Rightarrow> ie_object_key list" where
  "ipfix_keys m = map (\<lambda>i. obj_key ot_mnslp_ipfix_message (of_nat i))
     [1..<Suc (unat (get_max_sequence (m_objects m) (ucast ot_mnslp_ipfix_message)))]"

definition configure_serialize where
  "configure_serialize N B m coding n =
     (if configure_check m
      then r_bind (base_serialize N m coding n) (\<lambda>w n1.
        serialize_objects N B m coding
          ([obj_key ot_msg_sequence_number 1, obj_key ot_session_lifetime 1,
            obj_key ot_selection_met_entities 1, obj_key ot_message_hop_count 1] @ ipfix_keys m) w n1)
      else Exn (IE_Error IE_Obj_Set_Failed) n)"

definition response_serialize where
  "response_serialize N B m coding n =
     r_bind (base_serialize N m coding n) (\<lambda>w n1.
       serialize_objects N B m coding
         ([obj_key ot_msg_sequence_number 1, obj_key ot_information_code 1,
           obj_key ot_session_lifetime 1] @ ipfix_keys m) w n1)"

definition refresh_serialize where
  "refresh_serialize N B m coding n =
     r_bind (base_serialize N m coding n) (\<lambda>w n1.
       serialize_objects N B m coding
         [obj_key ot_msg_sequence_number 1, obj_key ot_session_lifetime 1] w n1)"

definition notify_serialize where
  "notify_serialize N B m coding n =
     r_bind (base_serialize N m coding n) (\<lambda>w n1.
       serialize_objects N B m coding [obj_key ot_information_code 1] w n1)"

definition options_serialize where
  "options_serialize N B m coding n =
     r_bind (base_serialize N m coding n) (\<lambda>w n1.
       serialize_objects N B m coding [obj_key ot_msg_sequence_number 1] w n1)"

text \<open>The virtual \<open>serialize\<close>\<close>

fun msg_serialize_of :: "mclass \<Rightarrow> 'n net_ops \<Rightarrow> ('o, 'n) body_ops \<Rightarrow> 'o mnslp_msg \<Rightarrow> coding \<Rightarrow> 'n \<Rightarrow>
    (wire_exn, u32, 'n) result" where
  "msg_serialize_of Mnslp_Configure N B m coding n = configure_serialize N B m coding n"
| "msg_serialize_of Mnslp_Response N B m coding n = response_serialize N B m coding n"
| "msg_serialize_of Mnslp_Notify N B m coding n = notify_serialize N B m coding n"
| "msg_serialize_of Mnslp_Options N B m coding n = options_serialize N B m coding n"
| "msg_serialize_of Mnslp_Refresh N B m coding n = refresh_serialize N B m coding n"

definition msg_serialize :: "'n net_ops \<Rightarrow> ('o, 'n) body_ops \<Rightarrow> 'o mnslp_msg \<Rightarrow> coding \<Rightarrow> 'n \<Rightarrow>
    (wire_exn, u32, 'n) result" where
  "msg_serialize N B m coding n = msg_serialize_of (m_class m) N B m coding n"

section \<open>The manager\<close>

fun proto_key :: "ie_proto \<Rightarrow> ie_category \<times> u16 \<times> u16" where
  "proto_key (Proto_Msg c) = (Cat_Msg, ucast (class_msg_type c), 0)"
| "proto_key (Proto_Object Cl_Session_Lifetime) = (Cat_Object, ot_session_lifetime, 0)"
| "proto_key (Proto_Object Cl_Msg_Sequence_Number) = (Cat_Object, ot_msg_sequence_number, 0)"
| "proto_key (Proto_Object Cl_Message_Hop_Count) = (Cat_Object, ot_message_hop_count, 0)"
| "proto_key (Proto_Object Cl_Selection_Metering_Entities) = (Cat_Object, ot_selection_met_entities, 0)"
| "proto_key (Proto_Object Cl_Information_Code) = (Cat_Object, ot_information_code, 0)"
| "proto_key (Proto_Object Cl_Ipfix_Message) = (Cat_Object, ot_mnslp_ipfix_message, 0)"

definition register_known_ies :: ie_registry where
  "register_known_ies = map (\<lambda>p. (proto_key p, p))
     [Proto_Msg Mnslp_Configure, Proto_Msg Mnslp_Refresh, Proto_Msg Mnslp_Options,
      Proto_Msg Mnslp_Response, Proto_Msg Mnslp_Notify,
      Proto_Object Cl_Session_Lifetime, Proto_Object Cl_Information_Code,
      Proto_Object Cl_Message_Hop_Count, Proto_Object Cl_Selection_Metering_Entities,
      Proto_Object Cl_Msg_Sequence_Number, Proto_Object Cl_Ipfix_Message]"

definition lookup_ie :: "'n net_ops \<Rightarrow> ie_category \<Rightarrow> u16 \<Rightarrow> u16 \<Rightarrow> ie_proto option" where
  "lookup_ie N category type subtype =
     (case ie_lookup N register_known_ies (category, type, subtype) of
        Some p \<Rightarrow> Some p
      | None \<Rightarrow>
          (case category of
             Cat_Msg \<Rightarrow> ie_lookup N register_known_ies (Cat_Default_Msg, 0, 0)
           | Cat_Object \<Rightarrow> ie_lookup N register_known_ies (Cat_Default_Object, 0, 0)
           | _ \<Rightarrow> None))"

text \<open>
  A message prototype under the category of objects would be the registration error the code
  logs; no such IE is registered (\<open>lookup_object\<close> below).
\<close>

definition deserialize_object :: "'n net_ops \<Rightarrow> ('o, 'n) body_ops \<Rightarrow> coding \<Rightarrow> bool \<Rightarrow> 'n \<Rightarrow>
    ie_error list \<Rightarrow> (wire_exn, 'o mnslp_object option \<times> u32, 'n \<times> ie_error list) result" where
  "deserialize_object N B coding skip n errs =
     (case net_peek32 N n of
        None \<Rightarrow> Ret (None, 0) (n, errs @ [IE_Msg_Too_Short coding Cat_Object (net_get_pos N n)])
      | Some header_raw \<Rightarrow>
          (case lookup_ie N Cat_Object (extract_object_type header_raw) 0 of
             None \<Rightarrow> Ret (None, 0) (n, errs @ [IE_Wrong_Subtype])
           | Some (Proto_Object c) \<Rightarrow> object_deserialize N B (new_object_instance B c) skip n errs
           | Some (Proto_Msg c) \<Rightarrow> Undef))"

section \<open>Reading\<close>

definition extract_msg_type :: "u32 \<Rightarrow> u8" where
  "extract_msg_type header_raw = ucast (drop_bit 24 header_raw)"

text \<open>The loop over the objects of the body; it returns the message, or NULL, and the bytes read.\<close>

partial_function (option) msg_objects_loop :: "'n net_ops \<Rightarrow> ('o, 'n) body_ops \<Rightarrow> coding \<Rightarrow> bool \<Rightarrow>
    'o mnslp_msg \<Rightarrow> u32 \<Rightarrow> 'n \<Rightarrow> ie_error list \<Rightarrow>
    (wire_exn, 'o mnslp_msg option \<times> u32, 'n \<times> ie_error list) result option" where
  "msg_objects_loop N B coding skip m bytes_read n errs =
     (if net_bytes_left N n = 0 then Some (Ret (Some m, bytes_read) (n, errs))
      else
        (case deserialize_object N B coding skip n errs of
           Ret (None, w) s \<Rightarrow> Some (Ret (None, bytes_read) s)
         | Ret (Some ob, w) (n1, errs1) \<Rightarrow>
             if is_unique ob \<and> msg_get_object m (obj_key (get_object_type ob) 1) \<noteq> None
             then
               (let errs2 = errs1 @ [PDU_Syntax_Error coding Cat_Msg (get_object_type ob) 1 (net_get_pos N n)]
                in if \<not> skip then Some (Ret (None, bytes_read) (n1, errs2))
                   else msg_objects_loop N B coding skip (msg_set_object m ob) (bytes_read + w) n1 errs2)
             else msg_objects_loop N B coding skip (msg_set_object m ob) (bytes_read + w) n1 errs1
         | Exn e s \<Rightarrow> Some (Exn e s)
         | Abort \<Rightarrow> Some Abort
         | Undef \<Rightarrow> Some Undef))"

definition msg_deserialize :: "'n net_ops \<Rightarrow> ('o, 'n) body_ops \<Rightarrow> 'o mnslp_msg \<Rightarrow> coding \<Rightarrow> bool \<Rightarrow>
    'n \<Rightarrow> ie_error list \<Rightarrow> (wire_exn, 'o mnslp_msg option \<times> u32, 'n \<times> ie_error list) result option" where
  "msg_deserialize N B m coding skip n errs =
     (let start_pos = net_get_pos N n
      in case net_decode32 N n of
           None \<Rightarrow> Some (Ret (if skip then Some m else None, 0)
             (n, errs @ [IE_Msg_Too_Short coding Cat_Msg start_pos]))
         | Some (header_raw, n1) \<Rightarrow>
             (case msg_objects_loop N B coding skip (m\<lparr>m_msg_type := extract_msg_type header_raw\<rparr>) 4 n1 errs of
                Some (Ret (Some m1, w) (n2, errs2)) \<Rightarrow>
                  if msg_get_num_objects m1 = 0
                  then Some (Ret (if skip then Some m1 else None, w)
                    (n2, errs2 @ [PDU_Syntax_Error coding Cat_Msg 0 0 start_pos]))
                  else Some (Ret (Some m1, w) (n2, errs2))
              | r \<Rightarrow> r))"

definition deserialize_msg :: "'n net_ops \<Rightarrow> ('o, 'n) body_ops \<Rightarrow> coding \<Rightarrow> bool \<Rightarrow> 'n \<Rightarrow>
    ie_error list \<Rightarrow> (wire_exn, 'o mnslp_msg option \<times> u32, 'n \<times> ie_error list) result option" where
  "deserialize_msg N B coding skip n errs =
     (case net_peek32 N n of
        None \<Rightarrow> Some (Ret (None, 0) (n, errs @ [IE_Msg_Too_Short coding Cat_Msg (net_get_pos N n)]))
      | Some header_raw \<Rightarrow>
          (case lookup_ie N Cat_Msg (ucast (extract_msg_type header_raw)) 0 of
             None \<Rightarrow> Some (Ret (None, 0) (n, errs @ [IE_Wrong_Type]))
           | Some (Proto_Msg c) \<Rightarrow> msg_deserialize N B (new_msg c) coding skip n errs
           | Some (Proto_Object c) \<Rightarrow> Some Undef))"

datatype 'o ie = Ie_Msg "'o mnslp_msg" | Ie_Object "'o mnslp_object"

fun map_result :: "('a \<Rightarrow> 'b) \<Rightarrow> ('e, 'a, 's) result \<Rightarrow> ('e, 'b, 's) result" where
  "map_result f (Ret a s) = Ret (f a) s"
| "map_result f (Exn e s) = Exn e s"
| "map_result f Abort = Abort"
| "map_result f Undef = Undef"

fun manager_deserialize :: "'n net_ops \<Rightarrow> ('o, 'n) body_ops \<Rightarrow> ie_category \<Rightarrow> coding \<Rightarrow> bool \<Rightarrow> 'n \<Rightarrow>
    ie_error list \<Rightarrow> (wire_exn, 'o ie option \<times> u32, 'n \<times> ie_error list) result option" where
  "manager_deserialize N B Cat_Msg coding skip n errs =
     map_option (map_result (map_prod (map_option Ie_Msg) id)) (deserialize_msg N B coding skip n errs)"
| "manager_deserialize N B Cat_Object coding skip n errs =
     Some (map_result (map_prod (map_option Ie_Object) id) (deserialize_object N B coding skip n errs))"
| "manager_deserialize N B category coding skip n errs = Some (Ret (None, 0) (n, errs @ [IE_Category]))"

section \<open>Looking up the class\<close>

lemma distinct_known_ies: "distinct (map fst register_known_ies)"
  by (simp add: register_known_ies_def ot_defs)

lemma known_ie_lookup:
  assumes "net_laws N V"
  shows "ie_lookup N register_known_ies k = map_of register_known_ies k"
  using assms distinct_known_ies unfolding net_laws_def ie_arg_laws_def by blast

lemma lookup_object:
  assumes "net_laws N V"
  shows "lookup_ie N Cat_Object t 0 =
    (if t = ot_session_lifetime then Some (Proto_Object Cl_Session_Lifetime)
     else if t = ot_information_code then Some (Proto_Object Cl_Information_Code)
     else if t = ot_message_hop_count then Some (Proto_Object Cl_Message_Hop_Count)
     else if t = ot_selection_met_entities then Some (Proto_Object Cl_Selection_Metering_Entities)
     else if t = ot_msg_sequence_number then Some (Proto_Object Cl_Msg_Sequence_Number)
     else if t = ot_mnslp_ipfix_message then Some (Proto_Object Cl_Ipfix_Message)
     else None)"
  unfolding lookup_ie_def known_ie_lookup [OF assms] by (simp add: register_known_ies_def)

lemma lookup_msg:
  assumes "net_laws N V"
  shows "lookup_ie N Cat_Msg t 0 =
    (if t = 1 then Some (Proto_Msg Mnslp_Configure) else if t = 5 then Some (Proto_Msg Mnslp_Refresh)
     else if t = 4 then Some (Proto_Msg Mnslp_Options) else if t = 2 then Some (Proto_Msg Mnslp_Response)
     else if t = 3 then Some (Proto_Msg Mnslp_Notify) else None)"
  unfolding lookup_ie_def known_ie_lookup [OF assms] by (simp add: register_known_ies_def)

lemma lookup_wire_object:
  assumes "net_laws N V" and "wire_ok V B mb ob"
  shows "lookup_ie N Cat_Object (get_object_type ob) 0 = Some (Proto_Object (class_of_object ob))"
  using assms(2)
  by (cases ob) (simp_all add: lookup_object [OF assms(1)] wire_ok_def get_object_type_def)

lemma deserialize_object_bytes:
  assumes N: "net_laws N V" and ok: "wire_ok V B mb ob" and V: "V n = (d, object_bytes mb ob @ r)"
  shows "\<exists>n'. deserialize_object N B coding skip n errs =
      Ret (Some ob, of_nat (length (object_bytes mb ob))) (n', errs) \<and>
    V n' = (d @ object_bytes mb ob, r)"
proof -
  obtain k where k: "k < 4096" "length (body_bytes mb ob) = 4 * k" using wire_ok_size(2) [OF ok] by blast
  let ?w = "obj_header_word (obj_header ob) (of_nat (4 * k))"
  have "V n = (d, word32_be ?w @ (body_bytes mb ob @ r))" using V k(2) by (simp add: object_bytes_def)
  then have "net_peek32 N n = Some ?w" by (rule net_peek32_at [OF N])
  moreover have "extract_object_type ?w = get_object_type ob"
    using obj_header_word_fields(2) [OF wire_ok_type [OF ok] k(1)] by (simp add: get_object_type_def)
  ultimately show ?thesis
    using object_deserialize_bytes [OF N ok V, of skip errs]
    by (simp add: deserialize_object_def lookup_wire_object [OF N ok])
qed

section \<open>Sequences of objects\<close>

definition objects_bytes :: "('o mspec_object \<Rightarrow> u8 list) \<Rightarrow> 'o mnslp_object list \<Rightarrow> u8 list" where
  "objects_bytes mb obs = concat (map (object_bytes mb) obs)"

text \<open>Adding the objects one after the other meets no duplicate of a unique one.\<close>

fun addable :: "'o mnslp_msg \<Rightarrow> 'o mnslp_object list \<Rightarrow> bool" where
  "addable m [] \<longleftrightarrow> True"
| "addable m (ob # obs) \<longleftrightarrow>
     \<not> (is_unique ob \<and> msg_get_object m (obj_key (get_object_type ob) 1) \<noteq> None) \<and>
     addable (msg_set_object m ob) obs"

lemma serialize_objects_bytes:
  assumes N: "net_laws N V"
    and obs: "list_all2 (\<lambda>k ob. msg_get_object m k = Some ob \<and> wire_ok V B mb ob) ks obs"
    and room: "length (objects_bytes mb obs) \<le> length (snd (V n))"
  shows "\<exists>n'. serialize_objects N B m Protocol_V1 ks w n =
      Ret (w + of_nat (length (objects_bytes mb obs))) n' \<and>
    V n' = (fst (V n) @ objects_bytes mb obs, drop (length (objects_bytes mb obs)) (snd (V n)))"
  using obs room
proof (induction ks obs arbitrary: w n rule: list_all2_induct)
  case Nil
  then show ?case by (simp add: objects_bytes_def)
next
  case (Cons k ks ob obs)
  let ?l = "length (object_bytes mb ob)"
  have room: "?l + length (objects_bytes mb obs) \<le> length (snd (V n))"
    using Cons.prems by (simp add: objects_bytes_def)
  obtain n1 where 1: "object_serialize N B ob Protocol_V1 n = Ret (of_nat ?l) n1"
    "V n1 = (fst (V n) @ object_bytes mb ob, drop ?l (snd (V n)))"
    using object_serialize_bytes [OF N, of B mb ob n] Cons.hyps room by auto
  have "length (objects_bytes mb obs) \<le> length (snd (V n1))" using 1(2) room by simp
  from Cons.IH [OF this, of "w + of_nat ?l"]
  obtain n2 where "serialize_objects N B m Protocol_V1 ks (w + of_nat ?l) n1 =
      Ret (w + of_nat ?l + of_nat (length (objects_bytes mb obs))) n2"
    "V n2 = (fst (V n1) @ objects_bytes mb obs, drop (length (objects_bytes mb obs)) (snd (V n1)))"
    by blast
  with 1 Cons.hyps show ?case
    by (simp add: serialize_object_def objects_bytes_def add.assoc add.commute)
qed

lemma msg_objects_loop_bytes:
  assumes N: "net_laws N V" and ok: "\<forall>ob \<in> set obs. wire_ok V B mb ob" and add: "addable m obs"
    and V: "V n = (d, objects_bytes mb obs)"
  shows "\<exists>n'. msg_objects_loop N B coding skip m w n errs =
      Some (Ret (Some (fold (\<lambda>ob m. msg_set_object m ob) obs m),
        w + of_nat (length (objects_bytes mb obs))) (n', errs)) \<and>
    V n' = (d @ objects_bytes mb obs, [])"
  using ok add V
proof (induction obs arbitrary: m w n d)
  case Nil
  then show ?case
    using net_pos_left(2) [OF N, of n] by (subst msg_objects_loop.simps) (simp add: objects_bytes_def)
next
  case (Cons ob obs)
  let ?l = "length (object_bytes mb ob)"
  have ok: "wire_ok V B mb ob" and V: "V n = (d, object_bytes mb ob @ objects_bytes mb obs)"
    using Cons.prems by (simp_all add: objects_bytes_def)
  obtain n1 where 1: "deserialize_object N B coding skip n errs = Ret (Some ob, of_nat ?l) (n1, errs)"
    "V n1 = (d @ object_bytes mb ob, objects_bytes mb obs)"
    using deserialize_object_bytes [OF N ok V] by blast
  have "unat (net_bytes_left N n) \<noteq> 0"
    using unat_bytes_left [OF N, of n] V by (simp add: object_bytes_def)
  then have left: "net_bytes_left N n \<noteq> 0" by auto
  obtain n2 where 2: "msg_objects_loop N B coding skip (msg_set_object m ob) (w + of_nat ?l) n1 errs =
      Some (Ret (Some (fold (\<lambda>ob m. msg_set_object m ob) obs (msg_set_object m ob)),
        w + of_nat ?l + of_nat (length (objects_bytes mb obs))) (n2, errs))"
    "V n2 = ((d @ object_bytes mb ob) @ objects_bytes mb obs, [])"
    using Cons.IH [of "msg_set_object m ob" n1 "d @ object_bytes mb ob" "w + of_nat ?l"] Cons.prems 1(2) by auto
  have dup: "\<not> (is_unique ob \<and> msg_get_object m (obj_key (get_object_type ob) 1) \<noteq> None)"
    using Cons.prems(2) by simp
  have "msg_objects_loop N B coding skip m w n errs =
      msg_objects_loop N B coding skip (msg_set_object m ob) (w + of_nat ?l) n1 errs"
    by (subst msg_objects_loop.simps) (simp add: left 1(1) dup del: not_None_eq)
  with 2 show ?case by (simp add: objects_bytes_def add.assoc)
qed

section \<open>Messages\<close>

fun wire_keys :: "mclass \<Rightarrow> 'o mnslp_msg \<Rightarrow> ie_object_key list" where
  "wire_keys Mnslp_Configure m = [obj_key ot_msg_sequence_number 1, obj_key ot_session_lifetime 1,
     obj_key ot_selection_met_entities 1, obj_key ot_message_hop_count 1] @ ipfix_keys m"
| "wire_keys Mnslp_Response m = [obj_key ot_msg_sequence_number 1, obj_key ot_information_code 1,
     obj_key ot_session_lifetime 1] @ ipfix_keys m"
| "wire_keys Mnslp_Notify m = [obj_key ot_information_code 1]"
| "wire_keys Mnslp_Options m = [obj_key ot_msg_sequence_number 1]"
| "wire_keys Mnslp_Refresh m = [obj_key ot_msg_sequence_number 1, obj_key ot_session_lifetime 1]"

definition msg_bytes :: "('o mspec_object \<Rightarrow> u8 list) \<Rightarrow> mclass \<Rightarrow> 'o mnslp_object list \<Rightarrow> u8 list" where
  "msg_bytes mb c obs = word32_be (push_bit 24 (ucast (class_msg_type c))) @ objects_bytes mb obs"

lemma msg_serialize_wire:
  "msg_check m \<Longrightarrow> msg_serialize N B m coding n =
     r_bind (base_serialize N m coding n) (\<lambda>w n1.
       serialize_objects N B m coding (wire_keys (m_class m) m) w n1)"
  by (cases "m_class m")
    (simp_all add: msg_serialize_def msg_check_def configure_serialize_def response_serialize_def
      refresh_serialize_def notify_serialize_def options_serialize_def del: serialize_objects.simps)

lemma msg_serialize_bytes:
  assumes N: "net_laws N V" and chk: "msg_check m" and ty: "m_msg_type m = class_msg_type (m_class m)"
    and obs: "list_all2 (\<lambda>k ob. msg_get_object m k = Some ob \<and> wire_ok V B mb ob)
      (wire_keys (m_class m) m) obs"
    and room: "length (msg_bytes mb (m_class m) obs) \<le> length (snd (V n))"
  shows "\<exists>n'. msg_serialize N B m Protocol_V1 n = Ret (of_nat (length (msg_bytes mb (m_class m) obs))) n' \<and>
    V n' = (fst (V n) @ msg_bytes mb (m_class m) obs,
      drop (length (msg_bytes mb (m_class m) obs)) (snd (V n)))"
proof -
  let ?w = "push_bit 24 (ucast (m_msg_type m)) :: u32"
  have room: "4 + length (objects_bytes mb obs) \<le> length (snd (V n))"
    using room by (simp add: msg_bytes_def)
  obtain n1 where 1: "encode_or_throw (net_encode32 N ?w) n = Ret () n1"
    "V n1 = (fst (V n) @ word32_be ?w, drop 4 (snd (V n)))"
    using encode_or_throw_at [of V "word32_be ?w" n "net_encode32 N ?w"] net_put(3) [OF N] room by fastforce
  have "ie_check_ser_args N True True = None" using net_checks(1) [OF N] by blast
  then have base: "base_serialize N m Protocol_V1 n = Ret 4 n1"
    using 1(1) chk by (simp add: base_serialize_def supports_coding_def)
  have "length (objects_bytes mb obs) \<le> length (snd (V n1))" using 1(2) room by simp
  from serialize_objects_bytes [OF N obs this, of 4]
  obtain n2 where "serialize_objects N B m Protocol_V1 (wire_keys (m_class m) m) 4 n1 =
      Ret (4 + of_nat (length (objects_bytes mb obs))) n2"
    "V n2 = (fst (V n1) @ objects_bytes mb obs, drop (length (objects_bytes mb obs)) (snd (V n1)))"
    by blast
  with 1 base show ?thesis
    by (simp add: msg_serialize_wire [OF chk] msg_bytes_def ty add.commute)
qed

lemma extract_class_type:
  "extract_msg_type (push_bit 24 (ucast (class_msg_type c))) = class_msg_type c"
  by (cases c) (simp_all add: extract_msg_type_def)

lemma deserialize_msg_bytes:
  assumes N: "net_laws N V" and ok: "\<forall>ob \<in> set obs. wire_ok V B mb ob" and add: "addable (new_msg c) obs"
    and ne: "msg_get_num_objects (fold (\<lambda>ob m. msg_set_object m ob) obs (new_msg c)) \<noteq> 0"
    and V: "V n = (d, msg_bytes mb c obs)"
  shows "\<exists>n'. deserialize_msg N B coding skip n errs =
      Some (Ret (Some (fold (\<lambda>ob m. msg_set_object m ob) obs (new_msg c)),
        of_nat (length (msg_bytes mb c obs))) (n', errs)) \<and>
    V n' = (d @ msg_bytes mb c obs, [])"
proof -
  let ?w = "push_bit 24 (ucast (class_msg_type c)) :: u32"
  have V': "V n = (d, word32_be ?w @ objects_bytes mb obs)" using V by (simp add: msg_bytes_def)
  obtain n1 where 1: "net_decode32 N n = Some (?w, n1)" "V n1 = (d @ word32_be ?w, objects_bytes mb obs)"
    using net_decode32_at [OF N V'] by blast
  have peek: "net_peek32 N n = Some ?w" using N V' by (rule net_peek32_at)
  have look: "lookup_ie N Cat_Msg (ucast (class_msg_type c)) 0 = Some (Proto_Msg c)"
    by (cases c) (simp_all add: lookup_msg [OF N])
  have new: "(new_msg c)\<lparr>m_msg_type := class_msg_type c\<rparr> = new_msg c" by (simp add: new_msg_def)
  obtain n2 where 2: "msg_objects_loop N B coding skip (new_msg c) 4 n1 errs =
      Some (Ret (Some (fold (\<lambda>ob m. msg_set_object m ob) obs (new_msg c)),
        4 + of_nat (length (objects_bytes mb obs))) (n2, errs))"
    "V n2 = ((d @ word32_be ?w) @ objects_bytes mb obs, [])"
    using msg_objects_loop_bytes [OF N ok add 1(2)] by blast
  have "msg_deserialize N B (new_msg c) coding skip n errs =
      Some (Ret (Some (fold (\<lambda>ob m. msg_set_object m ob) obs (new_msg c)),
        4 + of_nat (length (objects_bytes mb obs))) (n2, errs))"
    by (simp add: msg_deserialize_def 1(1) 2(1) extract_class_type new ne)
  with 2(2) show ?thesis
    by (simp add: deserialize_msg_def peek extract_class_type look msg_bytes_def)
qed

text \<open>
  A message on its way: it is written into a buffer of its size, the bytes travel, and the
  manager at the other end reads them.
\<close>

definition wire_transfer :: "'n net_ops \<Rightarrow> ('o, 'n) body_ops \<Rightarrow> 'o mnslp_msg \<Rightarrow>
    ('o mnslp_msg option \<times> ie_error list) option" where
  "wire_transfer N B m =
     (case msg_serialize N B m Protocol_V1 (net_of_size N (msg_get_serialized_size B m)) of
        Ret _ n \<Rightarrow>
          (case deserialize_msg N B Protocol_V1 False (net_of_buffer N (net_get_buffer N n)) [] of
             Some (Ret (r, _) (_, errs)) \<Rightarrow> Some (r, errs)
           | _ \<Rightarrow> None)
      | _ \<Rightarrow> None)"

lemma msg_size_sum:
  "msg_get_serialized_size B m = 4 + sum_list (map (\<lambda>(k, ob). get_serialized_size B ob) (m_objects m))"
proof -
  have "fold (\<lambda>(k, ob) size. size + get_serialized_size B ob) s a =
      a + sum_list (map (\<lambda>(k, ob). get_serialized_size B ob) s)" for a and s :: "'a mnslp_object ie_store"
    by (induction s arbitrary: a) auto
  then show ?thesis by (simp add: msg_get_serialized_size_def)
qed

lemma objects_bytes_size:
  "\<forall>ob \<in> set obs. wire_ok V B mb ob \<Longrightarrow>
     length (objects_bytes mb obs) = sum_list (map (get_serialized_size B) obs)"
  by (induction obs) (auto simp: objects_bytes_def object_bytes_def wire_ok_size(1) [of V B mb])

lemma wire_transfer_id:
  assumes N: "net_laws N V" and chk: "msg_check m" and ty: "m_msg_type m = class_msg_type (m_class m)"
    and obs: "list_all2 (\<lambda>k ob. msg_get_object m k = Some ob \<and> wire_ok V B mb ob)
      (wire_keys (m_class m) m) obs"
    and add: "addable (new_msg (m_class m)) obs"
    and m: "fold (\<lambda>ob m. msg_set_object m ob) obs (new_msg (m_class m)) = m"
    and size: "msg_get_serialized_size B m = 4 + sum_list (map (get_serialized_size B) obs)"
    and lim: "msg_get_serialized_size B m < 2 ^ 32" and ne: "msg_get_num_objects m \<noteq> 0"
  shows "wire_transfer N B m = Some (Some m, [])"
proof -
  have ok: "\<forall>ob \<in> set obs. wire_ok V B mb ob"
    using obs by (auto simp: list_all2_conv_all_nth in_set_conv_nth)
  let ?b = "msg_bytes mb (m_class m) obs" let ?k = "msg_get_serialized_size B m"
  have len: "length ?b = ?k" by (simp add: msg_bytes_def objects_bytes_size [OF ok] size)
  have new: "fst (V (net_of_size N ?k)) = []" "length (snd (V (net_of_size N ?k))) = ?k"
    and rd: "V (net_of_buffer N ?b) = ([], ?b)"
    using N lim len by (simp_all add: net_laws_def net_pos_laws_def)
  obtain n1 where 1: "msg_serialize N B m Protocol_V1 (net_of_size N ?k) = Ret (of_nat ?k) n1" "V n1 = (?b, [])"
    using msg_serialize_bytes [OF N chk ty obs, of "net_of_size N ?k"] new len by auto
  have "net_get_buffer N n1 = ?b" using N 1(2) by (simp add: net_laws_def net_pos_laws_def)
  moreover obtain n2 w where "deserialize_msg N B Protocol_V1 False (net_of_buffer N ?b) [] =
      Some (Ret (Some m, w) (n2, []))"
    using deserialize_msg_bytes [OF N ok add _ rd, of Protocol_V1 False "[]"] m ne by auto
  ultimately show ?thesis using 1(1) by (simp add: wire_transfer_def)
qed

section \<open>The messages of the protocol\<close>

lemmas build_simps = msg_set_object_def store_simps new_msg_def ie_store_set_def ie_store_empty_def
  ie_object_key_less_def obj_key_def ot_defs

lemma wire_ok_new:
  "wire_ok V B mb (new_session_lifetime v)" "wire_ok V B mb (new_msg_sequence_number v)"
  "wire_ok V B mb (new_message_hop_count v)" "wire_ok V B mb (new_selection_metering_entities v)"
  by (simp_all add: wire_ok_def new_object_defs)

lemma wire_ok_information_code:
  "s AND 0xF0 = 0 \<Longrightarrow> wire_ok V B mb (new_information_code s c 0)"
  using information_code_check [of "bo_check_body B" s c 0]
  by (simp add: wire_ok_def new_information_code_def)

lemma size_new_objects:
  "get_serialized_size B (new_session_lifetime v) = 8"
  "get_serialized_size B (new_msg_sequence_number v) = 8"
  "get_serialized_size B (new_message_hop_count v) = 8"
  "get_serialized_size B (new_selection_metering_entities v) = 8"
  "get_serialized_size B (new_information_code a b c) = 8"
  by (simp_all add: new_object_defs)

abbreviation refresh_msg :: "u32 \<Rightarrow> u32 \<Rightarrow> 'o mnslp_msg" where
  "refresh_msg l msn \<equiv>
     refresh_set_msg_sequence_number msn (refresh_set_session_lifetime l (new_msg Mnslp_Refresh))"

lemma refresh_wire:
  fixes B :: "('o, 'n) body_ops"
  assumes N: "net_laws N V"
  shows "wire_transfer N B (refresh_msg l msn) = Some (Some (refresh_msg l msn), [])"
proof -
  let ?m = "refresh_msg l msn :: 'o mnslp_msg"
  let ?obs = "[new_msg_sequence_number msn, new_session_lifetime l] :: 'o mnslp_object list"
  note d = refresh_set_msg_sequence_number_def refresh_set_session_lifetime_def
  have m: "m_objects ?m = [(obj_key ot_msg_sequence_number 1, new_msg_sequence_number msn),
      (obj_key ot_session_lifetime 1, new_session_lifetime l)]" "m_class ?m = Mnslp_Refresh"
    "m_msg_type ?m = class_msg_type Mnslp_Refresh"
    unfolding d by (simp_all add: build_simps)
  have f: "fold (\<lambda>ob m. msg_set_object m ob) ?obs (new_msg (m_class ?m)) = ?m"
    unfolding m(2) unfolding d by (simp add: build_simps)
  have a: "addable (new_msg (m_class ?m)) ?obs"
    unfolding m(2) by (simp add: build_simps msg_get_object_def ie_store_get_def equiv_key_def)
  have c: "msg_check ?m"
    by (simp add: msg_check_def m(2) refresh_built [unfolded refresh_with_def])
  have l: "list_all2 (\<lambda>k ob. msg_get_object ?m k = Some ob \<and> wire_ok V B (\<lambda>_. []) ob)
      (wire_keys (m_class ?m) ?m) ?obs"
    unfolding m(2) by (simp add: wire_ok_new msg_get_object_def ie_store_get_def m(1))
      (simp add: equiv_key_def ie_object_key_less_def obj_key_def ot_defs)
  show ?thesis
    by (rule wire_transfer_id [OF N c _ l a f])
      (simp_all add: m msg_size_sum size_new_objects msg_get_num_objects_def ie_store_size_def)
qed

lemma configure_header_objects:
  fixes m :: "'o mnslp_msg"
  assumes "m = configure_header l msn sme hops"
  shows "m_objects m = [(obj_key ot_selection_met_entities 1, new_selection_metering_entities sme),
      (obj_key ot_message_hop_count 1, new_message_hop_count hops),
      (obj_key ot_msg_sequence_number 1, new_msg_sequence_number msn),
      (obj_key ot_session_lifetime 1, new_session_lifetime l)]"
    and "m_class m = Mnslp_Configure" and "m_msg_type m = class_msg_type Mnslp_Configure"
  unfolding assms configure_setters by (simp_all add: build_simps)

lemma addable_append:
  "addable m (xs @ ys) \<longleftrightarrow> addable m xs \<and> addable (fold (\<lambda>ob m. msg_set_object m ob) xs m) ys"
  by (induction xs arbitrary: m) auto

lemma addable_several: "\<forall>ob \<in> set obs. \<not> is_unique ob \<Longrightarrow> addable m obs"
  by (induction obs arbitrary: m) auto

lemma numbered_nth:
  "i < length obs \<Longrightarrow>
     (obj_key ot_mnslp_ipfix_message (n + of_nat i), Mspec_Object (obs ! i)) \<in> set (numbered n obs)"
proof (induction obs arbitrary: n i)
  case (Cons ob obs)
  show ?case
  proof (cases i)
    case (Suc j)
    with Cons.IH [of j "n + 1"] Cons.prems show ?thesis by (simp add: add.assoc)
  qed simp
qed simp

lemma size_numbered:
  "sum_list (map (\<lambda>(k, ob). get_serialized_size B ob) (numbered n obs)) =
     sum_list (map (bo_get_serialized_size B) obs)"
  by (induction obs arbitrary: n) auto

lemma ipfix_keys_objects:
  assumes wf: "msg_wf m" and obs: "m_objects m = hs @ numbered 1 obs" and n: "length obs < 2 ^ 32"
    and max: "get_max_sequence (m_objects m) (ucast ot_mnslp_ipfix_message) = of_nat (length obs)"
    and ok: "\<forall>ob \<in> set obs. wire_ok V B mb (Mspec_Object ob)"
  shows "list_all2 (\<lambda>k ob. msg_get_object m k = Some ob \<and> wire_ok V B mb ob)
    (ipfix_keys m) (map Mspec_Object obs)"
proof -
  have "msg_get_object m (obj_key ot_mnslp_ipfix_message (1 + of_nat i)) = Some (Mspec_Object (obs ! i))"
    if "i < length obs" for i
    unfolding msg_get_object_def
    using wf numbered_nth [OF that, of 1] obs by (intro in_store_get) (simp_all add: msg_wf_def)
  with ok n show ?thesis
    unfolding ipfix_keys_def max by (simp add: list_all2_conv_all_nth unat_of_nat_u32 del: upt_Suc)
qed

text \<open>A CONFIGURE with its metering objects, as the sessions build it\<close>

abbreviation configure_msg :: "u32 \<Rightarrow> u32 \<Rightarrow> u32 \<Rightarrow> u32 \<Rightarrow> 'o mspec_object list \<Rightarrow> 'o mnslp_msg" where
  "configure_msg l msn sme hops obs \<equiv>
     fold configure_set_mspec_object obs (configure_header l msn sme hops)"

lemma configure_wire:
  fixes B :: "('o, 'n) body_ops" and obs :: "'o mspec_object list"
  assumes N: "net_laws N V" and ok: "\<forall>ob \<in> set obs. wire_ok V B mb (Mspec_Object ob)"
    and size: "36 + sum_list (map (bo_get_serialized_size B) obs) < 2 ^ 32"
    and n: "length obs < 2 ^ 32 - 0xF9 - 1"
  shows "wire_transfer N B (configure_msg l msn sme hops obs) = Some (Some (configure_msg l msn sme hops obs), [])"
proof -
  define h :: "'o mnslp_msg" where "h = configure_header l msn sme hops"
  define m where "m = fold configure_set_mspec_object obs h"
  let ?hd = "[new_msg_sequence_number msn, new_session_lifetime l, new_selection_metering_entities sme,
    new_message_hop_count hops] :: 'o mnslp_object list"
  note h = configure_header_objects [OF h_def]
  have ho: "header_only h" unfolding h_def by (rule configure_header_only)
  have std: "\<forall>ob \<in> set obs. std_object (Mspec_Object ob)" using ok by (simp add: wire_ok_def)
  note r = set_mspec_objects [OF ho n std, folded m_def]
  have m: "m_objects m = m_objects h @ numbered 1 obs" "m_class m = Mnslp_Configure"
    "m_msg_type m = class_msg_type Mnslp_Configure"
    using r h(2,3) by simp_all
  have wf: "msg_wf m" using r by blast
  have max: "get_max_sequence (m_objects m) (ucast ot_mnslp_ipfix_message) = of_nat (length obs)"
    unfolding m(1) using r by blast
  have hf: "fold (\<lambda>ob m. msg_set_object m ob) ?hd (new_msg Mnslp_Configure) = h"
    unfolding h_def configure_setters by (simp add: build_simps)
  have sf: "fold (\<lambda>ob m. msg_set_object m ob) (map Mspec_Object obs) g = fold configure_set_mspec_object obs g"
    for g :: "'o mnslp_msg"
    by (induction obs arbitrary: g) (simp_all add: configure_set_mspec_object_def)
  have f: "fold (\<lambda>ob m. msg_set_object m ob) (?hd @ map Mspec_Object obs) (new_msg (m_class m)) = m"
    unfolding m(2) fold_append comp_apply hf sf by (simp only: m_def)
  have "addable (new_msg Mnslp_Configure) ?hd"
    by (simp add: build_simps msg_get_object_def ie_store_get_def equiv_key_def)
  moreover have "\<forall>ob \<in> set (map Mspec_Object obs). \<not> is_unique ob"
    using std by (simp add: is_unique_def)
  ultimately have a: "addable (new_msg (m_class m)) (?hd @ map Mspec_Object obs)"
    unfolding m(2) addable_append using addable_several by blast
  have chk: "msg_check m"
    unfolding msg_check_def m(2) msg_check_of.simps configure_check_def Let_def m(1) h(1)
    by (simp add: obj_key_def)
  have l: "list_all2 (\<lambda>k ob. msg_get_object m k = Some ob \<and> wire_ok V B mb ob)
      (wire_keys (m_class m) m) (?hd @ map Mspec_Object obs)"
  proof -
    have get: "msg_get_object m k = Some ob" if "(k, ob) \<in> set (m_objects h)" for k ob
      unfolding msg_get_object_def using wf m(1) that
      by (intro in_store_get) (simp_all add: msg_wf_def)
    show ?thesis
      unfolding m(2) wire_keys.simps
      using ipfix_keys_objects [OF wf m(1) _ max ok] n
      by (intro list_all2_appendI) (simp_all add: wire_ok_new get h(1))
  qed
  have s: "msg_get_serialized_size B m = 4 + sum_list (map (get_serialized_size B) (?hd @ map Mspec_Object obs))"
    by (simp add: msg_size_sum m(1) h(1) size_numbered size_new_objects comp_def)
  have ne: "msg_get_num_objects m \<noteq> 0"
    by (simp add: msg_get_num_objects_def ie_store_size_def m(1) h(1))
  have lim: "msg_get_serialized_size B m < 2 ^ 32"
    using size by (simp add: msg_size_sum m(1) h(1) size_numbered size_new_objects)
  have "wire_transfer N B m = Some (Some m, [])"
    by (rule wire_transfer_id [OF N chk _ l a f s lim ne]) (simp only: m(2,3))
  then show ?thesis unfolding m_def h_def .
qed

abbreviation response_msg :: "u8 \<Rightarrow> u8 \<Rightarrow> u32 \<Rightarrow> 'o mnslp_msg" where
  "response_msg s c msn \<equiv>
     response_set_msg_sequence_number msn (response_set_information_code s c 0 (new_msg Mnslp_Response))"

lemma response_objects:
  fixes m :: "'o mnslp_msg"
  assumes "m = response_msg s c msn"
  shows "m_objects m = [(obj_key ot_information_code 1, new_information_code s c 0),
      (obj_key ot_msg_sequence_number 1, new_msg_sequence_number msn)]"
    and "m_class m = Mnslp_Response" and "m_msg_type m = class_msg_type Mnslp_Response"
  unfolding assms response_set_msg_sequence_number_def response_set_information_code_def
  by (simp_all add: build_simps)

lemma response_lifetime_objects:
  fixes m :: "'o mnslp_msg"
  assumes "m = response_set_session_lifetime l (response_msg s c msn)"
  shows "m_objects m = [(obj_key ot_information_code 1, new_information_code s c 0),
      (obj_key ot_msg_sequence_number 1, new_msg_sequence_number msn),
      (obj_key ot_session_lifetime 1, new_session_lifetime l)]"
    and "m_class m = Mnslp_Response" and "m_msg_type m = class_msg_type Mnslp_Response"
  unfolding assms response_set_msg_sequence_number_def response_set_information_code_def
    response_set_session_lifetime_def
  by (simp_all add: build_simps)

lemma ipfix_keys_none:
  "\<forall>(k, ob) \<in> set (m_objects m). k_object_type k \<noteq> ucast ot_mnslp_ipfix_message \<Longrightarrow> ipfix_keys m = []"
  by (simp add: ipfix_keys_def get_max_sequence_absent)

lemma response_wire:
  fixes B :: "('o, 'n) body_ops"
  assumes N: "net_laws N V" and s: "s AND 0xF0 = 0"
  shows "wire_transfer N B (response_set_session_lifetime l (response_msg s c msn)) =
    Some (Some (response_set_session_lifetime l (response_msg s c msn)), [])"
proof -
  define m :: "'o mnslp_msg" where "m = response_set_session_lifetime l (response_msg s c msn)"
  let ?obs = "[new_msg_sequence_number msn, new_information_code s c 0, new_session_lifetime l] :: 'o mnslp_object list"
  note m = response_lifetime_objects [OF m_def]
  have f: "fold (\<lambda>ob m. msg_set_object m ob) ?obs (new_msg (m_class m)) = m"
    unfolding m(2)
    unfolding m_def response_set_session_lifetime_def response_set_msg_sequence_number_def
      response_set_information_code_def by (simp add: build_simps)
  have a: "addable (new_msg (m_class m)) ?obs"
    unfolding m(2) by (simp add: build_simps msg_get_object_def ie_store_get_def equiv_key_def)
  have chk: "msg_check m"
    unfolding msg_check_def m(2) msg_check_of.simps response_check_def m(1) by (simp add: obj_key_def)
  have ik: "ipfix_keys m = []" by (rule ipfix_keys_none) (simp add: m(1) obj_key_def)
  have lk: "list_all2 (\<lambda>k ob. msg_get_object m k = Some ob \<and> wire_ok V B (\<lambda>_. []) ob)
      (wire_keys (m_class m) m) ?obs"
    unfolding m(2) by (simp add: ik wire_ok_new wire_ok_information_code [OF s] msg_get_object_def
        ie_store_get_def m(1)) (simp add: equiv_key_def ie_object_key_less_def obj_key_def ot_defs)
  have "wire_transfer N B m = Some (Some m, [])"
    by (rule wire_transfer_id [OF N chk _ lk a f])
      (simp_all add: m msg_size_sum size_new_objects msg_get_num_objects_def ie_store_size_def)
  then show ?thesis unfolding m_def .
qed

text \<open>
  A response without a session lifetime, as every error response is: the first objects are
  written, the third is missing.
\<close>

lemma response_without_lifetime_undef:
  fixes B :: "('o, 'n) body_ops" and m :: "'o mnslp_msg"
  assumes N: "net_laws N V" and sev: "s AND 0xF0 = 0"
    and m: "m_class m = Mnslp_Response" "msg_check m"
    and ic: "msg_get_object m (obj_key ot_information_code 1) = Some (new_information_code s c 0)"
    and msn: "msg_get_object m (obj_key ot_msg_sequence_number 1) = Some (new_msg_sequence_number msn)"
    and none: "msg_get_object m (obj_key ot_session_lifetime 1) = None"
    and room: "20 \<le> length (snd (V n))"
  shows "msg_serialize N B m Protocol_V1 n = Undef"
proof -
  let ?w = "push_bit 24 (ucast (m_msg_type m)) :: u32"
  let ?o1 = "new_msg_sequence_number msn :: 'o mnslp_object" and ?o2 = "new_information_code s c 0 :: 'o mnslp_object"
  obtain n1 where 1: "encode_or_throw (net_encode32 N ?w) n = Ret () n1"
    "V n1 = (fst (V n) @ word32_be ?w, drop 4 (snd (V n)))"
    using encode_or_throw_at [of V "word32_be ?w" n "net_encode32 N ?w"] net_put(3) [OF N] room by fastforce
  have "ie_check_ser_args N True True = None" using net_checks(1) [OF N] by blast
  then have base: "base_serialize N m Protocol_V1 n = Ret 4 n1"
    using 1(1) m(2) by (simp add: base_serialize_def supports_coding_def)
  have l: "length (object_bytes (\<lambda>_. []) ?o1) = 8" "length (object_bytes (\<lambda>_. []) ?o2) = 8"
    by (simp_all add: object_bytes_def new_object_defs)
  have ok: "wire_ok V B (\<lambda>_. []) ?o1" "wire_ok V B (\<lambda>_. []) ?o2"
    by (simp_all add: wire_ok_new wire_ok_information_code [OF sev])
  obtain w2 n2 where 2: "object_serialize N B ?o1 Protocol_V1 n1 = Ret w2 n2"
    "V n2 = (fst (V n1) @ object_bytes (\<lambda>_. []) ?o1, drop 8 (snd (V n1)))"
    using object_serialize_bytes [OF N ok(1), of n1] 1(2) l(1) room by fastforce
  obtain w3 n3 where 3: "object_serialize N B ?o2 Protocol_V1 n2 = Ret w3 n3"
    using object_serialize_bytes [OF N ok(2), of n2] 1(2) 2(2) l(2) room by fastforce
  show ?thesis
    unfolding msg_serialize_wire [OF m(2)] m(1)
    by (simp add: base serialize_object_def msn ic none 2(1) 3)
qed

lemma response_body_no_lifetime:
  fixes b :: "'o mnslp_msg"
  shows "msg_get_object (response_body (Some b) s c) (obj_key ot_session_lifetime 1) = None"
  by (simp add: response_body_def Let_def response_set_msg_sequence_number_def
      response_set_information_code_def msg_get_set_unique store_simps split: option.split)

lemma options_wire:
  fixes B :: "('o, 'n) body_ops"
  assumes N: "net_laws N V"
  shows "wire_transfer N B (options_set_msg_sequence_number msn (new_msg Mnslp_Options)) =
      Some (Some (options_set_msg_sequence_number msn (new_msg Mnslp_Options)), [])"
proof -
  define m :: "'o mnslp_msg" where "m = options_set_msg_sequence_number msn (new_msg Mnslp_Options)"
  have m: "m_objects m = [(obj_key ot_msg_sequence_number 1, new_msg_sequence_number msn)]"
    "m_class m = Mnslp_Options" "m_msg_type m = class_msg_type Mnslp_Options"
    unfolding m_def options_set_msg_sequence_number_def by (simp_all add: build_simps)
  have get: "msg_get_object m (obj_key ot_msg_sequence_number 1) = Some (new_msg_sequence_number msn)"
    by (simp add: msg_get_object_def ie_store_get_def m equiv_key_def ie_object_key_less_def)
  have num: "msg_get_num_objects m = 1" by (simp add: msg_get_num_objects_def ie_store_size_def m)
  have f: "fold (\<lambda>ob m. msg_set_object m ob) [new_msg_sequence_number msn] (new_msg (m_class m)) = m"
    unfolding m(2) by (simp add: m_def options_set_msg_sequence_number_def)
  have chk: "msg_check m" by (simp add: msg_check_def m(2) options_check_def num msn_key_def get)
  have lk: "list_all2 (\<lambda>k ob. msg_get_object m k = Some ob \<and> wire_ok V B (\<lambda>_. []) ob)
      (wire_keys (m_class m) m) [new_msg_sequence_number msn]"
    unfolding m(2) by (simp add: get wire_ok_new)
  have "wire_transfer N B m = Some (Some m, [])"
    by (rule wire_transfer_id [OF N chk _ lk _ f])
      (simp_all add: m num msg_size_sum size_new_objects store_simps)
  then show ?thesis unfolding m_def .
qed

lemma notify_wire:
  fixes B :: "('o, 'n) body_ops"
  assumes N: "net_laws N V" and s: "s AND 0xF0 = 0"
  shows "wire_transfer N B (notify_set_information_code s c 0 (new_msg Mnslp_Notify)) =
      Some (Some (notify_set_information_code s c 0 (new_msg Mnslp_Notify)), [])"
proof -
  define m :: "'o mnslp_msg" where "m = notify_set_information_code s c 0 (new_msg Mnslp_Notify)"
  have m: "m_objects m = [(obj_key ot_information_code 1, new_information_code s c 0)]"
    "m_class m = Mnslp_Notify" "m_msg_type m = class_msg_type Mnslp_Notify"
    unfolding m_def notify_set_information_code_def by (simp_all add: build_simps)
  have get: "msg_get_object m (obj_key ot_information_code 1) = Some (new_information_code s c 0)"
    by (simp add: msg_get_object_def ie_store_get_def m equiv_key_def ie_object_key_less_def)
  have num: "msg_get_num_objects m = 1" by (simp add: msg_get_num_objects_def ie_store_size_def m)
  have f: "fold (\<lambda>ob m. msg_set_object m ob) [new_information_code s c 0] (new_msg (m_class m)) = m"
    unfolding m(2) by (simp add: m_def notify_set_information_code_def)
  have chk: "msg_check m" by (simp add: msg_check_def m(2) notify_check_def num get)
  have lk: "list_all2 (\<lambda>k ob. msg_get_object m k = Some ob \<and> wire_ok V B (\<lambda>_. []) ob)
      (wire_keys (m_class m) m) [new_information_code s c 0]"
    unfolding m(2) by (simp add: get wire_ok_information_code [OF s])
  have "wire_transfer N B m = Some (Some m, [])"
    by (rule wire_transfer_id [OF N chk _ lk _ f])
      (simp_all add: m num msg_size_sum size_new_objects store_simps)
  then show ?thesis unfolding m_def .
qed

end
