(* ===== verification/Msg_Receive.thy ===== *)
theory Msg_Receive
  imports Msg_Codec
begin

unbundle bit_operations_syntax

text \<open>
  What the parser does with arbitrary bytes: it ends, it never runs into undefined behaviour,
  and every message it returns is well-formed in the sense the sessions rely on. The
  theorems assume of the body of a metering object only that reading it, when it returns, keeps
  the header and does not move the position back.
\<close>

definition body_contract :: "('n \<Rightarrow> u8 list \<times> u8 list) \<Rightarrow> ('o, 'n) body_ops \<Rightarrow> bool" where
  "body_contract V B \<longleftrightarrow>
     \<not> oh_unique (ms_hdr (bo_new_instance B)) \<and>
     (\<forall>m len skip n errs. unat len \<le> length (snd (V n)) \<longrightarrow>
       (case bo_deserialize_body B m len skip n errs of
          Ret (ok, m') (n', errs') \<Rightarrow> ms_hdr m' = ms_hdr m \<and> length (snd (V n')) \<le> length (snd (V n))
        | _ \<Rightarrow> True))"

text \<open>A body whose reading always returns or throws\<close>

definition body_total :: "('o, 'n) body_ops \<Rightarrow> bool" where
  "body_total B \<longleftrightarrow> (\<forall>m len skip n errs. bo_deserialize_body B m len skip n errs \<notin> {Abort, Undef})"

lemma body_totalD:
  assumes "body_total B"
  shows "bo_deserialize_body B m len skip n errs \<noteq> Abort" and "bo_deserialize_body B m len skip n errs \<noteq> Undef"
  using assms unfolding body_total_def by blast+

lemma body_contractD:
  assumes "body_contract V B"
  shows "\<not> oh_unique (ms_hdr (bo_new_instance B))"
    and "unat len \<le> length (snd (V n)) \<Longrightarrow> case bo_deserialize_body B m len skip n errs of
        Ret (ok, m') (n', errs') \<Rightarrow> ms_hdr m' = ms_hdr m \<and> length (snd (V n')) \<le> length (snd (V n))
      | _ \<Rightarrow> True"
  using assms unfolding body_contract_def by blast+

section \<open>One object\<close>

lemma net_decode32_Some:
  assumes "net_laws N V" and "net_decode32 N n = Some (w, n')"
  shows "4 \<le> length (snd (V n))" and "w = word32_of_be (take 4 (snd (V n)))"
    and "V n' = (fst (V n) @ take 4 (snd (V n)), drop 4 (snd (V n)))"
  using net_decode32_get [OF assms(1), of n] assms(2) by (auto simp: get_word_def split: if_splits)

lemma deserialize_header_Some:
  assumes N: "net_laws N V" and d: "deserialize_header N ob n errs = (True, len, ob1, n1, errs1)"
  shows "4 \<le> length (snd (V n))" and "length (snd (V n1)) + 4 = length (snd (V n))"
    and "\<exists>t. ob1 = set_obj_header (\<lambda>h. h\<lparr>oh_treatment := t,
      oh_object_type := extract_object_type (word32_of_be (take 4 (snd (V n))))\<rparr>) ob"
    and "unat len \<le> length (snd (V n1))"
proof -
  from d obtain w where w: "net_decode32 N n = Some (w, n1)"
    and ob: "ob1 = set_obj_header (\<lambda>h. h\<lparr>oh_treatment := treatment_of (drop_bit 30 w),
      oh_object_type := extract_object_type w\<rparr>) ob" and left: "\<not> net_bytes_left N n1 < ucast len"
    by (auto simp: deserialize_header_def Let_def split: option.splits if_splits)
  note n1 = net_decode32_Some [OF N w]
  show "4 \<le> length (snd (V n))" by (rule n1(1))
  then show "length (snd (V n1)) + 4 = length (snd (V n))" using n1(3) by simp
  show "\<exists>t. ob1 = set_obj_header (\<lambda>h. h\<lparr>oh_treatment := t,
      oh_object_type := extract_object_type (word32_of_be (take 4 (snd (V n))))\<rparr>) ob"
    using ob n1(2) by blast
  have "unat len < 2 ^ 32" using unsigned_less [of len] by (rule order.strict_trans) simp
  then have "unat (ucast len :: u32) = unat len" by (simp add: unsigned_ucast_eq take_bit_nat_eq_self)
  then show "unat len \<le> length (snd (V n1))"
    using left unat_bytes_left [OF N, of n1] by (simp add: word_less_nat_alt)
qed

lemma decode32_or_throw_cases:
  assumes "net_laws N V"
  shows "(\<exists>w n'. decode32_or_throw N n errs = Ret w (n', errs) \<and> length (snd (V n')) \<le> length (snd (V n))) \<or>
    decode32_or_throw N n errs = Exn NetMsg_Error (n, errs)"
proof (cases "net_decode32 N n")
  case None
  then show ?thesis by (simp add: decode32_or_throw_def)
next
  case (Some p)
  then obtain w n' where p: "net_decode32 N n = Some (w, n')" by (cases p) simp
  then have "length (snd (V n')) \<le> length (snd (V n))" using net_decode32_Some(3) [OF assms p] by simp
  with p show ?thesis by (simp add: decode32_or_throw_def)
qed

text \<open>Reading a body keeps class and header.\<close>

lemma deserialize_body_contract:
  assumes N: "net_laws N V" and B: "body_contract V B"
    and len: "unat len \<le> length (snd (V n))"
  shows "case deserialize_body N B ob len skip n errs of
      Ret (ok, ob') (n', errs') \<Rightarrow> obj_header ob' = obj_header ob \<and>
        class_of_object ob' = class_of_object ob \<and> length (snd (V n')) \<le> length (snd (V n))
    | Exn e s \<Rightarrow> True | Abort \<Rightarrow> \<not> body_total B | Undef \<Rightarrow> \<not> body_total B"
proof (cases "\<exists>m. ob = Mspec_Object m")
  case True
  then obtain m where "ob = Mspec_Object m" by blast
  then show ?thesis
    using body_contractD(2) [OF B len, where m = m and skip = skip and errs = errs]
    by (cases "bo_deserialize_body B m len skip n errs") (auto dest: body_totalD split: prod.splits)
next
  case False
  from decode32_or_throw_cases [OF N, of n errs] show ?thesis
  proof (elim disjE exE conjE)
    fix w n'
    assume "decode32_or_throw N n errs = Ret w (n', errs)" "length (snd (V n')) \<le> length (snd (V n))"
    with False show ?thesis by (cases ob) (simp_all add: Let_def)
  next
    assume "decode32_or_throw N n errs = Exn NetMsg_Error (n, errs)"
    with False show ?thesis by (cases ob) simp_all
  qed
qed

lemma class_set_obj_header: "class_of_object (set_obj_header f ob) = class_of_object ob"
  and header_set_obj_header: "obj_header (set_obj_header f ob) = f (obj_header ob)"
  by (cases ob; simp)+

lemma object_deserialize_contract:
  assumes N: "net_laws N V" and B: "body_contract V B"
  shows "case object_deserialize N B ob skip n errs of
      Ret (None, w) s \<Rightarrow> True
    | Ret (Some ob', w) (n', errs') \<Rightarrow> class_of_object ob' = class_of_object ob \<and>
        is_unique ob' = is_unique ob \<and>
        get_object_type ob' = extract_object_type (word32_of_be (take 4 (snd (V n)))) \<and>
        length (snd (V n')) + 4 \<le> length (snd (V n))
    | Exn e s \<Rightarrow> True | Abort \<Rightarrow> \<not> body_total B | Undef \<Rightarrow> \<not> body_total B"
proof -
  obtain ok len ob1 n1 errs1 where h: "deserialize_header N ob n errs = (ok, len, ob1, n1, errs1)"
    by (metis prod.collapse)
  show ?thesis
  proof (cases ok)
    case False
    with h show ?thesis by (simp add: object_deserialize_def supports_coding_def net_checks(2) [OF N])
  next
    case True
    from h True have h': "deserialize_header N ob n errs = (True, len, ob1, n1, errs1)" by simp
    note hd = deserialize_header_Some [OF N h']
    note b = deserialize_body_contract [OF N B hd(4), where ob = ob1 and skip = skip and errs = errs1]
    from hd(3) obtain t where ob1: "ob1 = set_obj_header (\<lambda>h. h\<lparr>oh_treatment := t,
      oh_object_type := extract_object_type (word32_of_be (take 4 (snd (V n))))\<rparr>) ob" by blast
    have o: "class_of_object ob1 = class_of_object ob" "is_unique ob1 = is_unique ob"
      "get_object_type ob1 = extract_object_type (word32_of_be (take 4 (snd (V n))))"
      unfolding ob1 by (simp_all add: class_set_obj_header is_unique_def get_object_type_def header_set_obj_header)
    show ?thesis
      using h True b o hd(2)
      by (cases "deserialize_body N B ob1 len skip n1 errs1")
        (auto simp: object_deserialize_def supports_coding_def net_checks(2) [OF N] is_unique_def
          get_object_type_def split: prod.splits)
  qed
qed

lemma net_peek32_Some:
  assumes "net_laws N V" and "net_peek32 N n = Some w"
  shows "w = word32_of_be (take 4 (snd (V n)))"
  using assms by (simp add: net_laws_def net_coding_laws_def split: if_splits)

lemma std_object_new:
  assumes "body_contract V B" and "class_of_object ob = c"
    and "is_unique ob = is_unique (new_object_instance B c)"
    and "proto_key (Proto_Object c) = (Cat_Object, get_object_type ob, 0)"
  shows "std_object ob"
  using assms body_contractD(1) [OF assms(1)]
  by (cases ob) (auto simp: is_unique_def get_object_type_def new_object_defs)

text \<open>The manager returns an object of the class its type is registered for.\<close>

lemma deserialize_object_contract:
  assumes N: "net_laws N V" and B: "body_contract V B"
  shows "case deserialize_object N B coding skip n errs of
      Ret (None, w) s \<Rightarrow> True
    | Ret (Some ob, w) (n', errs') \<Rightarrow> std_object ob \<and> length (snd (V n')) + 4 \<le> length (snd (V n))
    | Exn e s \<Rightarrow> True | Abort \<Rightarrow> \<not> body_total B | Undef \<Rightarrow> \<not> body_total B"
proof (cases "net_peek32 N n")
  case None
  then show ?thesis by (simp add: deserialize_object_def)
next
  case (Some hw)
  let ?t = "extract_object_type hw"
  have look: "lookup_ie N Cat_Object ?t 0 = None \<or>
    (\<exists>c. lookup_ie N Cat_Object ?t 0 = Some (Proto_Object c) \<and> proto_key (Proto_Object c) = (Cat_Object, ?t, 0))"
    by (simp add: lookup_object [OF N])
  show ?thesis
  proof (cases "lookup_ie N Cat_Object ?t 0")
    case None
    with Some show ?thesis by (simp add: deserialize_object_def)
  next
    case L: (Some p)
    with look obtain c where c: "lookup_ie N Cat_Object ?t 0 = Some (Proto_Object c)"
      "proto_key (Proto_Object c) = (Cat_Object, ?t, 0)" by auto
    have cl: "class_of_object (new_object_instance B c) = c" by (cases c) (simp_all add: new_object_defs)
    let ?r = "object_deserialize N B (new_object_instance B c) skip n errs"
    have r: "deserialize_object N B coding skip n errs = ?r"
      using Some c(1) by (simp add: deserialize_object_def)
    note o = object_deserialize_contract [OF N B, where ob = "new_object_instance B c" and skip = skip
        and n = n and errs = errs]
    show ?thesis
    proof (cases ?r)
      case (Ret p s)
      obtain x w n' errs' where x: "p = (x, w)" "s = (n', errs')" by (cases p; cases s)
      show ?thesis
      proof (cases x)
        case ob: (Some ob)
        have "std_object ob"
          by (rule std_object_new [OF B, of _ c])
            (use o Ret x ob cl c(2) net_peek32_Some [OF N Some] in simp_all)
        with o Ret x ob show ?thesis by (simp add: r)
      qed (simp add: r Ret x)
    qed (use o in \<open>simp_all add: r\<close>)
  qed
qed

section \<open>The loop over the objects\<close>

text \<open>
  A message that is well-formed and can still number an object for each word to come. The
  loop keeps this, because every object it reads takes at least one word.
\<close>

definition room_for :: "'o mnslp_msg \<Rightarrow> nat \<Rightarrow> bool" where
  "room_for m k \<longleftrightarrow> msg_wf m \<and>
     4 * unat (get_max_sequence (m_objects m) (ucast ot_mnslp_ipfix_message)) + k < 2 ^ 32"

lemma get_max_sequence_set:
  assumes "k_object_type k = t"
  shows "get_max_sequence (ie_store_set s k (Some v)) t \<le> max (get_max_sequence s t) (k_seq_nbr k)"
proof -
  let ?S = "\<lambda>s. k_seq_nbr ` {k \<in> fst ` set s. k_object_type k = t}"
  have "fst ` set (ie_store_set s k (Some v)) \<subseteq> insert k (fst ` set s)"
    using keys_smap_set by (simp add: ie_store_set_def)
  then have "insert 0 (?S (ie_store_set s k (Some v))) \<subseteq> insert (k_seq_nbr k) (insert 0 (?S s))"
    using assms by blast
  then have "Max (insert 0 (?S (ie_store_set s k (Some v)))) \<le> Max (insert (k_seq_nbr k) (insert 0 (?S s)))"
    by (intro Max_mono) auto
  also have "\<dots> = max (k_seq_nbr k) (Max (insert 0 (?S s)))" by (rule Max_insert) auto
  finally show ?thesis unfolding get_max_sequence_Max by (simp add: max.commute)
qed

lemma get_max_sequence_set_other:
  assumes "k_object_type k \<noteq> t"
  shows "get_max_sequence (ie_store_set s k (Some v)) t \<le> get_max_sequence s t"
proof -
  let ?S = "\<lambda>s. k_seq_nbr ` {k \<in> fst ` set s. k_object_type k = t}"
  have "fst ` set (ie_store_set s k (Some v)) \<subseteq> insert k (fst ` set s)"
    using keys_smap_set by (simp add: ie_store_set_def)
  then have "insert 0 (?S (ie_store_set s k (Some v))) \<subseteq> insert 0 (?S s)" using assms by blast
  then show ?thesis unfolding get_max_sequence_Max by (intro Max_mono) auto
qed

lemma room_for_set:
  assumes r: "room_for m k" and ob: "std_object ob" and k: "j + 4 \<le> k"
  shows "room_for (msg_set_object m ob) j"
proof -
  let ?t = "ucast ot_mnslp_ipfix_message :: u32"
  let ?q = "get_max_sequence (m_objects m) ?t"
  have wf: "msg_wf m" and q: "4 * unat ?q + k < 2 ^ 32" using r by (simp_all add: room_for_def)
  show ?thesis
  proof (cases "is_unique ob")
    case True
    then have ty: "get_object_type ob \<noteq> ot_mnslp_ipfix_message"
      using std_object_type(1) [OF ob] by (auto simp: ot_defs)
    have "get_max_sequence (m_objects (msg_set_object m ob)) ?t \<le> ?q"
      using True ty by (simp add: msg_set_object_def) (rule get_max_sequence_set_other, simp add: obj_key_def)
    then have "unat (get_max_sequence (m_objects (msg_set_object m ob)) ?t) \<le> unat ?q"
      by (simp add: word_le_nat_alt)
    with q k msg_wf_set_unique [OF wf ob True] show ?thesis by (simp add: room_for_def)
  next
    case False
    have ty: "get_object_type ob = ot_mnslp_ipfix_message" using std_object_type(2) [OF ob False] .
    let ?k = "obj_key ot_mnslp_ipfix_message (?q + 1)"
    have u: "unat (?q + 1) = unat ?q + 1" using q k by (simp add: unat_word_ariths)
    have rk: "reserved_key ?k" using q k u by (intro reserved_ipfix) simp_all
    have m: "msg_set_object m ob = m\<lparr>m_objects := ie_store_set (m_objects m) ?k (Some ob)\<rparr>"
      using False ty by (simp add: msg_set_object_def Let_def)
    have "get_max_sequence (ie_store_set (m_objects m) ?k (Some ob)) ?t \<le> max ?q (?q + 1)"
      using get_max_sequence_set [of ?k ?t] by (simp add: obj_key_def)
    then have "unat (get_max_sequence (ie_store_set (m_objects m) ?k (Some ob)) ?t) \<le> unat ?q + 1"
      using u by (simp add: word_le_nat_alt max_def split: if_splits)
    moreover have "msg_wf (msg_set_object m ob)"
      unfolding m using wf ob rk by (rule msg_wf_store_set) (simp add: ty obj_key_def)
    ultimately show ?thesis using q k by (simp add: room_for_def m)
  qed
qed

text \<open>What every outcome of reading a message satisfies\<close>

definition received_ok :: "mclass \<Rightarrow> bool \<Rightarrow> (wire_exn, 'o mnslp_msg option \<times> u32, 's) result option \<Rightarrow> bool" where
  "received_ok c tot r \<longleftrightarrow>
     (case r of
        Some (Ret (Some m, w) s) \<Rightarrow> m_class m = c \<and> msg_wf m
      | Some (Ret (None, w) s) \<Rightarrow> True
      | Some (Exn e s) \<Rightarrow> True
      | Some Abort \<Rightarrow> \<not> tot
      | Some Undef \<Rightarrow> \<not> tot
      | None \<Rightarrow> False)"

lemma msg_objects_loop_received:
  assumes N: "net_laws N V" and B: "body_contract V B" and r: "room_for m (length (snd (V n)))"
  shows "received_ok (m_class m) (body_total B) (msg_objects_loop N B coding skip m w n errs)"
  using r
proof (induction "length (snd (V n))" arbitrary: m w n errs rule: less_induct)
  case less
  note o = deserialize_object_contract [OF N B, where coding = coding and skip = skip and n = n and errs = errs]
  have wf: "msg_wf m" using less.prems by (simp add: room_for_def)
  show ?case
  proof (cases "net_bytes_left N n = 0")
    case True
    with wf show ?thesis by (subst msg_objects_loop.simps) (simp add: received_ok_def)
  next
    case False
    show ?thesis
    proof (cases "deserialize_object N B coding skip n errs")
      case (Ret p s)
      obtain x w1 n1 errs1 where x: "p = (x, w1)" "s = (n1, errs1)" by (cases p; cases s)
      show ?thesis
      proof (cases x)
        case None
        with False Ret x show ?thesis by (subst msg_objects_loop.simps) (simp add: received_ok_def)
      next
        case (Some ob)
        with o Ret x have ob: "std_object ob" "length (snd (V n1)) + 4 \<le> length (snd (V n))" by simp_all
        have IH: "received_ok (m_class m) (body_total B) (msg_objects_loop N B coding skip (msg_set_object m ob) (w + w1) n1 e)" for e
          using less.hyps [of n1 "msg_set_object m ob" "w + w1" e] room_for_set [OF less.prems ob] ob(2)
          by (simp add: store_simps)
        show ?thesis
          using IH
          by (subst msg_objects_loop.simps, cases skip)
            (use False Ret x Some in \<open>simp_all add: Let_def received_ok_def [of _ _ "Some (Ret (None, _) _)"]\<close>)
      qed
    qed (use False o in \<open>subst msg_objects_loop.simps; simp add: received_ok_def\<close>)+
  qed
qed

lemma msg_deserialize_received:
  fixes B :: "('o, 'n) body_ops"
  assumes N: "net_laws N V" and B: "body_contract V B"
  shows "received_ok c (body_total B) (msg_deserialize N B (new_msg c) coding skip n errs)"
proof (cases "net_decode32 N n")
  case None
  then show ?thesis by (simp add: msg_deserialize_def received_ok_def store_simps)
next
  case (Some p)
  then obtain hw n1 where d: "net_decode32 N n = Some (hw, n1)" by (cases p) simp
  let ?m = "(new_msg c :: 'o mnslp_msg)\<lparr>m_msg_type := extract_msg_type hw\<rparr>"
  have "length (snd (V n1)) < 2 ^ 32" using net_pos_left(3) [OF N, of n1] by simp
  then have "room_for ?m (length (snd (V n1)))"
    using msg_wf_new [of c] by (simp add: room_for_def msg_wf_def new_msg_def get_max_sequence_def ie_store_empty_def)
  from msg_objects_loop_received [OF N B this, of coding skip 4 errs]
  have l: "received_ok c (body_total B) (msg_objects_loop N B coding skip ?m 4 n1 errs)" by (simp add: new_msg_def)
  then show ?thesis
    by (auto simp: msg_deserialize_def d Let_def received_ok_def
        split: option.splits result.splits prod.splits)
qed

lemma deserialize_msg_received:
  assumes N: "net_laws N V" and B: "body_contract V B"
  shows "\<exists>c. received_ok c (body_total B) (deserialize_msg N B coding skip n errs)"
proof (cases "net_peek32 N n")
  case None
  then show ?thesis by (simp add: deserialize_msg_def received_ok_def)
next
  case (Some hw)
  let ?l = "lookup_ie N Cat_Msg (ucast (extract_msg_type hw)) 0"
  have "?l = None \<or> (\<exists>c. ?l = Some (Proto_Msg c))" by (simp add: lookup_msg [OF N])
  then show ?thesis
  proof
    assume "?l = None"
    with Some show ?thesis by (simp add: deserialize_msg_def received_ok_def)
  next
    assume "\<exists>c. ?l = Some (Proto_Msg c)"
    then obtain c where "?l = Some (Proto_Msg c)" by blast
    with Some msg_deserialize_received [OF N B, of c coding skip n errs] show ?thesis
      by (auto simp: deserialize_msg_def)
  qed
qed

section \<open>A buffer in memory\<close>

text \<open>
  A buffer as two lists, and metering objects with the bytes \<open>f\<close> gives them and read back by \<open>g\<close>:
  instances on which the theorems can be evaluated. In \<open>list_body\<close> an object is its own bytes.
\<close>

definition list_norm :: "u8 list \<times> u8 list \<Rightarrow> u8 list \<times> u8 list" where
  "list_norm n = (if length (fst n) + length (snd n) < 2 ^ 32 then n else ([], []))"

definition list_put :: "u8 list \<Rightarrow> u8 list \<times> u8 list \<Rightarrow> (u8 list \<times> u8 list) option" where
  "list_put bs n =
     (let (d, r) = list_norm n
      in if length r < length bs then None else Some (d @ bs, drop (length bs) r))"

definition list_net :: "(u8 list \<times> u8 list) net_ops" where
  "list_net = \<lparr>net_of_size = \<lambda>k. ([], replicate k 0), net_of_buffer = \<lambda>bs. ([], bs),
     net_get_buffer = \<lambda>n. fst (list_norm n) @ snd (list_norm n),
     net_get_pos = \<lambda>n. of_nat (length (fst (list_norm n))),
     net_set_pos = \<lambda>p n. (let b = fst (list_norm n) @ snd (list_norm n) in (take (unat p) b, drop (unat p) b)),
     net_bytes_left = \<lambda>n. of_nat (length (snd (list_norm n))),
     net_decode32 = \<lambda>n. (let (d, r) = list_norm n
       in if length r < 4 then None else Some (word32_of_be (take 4 r), (d @ take 4 r, drop 4 r))),
     net_peek32 = \<lambda>n. (let (d, r) = list_norm n
       in if length r < 4 then None else Some (word32_of_be (take 4 r))),
     net_encode8 = \<lambda>w. list_put [w], net_encode16 = \<lambda>w. list_put (word16_be w),
     net_encode32 = \<lambda>w. list_put (word32_be w),
     ie_check_deser_args = \<lambda>s es. (s, es),
     ie_check_ser_args = \<lambda>s c. (if s \<and> c then None else Some IE_Not_Serializable),
     ie_lookup = map_of\<rparr>"

lemma list_norm_short: "length d + length r < 2 ^ 32 \<Longrightarrow> list_norm (d, r) = (d, r)"
  by (simp add: list_norm_def)

lemma list_norm_length: "length (fst (list_norm n)) + length (snd (list_norm n)) < 2 ^ 32"
  by (simp add: list_norm_def)

lemma list_norm_split: "length b < 2 ^ 32 \<Longrightarrow> list_norm (take k b, drop k b) = (take k b, drop k b)"
  by (rule list_norm_short) simp

lemma list_put_bytes: "put_bytes list_norm bs n (list_put bs n)"
proof -
  obtain d r where n: "list_norm n = (d, r)" by (cases "list_norm n")
  then have "length d + length r < 2 ^ 32" using list_norm_length [of n] by simp
  then show ?thesis by (simp add: put_bytes_def list_put_def n list_norm_short)
qed

lemma list_net_laws: "net_laws list_net list_norm"
proof -
  have "net_pos_laws list_net list_norm"
    unfolding net_pos_laws_def
    using list_norm_length list_norm_split
    by (auto simp: list_net_def Let_def list_norm_short simp del: take_append drop_append)
  moreover have "get_word list_norm n (net_decode32 list_net n)" for n
  proof -
    obtain d r where n: "list_norm n = (d, r)" by (cases "list_norm n")
    then have "length d + length r < 2 ^ 32" using list_norm_length [of n] by simp
    then show ?thesis by (simp add: get_word_def list_net_def n list_norm_short)
  qed
  then have "net_coding_laws list_net list_norm"
    unfolding net_coding_laws_def using list_put_bytes
    by (simp add: list_net_def Let_def split: prod.split)
  moreover have "ie_arg_laws list_net" by (simp add: ie_arg_laws_def list_net_def)
  ultimately show ?thesis by (simp add: net_laws_def)
qed

definition bytes_body :: "('o \<Rightarrow> u8 list) \<Rightarrow> (u8 list \<Rightarrow> 'o) \<Rightarrow> ('o, u8 list \<times> u8 list) body_ops" where
  "bytes_body f g = \<lparr>bo_new_instance = \<lparr>ms_hdr = \<lparr>oh_object_type = ot_mnslp_ipfix_message, oh_unique = False,
       oh_treatment = Tr_Mandatory\<rparr>, ms_body = g []\<rparr>,
     bo_check_body = \<lambda>m. True, bo_get_serialized_size = \<lambda>m. 4 + length (f (ms_body m)),
     bo_deserialize_body = \<lambda>m len skip n errs. (let (d, r) = list_norm n
       in Ret (True, m\<lparr>ms_body := g (take (unat len) r)\<rparr>) ((d @ take (unat len) r, drop (unat len) r), errs)),
     bo_serialize_body = \<lambda>m n. (case list_put (f (ms_body m)) n of None \<Rightarrow> Exn NetMsg_Error n
       | Some n' \<Rightarrow> Ret () n')\<rparr>"

definition list_body :: "(u8 list, u8 list \<times> u8 list) body_ops" where
  "list_body = bytes_body (\<lambda>bs. bs) (\<lambda>bs. bs)"

lemma bytes_body_contract: "body_contract list_norm (bytes_body f g)"
proof -
  have "length (snd (list_norm (d @ take k r, drop k r))) \<le> length (snd (list_norm n))"
    if "list_norm n = (d, r)" for n d r k
    using that list_norm_length [of n] by (subst list_norm_short) auto
  then show ?thesis
    unfolding body_contract_def by (auto simp: bytes_body_def Let_def split: prod.split)
qed

lemma list_body_contract: "body_contract list_norm list_body"
  unfolding list_body_def by (rule bytes_body_contract)

lemma list_body_total: "body_total list_body"
  by (auto simp: body_total_def list_body_def bytes_body_def Let_def split: prod.split)

lemma list_body_laws:
  assumes "length (ms_body m) mod 4 = 0" and "length (ms_body m) < 4 * 4096"
  shows "body_laws list_norm list_body ms_body m"
proof -
  have w: "\<exists>n'. bo_serialize_body list_body m n = Ret () n' \<and>
      list_norm n' = (fst (list_norm n) @ ms_body m, drop (length (ms_body m)) (snd (list_norm n)))"
    if "length (ms_body m) \<le> length (snd (list_norm n))" for n
    using put_bytesD [OF list_put_bytes that] by (auto simp: list_body_def bytes_body_def)
  have r: "\<exists>n'. bo_deserialize_body list_body ((bo_new_instance list_body)\<lparr>ms_hdr := ms_hdr m\<rparr>)
      (of_nat (length (ms_body m))) skip n errs = Ret (True, m) (n', errs) \<and>
      list_norm n' = (d @ ms_body m, r)"
    if "list_norm n = (d, ms_body m @ r)" for n errs skip d r
  proof -
    have "unat (of_nat (length (ms_body m)) :: u16) = length (ms_body m)"
      using assms(2) by (simp add: unat_of_nat)
    then show ?thesis
      using that list_norm_length [of n] by (cases m) (simp add: list_body_def bytes_body_def list_norm_short)
  qed
  from w r assms show ?thesis
    unfolding body_laws_def by (auto simp: list_body_def bytes_body_def)
qed

section \<open>Truncated and duplicate objects\<close>

lemma object_header_only_throws:
  fixes B :: "('o, 'n) body_ops"
  assumes N: "net_laws N V" and V: "V n = (d, word32_be (obj_header_word h 0))"
    and ty: "oh_object_type h \<in> {ot_session_lifetime, ot_msg_sequence_number, ot_message_hop_count,
      ot_selection_met_entities, ot_information_code}"
  shows "\<exists>s. deserialize_object N B coding skip n errs = Exn NetMsg_Error s"
proof -
  let ?w = "obj_header_word h 0"
  have t0: "oh_object_type h AND NOT 0xFFF = 0" using ty by (auto simp: ot_defs)
  have V': "V n = (d, word32_be (obj_header_word h (of_nat (4 * 0))) @ [])" using V by simp
  have peek: "net_peek32 N n = Some ?w" using net_peek32_at [OF N V'] by simp
  have et: "extract_object_type ?w = oh_object_type h"
    using obj_header_word_fields(2) [OF t0, of 0] by simp
  have throws: "\<exists>s. object_deserialize N B ob skip n errs = Exn NetMsg_Error s"
    if "class_of_object ob \<noteq> Cl_Ipfix_Message" for ob :: "'o mnslp_object"
  proof -
    obtain n1 where n1: "deserialize_header N ob n errs = (True, 0,
        set_obj_header (\<lambda>g. g\<lparr>oh_treatment := oh_treatment h, oh_object_type := oh_object_type h\<rparr>) ob, n1, errs)"
      "V n1 = (d @ word32_be ?w, [])"
      using deserialize_header_bytes [OF N t0 _ V', of ob errs] by auto
    have "net_decode32 N n1 = None" using n1(2) by (intro net_decode32_short [OF N]) simp
    then have "decode32_or_throw N n1 errs = Exn NetMsg_Error (n1, errs)" by (simp add: decode32_or_throw_def)
    with n1(1) that show ?thesis
      by (cases ob) (simp_all add: object_deserialize_def supports_coding_def net_checks(2) [OF N])
  qed
  have "\<exists>c. lookup_ie N Cat_Object (oh_object_type h) 0 = Some (Proto_Object c) \<and> c \<noteq> Cl_Ipfix_Message"
    using ty by (auto simp: lookup_object [OF N])
  then obtain c where c: "lookup_ie N Cat_Object (oh_object_type h) 0 = Some (Proto_Object c)"
    "c \<noteq> Cl_Ipfix_Message" by blast
  have "class_of_object (new_object_instance B c) = c" by (cases c) (simp_all add: new_object_defs)
  with throws [of "new_object_instance B c"] c show ?thesis
    by (simp add: deserialize_object_def peek et)
qed

lemma deserialize_msg_start:
  assumes N: "net_laws N V" and V: "V n = (d, word32_be (push_bit 24 (ucast (class_msg_type c))) @ r)"
  shows "\<exists>n'. V n' = (d @ word32_be (push_bit 24 (ucast (class_msg_type c))), r) \<and>
    deserialize_msg N B coding skip n errs =
      (case msg_objects_loop N B coding skip (new_msg c) 4 n' errs of
                Some (Ret (Some m1, w) (n2, errs2)) \<Rightarrow>
                  if msg_get_num_objects m1 = 0
                  then Some (Ret (if skip then Some m1 else None, w)
                    (n2, errs2 @ [PDU_Syntax_Error coding Cat_Msg 0 0 (of_nat (length d))]))
                  else Some (Ret (Some m1, w) (n2, errs2))
              | r \<Rightarrow> r)"
proof -
  let ?w = "push_bit 24 (ucast (class_msg_type c)) :: u32"
  obtain n1 where 1: "net_decode32 N n = Some (?w, n1)" "V n1 = (d @ word32_be ?w, r)"
    using net_decode32_at [OF N V] by blast
  have peek: "net_peek32 N n = Some ?w" using N V by (rule net_peek32_at)
  have look: "lookup_ie N Cat_Msg (ucast (class_msg_type c)) 0 = Some (Proto_Msg c)"
    by (cases c) (simp_all add: lookup_msg [OF N])
  have new: "(new_msg c)\<lparr>m_msg_type := class_msg_type c\<rparr> = new_msg c" by (simp add: new_msg_def)
  have "net_get_pos N n = of_nat (length d)" using net_pos_left(1) [OF N, of n] V by simp
  with 1 show ?thesis
    by (intro exI [of _ n1]) (simp add: deserialize_msg_def peek extract_class_type look
        msg_deserialize_def new)
qed

lemma left_nonzero:
  assumes "net_laws N V" and "snd (V n) \<noteq> []"
  shows "net_bytes_left N n \<noteq> 0"
proof
  assume "net_bytes_left N n = 0"
  then have "unat (net_bytes_left N n) = 0" by simp
  with unat_bytes_left [OF assms(1), of n] assms(2) show False by simp
qed

lemma truncated_object:
  assumes "net_laws N V"
    and "V n = (d, word32_be (push_bit 24 (ucast (class_msg_type c))) @ word32_be (obj_header_word h 0))"
    and "oh_object_type h \<in> {ot_session_lifetime, ot_msg_sequence_number, ot_message_hop_count,
      ot_selection_met_entities, ot_information_code}"
  shows "\<exists>s. deserialize_msg N B coding skip n errs = Some (Exn NetMsg_Error s)"
proof -
  obtain n' where n': "V n' = (d @ word32_be (push_bit 24 (ucast (class_msg_type c))), word32_be (obj_header_word h 0))"
    "deserialize_msg N B coding skip n errs = (case msg_objects_loop N B coding skip (new_msg c) 4 n' errs of
                Some (Ret (Some m1, w) (n2, errs2)) \<Rightarrow>
                  if msg_get_num_objects m1 = 0
                  then Some (Ret (if skip then Some m1 else None, w)
                    (n2, errs2 @ [PDU_Syntax_Error coding Cat_Msg 0 0 (of_nat (length d))]))
                  else Some (Ret (Some m1, w) (n2, errs2))
              | r \<Rightarrow> r)"
    using deserialize_msg_start [OF assms(1,2)] by blast
  obtain s where s: "deserialize_object N B coding skip n' errs = Exn NetMsg_Error s"
    using object_header_only_throws [OF assms(1) n'(1) assms(3)] by blast
  have "net_bytes_left N n' \<noteq> 0"
    using n'(1) by (intro left_nonzero [OF assms(1)]) (simp add: word32_be_def)
  with s have "msg_objects_loop N B coding skip (new_msg c) 4 n' errs = Some (Exn NetMsg_Error s)"
    by (subst msg_objects_loop.simps) simp
  with n'(2) show ?thesis by simp
qed

section \<open>Properties\<close>



text \<open>
  So do the REFRESH, the answer with a lifetime, OPTIONS and NOTIFY; for the latter two
  the severity has to fit its four bits.
\<close>

theorem control_messages_wire_round_trip:
  fixes B :: "('o, 'n) body_ops"
  assumes "net_laws N V" and "s AND 0xF0 = 0"
  shows "(let m = refresh_set_msg_sequence_number msn (refresh_set_session_lifetime l (new_msg Mnslp_Refresh))
      in wire_transfer N B m = Some (Some m, [])) \<and>
    (let m = response_set_session_lifetime l (response_set_msg_sequence_number msn
        (response_set_information_code s c 0 (new_msg Mnslp_Response)))
      in wire_transfer N B m = Some (Some m, [])) \<and>
    (let m = options_set_msg_sequence_number msn (new_msg Mnslp_Options)
      in wire_transfer N B m = Some (Some m, [])) \<and>
    (let m = notify_set_information_code s c 0 (new_msg Mnslp_Notify)
      in wire_transfer N B m = Some (Some m, []))"
  unfolding Let_def
  by (intro conjI refresh_wire [OF assms(1)] response_wire [OF assms] options_wire [OF assms(1)]
      notify_wire [OF assms])

theorem control_messages_wire_round_trip_witness:
  "let m = refresh_set_msg_sequence_number 7 (refresh_set_session_lifetime 30 (new_msg Mnslp_Refresh))
   in wire_transfer list_net list_body m = Some (Some m, [])"
  using control_messages_wire_round_trip [OF list_net_laws, of 2 7 30 list_body 1] by simp



text \<open>
  A second object of a unique type is a syntax error, reported at the position of that
  object, and the message is refused.
\<close>

theorem duplicate_object_refused:
  assumes "net_laws N V" and "wire_ok V B mb a" and "wire_ok V B mb b" and "is_unique a"
    and "get_object_type a = get_object_type b"
    and "V n = (d, word32_be (push_bit 24 (ucast (class_msg_type c))) @ object_bytes mb a @ object_bytes mb b @ r)"
  shows "\<exists>w n'. deserialize_msg N B coding False n errs = Some (Ret (None, w) (n',
    errs @ [PDU_Syntax_Error coding Cat_Msg (get_object_type b) 1
      (of_nat (length d + 4 + length (object_bytes mb a)))]))"
proof -
  note N = assms(1)
  let ?w = "word32_be (push_bit 24 (ucast (class_msg_type c)))"
  obtain n0 where n0: "V n0 = (d @ ?w, object_bytes mb a @ (object_bytes mb b @ r))"
    "deserialize_msg N B coding False n errs = (case msg_objects_loop N B coding False (new_msg c) 4 n0 errs of
                Some (Ret (Some m1, w) (n2, errs2)) \<Rightarrow>
                  if msg_get_num_objects m1 = 0
                  then Some (Ret (if False then Some m1 else None, w)
                    (n2, errs2 @ [PDU_Syntax_Error coding Cat_Msg 0 0 (of_nat (length d))]))
                  else Some (Ret (Some m1, w) (n2, errs2))
              | r \<Rightarrow> r)"
    using deserialize_msg_start [OF N assms(6)] by blast
  obtain n1 w1 where n1: "deserialize_object N B coding False n0 errs = Ret (Some a, w1) (n1, errs)"
    "V n1 = ((d @ ?w) @ object_bytes mb a, object_bytes mb b @ r)"
    using deserialize_object_bytes [OF N assms(2) n0(1)] by blast
  obtain n2 w2 where n2: "deserialize_object N B coding False n1 errs = Ret (Some b, w2) (n2, errs)"
    using deserialize_object_bytes [OF N assms(3) n1(2)] by blast
  let ?m = "msg_set_object (new_msg c) a"
  have std: "std_object a" "std_object b" using assms(2,3) by (simp_all add: wire_ok_def)
  have u: "is_unique b"
  proof (rule ccontr)
    assume "\<not> is_unique b"
    with std_object_type(2) [OF std(2)] std_object_type(1) [OF std(1) assms(4)] assms(5)
    show False by (auto simp: ot_defs)
  qed
  have get: "msg_get_object ?m (obj_key (get_object_type b) 1) = Some a"
    using msg_get_set_unique [OF msg_wf_new std(1) assms(4) reserved_std_unique [OF std(2) u]] assms(5) by simp
  have left: "net_bytes_left N n0 \<noteq> 0" "net_bytes_left N n1 \<noteq> 0"
    using n0(1) n1(2) by (auto intro!: left_nonzero [OF N] simp: object_bytes_def word32_be_def)
  have pos: "net_get_pos N n1 = of_nat (length d + 4 + length (object_bytes mb a))"
    using net_pos_left(1) [OF N, of n1] n1(2) by (simp add: add.assoc)
  have new: "msg_get_object (new_msg c) (obj_key (get_object_type a) 1) = None"
    by (simp add: store_simps)
  have "msg_objects_loop N B coding False (new_msg c) 4 n0 errs =
      msg_objects_loop N B coding False ?m (4 + w1) n1 errs"
    by (subst msg_objects_loop.simps) (simp add: left(1) n1(1) new)
  also have "\<dots> = Some (Ret (None, 4 + w1) (n2, errs @ [PDU_Syntax_Error coding Cat_Msg (get_object_type b) 1
      (of_nat (length d + 4 + length (object_bytes mb a)))]))"
    by (subst msg_objects_loop.simps) (simp add: left(2) n2 u get pos)
  finally show ?thesis using n0(2) by simp
qed

theorem duplicate_object_refused_witness:
  "\<exists>w n'. deserialize_msg list_net list_body Protocol_V1 False
     ([], word32_be (push_bit 24 (ucast (class_msg_type Mnslp_Refresh))) @
       object_bytes ms_body (new_session_lifetime 5) @ object_bytes ms_body (new_session_lifetime 6) @ []) [] =
     Some (Ret (None, w) (n', [] @ [PDU_Syntax_Error Protocol_V1 Cat_Msg
       (get_object_type (new_session_lifetime 6 :: u8 list mnslp_object)) 1
       (of_nat (length ([] :: u8 list) + 4 + length (object_bytes ms_body (new_session_lifetime 5))))]))"
proof (rule duplicate_object_refused [OF list_net_laws])
  show "list_norm ([], word32_be (push_bit 24 (ucast (class_msg_type Mnslp_Refresh))) @
      object_bytes ms_body (new_session_lifetime 5) @ object_bytes ms_body (new_session_lifetime 6) @ []) =
    ([], word32_be (push_bit 24 (ucast (class_msg_type Mnslp_Refresh))) @
      object_bytes ms_body (new_session_lifetime 5) @ object_bytes ms_body (new_session_lifetime 6) @ [])"
    by (rule list_norm_short) (simp add: object_bytes_def new_object_defs)
qed (simp_all add: wire_ok_new store_simps)

text \<open>
  An answer made from a request by \<open>create_response\<close> alone, as every error answer is, has no
  session lifetime; writing it runs off the end of \<open>serialize_object\<close> without a \<open>return\<close>.
\<close>

theorem error_response_serialize_undefined:
  fixes B :: "('o, 'n) body_ops"
  assumes "net_laws N V" and "s AND 0xF0 = 0" and "has_msg_sequence_number b" and "m_class b \<noteq> Mnslp_Notify"
  shows "let r = response_body (Some b) s c
    in msg_serialize N B r Protocol_V1 (net_of_size N (msg_get_serialized_size B r)) = Undef"
proof -
  obtain msn where msn: "get_msg_sequence_number b = Some msn" using get_msn_if_has [OF assms(3,4)] by blast
  define r :: "'o mnslp_msg" where "r = response_msg s c msn"
  have body: "response_body (Some b) s c = r"
    by (simp add: r_def response_body_def Let_def assms(3) msn)
  note m = response_objects [OF r_def]
  have wf: "store_wf (m_objects r)"
    unfolding body [symmetric] using response_body_wf [of "Some b" s c] by (simp add: msg_wf_def)
  have "msg_get_serialized_size B r = 20" by (simp add: msg_size_sum m(1) size_new_objects)
  moreover have "length (snd (V (net_of_size N 20))) = 20"
    using assms(1) by (simp add: net_laws_def net_pos_laws_def)
  moreover have "msg_check r"
    unfolding msg_check_def m(2) msg_check_of.simps response_check_def m(1) by (simp add: obj_key_def)
  moreover have "msg_get_object r (obj_key ot_information_code 1) = Some (new_information_code s c 0)"
    "msg_get_object r (obj_key ot_msg_sequence_number 1) = Some (new_msg_sequence_number msn)"
    unfolding msg_get_object_def using wf by (auto intro!: in_store_get simp: m(1))
  moreover have "msg_get_object r (obj_key ot_session_lifetime 1) = None"
    using response_body_no_lifetime [of b s c] unfolding body .
  ultimately show ?thesis
    unfolding Let_def body
    using response_without_lifetime_undef [OF assms(1,2) m(2), of c msn "net_of_size N 20" B] by simp
qed

theorem error_response_serialize_undefined_witness:
  "let r = response_body (Some (refresh_set_msg_sequence_number 7 (new_msg Mnslp_Refresh))) 4 1
   in msg_serialize list_net list_body r Protocol_V1 (net_of_size list_net (msg_get_serialized_size list_body r)) = Undef"
  by (rule error_response_serialize_undefined [OF list_net_laws])
    (simp_all add: has_msg_sequence_number_def refresh_set_msg_sequence_number_def msn_key_def
      msg_get_set_unique store_simps)

text \<open>
  The header of an object says what the sender put there for every body of at most 16380
  bytes in whole words; the length field has no room for more: an IPFIX message of 16384 bytes
  is announced with an empty body, for its length runs into the lowest bit of the type.
\<close>

theorem object_header_fields:
  assumes "oh_object_type h AND NOT 0xFFF = 0" and "k < 4096"
  shows "(let w = obj_header_word h (of_nat (4 * k))
      in treatment_of (drop_bit 30 w) = oh_treatment h \<and> extract_object_type w = oh_object_type h \<and>
         ucast ((w AND 0xFFF) * 4) = (of_nat (4 * k) :: u16)) \<and>
    (let w = obj_header_word \<lparr>oh_object_type = ot_mnslp_ipfix_message, oh_unique = False,
          oh_treatment = Tr_Mandatory\<rparr> 16384
      in extract_object_type w = ot_mnslp_ipfix_message \<and> (w AND 0xFFF) * 4 = 0)"
  using obj_header_word_fields [OF assms]
  by (simp add: Let_def) (simp add: obj_header_word_def extract_object_type_def ot_defs)

theorem object_header_fields_witness:
  "extract_object_type (obj_header_word \<lparr>oh_object_type = 0xF8, oh_unique = True,
     oh_treatment = Tr_Forward\<rparr> (of_nat (4 * 1))) = 0xF8"
  using object_header_fields [of "\<lparr>oh_object_type = 0xF8, oh_unique = True, oh_treatment = Tr_Forward\<rparr>" 1]
  by (simp add: Let_def)

end
