(* ===== verification/Gistka_Mapper.thy ===== *)
theory Gistka_Mapper
  imports Msg_Receive Dispatcher
begin

text \<open>
  The way between the NTLP and the dispatcher (src/gistka_mapper.cpp): messages of the queue
  become events, a message of a session becomes a request to the NTLP. The API messages of the
  NTLP library are the records \<open>api_msg\<close> (what the code reads of a message from the NTLP) and
  \<open>api_send\<close> (what it hands over). A session ID of the NTLP is four words.
\<close>

datatype api_subtype = Recv_Message | Network_Notification | Message_Status | Other_Subtype

datatype api_status = Route_Changed_Status_Bad | Error_Msg_Node_Not_Found | Other_Status

type_synonym ntlp_sid = "u32 \<times> u32 \<times> u32 \<times> u32"

record 'r api_msg =
  am_subtype :: api_subtype
  am_sessionid :: "ntlp_sid option"
  am_data :: "u8 list option"
  am_adjacency_check :: bool
  am_mri :: "'r option"
  am_sii_handle :: u32
  am_final_hop :: bool
  am_msgstatus :: api_status

record 'r api_send =
  as_payload :: "u8 list"
  as_msg_handle :: u32
  as_nslp_id :: u32
  as_sessionid :: ntlp_sid
  as_mri :: 'r
  as_sii_handle :: u32
  as_reliable :: bool
  as_secure :: bool
  as_timeout :: u32
  as_ip_ttl :: u16
  as_hop_count :: u32

datatype ('h, 'o, 'r) queue_msg =
    Api_Msg "'r api_msg"
  | Mnslp_Timer_Msg sid nat
  | Mnslp_Event_Msg "('h, 'o, 'r) event"
  | Other_Msg

section \<open>Session IDs\<close>

fun create_ntlp_session_id :: "sid \<Rightarrow> ntlp_sid" where
  "create_ntlp_session_id (Session_Id a b c d) = (a, b, c, d)"

definition create_mnslp_session_id :: "ntlp_sid option \<Rightarrow> (sid \<Rightarrow> ('e, 'a, 's) result) \<Rightarrow> ('e, 'a, 's) result" where
  "create_mnslp_session_id sid f = assert_some sid (\<lambda>(a, b, c, d). f (Session_Id a b c d))"

section \<open>Sending\<close>

text \<open>
  An \<open>IEError\<close> fails an assertion; the function may not throw, so any other exception also ends
  the process.
\<close>

definition create_api_msg :: "'n net_ops \<Rightarrow> ('o, 'n) body_ops \<Rightarrow> ('o, 'r) ntlp_msg \<Rightarrow>
    (wire_exn, 'r api_send, unit) result" where
  "create_api_msg N B msg =
     deref (nm_body msg) (\<lambda>m.
       case msg_serialize N B m Protocol_V1 (net_of_size N (msg_get_serialized_size B m)) of
         Ret bytes_written payload \<Rightarrow>
           Ret \<lparr>as_payload = net_get_buffer N payload, as_msg_handle = 0, as_nslp_id = 34,
             as_sessionid = create_ntlp_session_id (nm_sid msg), as_mri = nm_mri msg,
             as_sii_handle = nm_sii_handle msg, as_reliable = True, as_secure = False,
             as_timeout = 5, as_ip_ttl = 100, as_hop_count = 10\<rparr> ()
       | Exn e payload \<Rightarrow> Abort
       | Abort \<Rightarrow> Abort
       | Undef \<Rightarrow> Undef)"

section \<open>Receiving\<close>

text \<open>
  The message of the event is NULL when the payload cannot be parsed; then there has to be an
  error on the list.
\<close>

definition received_event :: "'r api_msg \<Rightarrow> sid \<Rightarrow> 'o mnslp_msg option \<Rightarrow>
    (wire_exn, ('h, 'o, 'r) event option, unit) result" where
  "received_event msg sid m =
     deref (am_mri msg) (\<lambda>mri.
       Ret (Some (new_msg_event sid \<lparr>nm_sid = sid, nm_body = m, nm_mri = mri,
         nm_sii_handle = am_sii_handle msg\<rparr> (am_final_hop msg))) ())"

definition map_payload :: "'n net_ops \<Rightarrow> ('o, 'n) body_ops \<Rightarrow> 'r api_msg \<Rightarrow> sid \<Rightarrow> u8 list \<Rightarrow>
    (wire_exn, ('h, 'o, 'r) event option, unit) result option" where
  "map_payload N B msg sid bytes =
     (case manager_deserialize N B Cat_Msg Protocol_V1 False (net_of_buffer N bytes) [] of
        None \<Rightarrow> None
      | Some (Ret (ie, num_read) (n, errlist)) \<Rightarrow> Some
          (case ie of
             None \<Rightarrow> if errlist = [] then Abort else received_event msg sid None
           | Some (Ie_Msg m) \<Rightarrow> received_event msg sid (Some m)
           | Some (Ie_Object ob) \<Rightarrow> Abort)
      | Some (Exn e s) \<Rightarrow> Some (Exn e ())
      | Some Abort \<Rightarrow> Some Abort
      | Some Undef \<Rightarrow> Some Undef)"

definition map_api_receive_message :: "'n net_ops \<Rightarrow> ('o, 'n) body_ops \<Rightarrow> 'r api_msg \<Rightarrow>
    (wire_exn, ('h, 'o, 'r) event option, unit) result option" where
  "map_api_receive_message N B msg =
     (if am_subtype msg \<noteq> Recv_Message then Some Abort
      else case am_sessionid msg of
        None \<Rightarrow> Some Abort
      | Some (a, b, c, d) \<Rightarrow>
          (case am_data msg of
             None \<Rightarrow> Some
               (if am_adjacency_check msg
                then deref (am_mri msg) (\<lambda>mri. Ret (Some \<lparr>ev_sid = Some (Session_Id a b c d),
                       ev_body = Routing_State_Check_Event (Some mri)\<rparr>) ())
                else Ret None ())
           | Some bytes \<Rightarrow> map_payload N B msg (Session_Id a b c d) bytes))"

definition map_api_network_notification :: "'r api_msg \<Rightarrow>
    (wire_exn, ('h, 'o, 'r) event option, unit) result" where
  "map_api_network_notification msg =
     (if am_subtype msg \<noteq> Network_Notification then Abort
      else case am_msgstatus msg of
        Route_Changed_Status_Bad \<Rightarrow> create_mnslp_session_id (am_sessionid msg) (\<lambda>sid.
          Ret (Some \<lparr>ev_sid = Some sid, ev_body = Route_Changed_Bad_Event\<rparr>) ())
      | _ \<Rightarrow> Ret None ())"

definition map_api_message_status :: "'r api_msg \<Rightarrow>
    (wire_exn, ('h, 'o, 'r) event option, unit) result" where
  "map_api_message_status msg =
     (if am_subtype msg \<noteq> Message_Status then Abort
      else if am_sessionid msg = None then Ret None ()
      else if am_msgstatus msg = Error_Msg_Node_Not_Found
      then create_mnslp_session_id (am_sessionid msg) (\<lambda>sid.
        Ret (Some \<lparr>ev_sid = Some sid, ev_body = No_Next_Node_Found_Event\<rparr>) ())
      else Ret None ())"

definition map_api_message :: "'n net_ops \<Rightarrow> ('o, 'n) body_ops \<Rightarrow> 'r api_msg \<Rightarrow>
    (wire_exn, ('h, 'o, 'r) event option, unit) result option" where
  "map_api_message N B msg =
     (case am_subtype msg of
        Recv_Message \<Rightarrow> map_api_receive_message N B msg
      | Network_Notification \<Rightarrow> Some (map_api_network_notification msg)
      | Message_Status \<Rightarrow> Some (map_api_message_status msg)
      | Other_Subtype \<Rightarrow> Some (Ret None ()))"

fun map_to_event :: "'n net_ops \<Rightarrow> ('o, 'n) body_ops \<Rightarrow> ('h, 'o, 'r) queue_msg \<Rightarrow>
    (wire_exn, ('h, 'o, 'r) event option, unit) result option" where
  "map_to_event N B (Api_Msg msg) = map_api_message N B msg"
| "map_to_event N B (Mnslp_Timer_Msg sid i) = Some (Ret (Some (new_timer_event sid i)) ())"
| "map_to_event N B (Mnslp_Event_Msg evt) = Some (Ret (Some evt) ())"
| "map_to_event N B Other_Msg = Some (Ret None ())"

text \<open>
  One round of \<open>mnslp_daemon::main_loop\<close> for a message of the queue: a message without an event
  is dropped, and an exception that leaves the mapper or the dispatcher leaves the loop.
\<close>

definition main_loop_round :: "'n net_ops \<Rightarrow> ('o, 'n) body_ops \<Rightarrow> ('h, 'o, 'r, 'i) env \<Rightarrow>
    ('h, 'o, 'r) queue_msg \<Rightarrow> ('o, 'r, 'i) daemon \<Rightarrow>
    (wire_exn + exc, unit, ('o, 'r, 'i) daemon) result option" where
  "main_loop_round N B E msg d =
     (case map_to_event N B msg of
        None \<Rightarrow> None
      | Some (Ret None _) \<Rightarrow> Some (Ret () d)
      | Some (Ret (Some evt) _) \<Rightarrow>
          (case dispatcher_process E evt d of
             None \<Rightarrow> None
           | Some (Ret u d') \<Rightarrow> Some (Ret () d')
           | Some (Exn e d') \<Rightarrow> Some (Exn (Inr e) d')
           | Some Abort \<Rightarrow> Some Abort
           | Some Undef \<Rightarrow> Some Undef)
      | Some (Exn e _) \<Rightarrow> Some (Exn (Inl e) d)
      | Some Abort \<Rightarrow> Some Abort
      | Some Undef \<Rightarrow> Some Undef)"

section \<open>Events from the network\<close>

lemma received_event_wf:
  assumes "received_event msg sid m = Ret (Some evt) u" and "\<And>b. m = Some b \<Longrightarrow> msg_wf b"
  shows "event_wf evt"
  using assms by (cases "am_mri msg") (auto simp: received_event_def new_msg_event_def event_wf_def)

lemma map_payload_wf:
  assumes N: "net_laws N V" and B: "body_contract V B"
    and r: "map_payload N B msg sid bytes = Some (Ret (Some evt) u)"
  shows "event_wf evt"
proof -
  let ?d = "deserialize_msg N B Protocol_V1 False (net_of_buffer N bytes) []"
  obtain c where c: "received_ok c (body_total B) ?d" using deserialize_msg_received [OF N B] by blast
  show ?thesis
  proof (cases ?d)
    case None
    with c show ?thesis by (simp add: received_ok_def)
  next
    case (Some x)
    show ?thesis
    proof (cases x)
      case (Ret p s)
      obtain ie k n errs where x: "p = (ie, k)" "s = (n, errs)" by (cases p; cases s)
      show ?thesis
      proof (cases ie)
        case None
        with r Some Ret x show ?thesis
          by (auto simp: map_payload_def split: if_splits intro: received_event_wf)
      next
        case (Some m)
        with c Ret x \<open>?d = Some x\<close> have "msg_wf m" by (simp add: received_ok_def)
        with r Some Ret x \<open>?d = Some x\<close> show ?thesis
          by (auto simp: map_payload_def intro: received_event_wf)
      qed
    qed (use r Some in \<open>simp_all add: map_payload_def\<close>)
  qed
qed

lemma map_to_event_wf:
  assumes N: "net_laws N V" and B: "body_contract V B"
    and ev: "\<And>evt. msg = Mnslp_Event_Msg evt \<Longrightarrow> event_wf evt"
    and r: "map_to_event N B msg = Some (Ret (Some evt) u)"
  shows "event_wf evt"
proof (cases msg)
  case (Api_Msg a)
  show ?thesis
  proof (cases "am_subtype a")
    case Recv_Message
    with r Api_Msg have "map_api_receive_message N B a = Some (Ret (Some evt) u)"
      by (simp add: map_api_message_def)
    then show ?thesis
      using map_payload_wf [OF N B, of a _ _ evt u]
      by (cases "am_mri a")
        (auto simp: map_api_receive_message_def event_wf_def split: if_splits option.splits prod.splits)
  qed (use r Api_Msg in \<open>auto simp: map_api_message_def map_api_network_notification_def
      map_api_message_status_def create_mnslp_session_id_def assert_some_def event_wf_def
      split: api_status.splits if_splits option.splits\<close>)
next
  case (Mnslp_Timer_Msg sid i)
  with r show ?thesis by (auto simp: new_timer_event_def event_wf_def)
next
  case (Mnslp_Event_Msg e)
  with r ev show ?thesis by simp
next
  case Other_Msg
  with r show ?thesis by simp
qed

section \<open>From one node to the next\<close>

text \<open>What the NTLP of the next node delivers for a request: payload, session and route as sent\<close>

definition arrival :: "'r api_send \<Rightarrow> u32 \<Rightarrow> bool \<Rightarrow> 'r api_msg" where
  "arrival a sii final_hop = \<lparr>am_subtype = Recv_Message, am_sessionid = Some (as_sessionid a),
     am_data = Some (as_payload a), am_adjacency_check = False, am_mri = Some (as_mri a),
     am_sii_handle = sii, am_final_hop = final_hop, am_msgstatus = Other_Status\<rparr>"

lemma transfer_delivered:
  assumes t: "wire_transfer N B m = Some (Some m, [])" and b: "nm_body msg = Some m"
  shows "\<exists>a. create_api_msg N B msg = Ret a () \<and> as_mri a = nm_mri msg \<and>
    map_to_event N B (Api_Msg (arrival a sii fin)) =
      Some (Ret (Some (new_msg_event (nm_sid msg) (msg\<lparr>nm_sii_handle := sii\<rparr>) fin)) ())"
proof -
  obtain w n k n' where s: "msg_serialize N B m Protocol_V1 (net_of_size N (msg_get_serialized_size B m)) = Ret w n"
    and d: "deserialize_msg N B Protocol_V1 False (net_of_buffer N (net_get_buffer N n)) [] =
      Some (Ret (Some m, k) (n', []))"
    using t by (auto simp: wire_transfer_def split: result.splits option.splits prod.splits)
  obtain a b c e where sid: "nm_sid msg = Session_Id a b c e" by (cases "nm_sid msg")
  have m': "msg\<lparr>nm_sii_handle := sii\<rparr> =
      \<lparr>nm_sid = Session_Id a b c e, nm_body = Some m, nm_mri = nm_mri msg, nm_sii_handle = sii\<rparr>"
    using \<open>nm_body msg = Some m\<close> sid by (cases msg) simp
  show ?thesis
    unfolding m'
    by (simp add: s create_api_msg_def b sid arrival_def map_api_message_def map_api_receive_message_def
        map_payload_def d received_event_def)
qed

lemma answer_without_sequence_number_undef:
  fixes B :: "('o, 'n) body_ops"
  assumes N: "net_laws N V"
  shows "let r = response_body None s c
    in msg_serialize N B r Protocol_V1 (net_of_size N (msg_get_serialized_size B r)) = Undef"
proof -
  define r :: "'o mnslp_msg" where "r = response_body None s c"
  have m: "m_objects r = [(obj_key ot_information_code 1, new_information_code s c 0)]"
    "m_class r = Mnslp_Response"
    unfolding r_def response_body_def Let_def response_set_information_code_def option.case
    by (simp_all add: build_simps)
  have size: "msg_get_serialized_size B r = 12" by (simp add: msg_size_sum m(1) size_new_objects)
  let ?n = "net_of_size N 12" let ?w = "push_bit 24 (ucast (m_msg_type r)) :: u32"
  have "length (snd (V ?n)) = 12" using N by (simp add: net_laws_def net_pos_laws_def)
  then obtain n1 where n1: "encode_or_throw (net_encode32 N ?w) ?n = Ret () n1"
    using encode_or_throw_at [of V "word32_be ?w" ?n "net_encode32 N ?w"] net_put(3) [OF N] by fastforce
  have chk: "msg_check r"
    unfolding msg_check_def m(2) msg_check_of.simps response_check_def m(1) by (simp add: obj_key_def)
  have "ie_check_ser_args N True True = None" using net_checks(1) [OF N] by blast
  then have base: "base_serialize N r Protocol_V1 ?n = Ret 4 n1"
    using n1 chk by (simp add: base_serialize_def supports_coding_def)
  have "msg_get_object r (obj_key ot_msg_sequence_number 1) = None"
    by (simp add: msg_get_object_def ie_store_get_def m(1) equiv_key_def ie_object_key_less_def obj_key_def ot_defs)
  then show ?thesis
    unfolding Let_def r_def [symmetric] size msg_serialize_wire [OF chk] m(2)
    by (simp add: base serialize_object_def)
qed

lemma unknown_type_null:
  assumes N: "net_laws N V" and ty: "extract_msg_type w \<notin> {1, 2, 3, 4, 5}" and l: "length r < 2 ^ 32 - 4"
  shows "\<exists>k n. deserialize_msg N B Protocol_V1 False (net_of_buffer N (word32_be w @ r)) [] =
    Some (Ret (None, k) (n, [IE_Wrong_Type]))"
proof -
  have "V (net_of_buffer N (word32_be w @ r)) = ([], word32_be w @ r)"
    using N l by (simp add: net_laws_def net_pos_laws_def)
  then have peek: "net_peek32 N (net_of_buffer N (word32_be w @ r)) = Some w" by (rule net_peek32_at [OF N])
  have u: "extract_msg_type w = v" if "(ucast (extract_msg_type w) :: u16) = ucast v" for v
  proof -
    have "(ucast (ucast (extract_msg_type w) :: u16) :: u8) = ucast (ucast v :: u16)" using that by simp
    then show ?thesis by (simp add: ucast_up_ucast_id is_up)
  qed
  have "(ucast (extract_msg_type w) :: u16) \<noteq> 1" "(ucast (extract_msg_type w) :: u16) \<noteq> 2"
    "(ucast (extract_msg_type w) :: u16) \<noteq> 3" "(ucast (extract_msg_type w) :: u16) \<noteq> 4"
    "(ucast (extract_msg_type w) :: u16) \<noteq> 5"
    using ty u [of 1] u [of 2] u [of 3] u [of 4] u [of 5] by auto
  then show ?thesis by (simp add: deserialize_msg_def peek lookup_msg [OF N])
qed

section \<open>Properties\<close>


definition ex_configure_msg :: "(u8 list, nat mri_fields) ntlp_msg" where
  "ex_configure_msg = \<lparr>nm_sid = Session_Id 1 2 3 4, nm_body = Some (fold configure_set_mspec_object []
      (configure_set_message_hop_count 20 (configure_set_selection_metering_entities 1
        (configure_set_msg_sequence_number 7 (configure_set_session_lifetime 30 (new_msg Mnslp_Configure)))))),
     nm_mri = ex_route True, nm_sii_handle = 0\<rparr>"


text \<open>
  C2: The worker loop keeps the daemon within its reachable states whatever the network
  delivers: every round that ends, with a message of the NTLP, a timer or an event of the API,
  leads to a state in which each session of the table is stored under its ID, satisfies its
  invariant and is not closed.
\<close>

theorem main_loop_sessions_ok:
  assumes "net_laws N V" and "body_contract V B" and "session_env E" and "reachable E d"
    and "\<And>evt. msg = Mnslp_Event_Msg evt \<Longrightarrow> event_wf evt"
    and "main_loop_round N B E msg d = Some (Ret u d')"
  shows "reachable E d' \<and>
    (\<forall>sid s. get_session d' sid = Some s \<longrightarrow> any_id s = sid \<and> any_inv s \<and> \<not> any_is_final s)"
proof -
  have "reachable E d'"
  proof (cases "map_to_event N B msg")
    case None
    with assms(6) show ?thesis by (simp add: main_loop_round_def)
  next
    case (Some r)
    show ?thesis
    proof (cases r)
      case (Ret ev v)
      show ?thesis
      proof (cases ev)
        case None
        with Some Ret assms(4,6) show ?thesis by (simp add: main_loop_round_def)
      next
        case ev: (Some evt)
        with Some Ret have "event_wf evt"
          by (intro map_to_event_wf [OF assms(1,2,5), of msg]) auto
        moreover have "\<exists>v. dispatcher_process E evt d = Some (Ret v d')"
          using Some Ret ev assms(6) by (auto simp: main_loop_round_def split: option.splits result.splits)
        ultimately show ?thesis using assms(4) by (blast intro: reachable.step)
      qed
    qed (use Some assms(6) in \<open>simp_all add: main_loop_round_def\<close>)
  qed
  then show ?thesis
    using session_env.reachable_inv [OF assms(3)] by (fastforce simp: table_inv_def get_session_def)
qed

theorem main_loop_sessions_ok_witness:
  "\<exists>d'. main_loop_round list_net (bytes_body (\<lambda>n. []) (\<lambda>bs. 0)) ex_env
      (Mnslp_Timer_Msg (Session_Id 1 2 3 4) 5) (empty_daemon ()) = Some (Ret () d') \<and> reachable ex_env d'"
proof -
  have r: "main_loop_round list_net (bytes_body (\<lambda>n :: nat. []) (\<lambda>bs. 0)) ex_env
      (Mnslp_Timer_Msg (Session_Id 1 2 3 4) 5) (empty_daemon ()) = Some (Ret () (empty_daemon ()))"
    by (simp add: main_loop_round_def dispatcher_process_def new_timer_event_def is_invalid_mnslp_msg_def
        dispatch_to_session_def get_session_def empty_daemon_def dispatcher_create_session_def
        is_api_configure_def is_mnslp_configure_def event_is_class_def)
  show ?thesis
    using main_loop_sessions_ok [OF list_net_laws bytes_body_contract ex_session_env reachable.start _ r] r by simp
qed

text \<open>
  C36: A payload that ends behind the header of a fixed object whose length field says 0 ends the
  worker loop: the exception of the buffer leaves it uncaught, before any session is asked.
\<close>

theorem truncated_payload_ends_loop:
  assumes "net_laws N V"
    and "oh_object_type h \<in> {ot_session_lifetime, ot_msg_sequence_number, ot_message_hop_count,
      ot_selection_met_entities, ot_information_code}"
    and "am_subtype a = Recv_Message" and "am_sessionid a = Some i"
    and "am_data a = Some (word32_be (push_bit 24 (ucast (class_msg_type c))) @ word32_be (obj_header_word h 0))"
  shows "main_loop_round N B E (Api_Msg a) d = Some (Exn (Inl NetMsg_Error) d)"
proof -
  let ?b = "word32_be (push_bit 24 (ucast (class_msg_type c))) @ word32_be (obj_header_word h 0)"
  have "V (net_of_buffer N ?b) = ([], ?b)" using assms(1) by (simp add: net_laws_def net_pos_laws_def)
  then obtain s where "deserialize_msg N B Protocol_V1 False (net_of_buffer N ?b) [] = Some (Exn NetMsg_Error s)"
    using truncated_object [OF assms(1) _ assms(2)] by blast
  with assms(3-5) show ?thesis
    by (cases i) (simp add: main_loop_round_def map_api_message_def map_api_receive_message_def map_payload_def)
qed

definition ex_arrival :: "u8 list \<Rightarrow> nat mri_fields api_msg" where
  "ex_arrival bytes = \<lparr>am_subtype = Recv_Message, am_sessionid = Some (1, 2, 3, 4), am_data = Some bytes,
     am_adjacency_check = False, am_mri = Some (ex_route True), am_sii_handle = 5, am_final_hop = True,
     am_msgstatus = Other_Status\<rparr>"

theorem truncated_payload_ends_loop_witness:
  "main_loop_round list_net (bytes_body (\<lambda>n. []) (\<lambda>bs. 0)) ex_env
     (Api_Msg (ex_arrival (word32_be (push_bit 24 (ucast (class_msg_type Mnslp_Refresh))) @
        word32_be (obj_header_word \<lparr>oh_object_type = ot_session_lifetime, oh_unique = True,
          oh_treatment = Tr_Mandatory\<rparr> 0)))) (empty_daemon ()) = Some (Exn (Inl NetMsg_Error) (empty_daemon ()))"
  by (rule truncated_payload_ends_loop [OF list_net_laws, where c = Mnslp_Refresh and
      h = "\<lparr>oh_object_type = ot_session_lifetime, oh_unique = True, oh_treatment = Tr_Mandatory\<rparr>"])
    (simp_all add: ex_arrival_def)

text \<open>
  A payload with an unknown message type reaches the dispatcher as an event without a
  message; the dispatcher answers with a protocol error, and writing this answer to the wire
  is undefined, since it has no sequence number.
\<close>

theorem unknown_type_answer_undefined:
  fixes B :: "('o, 'n) body_ops" and E :: "('h, 'o, 'r, 'i) env" and a :: "'r api_msg"
  assumes "net_laws N V" and "extract_msg_type w \<notin> {1, 2, 3, 4, 5}" and "length rest < 2 ^ 32 - 4"
    and "am_subtype a = Recv_Message" and "am_sessionid a = Some i" and "am_mri a = Some mri"
    and "am_data a = Some (word32_be w @ rest)"
  shows "\<exists>m. main_loop_round N B E (Api_Msg a) d =
      Some (Ret () (d\<lparr>d_world := send_message m (d_world d)\<rparr>)) \<and> create_api_msg N B m = Undef"
proof -
  obtain x y z v where i: "i = (x, y, z, v)" by (cases i)
  define m :: "('o, 'r) ntlp_msg" where "m = \<lparr>nm_sid = Session_Id x y z v, nm_body = None, nm_mri = mri,
    nm_sii_handle = am_sii_handle a\<rparr>"
  obtain k n where "deserialize_msg N B Protocol_V1 False (net_of_buffer N (word32_be w @ rest)) [] =
      Some (Ret (None, k) (n, [IE_Wrong_Type]))"
    using unknown_type_null [OF assms(1-3)] by blast
  then have ev: "(map_to_event N B (Api_Msg a) :: (wire_exn, ('h, 'o, 'r) event option, unit) result option) =
      Some (Ret (Some (new_msg_event (Session_Id x y z v) m (am_final_hop a))) ())"
    using assms(4-7) i
    by (simp add: map_api_message_def map_api_receive_message_def map_payload_def received_event_def m_def)
  let ?r = "create_response (e_mri E) m sc_protocol_error 0"
  have "dispatcher_process E (new_msg_event (Session_Id x y z v) m (am_final_hop a)) d =
      Some (Ret () (d\<lparr>d_world := send_message ?r (d_world d)\<rparr>))"
    by (simp add: dispatcher_process_def new_msg_event_def is_invalid_mnslp_msg_def m_def)
  with ev have "main_loop_round N B E (Api_Msg a) d = Some (Ret () (d\<lparr>d_world := send_message ?r (d_world d)\<rparr>))"
    by (simp add: main_loop_round_def)
  moreover have "create_api_msg N B ?r = Undef"
    using answer_without_sequence_number_undef [OF assms(1), where B = B and s = sc_protocol_error and c = 0]
    by (simp add: create_api_msg_def create_response_def m_def Let_def)
  ultimately show ?thesis by blast
qed

theorem unknown_type_answer_undefined_witness:
  "\<exists>m. main_loop_round list_net (bytes_body (\<lambda>n. []) (\<lambda>bs. 0)) ex_env
     (Api_Msg (ex_arrival (word32_be 0x09000000 @ []))) (empty_daemon ()) =
       Some (Ret () ((empty_daemon ())\<lparr>d_world := send_message m (d_world (empty_daemon ()))\<rparr>)) \<and>
     create_api_msg list_net (bytes_body (\<lambda>n. []) (\<lambda>bs. 0)) m = Undef"
  by (rule unknown_type_answer_undefined [OF list_net_laws, where w = "0x09000000" and rest = "[]"])
    (simp_all add: ex_arrival_def extract_msg_type_def)

end
