(* ===== verification/Ipfix_Field.thy ===== *)
theory Ipfix_Field
  imports Wire_Object
begin

unbundle bit_operations_syntax

text \<open>
  The fields of an IPFIX message (src/msg/mnslp_ipfix_field.cpp and its header): the value of a
  field, how a field of a given coding writes it to memory, reads it back and prints it, and the
  container of all known fields. The byte order of the machine is the parameter \<open>H\<close>, because
  the code copies integers between memory and variables with \<open>memcpy\<close>.
\<close>

section \<open>Memory\<close>

type_synonym u64 = "64 word"

datatype byte_order = Little_Endian | Big_Endian

text \<open>From network order to the order in memory, and back\<close>

definition in_memory :: "byte_order \<Rightarrow> u8 list \<Rightarrow> u8 list" where
  "in_memory H bs = (case H of Little_Endian \<Rightarrow> rev bs | Big_Endian \<Rightarrow> bs)"

definition word64_be :: "u64 \<Rightarrow> u8 list" where
  "word64_be w = word32_be (ucast (drop_bit 32 w)) @ word32_be (ucast w)"

fun word16_of_be :: "u8 list \<Rightarrow> u16" where
  "word16_of_be [a, b] = push_bit 8 (ucast a) OR ucast b"
| "word16_of_be _ = 0"

definition word64_of_be :: "u8 list \<Rightarrow> u64" where
  "word64_of_be bs = push_bit 32 (ucast (word32_of_be (take 4 bs))) OR ucast (word32_of_be (drop 4 bs))"

text \<open>\<open>memcpy(out, &v, n)\<close> and \<open>memcpy(&v, in, n)\<close>\<close>

definition store16 :: "byte_order \<Rightarrow> u16 \<Rightarrow> u8 list" where "store16 H w = in_memory H (word16_be w)"
definition store32 :: "byte_order \<Rightarrow> u32 \<Rightarrow> u8 list" where "store32 H w = in_memory H (word32_be w)"
definition store64 :: "byte_order \<Rightarrow> u64 \<Rightarrow> u8 list" where "store64 H w = in_memory H (word64_be w)"
definition load16 :: "byte_order \<Rightarrow> u8 list \<Rightarrow> u16" where "load16 H bs = word16_of_be (in_memory H bs)"
definition load32 :: "byte_order \<Rightarrow> u8 list \<Rightarrow> u32" where "load32 H bs = word32_of_be (in_memory H bs)"
definition load64 :: "byte_order \<Rightarrow> u8 list \<Rightarrow> u64" where "load64 H bs = word64_of_be (in_memory H bs)"

text \<open>
  \<open>htons\<close> gives the value whose bytes in memory are those of its argument in network order,
  \<open>ntohs\<close> reads the bytes in memory as network order.
\<close>

definition htons :: "byte_order \<Rightarrow> u16 \<Rightarrow> u16" where "htons H w = load16 H (word16_be w)"
definition htonl :: "byte_order \<Rightarrow> u32 \<Rightarrow> u32" where "htonl H w = load32 H (word32_be w)"
definition ntohs :: "byte_order \<Rightarrow> u16 \<Rightarrow> u16" where "ntohs H w = word16_of_be (store16 H w)"
definition ntohl :: "byte_order \<Rightarrow> u32 \<Rightarrow> u32" where "ntohl H w = word32_of_be (store32 H w)"

text \<open>The macros of the header\<close>

definition HTONLL :: "byte_order \<Rightarrow> u64 \<Rightarrow> u64" where
  "HTONLL H val =
     (if 0x0a0b0c0d \<noteq> ntohl H 0x0a0b0c0d
      then ucast (htonl H (ucast (drop_bit 32 val))) OR push_bit 32 (ucast (htonl H (ucast (val AND 0xFFFFFFFF))))
      else val)"

definition NTOHLL :: "byte_order \<Rightarrow> u64 \<Rightarrow> u64" where
  "NTOHLL H val =
     (if 0x0a0b0c0d \<noteq> ntohl H 0x0a0b0c0d
      then ucast (ntohl H (ucast (drop_bit 32 val))) OR push_bit 32 (ucast (ntohl H (ucast (val AND 0xFFFFFFFF))))
      else val)"

lemma length_in_memory [simp]: "length (in_memory H bs) = length bs"
  by (simp add: in_memory_def split: byte_order.split)

lemma in_memory_twice [simp]: "in_memory H (in_memory H bs) = bs"
  by (simp add: in_memory_def split: byte_order.split)

lemma length_stores [simp]:
  "length (store16 H v) = 2" "length (store32 H w) = 4" "length (store64 H x) = 8" "length (word64_be x) = 8"
  by (simp_all add: store16_def store32_def store64_def word64_be_def)

lemma word16_round_trip [simp]: "word16_of_be (word16_be w) = w"
proof (rule bit_word_eqI)
  fix n assume "n < LENGTH(16)"
  then show "bit (word16_of_be (word16_be w)) n = bit w n"
    by (cases "n < 8") (auto simp: word16_be_def bit_simps)
qed

lemma word64_round_trip [simp]: "word64_of_be (word64_be w) = w"
proof (rule bit_word_eqI)
  fix n assume "n < LENGTH(64)"
  then show "bit (word64_of_be (word64_be w)) n = bit w n"
    by (cases "n < 32") (auto simp: word64_of_be_def word64_be_def bit_simps)
qed

lemma load_store [simp]:
  "load16 H (store16 H v) = v" "load32 H (store32 H w) = w" "load64 H (store64 H x) = x"
  by (simp_all add: load16_def load32_def load64_def store16_def store32_def store64_def)

lemma byte_bit: "bit (b :: u8) n \<Longrightarrow> n < 8"
  using bit_imp_le_length [of b n] by simp

lemma byte_bit_high:
  "\<not> bit (b :: u8) (8 + n)" "\<not> bit (b :: u8) (16 + n)" "\<not> bit (b :: u8) (24 + n)"
  by (auto dest: byte_bit)

lemma word16_be_of_be: "length bs = 2 \<Longrightarrow> word16_be (word16_of_be bs) = bs"
proof -
  assume "length bs = 2"
  then obtain a b where bs: "bs = [a, b]" by (auto simp: numeral_2_eq_2 length_Suc_conv)
  have "(ucast (drop_bit 8 (word16_of_be bs)) :: u8) = a" "(ucast (word16_of_be bs) :: u8) = b"
    unfolding bs by (auto simp: bit_simps byte_bit_high intro!: bit_word_eqI)
  then show ?thesis by (simp add: word16_be_def bs)
qed

lemma word32_be_of_be: "length bs = 4 \<Longrightarrow> word32_be (word32_of_be bs) = bs"
proof -
  assume "length bs = 4"
  then obtain a b c d where bs: "bs = [a, b, c, d]" by (auto simp: eval_nat_numeral length_Suc_conv)
  let ?w = "word32_of_be bs"
  have "(ucast (drop_bit 24 ?w) :: u8) = a" "(ucast (drop_bit 16 ?w) :: u8) = b"
    "(ucast (drop_bit 8 ?w) :: u8) = c" "(ucast ?w :: u8) = d"
    unfolding bs by (auto simp: bit_simps byte_bit_high intro!: bit_word_eqI)
  then show ?thesis by (simp add: word32_be_def bs)
qed

text \<open>In memory a number in network order is its bytes, highest first.\<close>

lemma store_hton [simp]:
  "store16 H (htons H v) = word16_be v" "store32 H (htonl H w) = word32_be w"
  by (simp_all add: store16_def store32_def htons_def htonl_def load16_def load32_def
      word16_be_of_be word32_be_of_be)

lemma ntoh_load [simp]:
  "length bs = 2 \<Longrightarrow> ntohs H (load16 H bs) = word16_of_be bs"
  "length bs = 4 \<Longrightarrow> ntohl H (load32 H bs) = word32_of_be bs"
  by (simp_all add: ntohs_def ntohl_def store16_def store32_def load16_def load32_def
      word16_be_of_be word32_be_of_be)

lemma ntoh_hton [simp]: "ntohs H (htons H v) = v" "ntohl H (htonl H w) = w"
  by (simp_all add: ntohs_def ntohl_def)

lemma NTOHLL_HTONLL [simp]: "NTOHLL H (HTONLL H x) = x"
proof (cases "0x0a0b0c0d \<noteq> ntohl H 0x0a0b0c0d")
  case True
  let ?a = "htonl H (ucast (drop_bit 32 x))" and ?b = "htonl H (ucast (x AND 0xFFFFFFFF))"
  have m: "(0xFFFFFFFF :: u64) = mask 32" by (simp add: mask_eq_exp_minus_1)
  have hi: "(ucast (drop_bit 32 (ucast ?a OR push_bit 32 (ucast ?b) :: u64)) :: u32) = ?b"
    by (rule bit_word_eqI) (auto simp: bit_simps dest: bit_imp_le_length)
  have lo: "(ucast ((ucast ?a OR push_bit 32 (ucast ?b) :: u64) AND mask 32) :: u32) = ?a"
    by (rule bit_word_eqI) (auto simp: bit_simps dest: bit_imp_le_length)
  have "NTOHLL H (HTONLL H x) = ucast (ntohl H ?b) OR push_bit 32 (ucast (ntohl H ?a))"
    using True hi lo by (simp add: NTOHLL_def HTONLL_def m)
  also have "\<dots> = ucast (ucast (x AND mask 32) :: u32) OR push_bit 32 (ucast (ucast (drop_bit 32 x) :: u32))"
    by (simp add: m)
  also have "\<dots> = x"
    by (rule bit_word_eqI) (auto simp: bit_simps)
  finally show ?thesis .
qed (simp add: NTOHLL_def HTONLL_def)

section \<open>Values\<close>

text \<open>
  A value holds its integer in the member of its width, or a copy of a byte or character
  string; \<open>length\<close> says which one counts. NULL is \<open>None\<close>. The error of the whole component is
  one exception, \<open>mnslp_ipfix_bad_argument\<close>, whose text nothing reads.
\<close>

datatype ipfix_exn = Ipfix_Bad_Argument

record value_field =
  vf_value8 :: u8
  vf_value16 :: u16
  vf_value32 :: u32
  vf_value64 :: u64
  vf_length :: int
  vf_valuechar :: "string option"
  vf_valuebyte :: "u8 list option"

definition new_value_field :: value_field where
  "new_value_field =
     \<lparr>vf_value8 = 0, vf_value16 = 0, vf_value32 = 0, vf_value64 = 0, vf_length = 0,
      vf_valuechar = None, vf_valuebyte = None\<rparr>"

definition set_value_int8 :: "u8 \<Rightarrow> value_field \<Rightarrow> value_field" where
  "set_value_int8 x v = v\<lparr>vf_value8 := x, vf_length := 1\<rparr>"

definition set_value_int16 :: "u16 \<Rightarrow> value_field \<Rightarrow> value_field" where
  "set_value_int16 x v = v\<lparr>vf_value16 := x, vf_length := 2\<rparr>"

definition set_value_int32 :: "u32 \<Rightarrow> value_field \<Rightarrow> value_field" where
  "set_value_int32 x v = v\<lparr>vf_value32 := x, vf_length := 4\<rparr>"

definition set_value_int64 :: "u64 \<Rightarrow> value_field \<Rightarrow> value_field" where
  "set_value_int64 x v = v\<lparr>vf_value64 := x, vf_length := 8\<rparr>"

definition set_value_vunit8 :: "u8 list \<Rightarrow> value_field \<Rightarrow> value_field" where
  "set_value_vunit8 bs v = v\<lparr>vf_valuebyte := Some bs, vf_length := int (length bs)\<rparr>"

definition set_value_vchar :: "string \<Rightarrow> value_field \<Rightarrow> value_field" where
  "set_value_vchar cs v = v\<lparr>vf_valuechar := Some cs, vf_length := int (length cs)\<rparr>"

text \<open>
  The copy constructor and the assignment, which copy the strings unless the length is 0. The
  assignment has no \<open>return\<close>; no caller uses its result.
\<close>

definition copy_bytes :: "int \<Rightarrow> 'a list option \<Rightarrow> 'a list option" where
  "copy_bytes len p = (if len > 0 then map_option (take (nat len)) p else None)"

definition vf_copy :: "value_field \<Rightarrow> value_field" where
  "vf_copy v = v\<lparr>vf_valuechar := copy_bytes (vf_length v) (vf_valuechar v),
     vf_valuebyte := copy_bytes (vf_length v) (vf_valuebyte v)\<rparr>"

definition same_bytes :: "int \<Rightarrow> int \<Rightarrow> 'a list option \<Rightarrow> 'a list option \<Rightarrow> bool" where
  "same_bytes len len' p q =
     (case (p, q) of
        (None, None) \<Rightarrow> True
      | (Some a, Some b) \<Rightarrow> len = len' \<and> take (nat len) a = take (nat len) b
      | _ \<Rightarrow> False)"

definition vf_equal :: "value_field \<Rightarrow> value_field \<Rightarrow> bool" where
  "vf_equal v w =
     (if vf_valuechar v = None \<and> vf_valuechar w = None \<and> vf_valuebyte v = None \<and> vf_valuebyte w = None
      then vf_length v = vf_length w \<and>
        (vf_length v = 1 \<longrightarrow> vf_value8 v = vf_value8 w) \<and>
        (vf_length v = 2 \<longrightarrow> vf_value16 v = vf_value16 w) \<and>
        (vf_length v = 4 \<longrightarrow> vf_value32 v = vf_value32 w) \<and>
        (vf_length v = 8 \<longrightarrow> vf_value64 v = vf_value64 w)
      else same_bytes (vf_length v) (vf_length w) (vf_valuechar v) (vf_valuechar w) \<and>
        same_bytes (vf_length v) (vf_length w) (vf_valuebyte v) (vf_valuebyte w))"

section \<open>Fields\<close>

record field_type =
  ft_eno :: int
  ft_ftype :: int
  ft_length :: int
  ft_coding :: int
  ft_name :: string
  ft_documentation :: string

definition coding_int :: int where "coding_int = 1"
definition coding_uint :: int where "coding_uint = 2"
definition coding_bytes :: int where "coding_bytes = 3"
definition coding_string :: int where "coding_string = 4"
definition coding_float :: int where "coding_float = 5"
definition coding_ntp :: int where "coding_ntp = 6"
definition coding_ipaddr :: int where "coding_ipaddr = 7"

lemmas coding_defs = coding_int_def coding_uint_def coding_bytes_def coding_string_def
  coding_float_def coding_ntp_def coding_ipaddr_def

record field_key =
  fk_eno :: int
  fk_ftype :: int

definition get_field_key :: "field_type \<Rightarrow> field_key" where
  "get_field_key f = \<lparr>fk_eno = ft_eno f, fk_ftype = ft_ftype f\<rparr>"

definition field_key_equal :: "field_key \<Rightarrow> field_key \<Rightarrow> bool" where
  "field_key_equal a b \<longleftrightarrow> fk_eno a = fk_eno b \<and> fk_ftype a = fk_ftype b"

definition field_key_less :: "field_key \<Rightarrow> field_key \<Rightarrow> bool" where
  "field_key_less a b \<longleftrightarrow> fk_eno a * 1000 + fk_ftype a < fk_eno b * 1000 + fk_ftype b"

definition field_equal :: "field_type \<Rightarrow> field_type \<Rightarrow> bool" where
  "field_equal f g \<longleftrightarrow> ft_eno f = ft_eno g \<and> ft_ftype f = ft_ftype g"

text \<open>Making a value checks the length of the field, for strings also its coding.\<close>

definition get_ipfix_value_field8 :: "field_type \<Rightarrow> u8 \<Rightarrow> (ipfix_exn, value_field, unit) result" where
  "get_ipfix_value_field8 f x =
     (if ft_length f = 1 then Ret (set_value_int8 x new_value_field) () else Exn Ipfix_Bad_Argument ())"

definition get_ipfix_value_field16 :: "field_type \<Rightarrow> u16 \<Rightarrow> (ipfix_exn, value_field, unit) result" where
  "get_ipfix_value_field16 f x =
     (if ft_length f = 2 then Ret (set_value_int16 x new_value_field) () else Exn Ipfix_Bad_Argument ())"

definition get_ipfix_value_field32 :: "field_type \<Rightarrow> u32 \<Rightarrow> (ipfix_exn, value_field, unit) result" where
  "get_ipfix_value_field32 f x =
     (if ft_length f = 4 then Ret (set_value_int32 x new_value_field) () else Exn Ipfix_Bad_Argument ())"

definition get_ipfix_value_field64 :: "field_type \<Rightarrow> u64 \<Rightarrow> (ipfix_exn, value_field, unit) result" where
  "get_ipfix_value_field64 f x =
     (if ft_length f = 8 then Ret (set_value_int64 x new_value_field) () else Exn Ipfix_Bad_Argument ())"

definition get_ipfix_value_field_bytes :: "field_type \<Rightarrow> u8 list \<Rightarrow> (ipfix_exn, value_field, unit) result" where
  "get_ipfix_value_field_bytes f bs =
     (if ft_coding f = coding_ipaddr then
        (if ft_length f = int (length bs) then Ret (set_value_vunit8 bs new_value_field) ()
         else Exn Ipfix_Bad_Argument ())
      else if ft_coding f = coding_bytes then
        (if ft_length f = int (length bs) then Ret (set_value_vunit8 bs new_value_field) ()
         else if ft_length f = 65535 then Ret (set_value_vunit8 bs new_value_field) ()
         else Exn Ipfix_Bad_Argument ())
      else Exn Ipfix_Bad_Argument ())"

definition get_ipfix_value_field_chars :: "field_type \<Rightarrow> string \<Rightarrow> (ipfix_exn, value_field, unit) result" where
  "get_ipfix_value_field_chars f cs =
     (if ft_coding f = coding_string then Ret (set_value_vchar cs new_value_field) ()
      else Exn Ipfix_Bad_Argument ())"

section \<open>Writing and reading values\<close>

text \<open>
  The bytes a value is written as, and the code returned. With \<open>relay_f\<close> the integers are
  copied as they are in memory, without it they are put into network order.
\<close>

definition ipfix_encode_int :: "byte_order \<Rightarrow> value_field \<Rightarrow> bool \<Rightarrow> u8 list \<times> int" where
  "ipfix_encode_int H v relay_f =
     (if relay_f then
        (if vf_length v = 1 then ([vf_value8 v], 0)
         else if vf_length v = 2 then (store16 H (vf_value16 v), 0)
         else if vf_length v = 4 then (store32 H (vf_value32 v), 0)
         else if vf_length v = 8 then (store64 H (vf_value64 v), 0)
         else (replicate (nat (vf_length v)) 0xFF, -1))
      else
        (if vf_length v = 1 then ([vf_value8 v], 0)
         else if vf_length v = 2 then (store16 H (htons H (vf_value16 v)), 0)
         else if vf_length v = 4 then (store32 H (htonl H (vf_value32 v)), 0)
         else if vf_length v = 8 then (store64 H (HTONLL H (vf_value64 v)), 0)
         else (replicate (nat (vf_length v)) 0xFF, -1)))"

definition ipfix_encode_float :: "byte_order \<Rightarrow> value_field \<Rightarrow> bool \<Rightarrow> u8 list \<times> int" where
  "ipfix_encode_float H v relay_f =
     (if relay_f then
        (if vf_length v = 4 then (store32 H (vf_value32 v), 0)
         else if vf_length v = 8 then (store64 H (vf_value64 v), 0)
         else (replicate (nat (vf_length v)) 0xFF, -1))
      else
        (if vf_length v = 4 then (store32 H (htonl H (vf_value32 v)), 0)
         else if vf_length v = 8 then (store64 H (HTONLL H (vf_value64 v)), 0)
         else (replicate (nat (vf_length v)) 0xFF, -1)))"

text \<open>\<open>None\<close>: bytes are copied from NULL, which is what a value made from characters has.\<close>

definition ipfix_encode_bytes :: "value_field \<Rightarrow> u8 list option" where
  "ipfix_encode_bytes v =
     (if vf_length v \<le> 0 then Some [] else map_option (take (nat (vf_length v))) (vf_valuebyte v))"

text \<open>The function has no \<open>return\<close>; no caller uses its result.\<close>

definition encode :: "byte_order \<Rightarrow> field_type \<Rightarrow> value_field \<Rightarrow> bool \<Rightarrow> u8 list option" where
  "encode H f v relay_f =
     (if ft_coding f = coding_int then Some (fst (ipfix_encode_int H v relay_f))
      else if ft_coding f = coding_uint then Some (fst (ipfix_encode_int H v relay_f))
      else if ft_coding f = coding_ntp then Some (fst (ipfix_encode_int H v relay_f))
      else if ft_coding f = coding_float then Some (fst (ipfix_encode_float H v relay_f))
      else if ft_coding f = coding_ipaddr then ipfix_encode_bytes v
      else if ft_coding f = coding_string then ipfix_encode_bytes v
      else ipfix_encode_bytes v)"

text \<open>
  Reading takes \<open>len\<close> bytes from the memory at \<open>in\<close>, of which \<open>bs\<close> are there; to read more is
  undefined. The result is assigned to a variable, that is copied.
\<close>

definition read_mem :: "nat \<Rightarrow> u8 list \<Rightarrow> (u8 list \<Rightarrow> ('e, 'a, 's) result) \<Rightarrow> ('e, 'a, 's) result" where
  "read_mem len bs f = (if length bs < len then Undef else f (take len bs))"

definition assign_value :: "(ipfix_exn, value_field, unit) result \<Rightarrow> (ipfix_exn, value_field, unit) result" where
  "assign_value r = r_bind r (\<lambda>v s. Ret (vf_copy v) s)"

definition ipfix_decode_int :: "byte_order \<Rightarrow> field_type \<Rightarrow> u8 list \<Rightarrow> nat \<Rightarrow> bool \<Rightarrow>
    (ipfix_exn, value_field, unit) result" where
  "ipfix_decode_int H f bs len relay_f =
     (if relay_f then
        (if len = 1 then read_mem 1 bs (\<lambda>b. assign_value (get_ipfix_value_field8 f (hd b)))
         else if len = 2 then read_mem 2 bs (\<lambda>b. assign_value (get_ipfix_value_field16 f (load16 H b)))
         else if len = 4 then read_mem 4 bs (\<lambda>b. assign_value (get_ipfix_value_field32 f (load32 H b)))
         else if len = 8 then read_mem 8 bs (\<lambda>b. assign_value (get_ipfix_value_field64 f (load64 H b)))
         else Ret new_value_field ())
      else
        (if len = 1 then read_mem 1 bs (\<lambda>b. assign_value (get_ipfix_value_field8 f (hd b)))
         else if len = 2 then read_mem 2 bs (\<lambda>b. assign_value (get_ipfix_value_field16 f (ntohs H (load16 H b))))
         else if len = 4 then read_mem 4 bs (\<lambda>b. assign_value (get_ipfix_value_field32 f (ntohl H (load32 H b))))
         else if len = 8 then read_mem 8 bs (\<lambda>b. assign_value (get_ipfix_value_field64 f (NTOHLL H (load64 H b))))
         else Ret new_value_field ()))"

definition ipfix_decode_float :: "byte_order \<Rightarrow> field_type \<Rightarrow> u8 list \<Rightarrow> nat \<Rightarrow> bool \<Rightarrow>
    (ipfix_exn, value_field, unit) result" where
  "ipfix_decode_float H f bs len relay_f =
     (if relay_f then
        (if len = 4 then read_mem 4 bs (\<lambda>b. assign_value (get_ipfix_value_field32 f (load32 H b)))
         else if len = 8 then read_mem 8 bs (\<lambda>b. assign_value (get_ipfix_value_field64 f (load64 H b)))
         else Ret new_value_field ())
      else
        (if len = 4 then read_mem 4 bs (\<lambda>b. assign_value (get_ipfix_value_field32 f (ntohl H (load32 H b))))
         else if len = 8 then read_mem 8 bs (\<lambda>b. assign_value (get_ipfix_value_field64 f (NTOHLL H (load64 H b))))
         else Ret new_value_field ()))"

definition ipfix_decode_bytes :: "field_type \<Rightarrow> u8 list \<Rightarrow> nat \<Rightarrow> (ipfix_exn, value_field, unit) result" where
  "ipfix_decode_bytes f bs len = read_mem len bs (\<lambda>b. assign_value (get_ipfix_value_field_bytes f b))"

definition decode :: "byte_order \<Rightarrow> field_type \<Rightarrow> u8 list \<Rightarrow> nat \<Rightarrow> bool \<Rightarrow>
    (ipfix_exn, value_field, unit) result" where
  "decode H f bs len relay_f =
     (if ft_coding f = coding_int then ipfix_decode_int H f bs len relay_f
      else if ft_coding f = coding_uint then ipfix_decode_int H f bs len relay_f
      else if ft_coding f = coding_ntp then ipfix_decode_int H f bs len relay_f
      else if ft_coding f = coding_float then ipfix_decode_float H f bs len relay_f
      else if ft_coding f = coding_ipaddr then ipfix_decode_bytes f bs len
      else if ft_coding f = coding_string then ipfix_decode_bytes f bs len
      else ipfix_decode_bytes f bs len)"

section \<open>Printing values\<close>

definition show_digit :: "nat \<Rightarrow> char" where
  "show_digit n = ''0123456789abcdef'' ! n"

fun show_base :: "nat \<Rightarrow> nat \<Rightarrow> string" where
  "show_base b n = (if n < b \<or> b < 2 then [show_digit n] else show_base b (n div b) @ [show_digit (n mod b)])"

declare show_base.simps [simp del]

definition show_int :: "int \<Rightarrow> string" where
  "show_int i = (if i < 0 then CHR ''-'' # show_base 10 (nat (- i)) else show_base 10 (nat i))"

definition show_hex2 :: "u8 \<Rightarrow> string" where
  "show_hex2 b = [show_digit (unat b div 16), show_digit (unat b mod 16)]"

fun join :: "string \<Rightarrow> string list \<Rightarrow> string" where
  "join sep [] = []"
| "join sep [x] = x"
| "join sep (x # y # xs) = x @ sep @ join sep (y # xs)"

text \<open>
  What a print function leaves in a buffer of \<open>sz\<close> bytes. \<open>None\<close>: it reads NULL, writes
  beyond the buffer, or leaves the buffer without a string in it.
\<close>

definition snprintf :: "nat \<Rightarrow> string \<Rightarrow> string option" where
  "snprintf sz t = (if sz = 0 then None else Some (take (sz - 1) t))"

definition ipfix_snprint_int :: "nat \<Rightarrow> value_field \<Rightarrow> string option" where
  "ipfix_snprint_int sz v =
     snprintf sz
       (if vf_length v = 1 then show_int (uint (vf_value8 v))
        else if vf_length v = 2 then show_int (uint (vf_value16 v))
        else if vf_length v = 4 then show_int (sint (vf_value32 v))
        else if vf_length v = 8 then show_int (sint (vf_value64 v))
        else ''err'')"

definition ipfix_snprint_uint :: "nat \<Rightarrow> value_field \<Rightarrow> string option" where
  "ipfix_snprint_uint sz v =
     snprintf sz
       (if vf_length v = 1 then show_int (uint (vf_value8 v))
        else if vf_length v = 2 then show_int (uint (vf_value16 v))
        else if vf_length v = 4 then show_int (uint (vf_value32 v))
        else if vf_length v = 8 then show_int (uint (vf_value64 v))
        else ''err'')"

text \<open>\<open>while (((len * 2) + 2) > sz) len--\<close>, entered with \<open>4 \<le> sz\<close>\<close>

fun bytes_that_fit :: "nat \<Rightarrow> nat \<Rightarrow> nat" where
  "bytes_that_fit sz 0 = 0"
| "bytes_that_fit sz (Suc len) = (if Suc len * 2 + 2 > sz then bytes_that_fit sz len else Suc len)"

text \<open>Two digits for each byte and the final 0, which the loop has not left room for\<close>

definition ipfix_snprint_bytes :: "nat \<Rightarrow> value_field \<Rightarrow> string option" where
  "ipfix_snprint_bytes sz v =
     (if sz < 4 then snprintf sz ''err''
      else
        (let len = bytes_that_fit sz (nat (vf_length v))
         in if sz < 2 + 2 * len + 1 then None
            else if len = 0 then Some ''0x''
            else Option.bind (vf_valuebyte v) (\<lambda>bs.
              if length bs < len then None else Some (''0x'' @ concat (map show_hex2 (take len bs))))))"

definition ipfix_snprint_string :: "nat \<Rightarrow> value_field \<Rightarrow> string option" where
  "ipfix_snprint_string sz v =
     (if vf_length v \<le> 0 then (if sz = 0 then snprintf sz ''err'' else Some [])
      else Option.bind (vf_valuechar v) (\<lambda>cs.
        let s = take (nat (vf_length v)) cs
        in if CHR 0x00 \<in> set s then snprintf sz (takeWhile (\<lambda>c. c \<noteq> CHR 0x00) s)
           else if nat (vf_length v) < sz then Some s
           else snprintf sz ''err''))"

fun show_groups :: "byte_order \<Rightarrow> u8 list \<Rightarrow> string list" where
  "show_groups H (a # b # bs) = show_base 16 (unat (htons H (load16 H [a, b]))) # show_groups H bs"
| "show_groups H _ = []"

definition ipfix_snprint_ipaddr :: "byte_order \<Rightarrow> nat \<Rightarrow> value_field \<Rightarrow> string option" where
  "ipfix_snprint_ipaddr H sz v =
     (if vf_length v = 4 then Option.bind (vf_valuebyte v) (\<lambda>bs.
        snprintf sz (join ''.'' (map (\<lambda>b. show_base 10 (unat b)) (take 4 bs))))
      else if vf_length v = 16 then Option.bind (vf_valuebyte v) (\<lambda>bs.
        snprintf sz (join '':'' (show_groups H (take 16 bs))))
      else ipfix_snprint_bytes sz v)"

text \<open>
  The integer in the value is converted to \<open>float\<close> or \<open>double\<close>, which rounds it to 24 or 53
  binary digits, to even in the middle.
\<close>

fun bit_length :: "nat \<Rightarrow> nat" where
  "bit_length n = (if n = 0 then 0 else Suc (bit_length (n div 2)))"

declare bit_length.simps [simp del]

definition round_digits :: "nat \<Rightarrow> nat \<Rightarrow> nat" where
  "round_digits k n =
     (if n < 2 ^ k then n
      else
        (let u = 2 ^ (bit_length n - k); q = n div u; r = n mod u
         in if 2 * r < u \<or> 2 * r = u \<and> even q then q * u else (q + 1) * u))"

definition ipfix_snprint_float :: "nat \<Rightarrow> value_field \<Rightarrow> string option" where
  "ipfix_snprint_float sz v =
     snprintf sz
       (if vf_length v = 4 then show_base 10 (round_digits 24 (unat (vf_value32 v))) @ ''.000000''
        else if vf_length v = 8 then show_base 10 (round_digits 53 (unat (vf_value64 v))) @ ''.000000''
        else ''err'')"

definition snprint :: "byte_order \<Rightarrow> field_type \<Rightarrow> nat \<Rightarrow> value_field \<Rightarrow> string option" where
  "snprint H f sz v =
     (if ft_coding f = coding_int then ipfix_snprint_int sz v
      else if ft_coding f = coding_uint then ipfix_snprint_uint sz v
      else if ft_coding f = coding_ntp then ipfix_snprint_uint sz v
      else if ft_coding f = coding_float then ipfix_snprint_float sz v
      else if ft_coding f = coding_ipaddr then ipfix_snprint_ipaddr H sz v
      else if ft_coding f = coding_string then ipfix_snprint_string sz v
      else ipfix_snprint_bytes sz v)"

definition print_value :: "byte_order \<Rightarrow> field_type \<Rightarrow> value_field \<Rightarrow> string option" where
  "print_value H f v =
     (let len = (if ft_coding f = coding_ipaddr then (if ft_length f = 4 then 16 else 46)
                 else nat (ft_length f + 1))
      in snprint H f len v)"

section \<open>The container\<close>

type_synonym field_container = "field_type list"

definition add_field_type :: "field_type \<Rightarrow> field_container \<Rightarrow> (ipfix_exn, unit, field_container) result" where
  "add_field_type f fc =
     (if \<exists>g \<in> set fc. field_equal g f then Exn Ipfix_Bad_Argument fc else Ret () (fc @ [f]))"

fun add_field_types :: "field_type list \<Rightarrow> field_container \<Rightarrow> (ipfix_exn, unit, field_container) result" where
  "add_field_types [] fc = Ret () fc"
| "add_field_types (f # fs) fc = r_bind (add_field_type f fc) (\<lambda>_ fc. add_field_types fs fc)"

definition get_field :: "field_container \<Rightarrow> int \<Rightarrow> int \<Rightarrow> field_type option" where
  "get_field fc eno typ = find (\<lambda>f. ft_ftype f = typ \<and> ft_eno f = eno) fc"

section \<open>Laws\<close>

text \<open>The values a field makes for itself: of its length, and in the member its coding uses\<close>

definition int_value :: "field_type \<Rightarrow> value_field \<Rightarrow> bool" where
  "int_value f v \<longleftrightarrow>
     ft_length f = 1 \<and> v = set_value_int8 (vf_value8 v) new_value_field \<or>
     ft_length f = 2 \<and> v = set_value_int16 (vf_value16 v) new_value_field"

definition wide_value :: "field_type \<Rightarrow> value_field \<Rightarrow> bool" where
  "wide_value f v \<longleftrightarrow>
     ft_length f = 4 \<and> v = set_value_int32 (vf_value32 v) new_value_field \<or>
     ft_length f = 8 \<and> v = set_value_int64 (vf_value64 v) new_value_field"

definition bytes_value :: "field_type \<Rightarrow> value_field \<Rightarrow> bool" where
  "bytes_value f v \<longleftrightarrow>
     (case vf_valuebyte v of
        None \<Rightarrow> False
      | Some bs \<Rightarrow> bs \<noteq> [] \<and> v = set_value_vunit8 bs new_value_field \<and>
          (ft_length f = int (length bs) \<or> ft_coding f = coding_bytes \<and> ft_length f = 65535))"

definition value_of_field :: "field_type \<Rightarrow> value_field \<Rightarrow> bool" where
  "value_of_field f v \<longleftrightarrow>
     (if ft_coding f = coding_int \<or> ft_coding f = coding_uint \<or> ft_coding f = coding_ntp
      then int_value f v \<or> wide_value f v
      else if ft_coding f = coding_float then wide_value f v
      else (ft_coding f = coding_ipaddr \<or> ft_coding f = coding_bytes) \<and> bytes_value f v)"

lemmas set_value_defs = set_value_int8_def set_value_int16_def set_value_int32_def set_value_int64_def
  set_value_vunit8_def set_value_vchar_def new_value_field_def

lemmas get_value_defs = get_ipfix_value_field8_def get_ipfix_value_field16_def
  get_ipfix_value_field32_def get_ipfix_value_field64_def get_ipfix_value_field_bytes_def

lemma vf_copy_idem [simp]: "vf_copy (vf_copy v) = vf_copy v"
  by (simp add: vf_copy_def copy_bytes_def option.map_comp comp_def)

lemma vf_copy_set [simp]:
  "vf_copy (set_value_int8 x new_value_field) = set_value_int8 x new_value_field"
  "vf_copy (set_value_int16 y new_value_field) = set_value_int16 y new_value_field"
  "vf_copy (set_value_int32 z new_value_field) = set_value_int32 z new_value_field"
  "vf_copy (set_value_int64 w new_value_field) = set_value_int64 w new_value_field"
  "bs \<noteq> [] \<Longrightarrow> vf_copy (set_value_vunit8 bs new_value_field) = set_value_vunit8 bs new_value_field"
  by (simp_all add: vf_copy_def set_value_defs copy_bytes_def)

lemma vf_copy_of_field: "value_of_field f v \<Longrightarrow> vf_copy v = v"
  by (auto simp: value_of_field_def int_value_def wide_value_def bytes_value_def
      split: if_splits option.splits) (metis vf_copy_set)+

lemma vf_length_set [simp]:
  "vf_length (set_value_int8 x new_value_field) = 1" "vf_length (set_value_int16 y new_value_field) = 2"
  "vf_length (set_value_int32 z new_value_field) = 4" "vf_length (set_value_int64 w new_value_field) = 8"
  "vf_length (set_value_vunit8 bs new_value_field) = int (length bs)"
  by (simp_all add: set_value_defs)

lemma vf_member_set [simp]:
  "vf_value8 (set_value_int8 x new_value_field) = x" "vf_value16 (set_value_int16 y new_value_field) = y"
  "vf_value32 (set_value_int32 z new_value_field) = z" "vf_value64 (set_value_int64 w new_value_field) = w"
  "vf_valuebyte (set_value_vunit8 bs new_value_field) = Some bs"
  by (simp_all add: set_value_defs)

definition encodes_as :: "byte_order \<Rightarrow> field_type \<Rightarrow> value_field \<Rightarrow> bool \<Rightarrow> u8 list \<Rightarrow> bool" where
  "encodes_as H f v relay_f bs \<longleftrightarrow>
     encode H f v relay_f = Some bs \<and> int (length bs) = vf_length v \<and>
     (\<forall>rest. decode H f (bs @ rest) (length bs) relay_f = Ret v ())"

lemma int_coding_cases:
  assumes "ft_coding f = coding_int \<or> ft_coding f = coding_uint \<or> ft_coding f = coding_ntp"
  shows "encode H f v r = Some (fst (ipfix_encode_int H v r))" "decode H f bs n r = ipfix_decode_int H f bs n r"
  using assms by (auto simp: encode_def decode_def)

lemma int_value_encodes:
  assumes c: "ft_coding f = coding_int \<or> ft_coding f = coding_uint \<or> ft_coding f = coding_ntp"
    and v: "int_value f v \<or> wide_value f v"
  shows "\<exists>bs. encodes_as H f v r bs"
proof -
  from v consider (1) "ft_length f = 1" "v = set_value_int8 (vf_value8 v) new_value_field"
    | (2) "ft_length f = 2" "v = set_value_int16 (vf_value16 v) new_value_field"
    | (4) "ft_length f = 4" "v = set_value_int32 (vf_value32 v) new_value_field"
    | (8) "ft_length f = 8" "v = set_value_int64 (vf_value64 v) new_value_field"
    by (auto simp: int_value_def wide_value_def)
  then show ?thesis
  proof cases
    case 1
    define x where "x = vf_value8 v"
    with 1 have "v = set_value_int8 x new_value_field" by simp
    with 1(1) show ?thesis
      by (auto simp: encodes_as_def int_coding_cases [OF c] ipfix_encode_int_def ipfix_decode_int_def
          read_mem_def assign_value_def get_value_defs)
  next
    case 2
    define x where "x = vf_value16 v"
    with 2 have "v = set_value_int16 x new_value_field" by simp
    with 2(1) show ?thesis
      by (auto simp: encodes_as_def int_coding_cases [OF c] ipfix_encode_int_def ipfix_decode_int_def
          read_mem_def assign_value_def get_value_defs simp del: store_hton)
  next
    case 4
    define x where "x = vf_value32 v"
    with 4 have "v = set_value_int32 x new_value_field" by simp
    with 4(1) show ?thesis
      by (auto simp: encodes_as_def int_coding_cases [OF c] ipfix_encode_int_def ipfix_decode_int_def
          read_mem_def assign_value_def get_value_defs simp del: store_hton)
  next
    case 8
    define x where "x = vf_value64 v"
    with 8 have "v = set_value_int64 x new_value_field" by simp
    with 8(1) show ?thesis
      by (auto simp: encodes_as_def int_coding_cases [OF c] ipfix_encode_int_def ipfix_decode_int_def
          read_mem_def assign_value_def get_value_defs simp del: store_hton)
  qed
qed

lemma float_value_encodes:
  assumes c: "ft_coding f = coding_float" and v: "wide_value f v"
  shows "\<exists>bs. encodes_as H f v r bs"
proof -
  have e: "encode H f v r = Some (fst (ipfix_encode_float H v r))" "decode H f bs n r = ipfix_decode_float H f bs n r"
    for v bs n using c by (simp_all add: encode_def decode_def coding_defs)
  from v consider (4) "ft_length f = 4" "v = set_value_int32 (vf_value32 v) new_value_field"
    | (8) "ft_length f = 8" "v = set_value_int64 (vf_value64 v) new_value_field"
    by (auto simp: wide_value_def)
  then show ?thesis
  proof cases
    case 4
    define x where "x = vf_value32 v"
    with 4 have "v = set_value_int32 x new_value_field" by simp
    with 4(1) show ?thesis
      by (auto simp: encodes_as_def e ipfix_encode_float_def ipfix_decode_float_def
          read_mem_def assign_value_def get_value_defs simp del: store_hton)
  next
    case 8
    define x where "x = vf_value64 v"
    with 8 have "v = set_value_int64 x new_value_field" by simp
    with 8(1) show ?thesis
      by (auto simp: encodes_as_def e ipfix_encode_float_def ipfix_decode_float_def
          read_mem_def assign_value_def get_value_defs simp del: store_hton)
  qed
qed

lemma bytes_value_encodes:
  assumes c: "ft_coding f = coding_ipaddr \<or> ft_coding f = coding_bytes" and v: "bytes_value f v"
  shows "\<exists>bs. encodes_as H f v r bs"
proof -
  from v obtain bs where bs: "bs \<noteq> []" "v = set_value_vunit8 bs new_value_field"
    "ft_length f = int (length bs) \<or> ft_coding f = coding_bytes \<and> ft_length f = 65535"
    by (auto simp: bytes_value_def split: option.splits)
  with c have "encodes_as H f v r bs"
    by (auto simp: encodes_as_def encode_def decode_def coding_defs ipfix_encode_bytes_def
        ipfix_decode_bytes_def read_mem_def assign_value_def get_value_defs)
  then show ?thesis by blast
qed

lemma value_encodes:
  assumes "value_of_field f v"
  shows "\<exists>bs. encodes_as H f v r bs"
  using assms int_value_encodes float_value_encodes bytes_value_encodes
  by (auto simp: value_of_field_def split: if_splits)



end
