(* ===== verification/Xml_Reader.thy ===== *)
theory Xml_Reader
  imports Ipfix_Field Double_Arith
begin

text \<open>
  Reading the configuration files of the metering application (src/mnslp_xml_node_reader.cpp).
  The text reader of libxml2 is the record \<open>xml_ops\<close>: it is positioned at a node and moves to
  the next one in document order, an end tag being a node of its own. Its documented behaviour
  is \<open>xml_laws\<close>. The loops of the reader functions go on as long as a stored result is 1, so
  they are partial functions with \<open>None\<close> for a loop that does not end.
\<close>

section \<open>Numbers in a text\<close>

definition is_space :: "char \<Rightarrow> bool" where
  "is_space c \<longleftrightarrow> of_char c = (32 :: nat) \<or> of_char c \<in> {9 .. 13 :: nat}"

definition is_digit :: "char \<Rightarrow> bool" where
  "is_digit c \<longleftrightarrow> of_char c \<in> {48 .. 57 :: nat}"

definition digits_value :: "string \<Rightarrow> nat" where
  "digits_value s = fold (\<lambda>c n. 10 * n + (of_char c - 48)) s 0"

fun split_sign :: "string \<Rightarrow> bool \<times> string" where
  "split_sign [] = (False, [])"
| "split_sign (c # s) =
     (if c = CHR ''-'' then (True, s) else if c = CHR ''+'' then (False, s) else (False, c # s))"

text \<open>\<open>atoi\<close>; the value of a number that is no \<open>int\<close> is undefined (\<open>None\<close>).\<close>

definition atoi :: "string \<Rightarrow> int option" where
  "atoi s =
     (let (neg, ds) = split_sign (dropWhile is_space s);
          n = int (digits_value (takeWhile is_digit ds));
          v = (if neg then - n else n)
      in if - (2 ^ 31) \<le> v \<and> v < 2 ^ 31 then Some v else None)"

text \<open>
  \<open>atof\<close> on decimal numbers, rounded to nearest; hexadecimal numbers, infinities, NaNs and
  subnormal results are not distinguished.
\<close>

definition atof :: "string \<Rightarrow> rat" where
  "atof s =
     (let (neg, ds) = split_sign (dropWhile is_space s);
          whole = takeWhile is_digit ds;
          rest = dropWhile is_digit ds;
          frac = (case rest of [] \<Rightarrow> [] | c # cs \<Rightarrow> if c = CHR ''.'' then takeWhile is_digit cs else []);
          rest = (case rest of [] \<Rightarrow> [] | c # cs \<Rightarrow> if c = CHR ''.'' then dropWhile is_digit cs else rest);
          (neg_exp, ex) = (case rest of [] \<Rightarrow> (False, [])
            | c # cs \<Rightarrow> if c \<in> {CHR ''e'', CHR ''E''} then split_sign cs else (False, []));
          e = digits_value (takeWhile is_digit ex);
          q = of_nat (digits_value (whole @ frac)) / 10 ^ length frac;
          x = (if whole = [] \<and> frac = [] then 0 else if neg_exp then q / 10 ^ e else q * 10 ^ e)
      in (if neg then - dbl_round x else dbl_round x))"

section \<open>The text reader\<close>

record 'r xml_ops =
  xml_read :: "'r \<Rightarrow> int \<times> 'r"
  xml_depth :: "'r \<Rightarrow> int"
  xml_node_type :: "'r \<Rightarrow> int"
  xml_name :: "'r \<Rightarrow> string option"
  xml_value :: "'r \<Rightarrow> string option"
  xml_get_attribute :: "'r \<Rightarrow> string \<Rightarrow> string option"
  xml_is_valid :: "'r \<Rightarrow> int"

record xml_node =
  xn_depth :: nat
  xn_type :: int
  xn_name :: string
  xn_value :: "string option"
  xn_attributes :: "(string \<times> string) list"

text \<open>
  A reader as its current node, the nodes to come, the result of reading behind the last one
  (0, or -1 when the document is not well-formed), and that of the validation
\<close>

type_synonym xml_view = "xml_node option \<times> xml_node list \<times> int \<times> int"

definition xml_laws :: "'r xml_ops \<Rightarrow> ('r \<Rightarrow> xml_view) \<Rightarrow> bool" where
  "xml_laws X V \<longleftrightarrow>
     (\<forall>r c n ns e v. V r = (c, n # ns, e, v) \<longrightarrow> (\<exists>r'. xml_read X r = (1, r') \<and> V r' = (Some n, ns, e, v))) \<and>
     (\<forall>r c e v. V r = (c, [], e, v) \<longrightarrow> e \<noteq> 1 \<and> (\<exists>r'. xml_read X r = (e, r') \<and> V r' = (None, [], e, v))) \<and>
     (\<forall>r n ns e v. V r = (Some n, ns, e, v) \<longrightarrow>
        xml_depth X r = int (xn_depth n) \<and> xml_node_type X r = xn_type n \<and> xml_name X r = Some (xn_name n) \<and>
        xml_value X r = xn_value n \<and> xml_get_attribute X r = map_of (xn_attributes n)) \<and>
     (\<forall>r ns e v. V r = (None, ns, e, v) \<longrightarrow> xml_depth X r \<le> 0) \<and>
     (\<forall>r c e v. V r = (c, [], e, v) \<longrightarrow> xml_is_valid X r = v)"

text \<open>\<open>XML_READER_TYPE_ELEMENT\<close>, \<open>XML_READER_TYPE_TEXT\<close>\<close>

definition xml_element :: int where "xml_element = 1"
definition xml_text :: int where "xml_text = 3"

abbreviation configuration_error :: "string \<Rightarrow> exc" where
  "configuration_error m \<equiv> Policy_Rule_Installer_Error m sc_permanent_failure fail_configuration_failed"

section \<open>The node reader\<close>

partial_function (option) text_node_loop :: "'r xml_ops \<Rightarrow> int \<Rightarrow> int \<Rightarrow> 'r \<Rightarrow> (exc, string, 'r) result option" where
  [code]: "text_node_loop X level ret r =
     (if ret \<noteq> 1 then Some (Exn (configuration_error ''Configuration file does not parse'') r)
      else if xml_depth X r \<ge> level \<and> xml_node_type X r = xml_text \<and> xml_value X r \<noteq> None
      then Some (Ret (the (xml_value X r)) r)
      else if xml_depth X r < level
      then Some (Exn (configuration_error ''Export configuration file does not parse'') r)
      else (case xml_read X r of (ret, r) \<Rightarrow> text_node_loop X level ret r))"

definition process_text_node :: "'r xml_ops \<Rightarrow> int \<Rightarrow> 'r \<Rightarrow> (exc, string, 'r) result option" where
  "process_text_node X level r = (case xml_read X r of (ret, r) \<Rightarrow> text_node_loop X level ret r)"

definition process_attribute :: "'r xml_ops \<Rightarrow> string \<Rightarrow> 'r \<Rightarrow> (exc, string, 'r) result" where
  "process_attribute X attribute r =
     (case xml_get_attribute X r attribute of
        Some s \<Rightarrow> Ret s r
      | None \<Rightarrow> Exn (configuration_error ''Configuration file does not parse'') r)"

section \<open>Laws\<close>

lemma xml_readD:
  assumes "xml_laws X V"
  shows "V r = (c, n # ns, e, v) \<Longrightarrow> \<exists>r'. xml_read X r = (1, r') \<and> V r' = (Some n, ns, e, v)"
    and "V r = (c, [], e, v) \<Longrightarrow> e \<noteq> 1 \<and> (\<exists>r'. xml_read X r = (e, r') \<and> V r' = (None, [], e, v))"
proof -
  note l = assms [unfolded xml_laws_def]
  show "V r = (c, n # ns, e, v) \<Longrightarrow> \<exists>r'. xml_read X r = (1, r') \<and> V r' = (Some n, ns, e, v)"
    using l [THEN conjunct1] by blast
  show "V r = (c, [], e, v) \<Longrightarrow> e \<noteq> 1 \<and> (\<exists>r'. xml_read X r = (e, r') \<and> V r' = (None, [], e, v))"
    using l [THEN conjunct2, THEN conjunct1] by blast
qed

lemma xml_nodeD:
  assumes "xml_laws X V" and "V r = (Some n, ns, e, v)"
  shows "xml_depth X r = int (xn_depth n)" and "xml_node_type X r = xn_type n"
    and "xml_name X r = Some (xn_name n)" and "xml_value X r = xn_value n"
    and "xml_get_attribute X r = map_of (xn_attributes n)"
  using assms unfolding xml_laws_def by blast+

lemma xml_endD:
  assumes "xml_laws X V"
  shows "V r = (None, ns, e, v) \<Longrightarrow> xml_depth X r \<le> 0" and "V r = (c, [], e, v) \<Longrightarrow> xml_is_valid X r = v"
  using assms unfolding xml_laws_def by blast+

text \<open>The number of nodes to come, which every successful read decreases\<close>

definition nodes_left :: "('r \<Rightarrow> xml_view) \<Rightarrow> 'r \<Rightarrow> nat" where
  "nodes_left V r = length (fst (snd (V r)))"

lemma xml_read_cases:
  assumes "xml_laws X V" and "xml_read X r = (ret, r')"
  shows "ret = 1 \<and> Suc (nodes_left V r') = nodes_left V r \<or>
    ret \<noteq> 1 \<and> nodes_left V r' = 0 \<and> nodes_left V r = 0"
proof -
  obtain c ns e v where V: "V r = (c, ns, e, v)" using prod_cases4 by metis
  show ?thesis
  proof (cases ns)
    case Nil
    from xml_readD(2) [OF assms(1) V [unfolded Nil]] assms(2) show ?thesis
      using V Nil by (auto simp: nodes_left_def)
  next
    case (Cons n ns')
    from xml_readD(1) [OF assms(1) V [unfolded Cons]] assms(2) show ?thesis
      using V Cons by (auto simp: nodes_left_def)
  qed
qed

text \<open>Reading a text ends; it consumes nodes, and it returns or throws the error of the installer.\<close>

definition reading_ok :: "(nat \<Rightarrow> bool) \<Rightarrow> ('s \<Rightarrow> nat) \<Rightarrow> (exc, 'a, 's) result option \<Rightarrow> bool" where
  "reading_ok P left res \<longleftrightarrow>
     (case res of
        Some (Ret a s) \<Rightarrow> P (left s)
      | Some (Exn e s) \<Rightarrow> P (left s) \<and> (\<exists>m sv c. e = Policy_Rule_Installer_Error m sv c)
      | _ \<Rightarrow> False)"

lemma text_node_loop_ok:
  assumes X: "xml_laws X V"
  shows "reading_ok (\<lambda>k. k \<le> nodes_left V r) (nodes_left V) (text_node_loop X level ret r)"
proof (induction "nodes_left V r" arbitrary: ret r rule: less_induct)
  case less
  obtain ret' r' where rd: "xml_read X r = (ret', r')" by fastforce
  from xml_read_cases [OF X rd] show ?case
  proof (elim disjE conjE)
    assume "ret' = 1" "Suc (nodes_left V r') = nodes_left V r"
    then have "reading_ok (\<lambda>k. k \<le> nodes_left V r') (nodes_left V) (text_node_loop X level ret' r')"
      using less by simp
    then have "reading_ok (\<lambda>k. k \<le> nodes_left V r) (nodes_left V) (text_node_loop X level ret' r')"
      using \<open>Suc _ = _\<close> by (auto simp: reading_ok_def split: option.splits result.splits)
    then show ?case using rd by (subst text_node_loop.simps) (auto simp: reading_ok_def)
  next
    assume "ret' \<noteq> 1" "nodes_left V r' = 0" "nodes_left V r = 0"
    then have "reading_ok (\<lambda>k. k \<le> nodes_left V r) (nodes_left V) (text_node_loop X level ret' r')"
      by (subst text_node_loop.simps) (simp add: reading_ok_def)
    then show ?case using rd by (subst text_node_loop.simps) (auto simp: reading_ok_def)
  qed
qed

lemma process_text_node_ok:
  assumes X: "xml_laws X V"
  shows "reading_ok (\<lambda>k. k \<le> nodes_left V r) (nodes_left V) (process_text_node X level r)"
proof -
  obtain ret r' where rd: "xml_read X r = (ret, r')" by fastforce
  then have "nodes_left V r' \<le> nodes_left V r" using xml_read_cases [OF X rd] by auto
  then show ?thesis
    using text_node_loop_ok [OF X, of r' level ret] rd
    by (auto simp: process_text_node_def reading_ok_def split: option.splits result.splits)
qed

text \<open>The text right behind an element's start is the text that is read.\<close>

lemma process_text_node_at:
  assumes X: "xml_laws X V" and V: "V r = (c, n # ns, e, v)"
    and n: "xn_type n = xml_text" "xn_value n = Some s" "level \<le> int (xn_depth n)"
  shows "\<exists>r'. process_text_node X level r = Some (Ret s r') \<and> V r' = (Some n, ns, e, v)"
proof -
  obtain r' where r': "xml_read X r = (1, r')" "V r' = (Some n, ns, e, v)"
    using xml_readD(1) [OF X V] by blast
  then show ?thesis
    using n xml_nodeD [OF X r'(2)] by (simp add: process_text_node_def text_node_loop.simps)
qed

section \<open>A reader on a list of nodes\<close>

definition list_xml_view :: "xml_view \<Rightarrow> xml_view" where
  "list_xml_view = (\<lambda>(c, ns, e, v). (c, ns, if e = 1 then 0 else e, v))"

definition list_xml :: "xml_view xml_ops" where
  "list_xml =
     \<lparr>xml_read = (\<lambda>(c, ns, e, v). case ns of n # ns \<Rightarrow> (1, (Some n, ns, e, v))
        | [] \<Rightarrow> (if e = 1 then 0 else e, (None, [], e, v))),
      xml_depth = (\<lambda>(c, ns, e, v). case c of Some n \<Rightarrow> int (xn_depth n) | None \<Rightarrow> 0),
      xml_node_type = (\<lambda>(c, ns, e, v). case c of Some n \<Rightarrow> xn_type n | None \<Rightarrow> 0),
      xml_name = (\<lambda>(c, ns, e, v). map_option xn_name c),
      xml_value = (\<lambda>(c, ns, e, v). case c of Some n \<Rightarrow> xn_value n | None \<Rightarrow> None),
      xml_get_attribute = (\<lambda>(c, ns, e, v) a. case c of Some n \<Rightarrow> map_of (xn_attributes n) a | None \<Rightarrow> None),
      xml_is_valid = (\<lambda>(c, ns, e, v). v)\<rparr>"

lemma list_xml_laws: "xml_laws list_xml list_xml_view"
  by (auto simp: xml_laws_def list_xml_def list_xml_view_def split: prod.splits)

section \<open>Printed numbers\<close>

lemma of_char_digit:
  assumes "n < 10"
  shows "of_char (show_digit n) = 48 + n"
proof -
  have "\<forall>n \<in> {0, 1, 2, 3, 4, 5, 6, 7, 8, 9 :: nat}. of_char (show_digit n) = 48 + n"
    by (simp add: show_digit_def)
  moreover have "n \<in> {0, 1, 2, 3, 4, 5, 6, 7, 8, 9 :: nat}" using assms by auto
  ultimately show ?thesis by blast
qed

lemma digits_value_append: "digits_value (s @ [c]) = 10 * digits_value s + (of_char c - 48)"
  by (simp add: digits_value_def)

lemma show_base_digits:
  "list_all is_digit (show_base 10 n) \<and> show_base 10 n \<noteq> [] \<and> digits_value (show_base 10 n) = n"
proof (induction n rule: less_induct)
  case (less n)
  show ?case
  proof (cases "n < 10")
    case True
    then show ?thesis
      by (simp add: show_base.simps [of 10 n] is_digit_def of_char_digit digits_value_def)
  next
    case False
    then have "show_base 10 n = show_base 10 (n div 10) @ [show_digit (n mod 10)]"
      by (simp add: show_base.simps [of 10 n])
    moreover have "n div 10 < n" using False by simp
    ultimately show ?thesis
      using less.IH [of "n div 10"] by (simp add: digits_value_append is_digit_def of_char_digit)
  qed
qed

lemma takeWhile_digits: "list_all is_digit s \<Longrightarrow> takeWhile is_digit s = s"
  by (simp add: takeWhile_eq_all_conv list_all_iff)

lemma digit_no_space: "is_digit c \<Longrightarrow> \<not> is_space c \<and> c \<noteq> CHR ''-'' \<and> c \<noteq> CHR ''+''"
  by (auto simp: is_digit_def is_space_def)

lemma atoi_show_int:
  assumes "- (2 ^ 31) \<le> i" and "i < 2 ^ 31"
  shows "atoi (show_int i) = Some i"
proof (cases "i < 0")
  case True
  then show ?thesis
    using assms show_base_digits [of "nat (- i)"]
    by (simp add: show_int_def atoi_def takeWhile_digits is_space_def)
next
  case False
  obtain c s where s: "show_base 10 (nat i) = c # s" "is_digit c"
    using show_base_digits [of "nat i"] by (cases "show_base 10 (nat i)") auto
  then show ?thesis
    using False assms show_base_digits [of "nat i"] digit_no_space [OF s(2)]
    by (simp add: show_int_def atoi_def takeWhile_digits del: takeWhile.simps)
qed

section \<open>Sequencing\<close>

text \<open>A function that may also not end, and one whose state is a part of the caller's\<close>

fun o_bind :: "('e, 'a, 's) result option \<Rightarrow> ('a \<Rightarrow> 's \<Rightarrow> ('e, 'b, 's) result option) \<Rightarrow>
    ('e, 'b, 's) result option" where
  "o_bind None f = None"
| "o_bind (Some (Ret a s)) f = f a s"
| "o_bind (Some (Exn e s)) f = Some (Exn e s)"
| "o_bind (Some Abort) f = Some Abort"
| "o_bind (Some Undef) f = Some Undef"

definition lift_state :: "('s \<Rightarrow> 't) \<Rightarrow> ('e, 'a, 's) result \<Rightarrow> ('e, 'a, 't) result" where
  "lift_state f = map_result id id f"

lemma lift_state_simps [simp]:
  "lift_state f (Ret a s) = Ret a (f s)" "lift_state f (Exn e s) = Exn e (f s)"
  "lift_state f Abort = Abort" "lift_state f Undef = Undef"
  by (simp_all add: lift_state_def)

section \<open>Outcomes of reading\<close>

text \<open>
  A function that ends: it returns with \<open>P\<close>, throws the error of the installer, or is undefined;
  no assertion fails.
\<close>

definition outcome :: "('a \<Rightarrow> 's \<Rightarrow> bool) \<Rightarrow> (exc, 'a, 's) result option \<Rightarrow> bool" where
  "outcome P res \<longleftrightarrow>
     (case res of
        Some (Ret a s) \<Rightarrow> P a s
      | Some (Exn e s) \<Rightarrow> \<exists>t sv c. e = Policy_Rule_Installer_Error t sv c
      | Some Undef \<Rightarrow> True
      | _ \<Rightarrow> False)"

lemma outcome_simps [simp]:
  "\<not> outcome P None" "outcome P (Some (Ret a s)) \<longleftrightarrow> P a s" "\<not> outcome P (Some Abort)"
  "outcome P (Some Undef)" "outcome P (Some (Exn e s)) \<longleftrightarrow> (\<exists>t sv c. e = Policy_Rule_Installer_Error t sv c)"
  by (simp_all add: outcome_def)

lemma outcome_cases:
  assumes "outcome P res"
  obtains (Ret) a s where "res = Some (Ret a s)" "P a s"
    | (Exn) t sv c s where "res = Some (Exn (Policy_Rule_Installer_Error t sv c) s)"
    | (Undef) "res = Some Undef"
  using assms by (auto simp: outcome_def split: option.splits result.splits)

lemma outcome_mono: "outcome P res \<Longrightarrow> (\<And>a s. P a s \<Longrightarrow> Q a s) \<Longrightarrow> outcome Q res"
  by (erule outcome_cases) auto

lemma outcome_bind: "outcome P res \<Longrightarrow> (\<And>a s. P a s \<Longrightarrow> outcome Q (f a s)) \<Longrightarrow> outcome Q (o_bind res f)"
  by (erule outcome_cases) auto

lemma outcome_lift: "outcome (\<lambda>a s. P a (g s)) res \<Longrightarrow> outcome P (map_option (lift_state g) res)"
  by (erule outcome_cases) auto

lemma outcome_r_bind:
  "outcome P (Some res) \<Longrightarrow> (\<And>a s. P a s \<Longrightarrow> outcome Q (Some (f a s))) \<Longrightarrow> outcome Q (Some (r_bind res f))"
  by (cases res) auto

lemma outcome_attribute: "outcome (\<lambda>s r'. r' = r) (Some (process_attribute X a r))"
  by (simp add: process_attribute_def split: option.split)

lemma outcome_text_node:
  assumes "xml_laws X V"
  shows "outcome (\<lambda>s r'. nodes_left V r' \<le> nodes_left V r) (process_text_node X level r)"
  using process_text_node_ok [OF assms, of r level]
  by (auto simp: reading_ok_def split: option.splits result.splits)

end
