(* ===== verification/Policy_Mapping.thy ===== *)
theory Policy_Mapping
  imports Xml_Reader Std_Map "HOL-Library.List_Lexorder" "HOL-Library.Char_ord"
begin

text \<open>
  What the metering application can do with a field (src/policy_field_mapping.cpp,
  src/policy_application_configuration_container.cpp), and reading it from the configuration
  file. The fields of a mapping are in a \<open>std::map\<close> with pointers as keys, so that its order
  is that of the addresses; no two of its keys are equal as fields (\<open>mapping_wf\<close>), and
  \<open>find_field_order\<close> shows that the order has no effect. The list has the order of insertion.
\<close>

interpretation str: keyed_order "(<) :: string \<Rightarrow> string \<Rightarrow> bool" "\<lambda>s. s"
  by unfold_locales simp

section \<open>Mappings\<close>

record app_field_mapping =
  af_configuration :: bool
  af_filter :: bool
  af_export :: bool
  af_key :: string

definition application_field_mapping :: "string \<Rightarrow> string \<Rightarrow> string \<Rightarrow> string \<Rightarrow>
    (exc, app_field_mapping, unit) result" where
  "application_field_mapping configuration filt exporting application_key =
     (let c = (configuration = ''true''); f = (filt = ''true''); e = (exporting = ''true'')
      in if c \<and> \<not> f \<and> \<not> e
         then Ret \<lparr>af_configuration = c, af_filter = f, af_export = e, af_key = ''''\<rparr> ()
         else if application_key \<noteq> ''NoTraslation''
         then Ret \<lparr>af_configuration = c, af_filter = f, af_export = e, af_key = application_key\<rparr> ()
         else Exn (configuration_error ''Field bad configured'') ())"

definition app_field_equal :: "app_field_mapping \<Rightarrow> app_field_mapping \<Rightarrow> bool" where
  "app_field_equal a b \<longleftrightarrow>
     af_configuration a = af_configuration b \<and> af_filter a = af_filter b \<and>
     af_export a = af_export b \<and> af_key a = af_key b"

record policy_field_mapping =
  fm_fields :: "(field_key \<times> app_field_mapping) list"
  fm_application :: string

definition new_field_mapping :: policy_field_mapping where
  "new_field_mapping = \<lparr>fm_fields = [], fm_application = ''''\<rparr>"

fun find_field :: "field_key \<Rightarrow> (field_key \<times> app_field_mapping) list \<Rightarrow> app_field_mapping option" where
  "find_field k [] = None"
| "find_field k ((k', f) # fs) = (if field_key_equal k' k then Some f else find_field k fs)"

text \<open>\<open>None\<close>: the exception that the field is not there. A field that is there is not replaced.\<close>

definition mapping_get_field :: "field_key \<Rightarrow> 'a policy_field_mapping_scheme \<Rightarrow> app_field_mapping option" where
  "mapping_get_field k m = find_field k (fm_fields m)"

definition mapping_set_field :: "field_key \<Rightarrow> app_field_mapping \<Rightarrow> 'a policy_field_mapping_scheme \<Rightarrow>
    'a policy_field_mapping_scheme" where
  "mapping_set_field k f m =
     (case mapping_get_field k m of
        Some _ \<Rightarrow> m
      | None \<Rightarrow> m\<lparr>fm_fields := fm_fields m @ [(k, f)]\<rparr>)"

definition field_mapping_equal :: "'a policy_field_mapping_scheme \<Rightarrow> 'a policy_field_mapping_scheme \<Rightarrow> bool" where
  "field_mapping_equal a b \<longleftrightarrow>
     fm_application a = fm_application b \<and>
     list_all (\<lambda>(k, f). case mapping_get_field k b of None \<Rightarrow> False | Some g \<Rightarrow> app_field_equal f g)
       (fm_fields a)"

definition mapping_check_field :: "field_type \<Rightarrow> 'a policy_field_mapping_scheme \<Rightarrow> bool" where
  "mapping_check_field f m \<longleftrightarrow> find_field (get_field_key f) (fm_fields m) \<noteq> None"

definition mapping_field_traslate :: "field_type \<Rightarrow> 'a policy_field_mapping_scheme \<Rightarrow> string" where
  "mapping_field_traslate f m =
     (case find_field (get_field_key f) (fm_fields m) of None \<Rightarrow> '''' | Some a \<Rightarrow> af_key a)"

definition mapping_is_configuration :: "field_type \<Rightarrow> 'a policy_field_mapping_scheme \<Rightarrow> bool" where
  "mapping_is_configuration f m =
     (case find_field (get_field_key f) (fm_fields m) of None \<Rightarrow> False | Some a \<Rightarrow> af_configuration a)"

definition mapping_is_filter :: "field_type \<Rightarrow> 'a policy_field_mapping_scheme \<Rightarrow> bool" where
  "mapping_is_filter f m =
     (case find_field (get_field_key f) (fm_fields m) of None \<Rightarrow> False | Some a \<Rightarrow> af_filter a)"

definition mapping_is_export :: "field_type \<Rightarrow> 'a policy_field_mapping_scheme \<Rightarrow> bool" where
  "mapping_is_export f m =
     (case find_field (get_field_key f) (fm_fields m) of None \<Rightarrow> False | Some a \<Rightarrow> af_export a)"

section \<open>The mappings of all applications\<close>

type_synonym app_container = "(string, policy_field_mapping) smap"

text \<open>\<open>insert\<close>: an application that is there keeps its mapping.\<close>

definition set_application :: "string \<Rightarrow> policy_field_mapping \<Rightarrow> app_container \<Rightarrow> app_container" where
  "set_application key m c = smap_insert (<) key m c"

definition app_container_equal :: "app_container \<Rightarrow> app_container \<Rightarrow> bool" where
  "app_container_equal a b \<longleftrightarrow>
     list_all (\<lambda>(k, m). case smap_find (<) k b of None \<Rightarrow> False | Some n \<Rightarrow> field_mapping_equal m n) a"

definition app_check_field :: "string \<Rightarrow> field_type \<Rightarrow> app_container \<Rightarrow> bool" where
  "app_check_field app f c = (case map_of c app of None \<Rightarrow> False | Some m \<Rightarrow> mapping_check_field f m)"

definition app_field_traslate :: "string \<Rightarrow> field_type \<Rightarrow> app_container \<Rightarrow> string" where
  "app_field_traslate app f c = (case map_of c app of None \<Rightarrow> '''' | Some m \<Rightarrow> mapping_field_traslate f m)"

definition app_is_configuration_field :: "string \<Rightarrow> field_type \<Rightarrow> app_container \<Rightarrow> bool" where
  "app_is_configuration_field app f c =
     (case map_of c app of None \<Rightarrow> False | Some m \<Rightarrow> mapping_is_configuration f m)"

definition app_is_filter_field :: "string \<Rightarrow> field_type \<Rightarrow> app_container \<Rightarrow> bool" where
  "app_is_filter_field app f c = (case map_of c app of None \<Rightarrow> False | Some m \<Rightarrow> mapping_is_filter f m)"

definition app_is_export_field :: "string \<Rightarrow> field_type \<Rightarrow> app_container \<Rightarrow> bool" where
  "app_is_export_field app f c = (case map_of c app of None \<Rightarrow> False | Some m \<Rightarrow> mapping_is_export f m)"

section \<open>Reading the configuration file\<close>

definition num_attribute :: "'r xml_ops \<Rightarrow> string \<Rightarrow> 'r \<Rightarrow> (exc, int, 'r) result" where
  "num_attribute X attribute r =
     r_bind (process_attribute X attribute r) (\<lambda>s r. deref (atoi s) (\<lambda>i. Ret i r))"

definition field_key_node :: "'r xml_ops \<Rightarrow> 'r \<Rightarrow> (exc, field_key, 'r) result" where
  "field_key_node X r =
     r_bind (num_attribute X ''ENO'' r) (\<lambda>eno r.
     r_bind (num_attribute X ''FIELDTYPE'' r) (\<lambda>field_type r.
     r_bind (process_attribute X ''NAME'' r) (\<lambda>name_field r.
     Ret \<lparr>fk_eno = eno, fk_ftype = field_type\<rparr> r)))"

definition field_node :: "'r xml_ops \<Rightarrow> int \<Rightarrow> 'r \<Rightarrow> (exc, field_key \<times> app_field_mapping, 'r) result option" where
  "field_node X level r =
     o_bind (Some (field_key_node X r)) (\<lambda>key r.
     o_bind (Some (process_attribute X ''CONFIGURATION'' r)) (\<lambda>configuration r.
     o_bind (Some (process_attribute X ''FILTER'' r)) (\<lambda>filt r.
     o_bind (Some (process_attribute X ''EXPORT'' r)) (\<lambda>exp r.
     o_bind (process_text_node X (level + 1) r) (\<lambda>field_map r.
     o_bind (Some (lift_state (\<lambda>_. r) (application_field_mapping configuration filt exp field_map))) (\<lambda>a r.
     Some (Ret (key, a) r)))))))"

definition process_node :: "'r xml_ops \<Rightarrow> int \<Rightarrow> policy_field_mapping \<Rightarrow> 'r \<Rightarrow>
    (exc, unit, policy_field_mapping \<times> 'r) result option" where
  "process_node X level m r =
     (if xml_name X r = Some ''FIELD''
      then o_bind (map_option (lift_state (Pair m)) (field_node X level r)) (\<lambda>(k, a) (m, r).
             Some (Ret () (mapping_set_field k a m, r)))
      else Some (Ret () (m, r)))"

text \<open>
  The function returns when it comes to a node above its level; where the reader fails or ends
  before, it ends without \<open>return\<close>, which is the result \<open>None\<close>.
\<close>

partial_function (option) field_mapping_loop :: "'r xml_ops \<Rightarrow> int \<Rightarrow> int \<Rightarrow> policy_field_mapping \<Rightarrow> 'r \<Rightarrow>
    (exc, int option, policy_field_mapping \<times> 'r) result option" where
  [code]: "field_mapping_loop X level ret m r =
     (if ret \<noteq> 1 then Some (Ret None (m, r))
      else if xml_depth X r \<ge> level \<and> xml_node_type X r = xml_element
      then (case process_node X level m r of
              None \<Rightarrow> None
            | Some (Ret u (m, r)) \<Rightarrow> (case xml_read X r of (ret, r) \<Rightarrow> field_mapping_loop X level ret m r)
            | Some (Exn e s) \<Rightarrow> Some (Exn e s)
            | Some Abort \<Rightarrow> Some Abort
            | Some Undef \<Rightarrow> Some Undef)
      else if xml_depth X r < level then Some (Ret (Some ret) (m, r))
      else (case xml_read X r of (ret, r) \<Rightarrow> field_mapping_loop X level ret m r))"

definition field_mapping_read :: "'r xml_ops \<Rightarrow> int \<Rightarrow> policy_field_mapping \<Rightarrow> 'r \<Rightarrow>
    (exc, int option, policy_field_mapping \<times> 'r) result option" where
  "field_mapping_read X level m r =
     (if xml_depth X r = level
      then o_bind (Some (lift_state (Pair m) (process_attribute X ''ID'' r))) (\<lambda>metering_app (m, r).
             case xml_read X r of (ret, r) \<Rightarrow>
               field_mapping_loop X (level + 1) ret (m\<lparr>fm_application := metering_app\<rparr>) r)
      else Some (Exn (configuration_error ''Configuration file does not parse'') (m, r)))"

partial_function (option) app_container_loop :: "'r xml_ops \<Rightarrow> int \<Rightarrow> app_container \<Rightarrow> 'r \<Rightarrow>
    (exc, int, app_container \<times> 'r) result option" where
  [code]: "app_container_loop X ret c r =
     (if ret \<noteq> 1 then Some (Ret ret (c, r))
      else if xml_depth X r = 1 \<and> xml_node_type X r = xml_element
      then (case field_mapping_read X 1 new_field_mapping r of
              None \<Rightarrow> None
            | Some (Ret None s) \<Rightarrow> Some Undef
            | Some (Ret (Some ret) (m, r)) \<Rightarrow> app_container_loop X ret (set_application (fm_application m) m c) r
            | Some (Exn e (m, r)) \<Rightarrow> Some (Exn e (c, r))
            | Some Abort \<Rightarrow> Some Abort
            | Some Undef \<Rightarrow> Some Undef)
      else (case xml_read X r of (ret, r) \<Rightarrow> app_container_loop X ret c r))"

text \<open>Behind the loop of a container: the document has to be valid and read to its end.\<close>

definition finish_reading :: "'r xml_ops \<Rightarrow> int \<Rightarrow> 'c \<times> 'r \<Rightarrow> (exc, unit, 'c \<times> 'r) result" where
  "finish_reading X ret s =
     (if xml_is_valid X (snd s) \<noteq> 1
      then Exn (configuration_error ''Export configuration file does not validate'') s
      else if ret \<noteq> 0
      then Exn (configuration_error ''Export configuration file does not parse'') s
      else Ret () s)"

definition app_container_read :: "'r xml_ops \<Rightarrow> app_container \<Rightarrow> 'r \<Rightarrow>
    (exc, unit, app_container \<times> 'r) result option" where
  "app_container_read X c r =
     (case xml_read X r of (ret, r) \<Rightarrow>
        o_bind (app_container_loop X ret c r) (\<lambda>ret s. Some (finish_reading X ret s)))"

section \<open>Laws of mappings\<close>

lemma field_key_equal_eq: "field_key_equal a b \<longleftrightarrow> a = b"
  by (cases a; cases b) (simp add: field_key_equal_def)

lemma find_field_map_of: "find_field k fs = map_of fs k"
  by (induction fs) (auto simp: field_key_equal_eq)

definition mapping_wf :: "'a policy_field_mapping_scheme \<Rightarrow> bool" where
  "mapping_wf m \<longleftrightarrow> distinct (map fst (fm_fields m))"

lemma mapping_wf_new [simp]: "mapping_wf new_field_mapping"
  by (simp add: mapping_wf_def new_field_mapping_def)

lemma mapping_wf_set_field:
  assumes "mapping_wf m"
  shows "mapping_wf (mapping_set_field k f m)"
  using assms by (auto simp: mapping_wf_def mapping_set_field_def mapping_get_field_def find_field_map_of
      map_of_eq_None_iff split: option.split)

lemma mapping_wf_application [simp]: "mapping_wf (m\<lparr>fm_application := s\<rparr>) \<longleftrightarrow> mapping_wf m"
  by (simp add: mapping_wf_def)

text \<open>The order of the fields, which is that of their addresses, has no effect.\<close>

lemma find_field_order:
  assumes "distinct (map fst fs)" and "distinct (map fst gs)" and "set fs = set gs"
  shows "find_field k fs = find_field k gs"
  using assms map_of_inject_set [of fs gs] by (simp add: find_field_map_of)

lemma mapping_set_field_get:
  "mapping_get_field k' (mapping_set_field k f m) =
     (if k' = k \<and> mapping_get_field k m = None then Some f else mapping_get_field k' m)"
  by (auto simp: mapping_set_field_def mapping_get_field_def find_field_map_of map_add_Some_iff map_add_def
      split: option.split)

text \<open>New fields in order, old ones kept\<close>

lemma fold_set_field:
  assumes "mapping_wf m" and "distinct (map fst fs)" and "fst ` set fs \<inter> fst ` set (fm_fields m) = {}"
  shows "fold (\<lambda>(k, f). mapping_set_field k f) fs m = m\<lparr>fm_fields := fm_fields m @ fs\<rparr>"
  using assms
proof (induction fs arbitrary: m)
  case Nil
  then show ?case by simp
next
  case (Cons p fs)
  obtain k f where p: "p = (k, f)" by (cases p)
  have "map_of (fm_fields m) k = None" using Cons.prems(3) p by (auto simp: map_of_eq_None_iff)
  then have "mapping_set_field k f m = m\<lparr>fm_fields := fm_fields m @ [(k, f)]\<rparr>"
    by (simp add: mapping_set_field_def mapping_get_field_def find_field_map_of)
  moreover have "mapping_wf (mapping_set_field k f m)" by (rule mapping_wf_set_field [OF Cons.prems(1)])
  ultimately show ?case
    using Cons.IH [of "m\<lparr>fm_fields := fm_fields m @ [(k, f)]\<rparr>"] Cons.prems p by auto
qed

section \<open>Reading ends\<close>

lemma outcome_num_attribute: "outcome (\<lambda>i r'. r' = r) (Some (num_attribute X a r))"
  unfolding num_attribute_def
  by (rule outcome_r_bind [OF outcome_attribute]) (auto simp: deref_def split: option.split)

lemma outcome_field_key_node: "outcome (\<lambda>k r'. r' = r) (Some (field_key_node X r))"
  unfolding field_key_node_def
  by (intro outcome_r_bind [OF outcome_num_attribute] outcome_r_bind [OF outcome_attribute]) auto

lemma outcome_application_field_mapping:
  "outcome (\<lambda>a s. s = t) (Some (lift_state (\<lambda>_. t) (application_field_mapping c f e k)))"
  by (simp add: application_field_mapping_def Let_def)

lemma outcome_field_node:
  assumes "xml_laws X V"
  shows "outcome (\<lambda>p r'. nodes_left V r' \<le> nodes_left V r) (field_node X level r)"
  unfolding field_node_def
  by (intro outcome_bind [OF outcome_field_key_node] outcome_bind [OF outcome_attribute]
      outcome_bind [OF outcome_text_node [OF assms]] outcome_bind [OF outcome_application_field_mapping]) simp

lemma outcome_process_node:
  assumes "xml_laws X V" and "mapping_wf m"
  shows "outcome (\<lambda>u (m', r'). mapping_wf m' \<and> nodes_left V r' \<le> nodes_left V r) (process_node X level m r)"
proof (cases "xml_name X r = Some ''FIELD''")
  case True
  have "outcome (\<lambda>p (m', r'). m' = m \<and> nodes_left V r' \<le> nodes_left V r)
      (map_option (lift_state (Pair m)) (field_node X level r))"
    by (rule outcome_lift) (rule outcome_mono [OF outcome_field_node [OF assms(1)]], simp)
  then have "outcome (\<lambda>u (m', r'). mapping_wf m' \<and> nodes_left V r' \<le> nodes_left V r)
      (o_bind (map_option (lift_state (Pair m)) (field_node X level r))
        (\<lambda>(k, a) (m, r). Some (Ret () (mapping_set_field k a m, r))))"
    by (rule outcome_bind) (auto simp: mapping_wf_set_field [OF assms(2)])
  then show ?thesis using True by (simp add: process_node_def)
qed (simp add: process_node_def assms)

text \<open>What a function that reads a mapping returns: 1, or nothing at all\<close>

definition mapping_read :: "('r \<Rightarrow> xml_view) \<Rightarrow> 'r \<Rightarrow> int option \<Rightarrow> 'a policy_field_mapping_scheme \<times> 'r \<Rightarrow> bool" where
  "mapping_read V r ret s \<longleftrightarrow>
     ret \<in> {None, Some 1} \<and> mapping_wf (fst s) \<and> nodes_left V (snd s) \<le> nodes_left V r"

lemma outcome_field_mapping_loop:
  assumes X: "xml_laws X V"
  shows "mapping_wf m \<Longrightarrow> outcome (mapping_read V r) (field_mapping_loop X level ret m r)"
proof (induction "nodes_left V r" arbitrary: ret m r rule: less_induct)
  case less
  have step: "outcome (mapping_read V r) (case xml_read X r1 of (ret, r) \<Rightarrow> field_mapping_loop X level ret m1 r)"
    if "nodes_left V r1 \<le> nodes_left V r" "mapping_wf m1" for r1 m1
  proof -
    obtain ret' r' where rd: "xml_read X r1 = (ret', r')" by fastforce
    from xml_read_cases [OF X rd] have "outcome (mapping_read V r) (field_mapping_loop X level ret' m1 r')"
    proof (elim disjE conjE)
      assume l: "ret' = 1" "Suc (nodes_left V r') = nodes_left V r1"
      with that less.hyps [of r' m1 ret'] have "outcome (mapping_read V r') (field_mapping_loop X level ret' m1 r')"
        by simp
      then show ?thesis by (rule outcome_mono) (use l that in \<open>auto simp: mapping_read_def\<close>)
    next
      assume "ret' \<noteq> 1" "nodes_left V r' = 0"
      then show ?thesis using that by (subst field_mapping_loop.simps) (simp add: mapping_read_def)
    qed
    then show ?thesis by (simp add: rd)
  qed
  from outcome_process_node [OF X less.prems, of r level] show ?case
  proof (cases rule: outcome_cases)
    case (Ret u s)
    then show ?thesis
      using step less.prems by (subst field_mapping_loop.simps) (auto simp: mapping_read_def)
  qed (use step less.prems in \<open>(subst field_mapping_loop.simps, auto simp: mapping_read_def)+\<close>)
qed

lemma outcome_field_mapping_read:
  assumes X: "xml_laws X V" and m: "mapping_wf m"
  shows "outcome (\<lambda>ret s. mapping_read V r ret s \<and> (ret \<noteq> None \<longrightarrow> nodes_left V (snd s) < nodes_left V r))
    (field_mapping_read X level m r)"
proof (cases "xml_depth X r = level")
  case True
  have "outcome (\<lambda>s s'. s' = (m, r)) (Some (lift_state (Pair m) (process_attribute X ''ID'' r)))"
    by (simp add: process_attribute_def split: option.split)
  moreover obtain ret' r' where rd: "xml_read X r = (ret', r')" by fastforce
  moreover have "outcome (\<lambda>ret s. mapping_read V r ret s \<and> (ret \<noteq> None \<longrightarrow> nodes_left V (snd s) < nodes_left V r))
      (field_mapping_loop X (level + 1) ret' (m\<lparr>fm_application := app\<rparr>) r')" for app
    using xml_read_cases [OF X rd]
  proof (elim disjE conjE)
    assume l: "ret' = 1" "Suc (nodes_left V r') = nodes_left V r"
    have "mapping_wf (m\<lparr>fm_application := app\<rparr>)" using m by simp
    from outcome_field_mapping_loop [OF X this, of r' "level + 1" ret'] show ?thesis
      by (rule outcome_mono) (use l in \<open>auto simp: mapping_read_def\<close>)
  next
    assume "ret' \<noteq> 1" "nodes_left V r' = 0"
    then show ?thesis using m by (subst field_mapping_loop.simps) (simp add: mapping_read_def)
  qed
  ultimately show ?thesis
    unfolding field_mapping_read_def using True by (auto intro: outcome_bind)
qed (simp add: field_mapping_read_def)

section \<open>The container\<close>

lemma str_equiv: "equiv_key (<) s t \<longleftrightarrow> s = (t :: string)"
  by (simp add: str.equiv_num)

lemma str_find_map_of: "smap_find (<) k m = map_of m (k :: string)"
  by (induction m) (auto simp: str_equiv)

lemma str_set_subset: "set (smap_set (<) (k :: string) v m) \<subseteq> insert (k, v) (set m)"
proof (induction m)
  case (Cons p m)
  obtain a b where p: "p = (a, b)" by (cases p)
  show ?case
  proof (cases "k < a \<or> a < k")
    case True
    then show ?thesis using Cons p by auto
  next
    case False
    then have "a = k" using linorder_less_linear [of a k] by blast
    then show ?thesis using p by auto
  qed
qed simp

definition app_container_wf :: "app_container \<Rightarrow> bool" where
  "app_container_wf c \<longleftrightarrow> smap_wf (<) c \<and> (\<forall>(k, m) \<in> set c. fm_application m = k \<and> mapping_wf m)"

lemma app_container_wf_Nil [simp]: "app_container_wf []"
  by (simp add: app_container_wf_def)

lemma app_container_wf_set:
  assumes "app_container_wf c" and "mapping_wf m"
  shows "app_container_wf (set_application (fm_application m) m c)"
  using assms str_set_subset [of "fm_application m" m c]
  by (auto simp: app_container_wf_def set_application_def str.wf_set smap_insert_def split: option.split)

lemma set_application_find:
  assumes "app_container_wf c"
  shows "map_of (set_application k m c) j =
    (if j = k \<and> map_of c k = None then Some m else map_of c j)"
  using assms
  by (auto simp: app_container_wf_def set_application_def smap_insert_def str.find_set str_equiv
      simp flip: str_find_map_of split: option.split)

lemma outcome_app_container_loop:
  assumes X: "xml_laws X V"
  shows "app_container_wf c \<Longrightarrow> ret = 1 \<or> nodes_left V r = 0 \<Longrightarrow>
    outcome (\<lambda>ret (c, r). app_container_wf c \<and> nodes_left V r = 0) (app_container_loop X ret c r)"
    (is "_ \<Longrightarrow> _ \<Longrightarrow> outcome ?P _")
proof (induction "nodes_left V r" arbitrary: ret c r rule: less_induct)
  case less
  show ?case
  proof (cases "ret = 1")
    case one: True
    show ?thesis
    proof (cases "xml_depth X r = 1 \<and> xml_node_type X r = xml_element")
      case True
      have "outcome (\<lambda>ret s. mapping_read V r ret s \<and> (ret \<noteq> None \<longrightarrow> nodes_left V (snd s) < nodes_left V r))
          (field_mapping_read X 1 new_field_mapping r)"
        by (rule outcome_field_mapping_read [OF X]) simp
      then show ?thesis
      proof (cases rule: outcome_cases)
        case (Ret ret' s)
        obtain m r' where s: "s = (m, r')" by (cases s)
        have "outcome ?P (app_container_loop X 1 (set_application (fm_application m) m c) r')" if "ret' \<noteq> None"
          using less.hyps [of r' "set_application (fm_application m) m c" 1] Ret(2) that s
            app_container_wf_set [OF less.prems(1)] by (simp add: mapping_read_def)
        then show ?thesis
          using one True Ret s by (subst app_container_loop.simps) (auto simp: mapping_read_def)
      next
        case (Exn t sv co s)
        then show ?thesis
          using one True by (cases s) (subst app_container_loop.simps, simp)
      qed (use one True in \<open>subst app_container_loop.simps, simp\<close>)
    next
      case False
      obtain ret' r' where rd: "xml_read X r = (ret', r')" by fastforce
      from xml_read_cases [OF X rd] have "outcome ?P (app_container_loop X ret' c r')"
        using less.hyps [of r' c ret'] less.prems(1)
        by (auto simp: app_container_loop.simps [of X ret' c r'])
      then show ?thesis using one False rd by (subst app_container_loop.simps) auto
    qed
  next
    case False
    then show ?thesis using less.prems by (subst app_container_loop.simps) simp
  qed
qed

lemma outcome_finish_reading: "outcome (\<lambda>u s'. s' = s \<and> ret = 0 \<and> xml_is_valid X (snd s) = 1) (Some (finish_reading X ret s))"
  by (simp add: finish_reading_def)

lemma outcome_app_container_read:
  assumes X: "xml_laws X V" and c: "app_container_wf c"
  shows "outcome (\<lambda>u (c, r). app_container_wf c \<and> nodes_left V r = 0) (app_container_read X c r)"
proof -
  obtain ret r' where rd: "xml_read X r = (ret, r')" by fastforce
  have "ret = 1 \<or> nodes_left V r' = 0" using xml_read_cases [OF X rd] by auto
  from outcome_app_container_loop [OF X c this]
  have "outcome (\<lambda>u (c, r). app_container_wf c \<and> nodes_left V r = 0)
      (o_bind (app_container_loop X ret c r') (\<lambda>ret s. Some (finish_reading X ret s)))"
  proof (rule outcome_bind)
    fix a s
    assume "case s of (c, r) \<Rightarrow> app_container_wf c \<and> nodes_left V r = 0"
    then show "outcome (\<lambda>u (c, r). app_container_wf c \<and> nodes_left V r = 0) (Some (finish_reading X a s))"
      by (intro outcome_mono [OF outcome_finish_reading]) simp
  qed
  then show ?thesis by (simp add: app_container_read_def rd)
qed

section \<open>The configuration file of a container\<close>

text \<open>
  The document that describes a mapping. A field that is only configured has no key in the
  application; its text is \<open>NoTraslation\<close>. \<open>nm\<close> gives the names of the fields.
\<close>

definition start_node :: "nat \<Rightarrow> string \<Rightarrow> (string \<times> string) list \<Rightarrow> xml_node" where
  "start_node d name as = \<lparr>xn_depth = d, xn_type = xml_element, xn_name = name, xn_value = None, xn_attributes = as\<rparr>"

definition end_node :: "nat \<Rightarrow> string \<Rightarrow> xml_node" where
  "end_node d name = \<lparr>xn_depth = d, xn_type = 15, xn_name = name, xn_value = None, xn_attributes = []\<rparr>"

definition text_node :: "nat \<Rightarrow> string \<Rightarrow> xml_node" where
  "text_node d s = \<lparr>xn_depth = d, xn_type = xml_text, xn_name = ''#text'', xn_value = Some s, xn_attributes = []\<rparr>"

lemmas node_defs = start_node_def end_node_def text_node_def xml_element_def xml_text_def

definition bool_text :: "bool \<Rightarrow> string" where
  "bool_text b = (if b then ''true'' else ''false'')"

definition key_attributes :: "(field_key \<Rightarrow> string) \<Rightarrow> field_key \<Rightarrow> (string \<times> string) list" where
  "key_attributes nm k =
     [(''ENO'', show_int (fk_eno k)), (''FIELDTYPE'', show_int (fk_ftype k)), (''NAME'', nm k)]"

definition only_configured :: "app_field_mapping \<Rightarrow> bool" where
  "only_configured a \<longleftrightarrow> af_configuration a \<and> \<not> af_filter a \<and> \<not> af_export a"

definition field_doc :: "nat \<Rightarrow> (field_key \<Rightarrow> string) \<Rightarrow> field_key \<times> app_field_mapping \<Rightarrow> xml_node list" where
  "field_doc d nm = (\<lambda>(k, a).
     [start_node d ''FIELD'' (key_attributes nm k @ [(''CONFIGURATION'', bool_text (af_configuration a)),
        (''FILTER'', bool_text (af_filter a)), (''EXPORT'', bool_text (af_export a))]),
      text_node (Suc d) (if only_configured a then ''NoTraslation'' else af_key a),
      end_node d ''FIELD''])"

definition mapping_doc :: "nat \<Rightarrow> (field_key \<Rightarrow> string) \<Rightarrow> policy_field_mapping \<Rightarrow> xml_node list" where
  "mapping_doc d nm m =
     start_node d ''APPLICATION'' [(''ID'', fm_application m)] #
       concat (map (field_doc (Suc d) nm) (fm_fields m)) @ [end_node d ''APPLICATION'']"

definition int_range :: "int \<Rightarrow> bool" where
  "int_range i \<longleftrightarrow> - (2 ^ 31) \<le> i \<and> i < 2 ^ 31"

definition key_range :: "field_key \<Rightarrow> bool" where
  "key_range k \<longleftrightarrow> int_range (fk_eno k) \<and> int_range (fk_ftype k)"

definition field_writable :: "field_key \<times> app_field_mapping \<Rightarrow> bool" where
  "field_writable = (\<lambda>(k, a). key_range k \<and>
     (if only_configured a then af_key a = '''' else af_key a \<noteq> ''NoTraslation''))"

lemma field_key_node_at:
  assumes X: "xml_laws X V" and V: "V r = (Some (start_node d name (key_attributes nm k @ as)), ns, e, v)"
    and k: "key_range k"
  shows "field_key_node X r = Ret k r"
  using k atoi_show_int [of "fk_eno k"] atoi_show_int [of "fk_ftype k"]
  by (simp add: field_key_node_def num_attribute_def process_attribute_def xml_nodeD(5) [OF X V]
      start_node_def key_attributes_def key_range_def int_range_def)

lemma field_node_at:
  assumes X: "xml_laws X V" and V: "V r = (Some n, t # ns, e, v)"
    and doc: "field_doc d nm (k, a) = [n, t, x]" and a: "field_writable (k, a)"
  shows "\<exists>r'. field_node X (int d) r = Some (Ret (k, a) r') \<and> V r' = (Some t, ns, e, v)"
proof -
  have n: "n = start_node d ''FIELD'' (key_attributes nm k @ [(''CONFIGURATION'', bool_text (af_configuration a)),
        (''FILTER'', bool_text (af_filter a)), (''EXPORT'', bool_text (af_export a))])"
    and t: "t = text_node (Suc d) (if only_configured a then ''NoTraslation'' else af_key a)"
    using doc by (simp_all add: field_doc_def)
  have key: "field_key_node X r = Ret k r"
    by (rule field_key_node_at [OF X V [unfolded n]]) (use a in \<open>simp add: field_writable_def\<close>)
  obtain r' where r': "process_text_node X (int d + 1) r =
      Some (Ret (if only_configured a then ''NoTraslation'' else af_key a) r')" "V r' = (Some t, ns, e, v)"
    using process_text_node_at [OF X V, of "if only_configured a then ''NoTraslation'' else af_key a" "int d + 1"]
    by (auto simp: t text_node_def)
  have "application_field_mapping (bool_text (af_configuration a)) (bool_text (af_filter a))
      (bool_text (af_export a)) (if only_configured a then ''NoTraslation'' else af_key a) = Ret a ()"
    using a by (cases a) (auto simp: application_field_mapping_def Let_def field_writable_def only_configured_def
        bool_text_def split: if_split_asm)
  then show ?thesis
    using key r' xml_nodeD(5) [OF X V]
    by (simp add: field_node_def process_attribute_def n start_node_def key_attributes_def)
qed

lemma field_mapping_loop_fields:
  assumes X: "xml_laws X V"
  shows "list_all field_writable fs \<Longrightarrow> V r = (c, concat (map (field_doc d nm) fs) @ ns, e, v) \<Longrightarrow>
    \<exists>r' c'. (case xml_read X r of (ret, r) \<Rightarrow> field_mapping_loop X (int d) ret m r) =
        (case xml_read X r' of (ret, r) \<Rightarrow>
           field_mapping_loop X (int d) ret (fold (\<lambda>(k, f). mapping_set_field k f) fs m) r) \<and>
      V r' = (c', ns, e, v)"
proof (induction fs arbitrary: r c m)
  case Nil
  then show ?case by auto
next
  case (Cons p fs)
  obtain k a where p: "p = (k, a)" by (cases p)
  let ?rest = "concat (map (field_doc d nm) fs) @ ns"
  obtain s t x where doc: "field_doc d nm (k, a) = [s, t, x]" by (simp add: field_doc_def)
  have s: "xn_name s = ''FIELD''" "xn_type s = xml_element" "xn_depth s = d"
    and x: "xn_type x = 15" "xn_depth x = d"
    using doc by (auto simp: field_doc_def node_defs)
  have "V r = (c, s # t # x # ?rest, e, v)" using Cons.prems(2) p doc by simp
  then obtain r1 where r1: "xml_read X r = (1, r1)" "V r1 = (Some s, t # x # ?rest, e, v)"
    using xml_readD(1) [OF X] by metis
  have "field_writable (k, a)" using Cons.prems(1) p by simp
  from field_node_at [OF X r1(2) doc this] obtain r2 where r2: "field_node X (int d) r1 = Some (Ret (k, a) r2)"
    "V r2 = (Some t, x # ?rest, e, v)" by blast
  obtain r3 where r3: "xml_read X r2 = (1, r3)" "V r3 = (Some x, ?rest, e, v)"
    using xml_readD(1) [OF X r2(2)] by blast
  have node: "process_node X (int d) m r1 = Some (Ret () (mapping_set_field k a m, r2))"
    using r2(1) xml_nodeD [OF X r1(2)] s by (simp add: process_node_def)
  have "field_mapping_loop X (int d) 1 m r1 = field_mapping_loop X (int d) 1 (mapping_set_field k a m) r3"
    using xml_nodeD [OF X r1(2)] s node r3(1) by (subst field_mapping_loop.simps) simp
  also have "\<dots> = (case xml_read X r3 of (ret, r) \<Rightarrow> field_mapping_loop X (int d) ret (mapping_set_field k a m) r)"
    using xml_nodeD [OF X r3(2)] x by (subst field_mapping_loop.simps) (simp add: xml_element_def)
  finally show ?case
    using Cons.IH [OF _ r3(2)] Cons.prems(1) r1(1) p by simp
qed

lemma field_mapping_loop_doc:
  assumes X: "xml_laws X V" and d: "xn_depth n < d"
    and fs: "list_all field_writable fs" and V: "V r = (c, concat (map (field_doc d nm) fs) @ n # ns, e, v)"
  shows "\<exists>r'. (case xml_read X r of (ret, r) \<Rightarrow> field_mapping_loop X (int d) ret m r) =
        Some (Ret (Some 1) (fold (\<lambda>(k, f). mapping_set_field k f) fs m, r')) \<and>
      V r' = (Some n, ns, e, v)"
proof -
  obtain r1 c1 where r1: "(case xml_read X r of (ret, r) \<Rightarrow> field_mapping_loop X (int d) ret m r) =
        (case xml_read X r1 of (ret, r) \<Rightarrow>
           field_mapping_loop X (int d) ret (fold (\<lambda>(k, f). mapping_set_field k f) fs m) r)"
      "V r1 = (c1, n # ns, e, v)"
    using field_mapping_loop_fields [OF X fs V, of m] by blast
  obtain r2 where r2: "xml_read X r1 = (1, r2)" "V r2 = (Some n, ns, e, v)"
    using xml_readD(1) [OF X r1(2)] by blast
  then show ?thesis
    using r1(1) xml_nodeD [OF X r2(2)] d by (simp add: field_mapping_loop.simps)
qed

definition mapping_writable :: "policy_field_mapping \<Rightarrow> bool" where
  "mapping_writable m \<longleftrightarrow> mapping_wf m \<and> list_all field_writable (fm_fields m)"

lemma field_mapping_read_doc:
  assumes X: "xml_laws X V" and m: "mapping_writable m"
    and V: "V r = (Some s, concat (map (field_doc (Suc d) nm) (fm_fields m)) @ x # ns, e, v)"
    and s: "s = start_node d ''APPLICATION'' [(''ID'', fm_application m)]" and x: "xn_depth x = d"
  shows "\<exists>r'. field_mapping_read X (int d) new_field_mapping r = Some (Ret (Some 1) (m, r')) \<and>
    V r' = (Some x, ns, e, v)"
proof -
  let ?m = "new_field_mapping\<lparr>fm_application := fm_application m\<rparr>"
  have fs: "list_all field_writable (fm_fields m)" "distinct (map fst (fm_fields m))"
    using m by (simp_all add: mapping_writable_def mapping_wf_def)
  have "fold (\<lambda>(k, f). mapping_set_field k f) (fm_fields m) ?m = m"
    using fold_set_field [OF _ fs(2), of ?m] by (simp add: new_field_mapping_def mapping_wf_def)
  moreover have "xn_depth x < Suc d" using x by simp
  moreover have "xml_depth X r = int d" "xml_get_attribute X r ''ID'' = Some (fm_application m)"
    using xml_nodeD [OF X V] s by (simp_all add: start_node_def)
  ultimately show ?thesis
    using field_mapping_loop_doc [OF X _ fs(1) V, of ?m]
    by (simp add: field_mapping_read_def process_attribute_def add.commute)
qed

lemma app_container_loop_mappings:
  assumes X: "xml_laws X V"
  shows "list_all mapping_writable ms \<Longrightarrow> V r = (c0, concat (map (mapping_doc 1 nm) ms) @ ns, e, v) \<Longrightarrow>
    \<exists>r' c1. (case xml_read X r of (ret, r) \<Rightarrow> app_container_loop X ret c r) =
        (case xml_read X r' of (ret, r) \<Rightarrow>
           app_container_loop X ret (fold (\<lambda>m. set_application (fm_application m) m) ms c) r) \<and>
      V r' = (c1, ns, e, v)"
proof (induction ms arbitrary: r c0 c)
  case Nil
  then show ?case by auto
next
  case (Cons m ms)
  let ?rest = "concat (map (mapping_doc 1 nm) ms) @ ns" and ?s = "start_node 1 ''APPLICATION'' [(''ID'', fm_application m)]"
  let ?x = "end_node 1 ''APPLICATION''"
  have V: "V r = (c0, ?s # concat (map (field_doc (Suc 1) nm) (fm_fields m)) @ ?x # ?rest, e, v)"
    using Cons.prems(2) by (simp add: mapping_doc_def [of "Suc 0" nm m])
  obtain r1 where r1: "xml_read X r = (1, r1)"
    "V r1 = (Some ?s, concat (map (field_doc (Suc 1) nm) (fm_fields m)) @ ?x # ?rest, e, v)"
    using xml_readD(1) [OF X V] by blast
  have m: "mapping_writable m" and x: "xn_depth ?x = 1" using Cons.prems(1) by (simp_all add: end_node_def)
  obtain r2 where r2: "field_mapping_read X 1 new_field_mapping r1 = Some (Ret (Some 1) (m, r2))"
    "V r2 = (Some ?x, ?rest, e, v)"
    using field_mapping_read_doc [OF X m r1(2) refl x] by auto
  let ?c = "set_application (fm_application m) m c"
  have "app_container_loop X 1 c r1 = app_container_loop X 1 ?c r2"
    using xml_nodeD [OF X r1(2)] r2(1) by (subst app_container_loop.simps) (simp add: start_node_def)
  also have "\<dots> = (case xml_read X r2 of (ret, r) \<Rightarrow> app_container_loop X ret ?c r)"
    using xml_nodeD [OF X r2(2)] by (subst app_container_loop.simps) (simp add: end_node_def xml_element_def)
  finally show ?case
    using Cons.IH [OF _ r2(2), of ?c] Cons.prems(1) r1(1) by simp
qed

lemma app_container_loop_docs:
  assumes X: "xml_laws X V" and n: "xn_depth n = 0" and ms: "list_all mapping_writable ms"
    and V: "V r = (c0, concat (map (mapping_doc 1 nm) ms) @ [n], 0, v)"
  shows "\<exists>r'. (case xml_read X r of (ret, r) \<Rightarrow> app_container_loop X ret c r) =
        Some (Ret 0 (fold (\<lambda>m. set_application (fm_application m) m) ms c, r')) \<and>
      V r' = (None, [], 0, v)"
proof -
  let ?c = "fold (\<lambda>m. set_application (fm_application m) m) ms c"
  obtain r0 c1 where r0: "(case xml_read X r of (ret, r) \<Rightarrow> app_container_loop X ret c r) =
        (case xml_read X r0 of (ret, r) \<Rightarrow> app_container_loop X ret ?c r)" "V r0 = (c1, [n], 0, v)"
    using app_container_loop_mappings [OF X ms V, of c] by blast
  obtain r1 where r1: "xml_read X r0 = (1, r1)" "V r1 = (Some n, [], 0, v)"
    using xml_readD(1) [OF X r0(2)] by blast
  obtain r2 where r2: "xml_read X r1 = (0, r2)" "V r2 = (None, [], 0, v)"
    using xml_readD(2) [OF X r1(2)] by blast
  have "app_container_loop X 1 ?c r1 = Some (Ret 0 (?c, r2))"
    using xml_nodeD [OF X r1(2)] n r2(1) by (simp add: app_container_loop.simps)
  with r0(1) r1(1) r2(2) show ?thesis by simp
qed

text \<open>The start of the document: the container is entered with the first element as next node.\<close>

lemma app_container_read_start:
  assumes X: "xml_laws X V" and V: "V r = (None, start_node 0 name as # ns, e, v)"
  shows "\<exists>r1. app_container_read X c r =
      o_bind (case xml_read X r1 of (ret, r) \<Rightarrow> app_container_loop X ret c r)
        (\<lambda>ret s. Some (finish_reading X ret s)) \<and>
    V r1 = (Some (start_node 0 name as), ns, e, v)"
proof -
  obtain r1 where r1: "xml_read X r = (1, r1)" "V r1 = (Some (start_node 0 name as), ns, e, v)"
    using xml_readD(1) [OF X V] by blast
  have "app_container_loop X 1 c r1 = (case xml_read X r1 of (ret, r) \<Rightarrow> app_container_loop X ret c r)"
    using xml_nodeD [OF X r1(2)] by (subst app_container_loop.simps) (simp add: start_node_def)
  with r1 show ?thesis by (auto simp: app_container_read_def)
qed

definition container_doc :: "(field_key \<Rightarrow> string) \<Rightarrow> policy_field_mapping list \<Rightarrow> xml_node list" where
  "container_doc nm ms =
     start_node 0 ''CONFIGURATION'' [] # concat (map (mapping_doc 1 nm) ms) @ [end_node 0 ''CONFIGURATION'']"

lemma app_container_read_doc:
  assumes X: "xml_laws X V" and ms: "list_all mapping_writable ms"
    and V: "V r = (None, container_doc nm ms, 0, 1)"
  shows "\<exists>r'. app_container_read X [] r =
      Some (Ret () (fold (\<lambda>m. set_application (fm_application m) m) ms [], r')) \<and> V r' = (None, [], 0, 1)"
proof -
  let ?x = "end_node 0 ''CONFIGURATION''"
  obtain r1 where r1: "app_container_read X [] r =
      o_bind (case xml_read X r1 of (ret, r) \<Rightarrow> app_container_loop X ret [] r)
        (\<lambda>ret s. Some (finish_reading X ret s))"
    "V r1 = (Some (start_node 0 ''CONFIGURATION'' []), concat (map (mapping_doc 1 nm) ms) @ [?x], 0, 1)"
    using app_container_read_start [OF X V [unfolded container_doc_def]] by blast
  have "xn_depth ?x = 0" by (simp add: end_node_def)
  from app_container_loop_docs [OF X this ms r1(2), of "[]"] obtain r2 where r2:
    "(case xml_read X r1 of (ret, r) \<Rightarrow> app_container_loop X ret [] r) =
       Some (Ret 0 (fold (\<lambda>m. set_application (fm_application m) m) ms [], r2))" "V r2 = (None, [], 0, 1)" by blast
  then show ?thesis
    using r1(1) xml_endD(2) [OF X r2(2)] by (simp add: finish_reading_def)
qed

lemma field_mapping_read_truncated:
  assumes X: "xml_laws X V" and fs: "list_all field_writable fs"
    and V: "V r = (Some s, concat (map (field_doc (Suc d) nm) fs), e, v)"
    and s: "s = start_node d ''APPLICATION'' [(''ID'', app)]"
  shows "\<exists>m r'. field_mapping_read X (int d) new_field_mapping r = Some (Ret None (m, r'))"
proof -
  let ?m = "new_field_mapping\<lparr>fm_application := app\<rparr>"
  have "V r = (Some s, concat (map (field_doc (Suc d) nm) fs) @ [], e, v)" using V by simp
  from field_mapping_loop_fields [OF X fs this, of ?m] obtain r1 c1 where r1:
    "(case xml_read X r of (ret, r) \<Rightarrow> field_mapping_loop X (int (Suc d)) ret ?m r) =
        (case xml_read X r1 of (ret, r) \<Rightarrow>
           field_mapping_loop X (int (Suc d)) ret (fold (\<lambda>(k, f). mapping_set_field k f) fs ?m) r)"
      "V r1 = (c1, [], e, v)" by blast
  obtain r2 where r2: "xml_read X r1 = (e, r2)" "e \<noteq> 1" using xml_readD(2) [OF X r1(2)] by blast
  have "xml_depth X r = int d" "xml_get_attribute X r ''ID'' = Some app"
    using xml_nodeD [OF X V] s by (simp_all add: start_node_def)
  then show ?thesis
    using r1(1) r2
    by (simp add: field_mapping_read_def process_attribute_def field_mapping_loop.simps [of X _ e] add.commute)
qed

lemma fold_set_application:
  assumes "app_container_wf c" and "list_all mapping_wf ms"
  shows "app_container_wf (fold (\<lambda>m. set_application (fm_application m) m) ms c) \<and>
    map_of (fold (\<lambda>m. set_application (fm_application m) m) ms c) app =
      (case map_of c app of Some m \<Rightarrow> Some m | None \<Rightarrow> find (\<lambda>m. fm_application m = app) ms)"
  using assms
proof (induction ms arbitrary: c)
  case Nil
  then show ?case by (simp split: option.split)
next
  case (Cons m ms)
  then show ?case
    using Cons.IH [OF app_container_wf_set [OF Cons.prems(1), of m]]
    by (auto simp: set_application_find split: option.split)
qed

section \<open>Properties\<close>

text \<open>
  Reading the configuration file that describes a list of mappings gives a well-formed
  container with exactly these mappings, each under the name of its application; of several
  mappings of one application the first counts.
\<close>

theorem configuration_round_trip:
  assumes "xml_laws X V" and "V r = (None, container_doc nm ms, 0, 1)" and "list_all mapping_writable ms"
  shows "\<exists>c r'. app_container_read X [] r = Some (Ret () (c, r')) \<and> app_container_wf c \<and>
    (\<forall>app. map_of c app = find (\<lambda>m. fm_application m = app) ms)"
proof -
  have "list_all mapping_wf ms" using assms(3) by (auto simp: list_all_iff mapping_writable_def)
  then show ?thesis
    using app_container_read_doc [OF assms(1,3,2)] fold_set_application [of "[]" ms] by auto
qed

text \<open>The example: the source port may be exported and filtered.\<close>

definition ex_key :: field_key where
  "ex_key = \<lparr>fk_eno = 0, fk_ftype = 7\<rparr>"

definition ex_mapping :: policy_field_mapping where
  "ex_mapping = \<lparr>fm_fields =
     [(ex_key, \<lparr>af_configuration = False, af_filter = True, af_export = True, af_key = ''SrcPort''\<rparr>)],
     fm_application = ''netmate''\<rparr>"

lemma ex_mapping_writable: "mapping_writable ex_mapping"
  by (simp add: ex_mapping_def ex_key_def mapping_writable_def mapping_wf_def field_writable_def
      key_range_def int_range_def only_configured_def)

theorem configuration_round_trip_witness:
  "\<exists>c r'. app_container_read list_xml [] (None, container_doc (\<lambda>k. ''port'') [ex_mapping], 0, 1) =
      Some (Ret () (c, r')) \<and> map_of c ''netmate'' = Some ex_mapping"
proof -
  have "list_xml_view (None, container_doc (\<lambda>k. ''port'') [ex_mapping], 0, 1) =
    (None, container_doc (\<lambda>k. ''port'') [ex_mapping], 0, 1)" by (simp add: list_xml_view_def)
  from configuration_round_trip [OF list_xml_laws, OF this] ex_mapping_writable
  have "\<exists>c r'. app_container_read list_xml [] (None, container_doc (\<lambda>k. ''port'') [ex_mapping], 0, 1) =
      Some (Ret () (c, r')) \<and> app_container_wf c \<and>
      (\<forall>app. map_of c app = find (\<lambda>m. fm_application m = app) [ex_mapping])"
    unfolding list_all_iff by (metis empty_iff empty_set set_ConsD)
  moreover have "find (\<lambda>m. fm_application m = ''netmate'') [ex_mapping] = Some ex_mapping"
    by (simp add: ex_mapping_def)
  ultimately show ?thesis by metis
qed

text \<open>
  C33: Reading a configuration file ends, whatever nodes it has. It returns a well-formed
  container, throws the error of the installer, or is undefined; no assertion fails.
\<close>

theorem configuration_read_total:
  assumes "xml_laws X V"
  shows "\<exists>res. app_container_read X [] r = Some res \<and> res \<noteq> Abort \<and>
    list_all app_container_wf (case res of Ret u (c, r') \<Rightarrow> [c] | _ \<Rightarrow> []) \<and>
    list_all (\<lambda>e. \<exists>t s c. e = Policy_Rule_Installer_Error t s c) (case res of Exn e s \<Rightarrow> [e] | _ \<Rightarrow> [])"
  using outcome_app_container_read [OF assms app_container_wf_Nil, of r]
  by (cases rule: outcome_cases) auto

theorem configuration_read_total_witness:
  "\<exists>res. app_container_read list_xml [] (None, [start_node 7 ''x'' []], - 1, 0) = Some res \<and> res \<noteq> Abort \<and>
    list_all app_container_wf (case res of Ret u (c, r') \<Rightarrow> [c] | _ \<Rightarrow> []) \<and>
    list_all (\<lambda>e. \<exists>t s c. e = Policy_Rule_Installer_Error t s c) (case res of Exn e s \<Rightarrow> [e] | _ \<Rightarrow> [])"
  by (rule configuration_read_total [OF list_xml_laws])

text \<open>
  A configuration file that breaks off inside the element of an application makes the
  reader use the result of a function that has not returned one.
\<close>

theorem configuration_truncated_undefined:
  assumes "xml_laws X V" and "list_all mapping_writable ms" and "list_all field_writable fs"
    and "V r = (None, start_node 0 ''CONFIGURATION'' [] # concat (map (mapping_doc 1 nm) ms) @
      start_node 1 ''APPLICATION'' [(''ID'', app)] # concat (map (field_doc 2 nm) fs), e, v)"
  shows "app_container_read X [] r = Some Undef"
proof -
  let ?s = "start_node 1 ''APPLICATION'' [(''ID'', app)]"
  let ?fs = "concat (map (field_doc (Suc 1) nm) fs)"
  let ?c = "fold (\<lambda>m. set_application (fm_application m) m) ms []"
  obtain r1 where r1: "app_container_read X [] r =
      o_bind (case xml_read X r1 of (ret, r) \<Rightarrow> app_container_loop X ret [] r)
        (\<lambda>ret s. Some (finish_reading X ret s))"
    "V r1 = (Some (start_node 0 ''CONFIGURATION'' []), concat (map (mapping_doc 1 nm) ms) @ ?s # ?fs, e, v)"
    using app_container_read_start [OF assms(1,4)] by (auto simp: numeral_2_eq_2)
  from app_container_loop_mappings [OF assms(1,2) r1(2), of "[]"] obtain r2 c2 where r2:
    "(case xml_read X r1 of (ret, r) \<Rightarrow> app_container_loop X ret [] r) =
       (case xml_read X r2 of (ret, r) \<Rightarrow> app_container_loop X ret ?c r)" "V r2 = (c2, ?s # ?fs, e, v)" by blast
  obtain r3 where r3: "xml_read X r2 = (1, r3)" "V r3 = (Some ?s, ?fs, e, v)"
    using xml_readD(1) [OF assms(1) r2(2)] by blast
  obtain m r4 where "field_mapping_read X 1 new_field_mapping r3 = Some (Ret None (m, r4))"
    using field_mapping_read_truncated [OF assms(1,3) r3(2) refl] by auto
  then have "app_container_loop X 1 ?c r3 = Some Undef"
    using xml_nodeD [OF assms(1) r3(2)] by (subst app_container_loop.simps) (simp add: start_node_def)
  then show ?thesis using r1(1) r2(1) r3(1) by simp
qed

theorem configuration_truncated_undefined_witness:
  "app_container_read list_xml [] (None, [start_node 0 ''CONFIGURATION'' [],
     start_node 1 ''APPLICATION'' [(''ID'', ''netmate'')]], - 1, 0) = Some Undef"
  by (rule configuration_truncated_undefined [OF list_xml_laws, where ms = "[]" and fs = "[]" and nm = "\<lambda>k. ''''"
      and app = "''netmate''" and e = "- 1" and v = 0]) (simp_all add: list_xml_view_def)

end
