(* ===== verification/Policy_Action.thy ===== *)
theory Policy_Action
  imports Policy_Mapping "HOL-Library.Product_Lexorder"
begin

text \<open>
  The actions of the metering node (src/policy_action.cpp, src/policy_action_container.cpp,
  src/policy_action_mapping.cpp and, for the one application there is,
  src/netmate_ipfix_policy_action_mapping.cpp and src/netmate_ipfix_metering_config.cpp): for
  each metering application which fields an action exports and by which procedure, and reading
  this from the export configuration file. An action looks its mappings up, and the container
  its actions, in the order of their priorities. A priority that the file does not give is not
  initialised, which is \<open>None\<close>: using it is undefined, copying it is not. Copies of mappings and
  configurations are deep.
\<close>

section \<open>The configuration of an application\<close>

record metering_config =
  mc_priority :: int
  mc_metering_procedure :: string
  mc_export_procedure :: string
  mc_export_directory :: string
  mc_export_interval :: "rat option"

definition int_max :: int where
  "int_max = 2147483647"

definition new_metering_config :: metering_config where
  "new_metering_config =
     \<lparr>mc_priority = int_max, mc_metering_procedure = '''', mc_export_procedure = '''',
      mc_export_directory = '''', mc_export_interval = None\<rparr>"

text \<open>\<open>None\<close>: an interval that has not been set is read.\<close>

definition metering_config_equal :: "metering_config \<Rightarrow> metering_config \<Rightarrow> bool option" where
  "metering_config_equal a b =
     (if mc_priority a \<noteq> mc_priority b \<or> mc_metering_procedure a \<noteq> mc_metering_procedure b \<or>
         mc_export_procedure a \<noteq> mc_export_procedure b \<or> mc_export_directory a \<noteq> mc_export_directory b
      then Some False
      else (case (mc_export_interval a, mc_export_interval b) of
              (Some x, Some y) \<Rightarrow> Some (x = y)
            | _ \<Rightarrow> None))"

section \<open>What an action does for an application\<close>

record action_mapping = policy_field_mapping +
  ac_config :: "metering_config option"

definition new_action_mapping :: action_mapping where
  "new_action_mapping = \<lparr>fm_fields = [], fm_application = '''', ac_config = None\<rparr>"

definition action_mapping_priority :: "action_mapping \<Rightarrow> int" where
  "action_mapping_priority m = (case ac_config m of Some c \<Rightarrow> mc_priority c | None \<Rightarrow> int_max)"

definition action_mapping_key :: "action_mapping \<Rightarrow> (exc, string, unit) result" where
  "action_mapping_key m =
     (case ac_config m of
        Some c \<Rightarrow> Ret (mc_metering_procedure c) ()
      | None \<Rightarrow> Exn (configuration_error ''Error creating a key for the application mapping'') ())"

text \<open>Neither configuration is tested for NULL.\<close>

definition action_mapping_equal :: "action_mapping \<Rightarrow> action_mapping \<Rightarrow> bool option" where
  "action_mapping_equal a b =
     Option.bind (ac_config a) (\<lambda>c.
     Option.bind (ac_config b) (\<lambda>c'.
     Option.bind (metering_config_equal c c') (\<lambda>eq.
       Some (eq \<and> field_mapping_equal a b))))"

definition to_upper :: "char \<Rightarrow> char" where
  "to_upper c = (let n = of_char c :: nat in if 97 \<le> n \<and> n \<le> 122 then char_of (n - 32) else c)"

definition make_action_mapping :: "string \<Rightarrow> action_mapping option" where
  "make_action_mapping app = (if map to_upper app = ''NETMATE'' then Some new_action_mapping else None)"

section \<open>Actions\<close>

record policy_action =
  pa_mappings :: "(string, action_mapping) smap"
  pa_action :: string
  pa_priority :: "int option"

definition new_policy_action :: policy_action where
  "new_policy_action = \<lparr>pa_mappings = [], pa_action = '''', pa_priority = None\<rparr>"

definition set_action_mapping :: "string \<Rightarrow> action_mapping \<Rightarrow> policy_action \<Rightarrow> policy_action" where
  "set_action_mapping app m a = a\<lparr>pa_mappings := smap_set (<) app m (pa_mappings a)\<rparr>"

text \<open>Assignment keeps the mappings the target has for other applications.\<close>

definition policy_action_assign :: "policy_action \<Rightarrow> policy_action \<Rightarrow> policy_action" where
  "policy_action_assign a rhs =
     fold (\<lambda>(app, m). set_action_mapping app m) (pa_mappings rhs)
       (a\<lparr>pa_action := pa_action rhs, pa_priority := pa_priority rhs\<rparr>)"

fun action_mappings_equal :: "(string, action_mapping) smap \<Rightarrow> (string, action_mapping) smap \<Rightarrow> bool option" where
  "action_mappings_equal [] rhs = Some True"
| "action_mappings_equal ((k, m) # ms) rhs =
     (case smap_find (<) k rhs of
        None \<Rightarrow> Some False
      | Some n \<Rightarrow>
          (case action_mapping_equal m n of
             Some True \<Rightarrow> action_mappings_equal ms rhs
           | r \<Rightarrow> r))"

definition policy_action_equal :: "policy_action \<Rightarrow> policy_action \<Rightarrow> bool option" where
  "policy_action_equal a b =
     (if pa_action a \<noteq> pa_action b then Some False
      else (case (pa_priority a, pa_priority b) of
              (Some p, Some q) \<Rightarrow>
                (if p \<noteq> q then Some False else action_mappings_equal (pa_mappings a) (pa_mappings b))
            | _ \<Rightarrow> None))"

definition in_priority_order :: "(int \<times> string) list \<Rightarrow> string list" where
  "in_priority_order ps = map snd (sort ps)"

text \<open>The mappings in the order of the search, then the search for an application\<close>

definition ordered_mappings :: "policy_action \<Rightarrow> action_mapping list" where
  "ordered_mappings a =
     List.map_filter (map_of (pa_mappings a))
       (in_priority_order (map (\<lambda>(app, m). (action_mapping_priority m, app)) (pa_mappings a)))"

definition action_check_field :: "string \<Rightarrow> field_type \<Rightarrow> policy_action \<Rightarrow> bool" where
  "action_check_field app f a =
     (case find (\<lambda>m. fm_application m = app) (ordered_mappings a) of
        Some m \<Rightarrow> mapping_check_field f m
      | None \<Rightarrow> False)"

definition action_field_traslate :: "string \<Rightarrow> field_type \<Rightarrow> policy_action \<Rightarrow> string" where
  "action_field_traslate app f a =
     (case find (\<lambda>m. fm_application m = app) (ordered_mappings a) of
        Some m \<Rightarrow> mapping_field_traslate f m
      | None \<Rightarrow> '''')"

text \<open>This search goes on to the next mapping of the application.\<close>

definition action_get_package :: "string \<Rightarrow> field_type \<Rightarrow> policy_action \<Rightarrow> metering_config option" where
  "action_get_package app f a =
     (case find (\<lambda>m. fm_application m = app \<and> mapping_check_field f m) (ordered_mappings a) of
        Some m \<Rightarrow> ac_config m
      | None \<Rightarrow> None)"

section \<open>The container of actions\<close>

type_synonym action_container = "(string, policy_action) smap"

definition set_policy_action :: "string \<Rightarrow> policy_action \<Rightarrow> action_container \<Rightarrow> action_container" where
  "set_policy_action key a c =
     smap_set (<) key
       (policy_action_assign (case smap_find (<) key c of Some old \<Rightarrow> old | None \<Rightarrow> new_policy_action) a) c"

fun action_container_equal :: "action_container \<Rightarrow> action_container \<Rightarrow> bool option" where
  "action_container_equal [] rhs = Some True"
| "action_container_equal ((k, a) # as) rhs =
     (case smap_find (<) k rhs of
        None \<Rightarrow> Some False
      | Some b \<Rightarrow>
          (case policy_action_equal a b of
             Some True \<Rightarrow> action_container_equal as rhs
           | r \<Rightarrow> r))"

text \<open>The actions in the order of the search; \<open>None\<close> where a priority has not been set\<close>

definition ordered_actions :: "action_container \<Rightarrow> policy_action list option" where
  "ordered_actions c =
     (if list_all (\<lambda>(k, a). pa_priority a \<noteq> None) c
      then Some (List.map_filter (map_of c)
             (in_priority_order (map (\<lambda>(k, a). (the (pa_priority a), k)) c)))
      else None)"

definition container_check_field :: "string \<Rightarrow> field_type \<Rightarrow> action_container \<Rightarrow> bool option" where
  "container_check_field app f c = map_option (list_ex (action_check_field app f)) (ordered_actions c)"

definition container_field_traslate :: "string \<Rightarrow> field_type \<Rightarrow> action_container \<Rightarrow> string option" where
  "container_field_traslate app f c =
     map_option (\<lambda>as. case find (\<lambda>s. s \<noteq> '''') (map (action_field_traslate app f) as) of
        Some s \<Rightarrow> s | None \<Rightarrow> '''') (ordered_actions c)"

definition container_get_package :: "string \<Rightarrow> field_type \<Rightarrow> action_container \<Rightarrow> metering_config option option" where
  "container_get_package app f c =
     map_option (\<lambda>as. case find (\<lambda>p. p \<noteq> None) (map (action_get_package app f) as) of
        Some p \<Rightarrow> p | None \<Rightarrow> None) (ordered_actions c)"

section \<open>Reading the export configuration\<close>

text \<open>The elements of a mapping, at the level below it\<close>

definition action_node :: "'r xml_ops \<Rightarrow> int \<Rightarrow> metering_config \<Rightarrow> action_mapping \<Rightarrow> 'r \<Rightarrow>
    (exc, metering_config \<times> action_mapping, 'r) result option" where
  "action_node X level mc m r =
     (case xml_name X r of
        None \<Rightarrow> Some (Exn (configuration_error ''Error parsing the export configuration'') r)
      | Some name \<Rightarrow>
          (if name = ''FIELD''
           then o_bind (Some (field_key_node X r)) (\<lambda>key r.
                o_bind (process_text_node X (level + 1) r) (\<lambda>field_map r.
                o_bind (Some (lift_state (\<lambda>_. r) (application_field_mapping ''false'' ''false'' ''true'' field_map))) (\<lambda>a r.
                Some (Ret (mc, mapping_set_field key a m) r))))
           else if name = ''PRIORITY_APP''
           then o_bind (process_text_node X (level + 1) r) (\<lambda>s r.
                Some (deref (atoi s) (\<lambda>p. Ret (mc\<lparr>mc_priority := p\<rparr>, m) r)))
           else if name = ''METERING_PROCEDURE''
           then o_bind (process_text_node X (level + 1) r) (\<lambda>s r. Some (Ret (mc\<lparr>mc_metering_procedure := s\<rparr>, m) r))
           else if name = ''EXPORT_PROCEDURE''
           then o_bind (process_text_node X (level + 1) r) (\<lambda>s r. Some (Ret (mc\<lparr>mc_export_procedure := s\<rparr>, m) r))
           else if name = ''DIRECTORY''
           then o_bind (process_text_node X (level + 1) r) (\<lambda>s r. Some (Ret (mc\<lparr>mc_export_directory := s\<rparr>, m) r))
           else if name = ''INTERVAL''
           then o_bind (process_text_node X (level + 1) r) (\<lambda>s r. Some (Ret (mc\<lparr>mc_export_interval := Some (atof s)\<rparr>, m) r))
           else Some (Ret (mc, m) r)))"

text \<open>
  The configuration is set when the function returns; the caller does not use the result, so
  that the end without \<open>return\<close> leaves a mapping without configuration.
\<close>

partial_function (option) action_mapping_loop :: "'r xml_ops \<Rightarrow> int \<Rightarrow> int \<Rightarrow> metering_config \<Rightarrow> action_mapping \<Rightarrow>
    'r \<Rightarrow> (exc, action_mapping, 'r) result option" where
  [code]: "action_mapping_loop X level ret mc m r =
     (if ret \<noteq> 1 then Some (Ret m r)
      else if xml_depth X r \<ge> level \<and> xml_node_type X r = xml_element
      then (case action_node X level mc m r of
              None \<Rightarrow> None
            | Some (Ret (mc, m) r) \<Rightarrow> (case xml_read X r of (ret, r) \<Rightarrow> action_mapping_loop X level ret mc m r)
            | Some (Exn e r) \<Rightarrow> Some (Exn e r)
            | Some Abort \<Rightarrow> Some Abort
            | Some Undef \<Rightarrow> Some Undef)
      else if xml_depth X r < level then Some (Ret (m\<lparr>ac_config := Some mc\<rparr>) r)
      else (case xml_read X r of (ret, r) \<Rightarrow> action_mapping_loop X level ret mc m r))"

definition action_mapping_read :: "'r xml_ops \<Rightarrow> int \<Rightarrow> action_mapping \<Rightarrow> 'r \<Rightarrow> (exc, action_mapping, 'r) result option" where
  "action_mapping_read X level m r =
     (if xml_depth X r = level
      then o_bind (Some (process_attribute X ''ID'' r)) (\<lambda>metering_app r.
             case xml_read X r of (ret, r) \<Rightarrow>
               action_mapping_loop X (level + 1) ret new_metering_config (m\<lparr>fm_application := metering_app\<rparr>) r)
      else Some (Exn (configuration_error ''Configuration file does not parse'') r))"

text \<open>One application of an action: the attribute decides the class, of which there is one.\<close>

definition read_application :: "'r xml_ops \<Rightarrow> policy_action \<Rightarrow> 'r \<Rightarrow> (exc, policy_action, 'r) result option" where
  "read_application X a r =
     o_bind (Some (process_attribute X ''ID'' r)) (\<lambda>metering_application r.
     case make_action_mapping metering_application of
       None \<Rightarrow> Some Undef
     | Some m \<Rightarrow> o_bind (action_mapping_read X 2 m r) (\<lambda>m r.
         Some (Ret (set_action_mapping (fm_application m) m a) r)))"

definition read_priority :: "'r xml_ops \<Rightarrow> policy_action \<Rightarrow> 'r \<Rightarrow> (exc, policy_action, 'r) result option" where
  "read_priority X a r =
     o_bind (process_text_node X 3 r) (\<lambda>s r. Some (deref (atoi s) (\<lambda>p. Ret (a\<lparr>pa_priority := Some p\<rparr>) r)))"

text \<open>
  An element of another name is not left behind: the loop goes on with the same node. The
  result of the last read stays what it was when a function called here has read on.
\<close>

partial_function (option) policy_action_loop :: "'r xml_ops \<Rightarrow> int \<Rightarrow> policy_action \<Rightarrow> 'r \<Rightarrow>
    (exc, int option \<times> policy_action, 'r) result option" where
  [code]: "policy_action_loop X ret a r =
     (if ret \<noteq> 1 then Some (Ret (None, a) r)
      else if xml_depth X r = 2 \<and> xml_node_type X r = xml_element
      then (if xml_name X r = Some ''POLICY_ACTION_APP''
            then (case read_application X a r of
                    None \<Rightarrow> None
                  | Some (Ret a r) \<Rightarrow> policy_action_loop X ret a r
                  | Some (Exn e r) \<Rightarrow> Some (Exn e r)
                  | Some Abort \<Rightarrow> Some Abort
                  | Some Undef \<Rightarrow> Some Undef)
            else if xml_name X r = Some ''PRIORITY''
            then (case read_priority X a r of
                    None \<Rightarrow> None
                  | Some (Ret a r) \<Rightarrow> policy_action_loop X ret a r
                  | Some (Exn e r) \<Rightarrow> Some (Exn e r)
                  | Some Abort \<Rightarrow> Some Abort
                  | Some Undef \<Rightarrow> Some Undef)
            else policy_action_loop X ret a r)
      else if xml_depth X r < 2 then Some (Ret (Some ret, a) r)
      else (case xml_read X r of (ret, r) \<Rightarrow> policy_action_loop X ret a r))"

definition policy_action_read :: "'r xml_ops \<Rightarrow> policy_action \<Rightarrow> 'r \<Rightarrow>
    (exc, int option \<times> policy_action, 'r) result option" where
  "policy_action_read X a r =
     (if xml_depth X r = 1
      then o_bind (Some (process_attribute X ''ID'' r)) (\<lambda>action r.
             case xml_read X r of (ret, r) \<Rightarrow> policy_action_loop X ret (a\<lparr>pa_action := action\<rparr>) r)
      else Some (Exn (configuration_error ''Export configuration file does not parse'') r))"

partial_function (option) action_container_loop :: "'r xml_ops \<Rightarrow> int \<Rightarrow> action_container \<Rightarrow> 'r \<Rightarrow>
    (exc, int, action_container \<times> 'r) result option" where
  [code]: "action_container_loop X ret c r =
     (if ret \<noteq> 1 then Some (Ret ret (c, r))
      else if xml_depth X r = 1 \<and> xml_node_type X r = xml_element
      then (case policy_action_read X new_policy_action r of
              None \<Rightarrow> None
            | Some (Ret (None, a) r) \<Rightarrow> Some Undef
            | Some (Ret (Some ret, a) r) \<Rightarrow> action_container_loop X ret (set_policy_action (pa_action a) a c) r
            | Some (Exn e r) \<Rightarrow> Some (Exn e (c, r))
            | Some Abort \<Rightarrow> Some Abort
            | Some Undef \<Rightarrow> Some Undef)
      else (case xml_read X r of (ret, r) \<Rightarrow> action_container_loop X ret c r))"

definition action_container_read :: "'r xml_ops \<Rightarrow> action_container \<Rightarrow> 'r \<Rightarrow>
    (exc, unit, action_container \<times> 'r) result option" where
  "action_container_read X c r =
     (case xml_read X r of (ret, r) \<Rightarrow>
        o_bind (action_container_loop X ret c r) (\<lambda>ret s. Some (finish_reading X ret s)))"

section \<open>The order of the search\<close>

lemma find_map: "find P (map h xs) = map_option h (find (\<lambda>x. P (h x)) xs)"
  by (induction xs) auto

lemma find_sorted: "sorted xs \<Longrightarrow> find P xs = Some x \<Longrightarrow> P x \<and> x \<in> set xs \<and> (\<forall>y \<in> set xs. P y \<longrightarrow> x \<le> y)"
  by (induction xs) (auto split: if_splits)

lemma map_filter_all: "(\<And>x. x \<in> set xs \<Longrightarrow> f x = Some (g x)) \<Longrightarrow> List.map_filter f xs = map g xs"
  by (induction xs) (simp_all add: List.map_filter_simps)

text \<open>Searching a map in the order of the priorities finds the entry with the least one.\<close>

definition search_order :: "('v \<Rightarrow> int) \<Rightarrow> (string, 'v) smap \<Rightarrow> 'v list" where
  "search_order prio c = List.map_filter (map_of c) (in_priority_order (map (\<lambda>(k, a). (prio a, k)) c))"

lemma search_order_map:
  assumes "distinct (map fst c)"
  shows "search_order prio c = map (\<lambda>(p, k). the (map_of c k)) (sort (map (\<lambda>(k, a). (prio a, k)) c))"
proof -
  have "map_of c k = Some (the (map_of c k))" if "k \<in> snd ` set (sort (map (\<lambda>(k, a). (prio a, k)) c))" for k
    using that assms by (auto simp: map_of_is_SomeI)
  then have "List.map_filter (map_of c) (map snd (sort (map (\<lambda>(k, a). (prio a, k)) c))) =
      map (\<lambda>k. the (map_of c k)) (map snd (sort (map (\<lambda>(k, a). (prio a, k)) c)))"
    by (intro map_filter_all) auto
  then show ?thesis by (simp add: search_order_def in_priority_order_def split_def comp_def)
qed

lemma set_search_order:
  assumes "distinct (map fst c)"
  shows "set (search_order prio c) = snd ` set c"
  using assms by (force simp: search_order_map [OF assms] image_iff)

lemma find_search_order:
  assumes d: "distinct (map fst c)"
  shows "case find P (search_order prio c) of
      None \<Rightarrow> \<forall>(k, a) \<in> set c. \<not> P a
    | Some a \<Rightarrow> P a \<and> (\<exists>k. (k, a) \<in> set c \<and> (\<forall>(k', a') \<in> set c. P a' \<longrightarrow> (prio a, k) \<le> (prio a', k')))"
proof (cases "find P (search_order prio c)")
  case None
  then have "\<forall>a \<in> snd ` set c. \<not> P a" using set_search_order [OF d, of prio] by (metis find_None_iff)
  with None show ?thesis by auto
next
  case (Some a)
  let ?xs = "map (\<lambda>(k, a). (prio a, k)) c" and ?h = "\<lambda>(p, k). the (map_of c k)"
  from Some obtain x where x: "find (\<lambda>x. P (?h x)) (sort ?xs) = Some x" "a = ?h x"
    by (auto simp: search_order_map [OF d] find_map)
  from find_sorted [OF _ x(1)] have m: "P (?h x)" "x \<in> set ?xs" "\<forall>y \<in> set ?xs. P (?h y) \<longrightarrow> x \<le> y" by auto
  from m(2) obtain k b where kb: "(k, b) \<in> set c" "x = (prio b, k)" by auto
  then have a: "a = b" using x(2) d by (simp add: map_of_is_SomeI)
  have "(prio a, k) \<le> (prio a', k')" if "(k', a') \<in> set c" "P a'" for k' a'
  proof -
    have "(prio a', k') \<in> set ?xs" using that(1) by force
    moreover have "P (?h (prio a', k'))" using that d by (simp add: map_of_is_SomeI)
    ultimately show ?thesis using m(3) kb(2) a by blast
  qed
  then show ?thesis using Some m(1) x(2) kb(1) a by auto
qed

lemma ordered_mappings_search: "ordered_mappings a = search_order action_mapping_priority (pa_mappings a)"
  by (simp add: ordered_mappings_def search_order_def)

lemma ordered_actions_search:
  "list_all (\<lambda>(k, a). pa_priority a \<noteq> None) c \<Longrightarrow>
   ordered_actions c = Some (search_order (\<lambda>a. the (pa_priority a)) c)"
  by (simp add: ordered_actions_def search_order_def)

lemma str_wf_distinct: "smap_wf (<) c \<Longrightarrow> distinct (map fst (c :: (string, 'v) smap))"
  by (induction c) (auto dest: less_asym)

section \<open>Well-formed actions\<close>

definition action_wf :: "policy_action \<Rightarrow> bool" where
  "action_wf a \<longleftrightarrow> smap_wf (<) (pa_mappings a) \<and>
     (\<forall>(k, m) \<in> set (pa_mappings a). fm_application m = k \<and> mapping_wf m)"

lemma action_wf_new [simp]: "action_wf new_policy_action"
  by (simp add: action_wf_def new_policy_action_def)

lemma action_wf_set:
  assumes "action_wf a" and "mapping_wf m"
  shows "action_wf (set_action_mapping (fm_application m) m a)"
  using assms str_set_subset [of "fm_application m" m "pa_mappings a"]
  by (auto simp: action_wf_def set_action_mapping_def str.wf_set)

lemma action_wf_update [simp]:
  "action_wf (a\<lparr>pa_action := s\<rparr>) \<longleftrightarrow> action_wf a" "action_wf (a\<lparr>pa_priority := p\<rparr>) \<longleftrightarrow> action_wf a"
  by (simp_all add: action_wf_def)

lemma action_wf_assign:
  assumes "action_wf a" and "action_wf b"
  shows "action_wf (policy_action_assign a b)"
proof -
  have *: "action_wf (fold (\<lambda>(app, m). set_action_mapping app m) ms a')"
    if "action_wf a'" "list_all (\<lambda>(k, m). fm_application m = k \<and> mapping_wf m) ms" for ms a'
    using that
  proof (induction ms arbitrary: a')
    case (Cons p ms)
    obtain k m where p: "p = (k, m)" by (cases p)
    then show ?case
      using Cons.IH [of "set_action_mapping k m a'"] Cons.prems action_wf_set [OF Cons.prems(1), of m] by simp
  qed simp
  have "list_all (\<lambda>(k, m). fm_application m = k \<and> mapping_wf m) (pa_mappings b)"
    using assms(2) by (simp add: action_wf_def list_all_iff)
  with assms(1) show ?thesis by (simp add: policy_action_assign_def *)
qed

text \<open>In a well-formed action the search by application is a look-up.\<close>

lemma action_find:
  assumes a: "action_wf a" and P: "\<And>m. P m \<Longrightarrow> fm_application m = app"
  shows "find P (ordered_mappings a) =
    (case map_of (pa_mappings a) app of Some m \<Rightarrow> if P m then Some m else None | None \<Rightarrow> None)"
proof -
  have d: "distinct (map fst (pa_mappings a))" using a by (simp add: action_wf_def str_wf_distinct)
  have key: "fm_application m = k" if "(k, m) \<in> set (pa_mappings a)" for k m
    using a that by (auto simp: action_wf_def)
  note s = find_search_order [OF d, of P action_mapping_priority]
  show ?thesis
  proof (cases "find P (search_order action_mapping_priority (pa_mappings a))")
    case None
    with s have "\<not> P m" if "(k, m) \<in> set (pa_mappings a)" for k m using that by auto
    then have "\<not> P m" if "map_of (pa_mappings a) app = Some m" for m using map_of_SomeD [OF that] by blast
    with None show ?thesis by (simp add: ordered_mappings_search split: option.split)
  next
    case (Some m)
    with s obtain k where m: "P m" "(k, m) \<in> set (pa_mappings a)" by auto
    then have "k = app" using P key by blast
    with m have "map_of (pa_mappings a) app = Some m" using d by (simp add: map_of_is_SomeI)
    with Some m(1) show ?thesis by (simp add: ordered_mappings_search)
  qed
qed

lemma action_lookup:
  assumes "action_wf a"
  shows "action_check_field app f a =
      (case map_of (pa_mappings a) app of Some m \<Rightarrow> mapping_check_field f m | None \<Rightarrow> False)"
    and "action_get_package app f a =
      (case map_of (pa_mappings a) app of
         Some m \<Rightarrow> if mapping_check_field f m then ac_config m else None | None \<Rightarrow> None)"
proof -
  have key: "fm_application m = app" if "map_of (pa_mappings a) app = Some m" for m
    using assms map_of_SomeD [OF that] by (auto simp: action_wf_def)
  show "action_check_field app f a =
      (case map_of (pa_mappings a) app of Some m \<Rightarrow> mapping_check_field f m | None \<Rightarrow> False)"
    using action_find [OF assms, of "\<lambda>m. fm_application m = app" app] key
    by (simp add: action_check_field_def split: option.split)
  show "action_get_package app f a =
      (case map_of (pa_mappings a) app of
         Some m \<Rightarrow> if mapping_check_field f m then ac_config m else None | None \<Rightarrow> None)"
    using action_find [OF assms, of "\<lambda>m. fm_application m = app \<and> mapping_check_field f m" app] key
    by (simp add: action_get_package_def split: option.split)
qed

section \<open>The export configuration file\<close>

text \<open>An element with a text, as the file has them below a mapping\<close>

definition text_element :: "nat \<Rightarrow> string \<Rightarrow> (string \<times> string) list \<Rightarrow> string \<Rightarrow> xml_node list" where
  "text_element d name as s = [start_node d name as, text_node (Suc d) s, end_node d name]"

datatype mapping_element = Field_Element field_key string | Config_Element string string

fun element_doc :: "(field_key \<Rightarrow> string) \<Rightarrow> mapping_element \<Rightarrow> xml_node list" where
  "element_doc nm (Field_Element k s) = text_element 3 ''FIELD'' (key_attributes nm k) s"
| "element_doc nm (Config_Element name s) = text_element 3 name [] s"

definition export_field :: "string \<Rightarrow> app_field_mapping" where
  "export_field s = \<lparr>af_configuration = False, af_filter = False, af_export = True, af_key = s\<rparr>"

fun element_effect :: "mapping_element \<Rightarrow> metering_config \<times> action_mapping \<Rightarrow> metering_config \<times> action_mapping" where
  "element_effect (Field_Element k s) (mc, m) = (mc, mapping_set_field k (export_field s) m)"
| "element_effect (Config_Element name s) (mc, m) =
     ((if name = ''PRIORITY_APP'' then mc\<lparr>mc_priority := the (atoi s)\<rparr>
       else if name = ''METERING_PROCEDURE'' then mc\<lparr>mc_metering_procedure := s\<rparr>
       else if name = ''EXPORT_PROCEDURE'' then mc\<lparr>mc_export_procedure := s\<rparr>
       else if name = ''DIRECTORY'' then mc\<lparr>mc_export_directory := s\<rparr>
       else if name = ''INTERVAL'' then mc\<lparr>mc_export_interval := Some (atof s)\<rparr>
       else mc), m)"

fun element_ok :: "mapping_element \<Rightarrow> bool" where
  "element_ok (Field_Element k s) \<longleftrightarrow> key_range k \<and> s \<noteq> ''NoTraslation''"
| "element_ok (Config_Element name s) \<longleftrightarrow> (name = ''PRIORITY_APP'' \<longrightarrow> atoi s \<noteq> None) \<and>
     name \<in> {''PRIORITY_APP'', ''METERING_PROCEDURE'', ''EXPORT_PROCEDURE'', ''DIRECTORY'', ''INTERVAL''}"

lemma action_node_at:
  assumes X: "xml_laws X V" and V: "V r = (Some n, t # ns, e, v)"
    and doc: "element_doc nm el = [n, t, x]" and el: "element_ok el"
  shows "\<exists>r'. action_node X 3 mc m r = Some (Ret (element_effect el (mc, m)) r') \<and> V r' = (Some t, ns, e, v)"
proof (cases el)
  case (Field_Element k s)
  have n: "n = start_node 3 ''FIELD'' (key_attributes nm k @ [])" and t: "t = text_node 4 s"
    using doc Field_Element by (simp_all add: text_element_def numeral_eq_Suc)
  have "field_key_node X r = Ret k r"
    by (rule field_key_node_at [OF X V [unfolded n]]) (use el Field_Element in simp)
  moreover obtain r' where "process_text_node X 4 r = Some (Ret s r')" "V r' = (Some t, ns, e, v)"
    using process_text_node_at [OF X V, of s 4] by (auto simp: t text_node_def)
  ultimately show ?thesis
    using xml_nodeD(3) [OF X V] el Field_Element
    by (simp add: action_node_def n start_node_def application_field_mapping_def export_field_def)
next
  case (Config_Element name s)
  have n: "n = start_node 3 name []" and t: "t = text_node 4 s"
    using doc Config_Element by (simp_all add: text_element_def numeral_eq_Suc)
  have nm: "xml_name X r = Some name" using xml_nodeD(3) [OF X V] by (simp add: n start_node_def)
  obtain r' where r': "process_text_node X 4 r = Some (Ret s r')" "V r' = (Some t, ns, e, v)"
    using process_text_node_at [OF X V, of s 4] by (auto simp: t text_node_def)
  have "name = ''PRIORITY_APP'' \<or> name = ''METERING_PROCEDURE'' \<or> name = ''EXPORT_PROCEDURE'' \<or>
      name = ''DIRECTORY'' \<or> name = ''INTERVAL''"
    using el Config_Element by simp
  then show ?thesis
  proof (elim disjE)
    assume "name = ''PRIORITY_APP''"
    moreover from this obtain p where "atoi s = Some p" using el Config_Element by auto
    ultimately show ?thesis using r' by (simp add: action_node_def nm Config_Element)
  qed (use r' in \<open>simp_all add: action_node_def nm Config_Element\<close>)
qed

lemma action_mapping_loop_elements:
  assumes X: "xml_laws X V"
  shows "list_all element_ok els \<Longrightarrow> V r = (c, concat (map (element_doc nm) els) @ ns, e, v) \<Longrightarrow>
    \<exists>r' c'. (case xml_read X r of (ret, r) \<Rightarrow> action_mapping_loop X 3 ret mc m r) =
        (case xml_read X r' of (ret, r) \<Rightarrow>
           action_mapping_loop X 3 ret (fst (fold element_effect els (mc, m))) (snd (fold element_effect els (mc, m))) r) \<and>
      V r' = (c', ns, e, v)"
proof (induction els arbitrary: r c mc m)
  case Nil
  then show ?case by auto
next
  case (Cons el els)
  let ?rest = "concat (map (element_doc nm) els) @ ns"
  obtain s t x where doc: "element_doc nm el = [s, t, x]" by (cases el) (simp_all add: text_element_def)
  have s: "xn_type s = xml_element" "xn_depth s = 3" and x: "xn_type x = 15" "xn_depth x = 3"
    using doc by (cases el; force simp: text_element_def start_node_def end_node_def)+
  have V: "V r = (c, s # t # x # ?rest, e, v)" using Cons.prems(2) doc by simp
  obtain r1 where r1: "xml_read X r = (1, r1)" "V r1 = (Some s, t # x # ?rest, e, v)"
    using xml_readD(1) [OF X V] by blast
  have "element_ok el" using Cons.prems(1) by simp
  from action_node_at [OF X r1(2) doc this, of mc m] obtain r2 where
    r2: "action_node X 3 mc m r1 = Some (Ret (element_effect el (mc, m)) r2)" "V r2 = (Some t, x # ?rest, e, v)" by blast
  obtain r3 where r3: "xml_read X r2 = (1, r3)" "V r3 = (Some x, ?rest, e, v)"
    using xml_readD(1) [OF X r2(2)] by blast
  obtain mc' m' where eff: "element_effect el (mc, m) = (mc', m')" by fastforce
  have "action_mapping_loop X 3 1 mc m r1 = action_mapping_loop X 3 1 mc' m' r3"
    using xml_nodeD [OF X r1(2)] s r2(1) r3(1) eff by (subst action_mapping_loop.simps) simp
  also have "\<dots> = (case xml_read X r3 of (ret, r) \<Rightarrow> action_mapping_loop X 3 ret mc' m' r)"
    using xml_nodeD [OF X r3(2)] x by (subst action_mapping_loop.simps) (simp add: xml_element_def)
  finally show ?case
    using Cons.IH [OF _ r3(2), of mc' m'] Cons.prems(1) r1(1) eff by simp
qed

text \<open>The elements of a mapping; \<open>iv\<close> writes the interval.\<close>

definition mapping_elements :: "(rat \<Rightarrow> string) \<Rightarrow> action_mapping \<Rightarrow> mapping_element list" where
  "mapping_elements iv m =
     (case ac_config m of
        Some c \<Rightarrow>
          [Config_Element ''PRIORITY_APP'' (show_int (mc_priority c)),
           Config_Element ''METERING_PROCEDURE'' (mc_metering_procedure c),
           Config_Element ''EXPORT_PROCEDURE'' (mc_export_procedure c),
           Config_Element ''DIRECTORY'' (mc_export_directory c),
           Config_Element ''INTERVAL'' (iv (the (mc_export_interval c)))]
      | None \<Rightarrow> []) @ map (\<lambda>(k, a). Field_Element k (af_key a)) (fm_fields m)"

definition action_mapping_writable :: "(rat \<Rightarrow> string) \<Rightarrow> action_mapping \<Rightarrow> bool" where
  "action_mapping_writable iv m \<longleftrightarrow>
     map to_upper (fm_application m) = ''NETMATE'' \<and> mapping_wf m \<and>
     list_all (\<lambda>(k, a). key_range k \<and> a = export_field (af_key a) \<and> af_key a \<noteq> ''NoTraslation'') (fm_fields m) \<and>
     (case ac_config m of
        Some c \<Rightarrow> int_range (mc_priority c) \<and>
          (case mc_export_interval c of Some q \<Rightarrow> atof (iv q) = q | None \<Rightarrow> False)
      | None \<Rightarrow> False)"

lemma mapping_elements_ok: "action_mapping_writable iv m \<Longrightarrow> list_all element_ok (mapping_elements iv m)"
  by (auto simp: action_mapping_writable_def mapping_elements_def list_all_iff atoi_show_int int_range_def
      split: option.splits)

lemma fold_field_elements:
  "fold element_effect (map (\<lambda>(k, a). Field_Element k (af_key a)) fs) (mc, m) =
     (mc, fold (\<lambda>(k, a). mapping_set_field k (export_field (af_key a))) fs m)"
  by (induction fs arbitrary: m) auto

lemma fold_mapping_elements:
  assumes "action_mapping_writable iv m" and "ac_config m = Some c"
  shows "fold element_effect (mapping_elements iv m)
      (new_metering_config, new_action_mapping\<lparr>fm_application := fm_application m\<rparr>) = (c, m\<lparr>ac_config := None\<rparr>)"
proof -
  let ?m = "new_action_mapping\<lparr>fm_application := fm_application m\<rparr>"
  have fs: "list_all (\<lambda>(k, a). a = export_field (af_key a)) (fm_fields m)" "distinct (map fst (fm_fields m))"
    using assms by (auto simp: action_mapping_writable_def mapping_wf_def list_all_iff)
  have "fold (\<lambda>(k, a). mapping_set_field k (export_field (af_key a))) (fm_fields m) ?m =
      fold (\<lambda>(k, f). mapping_set_field k f) (fm_fields m) ?m"
    using fs(1) by (intro fold_cong) (auto simp: list_all_iff)
  also have "\<dots> = m\<lparr>ac_config := None\<rparr>"
    using fold_set_field [OF _ fs(2), of ?m] by (simp add: new_action_mapping_def mapping_wf_def)
  finally have m: "fold (\<lambda>(k, a). mapping_set_field k (export_field (af_key a))) (fm_fields m) ?m = m\<lparr>ac_config := None\<rparr>" .
  obtain q where q: "mc_export_interval c = Some q" "atof (iv q) = q" and p: "int_range (mc_priority c)"
    using assms by (auto simp: action_mapping_writable_def split: option.splits)
  have "atoi (show_int (mc_priority c)) = Some (mc_priority c)"
    using p by (simp add: atoi_show_int int_range_def)
  then show ?thesis
    using q assms(2) m
    by (cases c) (simp add: mapping_elements_def fold_field_elements new_metering_config_def)
qed

definition action_mapping_doc :: "(rat \<Rightarrow> string) \<Rightarrow> (field_key \<Rightarrow> string) \<Rightarrow> action_mapping \<Rightarrow> xml_node list" where
  "action_mapping_doc iv nm m =
     start_node 2 ''POLICY_ACTION_APP'' [(''ID'', fm_application m)] #
       concat (map (element_doc nm) (mapping_elements iv m)) @ [end_node 2 ''POLICY_ACTION_APP'']"

lemma read_application_doc:
  assumes X: "xml_laws X V" and m: "action_mapping_writable iv m"
    and V: "V r = (Some s, concat (map (element_doc nm) (mapping_elements iv m)) @ x # ns, e, v)"
    and s: "s = start_node 2 ''POLICY_ACTION_APP'' [(''ID'', fm_application m)]" and x: "xn_depth x = 2"
  shows "\<exists>r'. read_application X a r = Some (Ret (set_action_mapping (fm_application m) m a) r') \<and>
    V r' = (Some x, ns, e, v)"
proof -
  let ?m = "new_action_mapping\<lparr>fm_application := fm_application m\<rparr>"
  obtain c where c: "ac_config m = Some c" using m by (auto simp: action_mapping_writable_def split: option.splits)
  have app: "make_action_mapping (fm_application m) = Some new_action_mapping"
    using m by (simp add: make_action_mapping_def action_mapping_writable_def)
  obtain r1 c1 where r1: "(case xml_read X r of (ret, r) \<Rightarrow> action_mapping_loop X 3 ret new_metering_config ?m r) =
        (case xml_read X r1 of (ret, r) \<Rightarrow> action_mapping_loop X 3 ret c (m\<lparr>ac_config := None\<rparr>) r)"
      "V r1 = (c1, x # ns, e, v)"
    using action_mapping_loop_elements [OF X mapping_elements_ok [OF m] V, of new_metering_config ?m]
    by (auto simp: fold_mapping_elements [OF m c])
  obtain r2 where r2: "xml_read X r1 = (1, r2)" "V r2 = (Some x, ns, e, v)"
    using xml_readD(1) [OF X r1(2)] by blast
  have "m\<lparr>ac_config := Some c\<rparr> = m" using c by simp
  then have "action_mapping_loop X 3 1 c (m\<lparr>ac_config := None\<rparr>) r2 = Some (Ret m r2)"
    using xml_nodeD [OF X r2(2)] x by (subst action_mapping_loop.simps) simp
  with r1(1) r2(1) have "(case xml_read X r of (ret, r) \<Rightarrow> action_mapping_loop X 3 ret new_metering_config ?m r) = Some (Ret m r2)"
    by simp
  then show ?thesis
    using r2(2) xml_nodeD [OF X V] app
    by (simp add: read_application_def action_mapping_read_def process_attribute_def s start_node_def)
qed

lemma policy_action_loop_mappings:
  assumes X: "xml_laws X V"
  shows "list_all (action_mapping_writable iv) ms \<Longrightarrow>
    V r = (c, concat (map (action_mapping_doc iv nm) ms) @ ns, e, v) \<Longrightarrow>
    \<exists>r' c'. (case xml_read X r of (ret, r) \<Rightarrow> policy_action_loop X ret a r) =
        (case xml_read X r' of (ret, r) \<Rightarrow>
           policy_action_loop X ret (fold (\<lambda>m. set_action_mapping (fm_application m) m) ms a) r) \<and>
      V r' = (c', ns, e, v)"
proof (induction ms arbitrary: r c a)
  case Nil
  then show ?case by auto
next
  case (Cons m ms)
  let ?s = "start_node 2 ''POLICY_ACTION_APP'' [(''ID'', fm_application m)]" and ?x = "end_node 2 ''POLICY_ACTION_APP''"
  let ?rest = "concat (map (action_mapping_doc iv nm) ms) @ ns"
  let ?a = "set_action_mapping (fm_application m) m a"
  have V: "V r = (c, ?s # concat (map (element_doc nm) (mapping_elements iv m)) @ ?x # ?rest, e, v)"
    using Cons.prems(2) by (simp add: action_mapping_doc_def [of iv nm m])
  obtain r1 where r1: "xml_read X r = (1, r1)"
    "V r1 = (Some ?s, concat (map (element_doc nm) (mapping_elements iv m)) @ ?x # ?rest, e, v)"
    using xml_readD(1) [OF X V] by blast
  have m: "action_mapping_writable iv m" and x: "xn_depth ?x = 2" using Cons.prems(1) by (simp_all add: end_node_def)
  obtain r2 where r2: "read_application X a r1 = Some (Ret ?a r2)" "V r2 = (Some ?x, ?rest, e, v)"
    using read_application_doc [OF X m r1(2) refl x] by blast
  have "policy_action_loop X 1 a r1 = policy_action_loop X 1 ?a r2"
    using xml_nodeD [OF X r1(2)] r2(1) by (subst policy_action_loop.simps) (simp add: start_node_def)
  also have "\<dots> = (case xml_read X r2 of (ret, r) \<Rightarrow> policy_action_loop X ret ?a r)"
    using xml_nodeD [OF X r2(2)] by (subst policy_action_loop.simps) (simp add: end_node_def xml_element_def)
  finally show ?case
    using Cons.IH [OF _ r2(2), of ?a] Cons.prems(1) r1(1) by simp
qed

definition policy_action_doc :: "(rat \<Rightarrow> string) \<Rightarrow> (field_key \<Rightarrow> string) \<Rightarrow> policy_action \<Rightarrow> xml_node list" where
  "policy_action_doc iv nm a =
     start_node 1 ''POLICY_ACTION'' [(''ID'', pa_action a)] #
       text_element 2 ''PRIORITY'' [] (show_int (the (pa_priority a))) @
       concat (map (action_mapping_doc iv nm) (map snd (pa_mappings a))) @ [end_node 1 ''POLICY_ACTION'']"

definition policy_action_writable :: "(rat \<Rightarrow> string) \<Rightarrow> policy_action \<Rightarrow> bool" where
  "policy_action_writable iv a \<longleftrightarrow>
     action_wf a \<and> list_all (\<lambda>(k, m). action_mapping_writable iv m) (pa_mappings a) \<and>
     (case pa_priority a of Some p \<Rightarrow> int_range p | None \<Rightarrow> False)"

lemma fold_set_mappings:
  assumes "action_wf a"
  shows "fold (\<lambda>m. set_action_mapping (fm_application m) m) (map snd (pa_mappings a)) (a\<lparr>pa_mappings := []\<rparr>) = a"
proof -
  have *: "fold (\<lambda>m. set_action_mapping (fm_application m) m) (map snd ms) b =
      b\<lparr>pa_mappings := fold (\<lambda>(k, v). smap_set (<) k v) ms (pa_mappings b)\<rparr>"
    if "list_all (\<lambda>(k, m). fm_application m = k) ms" for ms b
    using that by (induction ms arbitrary: b) (auto simp: set_action_mapping_def)
  have "list_all (\<lambda>(k, m). fm_application m = k) (pa_mappings a)"
    using assms by (auto simp: action_wf_def list_all_iff)
  from * [OF this, of "a\<lparr>pa_mappings := []\<rparr>"] show ?thesis
    using assms by (simp add: action_wf_def str.rebuild)
qed

text \<open>The priority comes first; the text reader leaves the reader at the text.\<close>

lemma policy_action_loop_priority:
  assumes X: "xml_laws X V" and V: "V r = (c, text_element 2 ''PRIORITY'' [] s @ ns, e, v)" and p: "atoi s = Some p"
  shows "\<exists>r' c'. (case xml_read X r of (ret, r) \<Rightarrow> policy_action_loop X ret a r) =
      (case xml_read X r' of (ret, r) \<Rightarrow> policy_action_loop X ret (a\<lparr>pa_priority := Some p\<rparr>) r) \<and>
    V r' = (c', ns, e, v)"
proof -
  let ?s = "start_node 2 ''PRIORITY'' []" and ?t = "text_node 3 s" and ?x = "end_node 2 ''PRIORITY''"
  have V': "V r = (c, ?s # ?t # ?x # ns, e, v)" using V by (simp add: text_element_def numeral_3_eq_3 numeral_2_eq_2)
  obtain r1 where r1: "xml_read X r = (1, r1)" "V r1 = (Some ?s, ?t # ?x # ns, e, v)"
    using xml_readD(1) [OF X V'] by blast
  obtain r2 where r2: "process_text_node X 3 r1 = Some (Ret s r2)" "V r2 = (Some ?t, ?x # ns, e, v)"
    using process_text_node_at [OF X r1(2), of s 3] by (auto simp: text_node_def)
  obtain r3 where r3: "xml_read X r2 = (1, r3)" "V r3 = (Some ?x, ns, e, v)"
    using xml_readD(1) [OF X r2(2)] by blast
  let ?a = "a\<lparr>pa_priority := Some p\<rparr>"
  have "policy_action_loop X 1 a r1 = policy_action_loop X 1 ?a r2"
    using xml_nodeD [OF X r1(2)] r2(1) p by (subst policy_action_loop.simps) (simp add: start_node_def read_priority_def)
  also have "\<dots> = policy_action_loop X 1 ?a r3"
    using xml_nodeD [OF X r2(2)] r3(1) by (subst policy_action_loop.simps) (simp add: text_node_def)
  also have "\<dots> = (case xml_read X r3 of (ret, r) \<Rightarrow> policy_action_loop X ret ?a r)"
    using xml_nodeD [OF X r3(2)] by (subst policy_action_loop.simps) (simp add: end_node_def xml_element_def)
  finally show ?thesis using r1(1) r3(2) by auto
qed

lemma policy_action_read_doc:
  assumes X: "xml_laws X V" and a: "policy_action_writable iv a"
    and V: "V r = (Some s, text_element 2 ''PRIORITY'' [] (show_int (the (pa_priority a))) @
      concat (map (action_mapping_doc iv nm) (map snd (pa_mappings a))) @ x # ns, e, v)"
    and s: "s = start_node 1 ''POLICY_ACTION'' [(''ID'', pa_action a)]" and x: "xn_depth x = 1"
  shows "\<exists>r'. policy_action_read X new_policy_action r = Some (Ret (Some 1, a) r') \<and> V r' = (Some x, ns, e, v)"
proof -
  obtain p where p: "pa_priority a = Some p" "atoi (show_int p) = Some p"
    using a atoi_show_int by (auto simp: policy_action_writable_def int_range_def split: option.splits)
  have wf: "action_wf a" and ms: "list_all (action_mapping_writable iv) (map snd (pa_mappings a))"
    using a by (auto simp: policy_action_writable_def list_all_iff)
  let ?a = "new_policy_action\<lparr>pa_action := pa_action a\<rparr>" and ?b = "a\<lparr>pa_mappings := []\<rparr>"
  have ab: "?a\<lparr>pa_priority := Some p\<rparr> = ?b" using p(1) by (cases a) (simp add: new_policy_action_def)
  obtain r1 c1 where r1: "(case xml_read X r of (ret, r) \<Rightarrow> policy_action_loop X ret ?a r) =
      (case xml_read X r1 of (ret, r) \<Rightarrow> policy_action_loop X ret ?b r)"
    "V r1 = (c1, concat (map (action_mapping_doc iv nm) (map snd (pa_mappings a))) @ x # ns, e, v)"
    using policy_action_loop_priority [OF X V _, of p ?a] p ab by auto
  obtain r2 c2 where r2: "(case xml_read X r1 of (ret, r) \<Rightarrow> policy_action_loop X ret ?b r) =
      (case xml_read X r2 of (ret, r) \<Rightarrow> policy_action_loop X ret a r)" "V r2 = (c2, x # ns, e, v)"
    using policy_action_loop_mappings [OF X ms r1(2), of ?b] fold_set_mappings [OF wf] by auto
  obtain r3 where r3: "xml_read X r2 = (1, r3)" "V r3 = (Some x, ns, e, v)"
    using xml_readD(1) [OF X r2(2)] by blast
  have "policy_action_loop X 1 a r3 = Some (Ret (Some 1, a) r3)"
    using xml_nodeD [OF X r3(2)] x by (subst policy_action_loop.simps) simp
  then show ?thesis
    using r1(1) r2(1) r3 xml_nodeD [OF X V]
    by (simp add: policy_action_read_def process_attribute_def s start_node_def)
qed

lemma action_container_loop_actions:
  assumes X: "xml_laws X V"
  shows "list_all (policy_action_writable iv) as \<Longrightarrow>
    V r = (c0, concat (map (policy_action_doc iv nm) as) @ ns, e, v) \<Longrightarrow>
    \<exists>r' c1. (case xml_read X r of (ret, r) \<Rightarrow> action_container_loop X ret c r) =
        (case xml_read X r' of (ret, r) \<Rightarrow>
           action_container_loop X ret (fold (\<lambda>a. set_policy_action (pa_action a) a) as c) r) \<and>
      V r' = (c1, ns, e, v)"
proof (induction as arbitrary: r c0 c)
  case Nil
  then show ?case by auto
next
  case (Cons a as)
  let ?s = "start_node 1 ''POLICY_ACTION'' [(''ID'', pa_action a)]" and ?x = "end_node 1 ''POLICY_ACTION''"
  let ?rest = "concat (map (policy_action_doc iv nm) as) @ ns" and ?c = "set_policy_action (pa_action a) a c"
  let ?body = "text_element 2 ''PRIORITY'' [] (show_int (the (pa_priority a))) @
      concat (map (action_mapping_doc iv nm) (map snd (pa_mappings a)))"
  have V: "V r = (c0, ?s # ?body @ ?x # ?rest, e, v)"
    using Cons.prems(2) by (simp add: policy_action_doc_def [of iv nm a])
  obtain r1 where r1: "xml_read X r = (1, r1)" "V r1 = (Some ?s, ?body @ ?x # ?rest, e, v)"
    using xml_readD(1) [OF X V] by blast
  have a: "policy_action_writable iv a" and x: "xn_depth ?x = 1" using Cons.prems(1) by (simp_all add: end_node_def)
  obtain r2 where r2: "policy_action_read X new_policy_action r1 = Some (Ret (Some 1, a) r2)" "V r2 = (Some ?x, ?rest, e, v)"
    using policy_action_read_doc [OF X a _ refl x, of r1 nm ?rest e v] r1(2) by auto
  have "action_container_loop X 1 c r1 = action_container_loop X 1 ?c r2"
    using xml_nodeD [OF X r1(2)] r2(1) by (subst action_container_loop.simps) (simp add: start_node_def)
  also have "\<dots> = (case xml_read X r2 of (ret, r) \<Rightarrow> action_container_loop X ret ?c r)"
    using xml_nodeD [OF X r2(2)] by (subst action_container_loop.simps) (simp add: end_node_def xml_element_def)
  finally show ?case
    using Cons.IH [OF _ r2(2), of ?c] Cons.prems(1) r1(1) by simp
qed

lemma action_container_read_start:
  assumes X: "xml_laws X V" and V: "V r = (None, start_node 0 name as # ns, e, v)"
  shows "\<exists>r1. action_container_read X c r =
      o_bind (case xml_read X r1 of (ret, r) \<Rightarrow> action_container_loop X ret c r)
        (\<lambda>ret s. Some (finish_reading X ret s)) \<and>
    V r1 = (Some (start_node 0 name as), ns, e, v)"
proof -
  obtain r1 where r1: "xml_read X r = (1, r1)" "V r1 = (Some (start_node 0 name as), ns, e, v)"
    using xml_readD(1) [OF X V] by blast
  have "action_container_loop X 1 c r1 = (case xml_read X r1 of (ret, r) \<Rightarrow> action_container_loop X ret c r)"
    using xml_nodeD [OF X r1(2)] by (subst action_container_loop.simps) (simp add: start_node_def)
  with r1 show ?thesis by (auto simp: action_container_read_def)
qed

definition actions_doc :: "(rat \<Rightarrow> string) \<Rightarrow> (field_key \<Rightarrow> string) \<Rightarrow> action_container \<Rightarrow> xml_node list" where
  "actions_doc iv nm c =
     start_node 0 ''EXPORT'' [] # concat (map (policy_action_doc iv nm) (map snd c)) @ [end_node 0 ''EXPORT'']"

definition container_wf :: "action_container \<Rightarrow> bool" where
  "container_wf c \<longleftrightarrow> smap_wf (<) c \<and> (\<forall>(k, a) \<in> set c. pa_action a = k \<and> action_wf a)"

lemma policy_action_assign_new:
  assumes "action_wf a"
  shows "policy_action_assign new_policy_action a = a"
proof -
  have *: "fold (\<lambda>(app, m). set_action_mapping app m) ms b =
      b\<lparr>pa_mappings := fold (\<lambda>(k, v). smap_set (<) k v) ms (pa_mappings b)\<rparr>" for ms b
    by (induction ms arbitrary: b) (auto simp: set_action_mapping_def)
  show ?thesis
    using assms by (cases a) (simp add: policy_action_assign_def * action_wf_def new_policy_action_def str.rebuild)
qed

text \<open>Entries of a well-formed container in their order build the container.\<close>

lemma fold_set_policy_action:
  assumes "container_wf c"
  shows "fold (\<lambda>a. set_policy_action (pa_action a) a) (map snd c) [] = c"
proof -
  have "fold (\<lambda>a. set_policy_action (pa_action a) a) (map snd as) c0 = c0 @ as"
    if "smap_wf (<) (c0 @ as)" "list_all (\<lambda>(k, a). pa_action a = k \<and> action_wf a) as" for as c0 :: action_container
    using that
  proof (induction as arbitrary: c0)
    case (Cons p as)
    obtain k a where p: "p = (k, a)" by (cases p)
    have d: "distinct (map fst (c0 @ (k, a) # as))" using str_wf_distinct [OF Cons.prems(1)] p by simp
    then have "smap_find (<) k c0 = None" by (simp add: str_find_map_of map_of_eq_None_iff)
    then have "set_policy_action k a c0 = smap_set (<) k a c0"
      using Cons.prems(2) p by (simp add: set_policy_action_def policy_action_assign_new)
    also have "\<dots> = c0 @ [(k, a)]"
    proof (rule str.set_above)
      show "\<forall>(x, y) \<in> set c0. x < k" using Cons.prems(1) p by (auto simp: smap_wf_def sorted_wrt_append)
    qed
    finally show ?case using Cons.IH [of "c0 @ [(k, a)]"] Cons.prems p by simp
  qed simp
  from this [of "[]" c] show ?thesis using assms by (simp add: container_wf_def list_all_iff)
qed

lemma action_container_read_doc:
  assumes "xml_laws X V" and "V r = (None, actions_doc iv nm c, 0, 1)" and "container_wf c"
    and "list_all (\<lambda>(k, a). policy_action_writable iv a) c"
  shows "\<exists>r'. action_container_read X [] r = Some (Ret () (c, r'))"
proof -
  let ?x = "end_node 0 ''EXPORT''"
  have as: "list_all (policy_action_writable iv) (map snd c)" using assms(4) by (auto simp: list_all_iff)
  obtain r1 where r1: "action_container_read X [] r =
      o_bind (case xml_read X r1 of (ret, r) \<Rightarrow> action_container_loop X ret [] r)
        (\<lambda>ret s. Some (finish_reading X ret s))"
    "V r1 = (Some (start_node 0 ''EXPORT'' []), concat (map (policy_action_doc iv nm) (map snd c)) @ [?x], 0, 1)"
    using action_container_read_start [OF assms(1) assms(2) [unfolded actions_doc_def]] by blast
  from action_container_loop_actions [OF assms(1) as r1(2), of "[]"] obtain r2 c2 where r2:
    "(case xml_read X r1 of (ret, r) \<Rightarrow> action_container_loop X ret [] r) =
       (case xml_read X r2 of (ret, r) \<Rightarrow> action_container_loop X ret c r)" "V r2 = (c2, [?x], 0, 1)"
    unfolding fold_set_policy_action [OF assms(3)] by blast
  obtain r3 where r3: "xml_read X r2 = (1, r3)" "V r3 = (Some ?x, [], 0, 1)"
    using xml_readD(1) [OF assms(1) r2(2)] by blast
  obtain r4 where r4: "xml_read X r3 = (0, r4)" "V r4 = (None, [], 0, 1)"
    using xml_readD(2) [OF assms(1) r3(2)] by blast
  have "action_container_loop X 1 c r3 = Some (Ret 0 (c, r4))"
    using xml_nodeD [OF assms(1) r3(2)] r4(1) by (simp add: action_container_loop.simps end_node_def)
  then show ?thesis
    using r1(1) r2(1) r3(1) xml_endD(2) [OF assms(1) r4(2)] by (simp add: finish_reading_def)
qed

section \<open>Properties\<close>

text \<open>
  Reading the export configuration file that describes a container of actions gives
  exactly this container: each action with its priority, for each application the fields it
  exports with their keys, and its procedure, directory and interval.
\<close>

theorem actions_round_trip:
  assumes "xml_laws X V" and "V r = (None, actions_doc iv nm c, 0, 1)" and "container_wf c"
    and "list_all (\<lambda>(k, a). policy_action_writable iv a) c"
  shows "\<exists>r'. action_container_read X [] r = Some (Ret () (c, r'))"
  by (rule action_container_read_doc [OF assms])

text \<open>The example: one action that exports the source port\<close>

definition ex_config :: metering_config where
  "ex_config = \<lparr>mc_priority = 1, mc_metering_procedure = ''count'', mc_export_procedure = ''file'',
     mc_export_directory = ''/tmp/'', mc_export_interval = Some 5\<rparr>"

definition ex_action :: policy_action where
  "ex_action = \<lparr>pa_mappings = [(''netmate'', \<lparr>fm_fields = [(ex_key, export_field ''SrcPort'')],
     fm_application = ''netmate'', ac_config = Some ex_config\<rparr>)], pa_action = ''flow'', pa_priority = Some 1\<rparr>"

lemma ex_interval: "atof ''5'' = 5"
  using dbl_round_nat [of 5] by (simp add: atof_def is_space_def is_digit_def digits_value_def)

lemma netmate_upper: "map to_upper ''netmate'' = ''NETMATE''"
  by code_simp

lemma ex_action_writable: "policy_action_writable (\<lambda>q. ''5'') ex_action"
proof -
  have "action_wf ex_action" by (simp add: ex_action_def action_wf_def mapping_wf_def)
  moreover have "action_mapping_writable (\<lambda>q. ''5'') m" if "(k, m) \<in> set (pa_mappings ex_action)" for k m
    using that netmate_upper
    by (auto simp: ex_action_def ex_config_def ex_key_def mapping_wf_def action_mapping_writable_def
        export_field_def key_range_def int_range_def ex_interval)
  ultimately show ?thesis
    by (auto simp: policy_action_writable_def list_all_iff ex_action_def int_range_def)
qed

lemma ex_container_wf: "container_wf [(''flow'', ex_action)]"
  using ex_action_writable by (auto simp: container_wf_def policy_action_writable_def ex_action_def)

theorem actions_round_trip_witness:
  "\<exists>r'. action_container_read list_xml [] (None, actions_doc (\<lambda>q. ''5'') (\<lambda>k. ''port'') [(''flow'', ex_action)], 0, 1) =
     Some (Ret () ([(''flow'', ex_action)], r'))"
proof -
  have "list_xml_view (None, actions_doc (\<lambda>q. ''5'') (\<lambda>k. ''port'') [(''flow'', ex_action)], 0, 1) =
    (None, actions_doc (\<lambda>q. ''5'') (\<lambda>k. ''port'') [(''flow'', ex_action)], 0, 1)" by (simp add: list_xml_view_def)
  from actions_round_trip [OF list_xml_laws, OF this ex_container_wf] show ?thesis
    using ex_action_writable by simp
qed

text \<open>The loop stays at an element it does not know.\<close>

lemma policy_action_loop_hangs:
  assumes "xml_depth X r = 2" and "xml_node_type X r = xml_element"
    and "xml_name X r \<notin> {Some ''POLICY_ACTION_APP'', Some ''PRIORITY''}"
  shows "policy_action_loop X 1 a r = None"
proof -
  let ?P = "\<lambda>X' ret a' r' res. \<not> (X' = X \<and> ret = 1 \<and> r' = r)"
  have "?P X' ret a' r' res" if "policy_action_loop X' ret a' r' = Some res" for X' ret a' r' res
  proof (rule policy_action_loop.raw_induct [where P = ?P, OF _ that])
    fix f X' ret a' r' res
    assume f: "\<And>X ret a r res. f X ret a r = Some res \<Longrightarrow> ?P X ret a r res"
      and body: "(if ret \<noteq> 1 then Some (Ret (None, a') r')
      else if xml_depth X' r' = 2 \<and> xml_node_type X' r' = xml_element
      then (if xml_name X' r' = Some ''POLICY_ACTION_APP''
            then (case read_application X' a' r' of
                    None \<Rightarrow> None
                  | Some (Ret a r) \<Rightarrow> f X' ret a r
                  | Some (Exn e r) \<Rightarrow> Some (Exn e r)
                  | Some Abort \<Rightarrow> Some Abort
                  | Some Undef \<Rightarrow> Some Undef)
            else if xml_name X' r' = Some ''PRIORITY''
            then (case read_priority X' a' r' of
                    None \<Rightarrow> None
                  | Some (Ret a r) \<Rightarrow> f X' ret a r
                  | Some (Exn e r) \<Rightarrow> Some (Exn e r)
                  | Some Abort \<Rightarrow> Some Abort
                  | Some Undef \<Rightarrow> Some Undef)
            else f X' ret a' r')
      else if xml_depth X' r' < 2 then Some (Ret (Some ret, a') r')
      else (case xml_read X' r' of (ret, r) \<Rightarrow> f X' ret a' r)) = Some res"
    show "?P X' ret a' r' res"
    proof (intro notI, elim conjE)
      assume eq: "X' = X" "ret = 1" "r' = r"
      with body assms have "f X 1 a' r = Some res" by simp
      with f eq show False by blast
    qed
  qed
  then show ?thesis by (metis not_None_eq)
qed

text \<open>
  C34: An element that an action is not to have keeps the reader of the export configuration
  file at this element forever, and an application other than netmate makes it call a
  function of a NULL pointer. Both hold behind any number of correct actions, for a file that
  is otherwise of any form.
\<close>

theorem export_unknown_element:
  assumes "xml_laws X V" and "list_all (policy_action_writable iv) as"
    and "V r = (None, start_node 0 ''EXPORT'' [] # concat (map (policy_action_doc iv nm) as) @
      start_node 1 ''POLICY_ACTION'' [(''ID'', action)] # start_node 2 name attrs # ns, e, v)"
  shows "(name \<notin> {''POLICY_ACTION_APP'', ''PRIORITY''} \<longrightarrow> action_container_read X [] r = None) \<and>
    (name = ''POLICY_ACTION_APP'' \<longrightarrow> map_of attrs ''ID'' = Some app \<longrightarrow> map to_upper app \<noteq> ''NETMATE'' \<longrightarrow>
       action_container_read X [] r = Some Undef)"
proof -
  let ?s = "start_node 1 ''POLICY_ACTION'' [(''ID'', action)]" and ?n = "start_node 2 name attrs"
  let ?c = "fold (\<lambda>a. set_policy_action (pa_action a) a) as []" and ?a = "new_policy_action\<lparr>pa_action := action\<rparr>"
  obtain r1 where r1: "action_container_read X [] r =
      o_bind (case xml_read X r1 of (ret, r) \<Rightarrow> action_container_loop X ret [] r)
        (\<lambda>ret s. Some (finish_reading X ret s))"
    "V r1 = (Some (start_node 0 ''EXPORT'' []), concat (map (policy_action_doc iv nm) as) @ ?s # ?n # ns, e, v)"
    using action_container_read_start [OF assms(1,3)] by blast
  from action_container_loop_actions [OF assms(1,2) r1(2), of "[]"] obtain r2 c2 where r2:
    "(case xml_read X r1 of (ret, r) \<Rightarrow> action_container_loop X ret [] r) =
       (case xml_read X r2 of (ret, r) \<Rightarrow> action_container_loop X ret ?c r)" "V r2 = (c2, ?s # ?n # ns, e, v)" by blast
  obtain r3 where r3: "xml_read X r2 = (1, r3)" "V r3 = (Some ?s, ?n # ns, e, v)"
    using xml_readD(1) [OF assms(1) r2(2)] by blast
  obtain r4 where r4: "xml_read X r3 = (1, r4)" "V r4 = (Some ?n, ns, e, v)"
    using xml_readD(1) [OF assms(1) r3(2)] by blast
  have n: "xml_depth X r4 = 2" "xml_node_type X r4 = xml_element" "xml_name X r4 = Some name"
      "xml_get_attribute X r4 = map_of attrs"
    using xml_nodeD [OF assms(1) r4(2)] by (simp_all add: start_node_def)
  have "policy_action_read X new_policy_action r3 = policy_action_loop X 1 ?a r4"
    using xml_nodeD [OF assms(1) r3(2)] r4(1) by (simp add: policy_action_read_def process_attribute_def start_node_def)
  moreover have "policy_action_loop X 1 ?a r4 = None" if "name \<notin> {''POLICY_ACTION_APP'', ''PRIORITY''}"
    using policy_action_loop_hangs [OF n(1,2)] n(3) that by simp
  moreover have "policy_action_loop X 1 ?a r4 = Some Undef" if "name = ''POLICY_ACTION_APP''"
      "map_of attrs ''ID'' = Some app" "map to_upper app \<noteq> ''NETMATE''"
    using n that by (subst policy_action_loop.simps)
      (simp add: read_application_def process_attribute_def make_action_mapping_def)
  moreover have "action_container_loop X 1 ?c r3 = None" if "policy_action_read X new_policy_action r3 = None"
    using xml_nodeD [OF assms(1) r3(2)] that by (subst action_container_loop.simps) (simp add: start_node_def)
  moreover have "action_container_loop X 1 ?c r3 = Some Undef" if "policy_action_read X new_policy_action r3 = Some Undef"
    using xml_nodeD [OF assms(1) r3(2)] that by (subst action_container_loop.simps) (simp add: start_node_def)
  ultimately show ?thesis using r1(1) r2(1) r3(1) by simp
qed

theorem export_unknown_element_witness:
  "action_container_read list_xml [] (None, [start_node 0 ''EXPORT'' [],
     start_node 1 ''POLICY_ACTION'' [(''ID'', ''flow'')], start_node 2 ''COMMENT'' []], 0, 1) = None \<and>
   action_container_read list_xml [] (None, [start_node 0 ''EXPORT'' [],
     start_node 1 ''POLICY_ACTION'' [(''ID'', ''flow'')], start_node 2 ''POLICY_ACTION_APP'' [(''ID'', ''ntop'')]], 0, 1) =
     Some Undef"
  using export_unknown_element [OF list_xml_laws, where as = "[]" and iv = "\<lambda>q. ''''" and nm = "\<lambda>k. ''''" and
      action = "''flow''" and name = "''COMMENT''" and attrs = "[]" and ns = "[]" and e = 0 and v = 1 and app = "''''" and
      r = "(None, [start_node 0 ''EXPORT'' [],
        start_node 1 ''POLICY_ACTION'' [(''ID'', ''flow'')], start_node 2 ''COMMENT'' []], 0, 1)"]
    export_unknown_element [OF list_xml_laws, where as = "[]" and iv = "\<lambda>q. ''''" and nm = "\<lambda>k. ''''" and
      action = "''flow''" and name = "''POLICY_ACTION_APP''" and attrs = "[(''ID'', ''ntop'')]" and ns = "[]" and e = 0
      and v = 1 and app = "''ntop''" and r = "(None, [start_node 0 ''EXPORT'' [],
        start_node 1 ''POLICY_ACTION'' [(''ID'', ''flow'')], start_node 2 ''POLICY_ACTION_APP'' [(''ID'', ''ntop'')]], 0, 1)"]
  by (simp add: list_xml_view_def to_upper_def Let_def)

text \<open>
  C32: The container gives for a field the configuration of the action with the least priority
  among those that have one for this field, of several with this priority the first by name;
  and none exactly if no action has one.
\<close>

theorem package_of_first_action:
  assumes "smap_wf (<) c" and "list_all (\<lambda>(k, a). pa_priority a \<noteq> None) c"
  shows "\<exists>p. container_get_package app f c = Some p \<and>
    (case p of
       None \<Rightarrow> list_all (\<lambda>(k, a). action_get_package app f a = None) c
     | Some mc \<Rightarrow> \<exists>k a. (k, a) \<in> set c \<and> action_get_package app f a = Some mc \<and>
         list_all (\<lambda>(k', a'). (the (pa_priority a), k) \<le> (the (pa_priority a'), k'))
           (filter (\<lambda>(k', a'). action_get_package app f a' \<noteq> None) c))"
proof -
  let ?prio = "\<lambda>a. the (pa_priority a)" and ?P = "\<lambda>a. action_get_package app f a \<noteq> None"
  let ?as = "search_order ?prio c"
  have "container_get_package app f c =
      Some (case find (\<lambda>p. p \<noteq> None) (map (action_get_package app f) ?as) of Some p \<Rightarrow> p | None \<Rightarrow> None)"
    by (simp add: container_get_package_def ordered_actions_search [OF assms(2)])
  also have "\<dots> = Some (Option.bind (find ?P ?as) (action_get_package app f))"
    unfolding find_map by (cases "find ?P ?as") simp_all
  finally have eq: "container_get_package app f c = Some (Option.bind (find ?P ?as) (action_get_package app f))" .
  note s = find_search_order [OF str_wf_distinct [OF assms(1)], of ?P ?prio]
  show ?thesis
  proof (cases "find ?P ?as")
    case None
    with s eq show ?thesis by (simp add: list_all_iff)
  next
    case (Some a)
    with s obtain k where k: "?P a" "(k, a) \<in> set c"
      "\<forall>(k', a') \<in> set c. ?P a' \<longrightarrow> (?prio a, k) \<le> (?prio a', k')" by auto
    then obtain mc where "action_get_package app f a = Some mc" by blast
    moreover from k(3) have "list_all (\<lambda>(k', a'). (?prio a, k) \<le> (?prio a', k')) (filter (\<lambda>(k', a'). ?P a') c)"
      unfolding list_all_iff by fastforce
    ultimately have "\<exists>k a. (k, a) \<in> set c \<and> action_get_package app f a = Some mc \<and>
        list_all (\<lambda>(k', a'). (?prio a, k) \<le> (?prio a', k')) (filter (\<lambda>(k', a'). ?P a') c)"
      using k(2) by blast
    then show ?thesis using eq Some \<open>action_get_package app f a = Some mc\<close> by simp
  qed
qed

text \<open>Two actions for the source port, of which the second has the smaller priority\<close>

definition ex_actions :: action_container where
  "ex_actions = [(''a'', ex_action\<lparr>pa_priority := Some 7\<rparr>),
     (''b'', ex_action\<lparr>pa_mappings := map (\<lambda>(k, m). (k, m\<lparr>ac_config := Some new_metering_config\<rparr>)) (pa_mappings ex_action),
        pa_priority := Some 2\<rparr>)]"

definition ex_port :: field_type where
  "ex_port = \<lparr>ft_eno = 0, ft_ftype = 7, ft_length = 2, ft_coding = coding_uint, ft_name = ''SourceTransportPort'',
     ft_documentation = ''''\<rparr>"

theorem package_of_first_action_witness:
  "container_get_package ''netmate'' ex_port ex_actions = Some (Some new_metering_config) \<and>
   (\<exists>p. container_get_package ''netmate'' ex_port ex_actions = Some p)"
proof -
  have wf: "smap_wf (<) ex_actions" "list_all (\<lambda>(k, a). pa_priority a \<noteq> None) ex_actions"
    by (simp_all add: ex_actions_def)
  have "container_get_package ''netmate'' ex_port ex_actions = Some (Some new_metering_config)" by code_simp
  then show ?thesis using package_of_first_action [OF wf, of "''netmate''" ex_port] by blast
qed

end
