(* ===== verification/Ipfix_Template.thy ===== *)
theory Ipfix_Template
  imports Std_Map Ipfix_Field
begin

text \<open>
  Templates, the container of templates and data records (mnslp_ipfix_template.cpp and
  mnslp_ipfix_data_record.cpp under src/msg). A template lists the fields of its records; the
  container maps template numbers to templates; a record maps field keys to values. A pointer
  into the container is the number it is found under, and a write through it an update there.
\<close>

section \<open>Templates\<close>

datatype templ_type = DATA_TEMPLATE | OPTION_TEMPLATE

datatype unknown_field = KNOWN | UNKNOWN

record template_field =
  tf_flength :: u16
  tf_unknown :: unknown_field
  tf_relay :: bool
  tf_elem :: field_type

record ipfix_template =
  tp_type :: templ_type
  tp_tsend :: int
  tp_tid :: u16
  tp_maxfields :: int
  tp_datafields :: "template_field list"
  tp_scopefields :: "template_field list"

text \<open>Type, number and maximum are not initialised here; \<open>new_template\<close> and its callers set them.\<close>

definition new_ipfix_template :: ipfix_template where
  "new_ipfix_template =
     \<lparr>tp_type = DATA_TEMPLATE, tp_tsend = 0, tp_tid = 0, tp_maxfields = 0,
      tp_datafields = [], tp_scopefields = []\<rparr>"

definition get_number_scopefields :: "ipfix_template \<Rightarrow> int" where
  "get_number_scopefields t = int (length (tp_scopefields t))"

definition get_numfields :: "ipfix_template \<Rightarrow> int" where
  "get_numfields t = int (length (tp_datafields t) + length (tp_scopefields t))"

definition add_data_field :: "u16 \<Rightarrow> unknown_field \<Rightarrow> bool \<Rightarrow> field_type \<Rightarrow> ipfix_template \<Rightarrow> ipfix_template" where
  "add_data_field flength unknown_f relay_f f t =
     t\<lparr>tp_datafields := tp_datafields t @
         [\<lparr>tf_flength = flength, tf_unknown = unknown_f, tf_relay = relay_f, tf_elem = f\<rparr>]\<rparr>"

definition add_scope_field :: "u16 \<Rightarrow> unknown_field \<Rightarrow> bool \<Rightarrow> field_type \<Rightarrow> ipfix_template \<Rightarrow> ipfix_template" where
  "add_scope_field flength unknown_f relay_f f t =
     t\<lparr>tp_scopefields := tp_scopefields t @
         [\<lparr>tf_flength = flength, tf_unknown = unknown_f, tf_relay = relay_f, tf_elem = f\<rparr>]\<rparr>"

text \<open>The index of a data field is not reduced by the number of scope fields.\<close>

definition get_template_field :: "ipfix_template \<Rightarrow> int \<Rightarrow> (ipfix_exn, template_field, unit) result" where
  "get_template_field t i =
     (if i \<ge> get_numfields t \<or> i < 0 then Exn Ipfix_Bad_Argument ()
      else if i < get_number_scopefields t then Ret (tp_scopefields t ! nat i) ()
      else if nat i < length (tp_datafields t) then Ret (tp_datafields t ! nat i) ()
      else Undef)"

definition remove_unknown_fields :: "ipfix_template \<Rightarrow> ipfix_template" where
  "remove_unknown_fields t =
     t\<lparr>tp_datafields := filter (\<lambda>f. tf_unknown f \<noteq> UNKNOWN) (tp_datafields t),
       tp_scopefields := filter (\<lambda>f. tf_unknown f \<noteq> UNKNOWN) (tp_scopefields t)\<rparr>"

definition template_field_equal :: "template_field \<Rightarrow> template_field \<Rightarrow> bool" where
  "template_field_equal a b \<longleftrightarrow>
     tf_flength a = tf_flength b \<and> tf_unknown a = tf_unknown b \<and> tf_relay a = tf_relay b \<and>
     field_equal (tf_elem a) (tf_elem b)"

text \<open>
  The loop runs over the fields of the left side; \<open>operator[]\<close> does not check the index, so
  that it is undefined (\<open>None\<close>) to find the right side shorter, and a longer one is equal.
\<close>

fun template_fields_equal :: "template_field list \<Rightarrow> template_field list \<Rightarrow> bool option" where
  "template_fields_equal [] ys = Some True"
| "template_fields_equal (x # xs) [] = None"
| "template_fields_equal (x # xs) (y # ys) =
     (if template_field_equal x y then template_fields_equal xs ys else Some False)"

definition template_equal :: "ipfix_template \<Rightarrow> ipfix_template \<Rightarrow> bool option" where
  "template_equal s t =
     (if tp_type t \<noteq> tp_type s then Some False
      else if tp_tid t \<noteq> tp_tid s then Some False
      else if tp_maxfields t \<noteq> tp_maxfields s then Some False
      else
        (case template_fields_equal (tp_datafields s) (tp_datafields t) of
           Some True \<Rightarrow> template_fields_equal (tp_scopefields s) (tp_scopefields t)
         | r \<Rightarrow> r))"

text \<open>A copy has not been sent. The assignment adds the fields to those that are there.\<close>

definition template_copy :: "ipfix_template \<Rightarrow> ipfix_template" where
  "template_copy t = t\<lparr>tp_tsend := 0\<rparr>"

definition template_assign :: "ipfix_template \<Rightarrow> ipfix_template \<Rightarrow> ipfix_template" where
  "template_assign s t =
     t\<lparr>tp_datafields := tp_datafields s @ tp_datafields t,
       tp_scopefields := tp_scopefields s @ tp_scopefields t\<rparr>"

section \<open>The container of templates\<close>

type_synonym template_container = "(u16, ipfix_template) smap"

interpretation tmap: keyed_order "(<) :: u16 \<Rightarrow> u16 \<Rightarrow> bool" "\<lambda>x. x"
  by unfold_locales simp

definition add_template :: "ipfix_template \<Rightarrow> template_container \<Rightarrow> template_container" where
  "add_template t ts = smap_insert (<) (tp_tid t) t ts"

definition exists_template :: "u16 \<Rightarrow> template_container \<Rightarrow> bool" where
  "exists_template tid ts \<longleftrightarrow> smap_find (<) tid ts \<noteq> None"

text \<open>\<open>None\<close>: the exception that the template is not there\<close>

definition get_template :: "u16 \<Rightarrow> template_container \<Rightarrow> ipfix_template option" where
  "get_template tid ts = smap_find (<) tid ts"

text \<open>Deleting a template that is not there uses the end of the map as an entry.\<close>

definition delete_template :: "u16 \<Rightarrow> template_container \<Rightarrow> (ipfix_exn, unit, template_container) result" where
  "delete_template tid ts = (if exists_template tid ts then Ret () (smap_erase (<) tid ts) else Undef)"

definition delete_all_templates :: "template_container \<Rightarrow> template_container" where
  "delete_all_templates ts = []"

definition get_num_templates :: "template_container \<Rightarrow> int" where
  "get_num_templates ts = int (length ts)"

definition get_template_list :: "template_container \<Rightarrow> u16 list" where
  "get_template_list ts = map fst ts"

definition set_template :: "u16 \<Rightarrow> (ipfix_template \<Rightarrow> ipfix_template) \<Rightarrow> template_container \<Rightarrow> template_container" where
  "set_template tid f ts = map (\<lambda>(k, t). (k, if k = tid then f t else t)) ts"

definition template_container_copy :: "template_container \<Rightarrow> template_container" where
  "template_container_copy ts = fold (\<lambda>(k, t) m. smap_set (<) k (template_copy t) m) ts []"

fun templates_equal_to :: "template_container \<Rightarrow> template_container \<Rightarrow> bool option" where
  "templates_equal_to [] rhs = Some True"
| "templates_equal_to ((k, t) # ts) rhs =
     (case get_template k rhs of
        None \<Rightarrow> Some False
      | Some t' \<Rightarrow>
          (case template_equal t t' of
             Some True \<Rightarrow> templates_equal_to ts rhs
           | r \<Rightarrow> r))"

definition template_container_equal :: "template_container \<Rightarrow> template_container \<Rightarrow> bool option" where
  "template_container_equal ts rhs =
     (if get_num_templates rhs \<noteq> get_num_templates ts then Some False else templates_equal_to ts rhs)"

section \<open>Data records\<close>

record data_record =
  dr_template_id :: u16
  dr_field_data :: "(field_key, value_field) smap"

interpretation fmap: keyed_order field_key_less "\<lambda>k. fk_eno k * 1000 + fk_ftype k"
  by unfold_locales (simp add: field_key_less_def)

definition new_data_record :: "u16 \<Rightarrow> data_record" where
  "new_data_record tid = \<lparr>dr_template_id = tid, dr_field_data = []\<rparr>"

definition insert_field_value :: "field_key \<Rightarrow> value_field \<Rightarrow> data_record \<Rightarrow> data_record" where
  "insert_field_value k v r = r\<lparr>dr_field_data := smap_insert field_key_less k (vf_copy v) (dr_field_data r)\<rparr>"

definition insert_field :: "int \<Rightarrow> int \<Rightarrow> value_field \<Rightarrow> data_record \<Rightarrow> data_record" where
  "insert_field eno ftype v r = insert_field_value \<lparr>fk_eno = eno, fk_ftype = ftype\<rparr> v r"

definition get_num_fields :: "data_record \<Rightarrow> int" where
  "get_num_fields r = int (length (dr_field_data r))"

text \<open>\<open>None\<close>: the exception that the field is not there\<close>

definition get_field_value :: "data_record \<Rightarrow> field_key \<Rightarrow> value_field option" where
  "get_field_value r k = map_option vf_copy (smap_find field_key_less k (dr_field_data r))"

definition get_value_length :: "data_record \<Rightarrow> field_key \<Rightarrow> u16 option" where
  "get_value_length r k = map_option (\<lambda>v. of_int (vf_length v)) (get_field_value r k)"

text \<open>
  The comparisons run over the fields of the left side and throw (\<open>None\<close>) when the right side
  lacks one; what it has in addition does not count.
\<close>

fun field_data_equal :: "(field_key, value_field) smap \<Rightarrow> data_record \<Rightarrow> bool option" where
  "field_data_equal [] rhs = Some True"
| "field_data_equal ((k, v) # m) rhs =
     Option.bind (get_field_value rhs k) (\<lambda>w.
       if vf_equal w (vf_copy v) then field_data_equal m rhs else Some False)"

definition data_record_equal :: "data_record \<Rightarrow> data_record \<Rightarrow> bool option" where
  "data_record_equal r rhs = field_data_equal (dr_field_data r) rhs"

definition data_record_differs :: "data_record \<Rightarrow> data_record \<Rightarrow> bool option" where
  "data_record_differs r rhs = map_option Not (field_data_equal (dr_field_data r) rhs)"

end
