(* ===== verification/Ipfix_Tables.thy ===== *)
theory Ipfix_Tables
  imports Ipfix_Field
begin

text \<open>
  The fields every IPFIX message knows (\<open>initialize_forward\<close> and \<open>initialize_reverse\<close> of
  src/msg/mnslp_ipfix_field.cpp): the tables entry by entry, each in three parts, and the
  proof that filling the container does not throw.
\<close>

section \<open>The tables\<close>

definition rev_pen :: int where "rev_pen = 29305"

text \<open>\<open>AddFieldType\<close> with the members one by one\<close>

definition field_type_of :: "int \<Rightarrow> int \<Rightarrow> int \<Rightarrow> int \<Rightarrow> string \<Rightarrow> string \<Rightarrow> field_type" where
  "field_type_of eno ftype len coding name documentation =
     \<lparr>ft_eno = eno, ft_ftype = ftype, ft_length = len, ft_coding = coding, ft_name = name,
      ft_documentation = documentation\<rparr>"

lemma field_type_of_simps [simp]:
  "ft_eno (field_type_of e t l c n d) = e" "ft_ftype (field_type_of e t l c n d) = t"
  "ft_length (field_type_of e t l c n d) = l" "ft_coding (field_type_of e t l c n d) = c"
  "ft_name (field_type_of e t l c n d) = n" "ft_documentation (field_type_of e t l c n d) = d"
  by (simp_all add: field_type_of_def)

definition forward_fields_1 :: "field_type list" where
  "forward_fields_1 =
     [field_type_of 0 1 8 coding_uint ''octetDeltaCount'' [],
      field_type_of 0 2 8 coding_uint ''packetDeltaCount'' [],
      field_type_of 0 3 8 coding_uint ''flows'' ''Netflow Number of Flows that were aggregated'',
      field_type_of 0 4 1 coding_uint ''protocolIdentifier'' [],
      field_type_of 0 5 1 coding_uint ''ipClassOfService'' [],
      field_type_of 0 6 1 coding_uint ''tcpControlBits'' [],
      field_type_of 0 7 2 coding_uint ''sourceTransportPort'' [],
      field_type_of 0 8 4 coding_ipaddr ''sourceIPv4Address'' [],
      field_type_of 0 9 1 coding_uint ''sourceIPv4PrefixLength'' [],
      field_type_of 0 10 4 coding_uint ''ingressInterface'' [],
      field_type_of 0 11 2 coding_uint ''destinationTransportPort'' [],
      field_type_of 0 12 4 coding_ipaddr ''destinationIPv4Address'' [],
      field_type_of 0 13 1 coding_uint ''destinationIPv4PrefixLength'' [],
      field_type_of 0 14 4 coding_uint ''egressInterface'' [],
      field_type_of 0 15 4 coding_ipaddr ''ipNextHopIPv4Address'' [],
      field_type_of 0 16 4 coding_uint ''bgpSourceAsNumber'' [],
      field_type_of 0 17 4 coding_uint ''bgpDestinationAsNumber'' [],
      field_type_of 0 18 4 coding_ipaddr ''bgpNextHopIPv4Address'' [],
      field_type_of 0 19 8 coding_uint ''postMCastPacketDeltaCount'' [],
      field_type_of 0 20 8 coding_uint ''postMCastOctetDeltaCount'' [],
      field_type_of 0 21 4 coding_uint ''flowEndSysUpTime'' [],
      field_type_of 0 22 4 coding_uint ''flowStartSysUpTime'' [],
      field_type_of 0 23 8 coding_uint ''postOctetDeltaCount'' [],
      field_type_of 0 24 8 coding_uint ''postPacketDeltaCount'' [],
      field_type_of 0 25 8 coding_uint ''minimumIpTotalLength'' [],
      field_type_of 0 26 8 coding_uint ''maximumIpTotalLength'' [],
      field_type_of 0 27 16 coding_ipaddr ''sourceIPv6Address'' [],
      field_type_of 0 28 16 coding_ipaddr ''destinationIPv6Address'' [],
      field_type_of 0 29 1 coding_uint ''sourceIPv6PrefixLength'' [],
      field_type_of 0 30 1 coding_uint ''destinationIPv6PrefixLength'' [],
      field_type_of 0 31 4 coding_uint ''flowLabelIPv6'' [],
      field_type_of 0 32 2 coding_uint ''icmpTypeCodeIPv4'' [],
      field_type_of 0 33 1 coding_uint ''igmpType'' [],
      field_type_of 0 34 4 coding_uint ''sampling_interval'' ''Netflow Sampling Interval'',
      field_type_of 0 35 1 coding_uint ''sampling_algorithm'' ''Netflow Sampling Algorithm'',
      field_type_of 0 36 2 coding_uint ''flowActiveTimeout'' [],
      field_type_of 0 37 2 coding_uint ''flowIdleTimeout'' [],
      field_type_of 0 38 1 coding_uint ''engine_type'' ''Netflow Engine Type'',
      field_type_of 0 39 1 coding_uint ''engine_id'' ''Netflow Engine ID'',
      field_type_of 0 40 8 coding_uint ''exportedOctetTotalCount'' [],
      field_type_of 0 41 8 coding_uint ''exportedMessageTotalCount'' [],
      field_type_of 0 42 8 coding_uint ''exportedFlowRecordTotalCount'' [],
      field_type_of 0 44 4 coding_ipaddr ''sourceIPv4Prefix'' [],
      field_type_of 0 45 4 coding_ipaddr ''destinationIPv4Prefix'' [],
      field_type_of 0 46 1 coding_uint ''mplsTopLabelType'' [],
      field_type_of 0 47 4 coding_ipaddr ''mplsTopLabelIPv4Address'' [],
      field_type_of 0 48 1 coding_uint ''flow_sampler_id'' ''Netflow Flow Sampler ID'',
      field_type_of 0 49 1 coding_uint ''flow_sampler_mode'' ''Netflow Flow Sampler Mode'',
      field_type_of 0 50 4 coding_uint ''flow_sampler_random_interval'' ''Netflow Packet Sample Interval'',
      field_type_of 0 52 1 coding_uint ''minimumTTL'' [],
      field_type_of 0 53 1 coding_uint ''maximumTTL'' [],
      field_type_of 0 54 4 coding_uint ''fragmentIdentification'' [],
      field_type_of 0 55 1 coding_uint ''postIpClassOfService'' [],
      field_type_of 0 56 6 coding_bytes ''sourceMacAddress'' [],
      field_type_of 0 57 6 coding_bytes ''postDestinationMacAddress'' [],
      field_type_of 0 58 2 coding_uint ''vlanId'' [],
      field_type_of 0 59 2 coding_uint ''postVlanId'' [],
      field_type_of 0 60 1 coding_uint ''ipVersion'' [],
      field_type_of 0 61 1 coding_uint ''flowDirection'' [],
      field_type_of 0 62 16 coding_ipaddr ''ipNextHopIPv6Address'' [],
      field_type_of 0 63 16 coding_ipaddr ''bgpNextHopIPv6Address'' [],
      field_type_of 0 64 4 coding_uint ''ipv6ExtensionHeaders'' [],
      field_type_of 0 70 65535 coding_bytes ''mplsTopLabelStackSection'' [],
      field_type_of 0 71 65535 coding_bytes ''mplsLabelStackSection2'' [],
      field_type_of 0 72 65535 coding_bytes ''mplsLabelStackSection3'' [],
      field_type_of 0 73 65535 coding_bytes ''mplsLabelStackSection4'' [],
      field_type_of 0 74 65535 coding_bytes ''mplsLabelStackSection5'' [],
      field_type_of 0 75 65535 coding_bytes ''mplsLabelStackSection6'' [],
      field_type_of 0 76 65535 coding_bytes ''mplsLabelStackSection7'' [],
      field_type_of 0 77 65535 coding_bytes ''mplsLabelStackSection8'' [],
      field_type_of 0 78 65535 coding_bytes ''mplsLabelStackSection9'' []]"

definition forward_fields_2 :: "field_type list" where
  "forward_fields_2 =
     [field_type_of 0 79 65535 coding_bytes ''mplsLabelStackSection10'' [],
      field_type_of 0 80 6 coding_bytes ''destinationMacAddress'' [],
      field_type_of 0 81 6 coding_bytes ''postSourceMacAddress'' [],
      field_type_of 0 85 8 coding_uint ''octetTotalCount'' [],
      field_type_of 0 86 8 coding_uint ''packetTotalCount'' [],
      field_type_of 0 88 2 coding_uint ''fragmentOffset'' [],
      field_type_of 0 90 65535 coding_bytes ''mplsVpnRouteDistinguisher'' [],
      field_type_of 0 128 4 coding_uint ''bgpNextAdjacentAsNumber'' [],
      field_type_of 0 129 4 coding_uint ''bgpPrevAdjacentAsNumber'' [],
      field_type_of 0 130 4 coding_ipaddr ''exporterIPv4Address'' [],
      field_type_of 0 131 16 coding_ipaddr ''exporterIPv6Address'' [],
      field_type_of 0 132 8 coding_uint ''droppedOctetDeltaCount'' [],
      field_type_of 0 133 8 coding_uint ''droppedPacketDeltaCount'' [],
      field_type_of 0 134 8 coding_uint ''droppedOctetTotalCount'' [],
      field_type_of 0 135 8 coding_uint ''droppedPacketTotalCount'' [],
      field_type_of 0 136 1 coding_uint ''flowEndReason'' [],
      field_type_of 0 137 8 coding_uint ''commonPropertiesId'' [],
      field_type_of 0 138 4 coding_uint ''observationPointId'' [],
      field_type_of 0 139 2 coding_uint ''icmpTypeCodeIPv6'' [],
      field_type_of 0 140 16 coding_ipaddr ''mplsTopLabelIPv6Address'' [],
      field_type_of 0 141 4 coding_uint ''lineCardId'' [],
      field_type_of 0 142 4 coding_uint ''portId'' [],
      field_type_of 0 143 4 coding_uint ''meteringProcessId'' [],
      field_type_of 0 144 4 coding_uint ''exportingProcessId'' [],
      field_type_of 0 145 2 coding_uint ''templateId'' [],
      field_type_of 0 146 1 coding_uint ''wlanChannelId'' [],
      field_type_of 0 147 65535 coding_string ''wlanSSID'' [],
      field_type_of 0 148 8 coding_uint ''flowId'' [],
      field_type_of 0 149 4 coding_uint ''observationDomainId'' [],
      field_type_of 0 150 4 coding_uint ''flowStartSeconds'' [],
      field_type_of 0 151 4 coding_uint ''flowEndSeconds'' [],
      field_type_of 0 152 8 coding_uint ''flowStartMilliseconds'' [],
      field_type_of 0 153 8 coding_uint ''flowEndMilliseconds'' [],
      field_type_of 0 154 8 coding_ntp ''flowStartMicroseconds'' [],
      field_type_of 0 155 8 coding_ntp ''flowEndMicroseconds'' [],
      field_type_of 0 156 8 coding_ntp ''flowStartNanoseconds'' [],
      field_type_of 0 157 8 coding_ntp ''flowEndNanoseconds'' [],
      field_type_of 0 158 4 coding_uint ''flowStartDeltaMicroseconds'' [],
      field_type_of 0 159 4 coding_uint ''flowEndDeltaMicroseconds'' [],
      field_type_of 0 160 8 coding_uint ''systemInitTimeMilliseconds'' [],
      field_type_of 0 161 4 coding_uint ''flowDurationMilliseconds'' [],
      field_type_of 0 162 4 coding_uint ''flowDurationMicroseconds'' [],
      field_type_of 0 163 8 coding_uint ''observedFlowTotalCount'' [],
      field_type_of 0 164 8 coding_uint ''ignoredPacketTotalCount'' [],
      field_type_of 0 165 8 coding_uint ''ignoredOctetTotalCount'' [],
      field_type_of 0 166 8 coding_uint ''notSentFlowTotalCount'' [],
      field_type_of 0 167 8 coding_uint ''notSentPacketTotalCount'' [],
      field_type_of 0 168 8 coding_uint ''notSentOctetTotalCount'' [],
      field_type_of 0 169 16 coding_ipaddr ''destinationIPv6Prefix'' [],
      field_type_of 0 170 16 coding_ipaddr ''sourceIPv6Prefix'' [],
      field_type_of 0 171 8 coding_uint ''postOctetTotalCount'' [],
      field_type_of 0 172 8 coding_uint ''postPacketTotalCount'' [],
      field_type_of 0 173 8 coding_uint ''flowKeyIndicator'' [],
      field_type_of 0 174 8 coding_uint ''postMCastPacketTotalCount'' [],
      field_type_of 0 175 8 coding_uint ''postMCastOctetTotalCount'' [],
      field_type_of 0 176 1 coding_uint ''icmpTypeIPv4'' [],
      field_type_of 0 177 1 coding_uint ''icmpCodeIPv4'' [],
      field_type_of 0 178 1 coding_uint ''icmpTypeIPv6'' [],
      field_type_of 0 179 1 coding_uint ''icmpCodeIPv6'' [],
      field_type_of 0 180 2 coding_uint ''udpSourcePort'' [],
      field_type_of 0 181 2 coding_uint ''udpDestinationPort'' [],
      field_type_of 0 182 2 coding_uint ''tcpSourcePort'' [],
      field_type_of 0 183 2 coding_uint ''tcpDestinationPort'' [],
      field_type_of 0 184 4 coding_uint ''tcpSequenceNumber'' [],
      field_type_of 0 185 4 coding_uint ''tcpAcknowledgementNumber'' [],
      field_type_of 0 186 2 coding_uint ''tcpWindowSize'' [],
      field_type_of 0 187 2 coding_uint ''tcpUrgentPointer'' [],
      field_type_of 0 188 1 coding_uint ''tcpHeaderLength'' [],
      field_type_of 0 189 1 coding_uint ''ipHeaderLength'' [],
      field_type_of 0 190 2 coding_uint ''totalLengthIPv4'' [],
      field_type_of 0 191 2 coding_uint ''payloadLengthIPv6'' []]"

definition forward_fields_3 :: "field_type list" where
  "forward_fields_3 =
     [field_type_of 0 192 1 coding_uint ''ipTTL'' [],
      field_type_of 0 193 1 coding_uint ''nextHeaderIPv6'' [],
      field_type_of 0 194 4 coding_uint ''mplsPayloadLength'' [],
      field_type_of 0 195 1 coding_uint ''ipDiffServCodePoint'' [],
      field_type_of 0 196 1 coding_uint ''ipPrecedence'' [],
      field_type_of 0 197 1 coding_uint ''fragmentFlags'' [],
      field_type_of 0 198 8 coding_uint ''octetDeltaSumOfSquares'' [],
      field_type_of 0 199 8 coding_uint ''octetTotalSumOfSquares'' [],
      field_type_of 0 200 1 coding_uint ''mplsTopLabelTTL'' [],
      field_type_of 0 201 4 coding_uint ''mplsLabelStackLength'' [],
      field_type_of 0 202 4 coding_uint ''mplsLabelStackDepth'' [],
      field_type_of 0 203 1 coding_uint ''mplsTopLabelExp'' [],
      field_type_of 0 204 4 coding_uint ''ipPayloadLength'' [],
      field_type_of 0 205 2 coding_uint ''udpMessageLength'' [],
      field_type_of 0 206 1 coding_uint ''isMulticast'' [],
      field_type_of 0 207 1 coding_uint ''ipv4IHL'' [],
      field_type_of 0 208 4 coding_uint ''ipv4Options'' [],
      field_type_of 0 209 8 coding_uint ''tcpOptions'' [],
      field_type_of 0 210 65535 coding_bytes ''paddingOctets'' [],
      field_type_of 0 211 4 coding_ipaddr ''collectorIPv4Address'' [],
      field_type_of 0 212 16 coding_ipaddr ''collectorIPv6Address'' [],
      field_type_of 0 213 4 coding_uint ''collectorInterface'' [],
      field_type_of 0 214 1 coding_uint ''collectorProtocolVersion'' [],
      field_type_of 0 215 1 coding_uint ''collectorTransportProtocol'' [],
      field_type_of 0 216 2 coding_uint ''collectorTransportPort'' [],
      field_type_of 0 217 2 coding_uint ''exporterTransportPort'' [],
      field_type_of 0 218 8 coding_uint ''tcpSynTotalCount'' [],
      field_type_of 0 219 8 coding_uint ''tcpFinTotalCount'' [],
      field_type_of 0 220 8 coding_uint ''tcpRstTotalCount'' [],
      field_type_of 0 221 8 coding_uint ''tcpPshTotalCount'' [],
      field_type_of 0 222 8 coding_uint ''tcpAckTotalCount'' [],
      field_type_of 0 223 8 coding_uint ''tcpUrgTotalCount'' [],
      field_type_of 0 224 8 coding_uint ''ipTotalLength'' [],
      field_type_of 0 237 1 coding_uint ''postMplsTopLabelExp'' [],
      field_type_of 0 238 2 coding_uint ''tcpWindowScale'' [],
      field_type_of 0 300 8 coding_uint ''observationPointId_PSAMP'' [],
      field_type_of 0 301 8 coding_uint ''selectionSequenceId'' [],
      field_type_of 0 302 2 coding_uint ''selectorId'' [],
      field_type_of 0 303 2 coding_uint ''informationElementId'' [],
      field_type_of 0 304 2 coding_uint ''selectorAlgorithm'' [],
      field_type_of 0 305 4 coding_uint ''samplingPacketInterval'' [],
      field_type_of 0 306 4 coding_uint ''samplingPacketSpace'' [],
      field_type_of 0 307 8 coding_ntp ''samplingTimeInterval'' [],
      field_type_of 0 308 8 coding_ntp ''samplingTimeSpace'' [],
      field_type_of 0 309 4 coding_uint ''samplingSize'' [],
      field_type_of 0 310 4 coding_uint ''samplingPopulation'' [],
      field_type_of 0 311 8 coding_float ''samplingProbability'' [],
      field_type_of 0 312 4 coding_uint ''dataLinkFrameSize'' [],
      field_type_of 0 313 65535 coding_bytes ''ipHeaderPacketSection'' [],
      field_type_of 0 314 65535 coding_bytes ''ipPayloadPacketSection'' [],
      field_type_of 0 315 65535 coding_bytes ''dataLinkFrameSection'' [],
      field_type_of 0 316 65535 coding_bytes ''mplsLabelStackSection'' [],
      field_type_of 0 317 65535 coding_bytes ''mplsPayloadPacketSection'' [],
      field_type_of 0 318 8 coding_uint ''packetsObserved'' [],
      field_type_of 0 319 8 coding_uint ''packetsSelected'' [],
      field_type_of 0 320 8 coding_float ''fixedError'' [],
      field_type_of 0 321 8 coding_float ''relativeError'' [],
      field_type_of 0 322 4 coding_uint ''observationTimeSeconds'' [],
      field_type_of 0 323 8 coding_uint ''observationTimeMilliseconds'' [],
      field_type_of 0 324 8 coding_ntp ''observationTimeMicroseconds'' [],
      field_type_of 0 325 8 coding_ntp ''observationTimeNanoseconds'' [],
      field_type_of 0 326 8 coding_uint ''digestHashValue'' [],
      field_type_of 0 327 8 coding_uint ''hashIPPayloadOffset'' [],
      field_type_of 0 328 8 coding_uint ''hashIPPayloadSize'' [],
      field_type_of 0 329 8 coding_uint ''hashOutputRangeMin'' [],
      field_type_of 0 330 8 coding_uint ''hashOutputRangeMax'' [],
      field_type_of 0 331 8 coding_uint ''hashSelectedRangeMin'' [],
      field_type_of 0 332 8 coding_uint ''hashSelectedRangeMax'' [],
      field_type_of 0 333 1 coding_bytes ''hashDigestOutput'' [],
      field_type_of 0 334 8 coding_uint ''hashInitialiserValue'' [],
      field_type_of 0 0 (-1) 0 [] []]"

definition reverse_fields_1 :: "field_type list" where
  "reverse_fields_1 =
     [field_type_of rev_pen 1 8 coding_uint ''reverse octetDeltaCount'' [],
      field_type_of rev_pen 2 8 coding_uint ''reverse packetDeltaCount'' [],
      field_type_of rev_pen 3 8 coding_uint ''reverse flows'' ''reverse Netflow Number of Flows that were aggregated'',
      field_type_of rev_pen 4 1 coding_uint ''reverse protocolIdentifier'' [],
      field_type_of rev_pen 5 1 coding_uint ''reverse ipClassOfService'' [],
      field_type_of rev_pen 6 1 coding_uint ''reverse tcpControlBits'' [],
      field_type_of rev_pen 7 2 coding_uint ''reverse sourceTransportPort'' [],
      field_type_of rev_pen 8 4 coding_ipaddr ''reverse sourceIPv4Address'' [],
      field_type_of rev_pen 9 1 coding_uint ''reverse sourceIPv4PrefixLength'' [],
      field_type_of rev_pen 10 4 coding_uint ''reverse ingressInterface'' [],
      field_type_of rev_pen 11 2 coding_uint ''reverse destinationTransportPort'' [],
      field_type_of rev_pen 12 4 coding_ipaddr ''reverse destinationIPv4Address'' [],
      field_type_of rev_pen 13 1 coding_uint ''reverse destinationIPv4PrefixLength'' [],
      field_type_of rev_pen 14 4 coding_uint ''reverse egressInterface'' [],
      field_type_of rev_pen 15 4 coding_ipaddr ''reverse ipNextHopIPv4Address'' [],
      field_type_of rev_pen 16 4 coding_uint ''reverse bgpSourceAsNumber'' [],
      field_type_of rev_pen 17 4 coding_uint ''reverse bgpDestinationAsNumber'' [],
      field_type_of rev_pen 18 4 coding_ipaddr ''reverse bgpNextHopIPv4Address'' [],
      field_type_of rev_pen 19 8 coding_uint ''reverse postMCastPacketDeltaCount'' [],
      field_type_of rev_pen 20 8 coding_uint ''reverse postMCastOctetDeltaCount'' [],
      field_type_of rev_pen 21 4 coding_uint ''reverse flowEndSysUpTime'' [],
      field_type_of rev_pen 22 4 coding_uint ''reverse flowStartSysUpTime'' [],
      field_type_of rev_pen 23 8 coding_uint ''reverse postOctetDeltaCount'' [],
      field_type_of rev_pen 24 8 coding_uint ''reverse postPacketDeltaCount'' [],
      field_type_of rev_pen 25 8 coding_uint ''reverse minimumIpTotalLength'' [],
      field_type_of rev_pen 26 8 coding_uint ''reverse maximumIpTotalLength'' [],
      field_type_of rev_pen 27 16 coding_ipaddr ''reverse sourceIPv6Address'' [],
      field_type_of rev_pen 28 16 coding_ipaddr ''reverse destinationIPv6Address'' [],
      field_type_of rev_pen 29 1 coding_uint ''reverse sourceIPv6PrefixLength'' [],
      field_type_of rev_pen 30 1 coding_uint ''reverse destinationIPv6PrefixLength'' [],
      field_type_of rev_pen 31 4 coding_uint ''reverse flowLabelIPv6'' [],
      field_type_of rev_pen 32 2 coding_uint ''reverse icmpTypeCodeIPv4'' [],
      field_type_of rev_pen 33 1 coding_uint ''reverse igmpType'' [],
      field_type_of rev_pen 34 4 coding_uint ''reverse sampling_interval'' ''reverse Netflow Sampling Interval'',
      field_type_of rev_pen 35 1 coding_uint ''reverse sampling_algorithm'' ''reverse Netflow Sampling Algorithm'',
      field_type_of rev_pen 36 2 coding_uint ''reverse flowActiveTimeout'' [],
      field_type_of rev_pen 37 2 coding_uint ''reverse flowIdleTimeout'' [],
      field_type_of rev_pen 38 1 coding_uint ''reverse engine_type'' ''reverse Netflow Engine Type'',
      field_type_of rev_pen 39 1 coding_uint ''reverse engine_id'' ''reverse Netflow Engine ID'',
      field_type_of rev_pen 40 8 coding_uint ''reverse exportedOctetTotalCount'' [],
      field_type_of rev_pen 41 8 coding_uint ''reverse exportedMessageTotalCount'' [],
      field_type_of rev_pen 42 8 coding_uint ''reverse exportedFlowRecordTotalCount'' [],
      field_type_of rev_pen 44 4 coding_ipaddr ''reverse sourceIPv4Prefix'' [],
      field_type_of rev_pen 45 4 coding_ipaddr ''reverse destinationIPv4Prefix'' [],
      field_type_of rev_pen 46 1 coding_uint ''reverse mplsTopLabelType'' [],
      field_type_of rev_pen 47 4 coding_ipaddr ''reverse mplsTopLabelIPv4Address'' [],
      field_type_of rev_pen 48 1 coding_uint ''reverse flow_sampler_id'' ''reverse Netflow Flow Sampler ID'',
      field_type_of rev_pen 49 1 coding_uint ''reverse flow_sampler_mode'' ''reverse Netflow Flow Sampler Mode'',
      field_type_of rev_pen 50 4 coding_uint ''reverse flow_sampler_random_interval'' ''reverse Netflow Packet Sample Interval'',
      field_type_of rev_pen 52 1 coding_uint ''reverse minimumTTL'' [],
      field_type_of rev_pen 53 1 coding_uint ''reverse maximumTTL'' [],
      field_type_of rev_pen 54 4 coding_uint ''reverse fragmentIdentification'' [],
      field_type_of rev_pen 55 1 coding_uint ''reverse postIpClassOfService'' [],
      field_type_of rev_pen 56 6 coding_bytes ''reverse sourceMacAddress'' [],
      field_type_of rev_pen 57 6 coding_bytes ''reverse postDestinationMacAddress'' [],
      field_type_of rev_pen 58 2 coding_uint ''reverse vlanId'' [],
      field_type_of rev_pen 59 2 coding_uint ''reverse postVlanId'' [],
      field_type_of rev_pen 60 1 coding_uint ''reverse ipVersion'' [],
      field_type_of rev_pen 61 1 coding_uint ''reverse flowDirection'' [],
      field_type_of rev_pen 62 16 coding_ipaddr ''reverse ipNextHopIPv6Address'' [],
      field_type_of rev_pen 63 16 coding_ipaddr ''reverse bgpNextHopIPv6Address'' [],
      field_type_of rev_pen 64 4 coding_uint ''reverse ipv6ExtensionHeaders'' [],
      field_type_of rev_pen 70 65535 coding_bytes ''reverse mplsTopLabelStackSection'' [],
      field_type_of rev_pen 71 65535 coding_bytes ''reverse mplsLabelStackSection2'' [],
      field_type_of rev_pen 72 65535 coding_bytes ''reverse mplsLabelStackSection3'' [],
      field_type_of rev_pen 73 65535 coding_bytes ''reverse mplsLabelStackSection4'' [],
      field_type_of rev_pen 74 65535 coding_bytes ''reverse mplsLabelStackSection5'' [],
      field_type_of rev_pen 75 65535 coding_bytes ''reverse mplsLabelStackSection6'' [],
      field_type_of rev_pen 76 65535 coding_bytes ''reverse mplsLabelStackSection7'' [],
      field_type_of rev_pen 77 65535 coding_bytes ''reverse mplsLabelStackSection8'' [],
      field_type_of rev_pen 78 65535 coding_bytes ''reverse mplsLabelStackSection9'' []]"

definition reverse_fields_2 :: "field_type list" where
  "reverse_fields_2 =
     [field_type_of rev_pen 79 65535 coding_bytes ''reverse mplsLabelStackSection10'' [],
      field_type_of rev_pen 80 6 coding_bytes ''reverse destinationMacAddress'' [],
      field_type_of rev_pen 81 6 coding_bytes ''reverse postSourceMacAddress'' [],
      field_type_of rev_pen 85 8 coding_uint ''reverse octetTotalCount'' [],
      field_type_of rev_pen 86 8 coding_uint ''reverse packetTotalCount'' [],
      field_type_of rev_pen 88 2 coding_uint ''reverse fragmentOffset'' [],
      field_type_of rev_pen 90 65535 coding_bytes ''reverse mplsVpnRouteDistinguisher'' [],
      field_type_of rev_pen 128 4 coding_uint ''reverse bgpNextAdjacentAsNumber'' [],
      field_type_of rev_pen 129 4 coding_uint ''reverse bgpPrevAdjacentAsNumber'' [],
      field_type_of rev_pen 130 4 coding_ipaddr ''reverse exporterIPv4Address'' [],
      field_type_of rev_pen 131 16 coding_ipaddr ''reverse exporterIPv6Address'' [],
      field_type_of rev_pen 132 8 coding_uint ''reverse droppedOctetDeltaCount'' [],
      field_type_of rev_pen 133 8 coding_uint ''reverse droppedPacketDeltaCount'' [],
      field_type_of rev_pen 134 8 coding_uint ''reverse droppedOctetTotalCount'' [],
      field_type_of rev_pen 135 8 coding_uint ''reverse droppedPacketTotalCount'' [],
      field_type_of rev_pen 136 1 coding_uint ''reverse flowEndReason'' [],
      field_type_of rev_pen 137 8 coding_uint ''reverse commonPropertiesId'' [],
      field_type_of rev_pen 138 4 coding_uint ''reverse observationPointId'' [],
      field_type_of rev_pen 139 2 coding_uint ''reverse icmpTypeCodeIPv6'' [],
      field_type_of rev_pen 140 16 coding_ipaddr ''reverse mplsTopLabelIPv6Address'' [],
      field_type_of rev_pen 141 4 coding_uint ''reverse lineCardId'' [],
      field_type_of rev_pen 142 4 coding_uint ''reverse portId'' [],
      field_type_of rev_pen 143 4 coding_uint ''reverse meteringProcessId'' [],
      field_type_of rev_pen 144 4 coding_uint ''reverse exportingProcessId'' [],
      field_type_of rev_pen 145 2 coding_uint ''reverse templateId'' [],
      field_type_of rev_pen 146 1 coding_uint ''reverse wlanChannelId'' [],
      field_type_of rev_pen 147 65535 coding_string ''reverse wlanSSID'' [],
      field_type_of rev_pen 148 8 coding_uint ''reverse flowId'' [],
      field_type_of rev_pen 149 4 coding_uint ''reverse observationDomainId'' [],
      field_type_of rev_pen 150 4 coding_uint ''reverse flowStartSeconds'' [],
      field_type_of rev_pen 151 4 coding_uint ''reverse flowEndSeconds'' [],
      field_type_of rev_pen 152 8 coding_uint ''reverse flowStartMilliseconds'' [],
      field_type_of rev_pen 153 8 coding_uint ''reverse flowEndMilliseconds'' [],
      field_type_of rev_pen 154 8 coding_ntp ''reverse flowStartMicroseconds'' [],
      field_type_of rev_pen 155 8 coding_ntp ''reverse flowEndMicroseconds'' [],
      field_type_of rev_pen 156 8 coding_ntp ''reverse flowStartNanoseconds'' [],
      field_type_of rev_pen 157 8 coding_ntp ''reverse flowEndNanoseconds'' [],
      field_type_of rev_pen 158 4 coding_uint ''reverse flowStartDeltaMicroseconds'' [],
      field_type_of rev_pen 159 4 coding_uint ''reverse flowEndDeltaMicroseconds'' [],
      field_type_of rev_pen 160 8 coding_uint ''reverse systemInitTimeMilliseconds'' [],
      field_type_of rev_pen 161 4 coding_uint ''reverse flowDurationMilliseconds'' [],
      field_type_of rev_pen 162 4 coding_uint ''reverse flowDurationMicroseconds'' [],
      field_type_of rev_pen 163 8 coding_uint ''reverse observedFlowTotalCount'' [],
      field_type_of rev_pen 164 8 coding_uint ''reverse ignoredPacketTotalCount'' [],
      field_type_of rev_pen 165 8 coding_uint ''reverse ignoredOctetTotalCount'' [],
      field_type_of rev_pen 166 8 coding_uint ''reverse notSentFlowTotalCount'' [],
      field_type_of rev_pen 167 8 coding_uint ''reverse notSentPacketTotalCount'' [],
      field_type_of rev_pen 168 8 coding_uint ''reverse notSentOctetTotalCount'' [],
      field_type_of rev_pen 169 16 coding_ipaddr ''reverse destinationIPv6Prefix'' [],
      field_type_of rev_pen 170 16 coding_ipaddr ''reverse sourceIPv6Prefix'' [],
      field_type_of rev_pen 171 8 coding_uint ''reverse postOctetTotalCount'' [],
      field_type_of rev_pen 172 8 coding_uint ''reverse postPacketTotalCount'' [],
      field_type_of rev_pen 173 8 coding_uint ''reverse flowKeyIndicator'' [],
      field_type_of rev_pen 174 8 coding_uint ''reverse postMCastPacketTotalCount'' [],
      field_type_of rev_pen 175 8 coding_uint ''reverse postMCastOctetTotalCount'' [],
      field_type_of rev_pen 176 1 coding_uint ''reverse icmpTypeIPv4'' [],
      field_type_of rev_pen 177 1 coding_uint ''reverse icmpCodeIPv4'' [],
      field_type_of rev_pen 178 1 coding_uint ''reverse icmpTypeIPv6'' [],
      field_type_of rev_pen 179 1 coding_uint ''reverse icmpCodeIPv6'' [],
      field_type_of rev_pen 180 2 coding_uint ''reverse udpSourcePort'' [],
      field_type_of rev_pen 181 2 coding_uint ''reverse udpDestinationPort'' [],
      field_type_of rev_pen 182 2 coding_uint ''reverse tcpSourcePort'' [],
      field_type_of rev_pen 183 2 coding_uint ''reverse tcpDestinationPort'' [],
      field_type_of rev_pen 184 4 coding_uint ''reverse tcpSequenceNumber'' [],
      field_type_of rev_pen 185 4 coding_uint ''reverse tcpAcknowledgementNumber'' [],
      field_type_of rev_pen 186 2 coding_uint ''reverse tcpWindowSize'' [],
      field_type_of rev_pen 187 2 coding_uint ''reverse tcpUrgentPointer'' [],
      field_type_of rev_pen 188 1 coding_uint ''reverse tcpHeaderLength'' [],
      field_type_of rev_pen 189 1 coding_uint ''reverse ipHeaderLength'' [],
      field_type_of rev_pen 190 2 coding_uint ''reverse totalLengthIPv4'' [],
      field_type_of rev_pen 191 2 coding_uint ''reverse payloadLengthIPv6'' []]"

definition reverse_fields_3 :: "field_type list" where
  "reverse_fields_3 =
     [field_type_of rev_pen 192 1 coding_uint ''reverse ipTTL'' [],
      field_type_of rev_pen 193 1 coding_uint ''reverse nextHeaderIPv6'' [],
      field_type_of rev_pen 194 4 coding_uint ''reverse mplsPayloadLength'' [],
      field_type_of rev_pen 195 1 coding_uint ''reverse ipDiffServCodePoint'' [],
      field_type_of rev_pen 196 1 coding_uint ''reverse ipPrecedence'' [],
      field_type_of rev_pen 197 1 coding_uint ''reverse fragmentFlags'' [],
      field_type_of rev_pen 198 8 coding_uint ''reverse octetDeltaSumOfSquares'' [],
      field_type_of rev_pen 199 8 coding_uint ''reverse octetTotalSumOfSquares'' [],
      field_type_of rev_pen 200 1 coding_uint ''reverse mplsTopLabelTTL'' [],
      field_type_of rev_pen 201 4 coding_uint ''reverse mplsLabelStackLength'' [],
      field_type_of rev_pen 202 4 coding_uint ''reverse mplsLabelStackDepth'' [],
      field_type_of rev_pen 203 1 coding_uint ''reverse mplsTopLabelExp'' [],
      field_type_of rev_pen 204 4 coding_uint ''reverse ipPayloadLength'' [],
      field_type_of rev_pen 205 2 coding_uint ''reverse udpMessageLength'' [],
      field_type_of rev_pen 206 1 coding_uint ''reverse isMulticast'' [],
      field_type_of rev_pen 207 1 coding_uint ''reverse ipv4IHL'' [],
      field_type_of rev_pen 208 4 coding_uint ''reverse ipv4Options'' [],
      field_type_of rev_pen 209 8 coding_uint ''reverse tcpOptions'' [],
      field_type_of rev_pen 210 65535 coding_bytes ''reverse paddingOctets'' [],
      field_type_of rev_pen 211 4 coding_ipaddr ''reverse collectorIPv4Address'' [],
      field_type_of rev_pen 212 16 coding_ipaddr ''reverse collectorIPv6Address'' [],
      field_type_of rev_pen 213 4 coding_uint ''reverse collectorInterface'' [],
      field_type_of rev_pen 214 1 coding_uint ''reverse collectorProtocolVersion'' [],
      field_type_of rev_pen 215 1 coding_uint ''reverse collectorTransportProtocol'' [],
      field_type_of rev_pen 216 2 coding_uint ''reverse collectorTransportPort'' [],
      field_type_of rev_pen 217 2 coding_uint ''reverse exporterTransportPort'' [],
      field_type_of rev_pen 218 8 coding_uint ''reverse tcpSynTotalCount'' [],
      field_type_of rev_pen 219 8 coding_uint ''reverse tcpFinTotalCount'' [],
      field_type_of rev_pen 220 8 coding_uint ''reverse tcpRstTotalCount'' [],
      field_type_of rev_pen 221 8 coding_uint ''reverse tcpPshTotalCount'' [],
      field_type_of rev_pen 222 8 coding_uint ''reverse tcpAckTotalCount'' [],
      field_type_of rev_pen 223 8 coding_uint ''reverse tcpUrgTotalCount'' [],
      field_type_of rev_pen 224 8 coding_uint ''reverse ipTotalLength'' [],
      field_type_of rev_pen 237 1 coding_uint ''reverse postMplsTopLabelExp'' [],
      field_type_of rev_pen 238 2 coding_uint ''reverse tcpWindowScale'' [],
      field_type_of rev_pen 300 8 coding_uint ''reverse observationPointId_PSAMP'' [],
      field_type_of rev_pen 301 8 coding_uint ''reverse selectionSequenceId'' [],
      field_type_of rev_pen 302 2 coding_uint ''reverse selectorId'' [],
      field_type_of rev_pen 303 2 coding_uint ''reverse informationElementId'' [],
      field_type_of rev_pen 304 2 coding_uint ''reverse selectorAlgorithm'' [],
      field_type_of rev_pen 305 4 coding_uint ''reverse samplingPacketInterval'' [],
      field_type_of rev_pen 306 4 coding_uint ''reverse samplingPacketSpace'' [],
      field_type_of rev_pen 307 8 coding_ntp ''reverse samplingTimeInterval'' [],
      field_type_of rev_pen 308 8 coding_ntp ''reverse samplingTimeSpace'' [],
      field_type_of rev_pen 309 4 coding_uint ''reverse samplingSize'' [],
      field_type_of rev_pen 310 4 coding_uint ''reverse samplingPopulation'' [],
      field_type_of rev_pen 311 8 coding_float ''reverse samplingProbability'' [],
      field_type_of rev_pen 312 4 coding_uint ''reverse dataLinkFrameSize'' [],
      field_type_of rev_pen 313 65535 coding_bytes ''reverse ipHeaderPacketSection'' [],
      field_type_of rev_pen 314 65535 coding_bytes ''reverse ipPayloadPacketSection'' [],
      field_type_of rev_pen 315 65535 coding_bytes ''reverse dataLinkFrameSection'' [],
      field_type_of rev_pen 316 65535 coding_bytes ''reverse mplsLabelStackSection'' [],
      field_type_of rev_pen 317 65535 coding_bytes ''reverse mplsPayloadPacketSection'' [],
      field_type_of rev_pen 318 8 coding_uint ''reverse packetsObserved'' [],
      field_type_of rev_pen 319 8 coding_uint ''reverse packetsSelected'' [],
      field_type_of rev_pen 320 8 coding_float ''reverse fixedError'' [],
      field_type_of rev_pen 321 8 coding_float ''reverse relativeError'' [],
      field_type_of rev_pen 322 4 coding_uint ''reverse observationTimeSeconds'' [],
      field_type_of rev_pen 323 8 coding_uint ''reverse observationTimeMilliseconds'' [],
      field_type_of rev_pen 324 8 coding_ntp ''reverse observationTimeMicroseconds'' [],
      field_type_of rev_pen 325 8 coding_ntp ''reverse observationTimeNanoseconds'' [],
      field_type_of rev_pen 326 8 coding_uint ''reverse digestHashValue'' [],
      field_type_of rev_pen 327 8 coding_uint ''reverse hashIPPayloadOffset'' [],
      field_type_of rev_pen 328 8 coding_uint ''reverse hashIPPayloadSize'' [],
      field_type_of rev_pen 329 8 coding_uint ''reverse hashOutputRangeMin'' [],
      field_type_of rev_pen 330 8 coding_uint ''reverse hashOutputRangeMax'' [],
      field_type_of rev_pen 331 8 coding_uint ''reverse hashSelectedRangeMin'' [],
      field_type_of rev_pen 332 8 coding_uint ''reverse hashSelectedRangeMax'' [],
      field_type_of rev_pen 333 1 coding_bytes ''reverse hashDigestOutput'' [],
      field_type_of rev_pen 334 8 coding_uint ''reverse hashInitialiserValue'' [],
      field_type_of rev_pen 0 (-1) 0 [] []]"

definition forward_fields :: "field_type list" where
  "forward_fields = forward_fields_1 @ forward_fields_2 @ forward_fields_3"

definition reverse_fields :: "field_type list" where
  "reverse_fields = reverse_fields_1 @ reverse_fields_2 @ reverse_fields_3"

definition initialize_forward :: "field_container \<Rightarrow> (ipfix_exn, unit, field_container) result" where
  "initialize_forward fc = add_field_types forward_fields fc"

definition initialize_reverse :: "field_container \<Rightarrow> (ipfix_exn, unit, field_container) result" where
  "initialize_reverse fc = add_field_types reverse_fields fc"

definition known_fields :: field_container where
  "known_fields = forward_fields @ reverse_fields"

section \<open>No field twice\<close>

definition field_shape :: "field_type \<Rightarrow> int \<times> int \<times> int \<times> int" where
  "field_shape f = (ft_eno f, ft_ftype f, ft_length f, ft_coding f)"

lemma field_shape_of: "field_shape (field_type_of e t l c n d) = (e, t, l, c)"
  by (simp add: field_shape_def)

text \<open>
  What a field is apart from its texts. Both tables have the same shapes, under the enterprise
  number 0 and under that of RFC 5103.
\<close>

definition shape_table_1 :: "int \<Rightarrow> (int \<times> int \<times> int \<times> int) list" where
  "shape_table_1 e =
     [(e, 1, 8, coding_uint), (e, 2, 8, coding_uint), (e, 3, 8, coding_uint),
      (e, 4, 1, coding_uint), (e, 5, 1, coding_uint), (e, 6, 1, coding_uint),
      (e, 7, 2, coding_uint), (e, 8, 4, coding_ipaddr), (e, 9, 1, coding_uint),
      (e, 10, 4, coding_uint), (e, 11, 2, coding_uint), (e, 12, 4, coding_ipaddr),
      (e, 13, 1, coding_uint), (e, 14, 4, coding_uint), (e, 15, 4, coding_ipaddr),
      (e, 16, 4, coding_uint), (e, 17, 4, coding_uint), (e, 18, 4, coding_ipaddr),
      (e, 19, 8, coding_uint), (e, 20, 8, coding_uint), (e, 21, 4, coding_uint),
      (e, 22, 4, coding_uint), (e, 23, 8, coding_uint), (e, 24, 8, coding_uint),
      (e, 25, 8, coding_uint), (e, 26, 8, coding_uint), (e, 27, 16, coding_ipaddr),
      (e, 28, 16, coding_ipaddr), (e, 29, 1, coding_uint), (e, 30, 1, coding_uint),
      (e, 31, 4, coding_uint), (e, 32, 2, coding_uint), (e, 33, 1, coding_uint),
      (e, 34, 4, coding_uint), (e, 35, 1, coding_uint), (e, 36, 2, coding_uint),
      (e, 37, 2, coding_uint), (e, 38, 1, coding_uint), (e, 39, 1, coding_uint),
      (e, 40, 8, coding_uint), (e, 41, 8, coding_uint), (e, 42, 8, coding_uint),
      (e, 44, 4, coding_ipaddr), (e, 45, 4, coding_ipaddr), (e, 46, 1, coding_uint),
      (e, 47, 4, coding_ipaddr), (e, 48, 1, coding_uint), (e, 49, 1, coding_uint),
      (e, 50, 4, coding_uint), (e, 52, 1, coding_uint), (e, 53, 1, coding_uint),
      (e, 54, 4, coding_uint), (e, 55, 1, coding_uint), (e, 56, 6, coding_bytes),
      (e, 57, 6, coding_bytes), (e, 58, 2, coding_uint), (e, 59, 2, coding_uint),
      (e, 60, 1, coding_uint), (e, 61, 1, coding_uint), (e, 62, 16, coding_ipaddr),
      (e, 63, 16, coding_ipaddr), (e, 64, 4, coding_uint), (e, 70, 65535, coding_bytes),
      (e, 71, 65535, coding_bytes), (e, 72, 65535, coding_bytes), (e, 73, 65535, coding_bytes),
      (e, 74, 65535, coding_bytes), (e, 75, 65535, coding_bytes), (e, 76, 65535, coding_bytes),
      (e, 77, 65535, coding_bytes), (e, 78, 65535, coding_bytes)]"

definition shape_table_2 :: "int \<Rightarrow> (int \<times> int \<times> int \<times> int) list" where
  "shape_table_2 e =
     [(e, 79, 65535, coding_bytes), (e, 80, 6, coding_bytes), (e, 81, 6, coding_bytes),
      (e, 85, 8, coding_uint), (e, 86, 8, coding_uint), (e, 88, 2, coding_uint),
      (e, 90, 65535, coding_bytes), (e, 128, 4, coding_uint), (e, 129, 4, coding_uint),
      (e, 130, 4, coding_ipaddr), (e, 131, 16, coding_ipaddr), (e, 132, 8, coding_uint),
      (e, 133, 8, coding_uint), (e, 134, 8, coding_uint), (e, 135, 8, coding_uint),
      (e, 136, 1, coding_uint), (e, 137, 8, coding_uint), (e, 138, 4, coding_uint),
      (e, 139, 2, coding_uint), (e, 140, 16, coding_ipaddr), (e, 141, 4, coding_uint),
      (e, 142, 4, coding_uint), (e, 143, 4, coding_uint), (e, 144, 4, coding_uint),
      (e, 145, 2, coding_uint), (e, 146, 1, coding_uint), (e, 147, 65535, coding_string),
      (e, 148, 8, coding_uint), (e, 149, 4, coding_uint), (e, 150, 4, coding_uint),
      (e, 151, 4, coding_uint), (e, 152, 8, coding_uint), (e, 153, 8, coding_uint),
      (e, 154, 8, coding_ntp), (e, 155, 8, coding_ntp), (e, 156, 8, coding_ntp),
      (e, 157, 8, coding_ntp), (e, 158, 4, coding_uint), (e, 159, 4, coding_uint),
      (e, 160, 8, coding_uint), (e, 161, 4, coding_uint), (e, 162, 4, coding_uint),
      (e, 163, 8, coding_uint), (e, 164, 8, coding_uint), (e, 165, 8, coding_uint),
      (e, 166, 8, coding_uint), (e, 167, 8, coding_uint), (e, 168, 8, coding_uint),
      (e, 169, 16, coding_ipaddr), (e, 170, 16, coding_ipaddr), (e, 171, 8, coding_uint),
      (e, 172, 8, coding_uint), (e, 173, 8, coding_uint), (e, 174, 8, coding_uint),
      (e, 175, 8, coding_uint), (e, 176, 1, coding_uint), (e, 177, 1, coding_uint),
      (e, 178, 1, coding_uint), (e, 179, 1, coding_uint), (e, 180, 2, coding_uint),
      (e, 181, 2, coding_uint), (e, 182, 2, coding_uint), (e, 183, 2, coding_uint),
      (e, 184, 4, coding_uint), (e, 185, 4, coding_uint), (e, 186, 2, coding_uint),
      (e, 187, 2, coding_uint), (e, 188, 1, coding_uint), (e, 189, 1, coding_uint),
      (e, 190, 2, coding_uint), (e, 191, 2, coding_uint)]"

definition shape_table_3 :: "int \<Rightarrow> (int \<times> int \<times> int \<times> int) list" where
  "shape_table_3 e =
     [(e, 192, 1, coding_uint), (e, 193, 1, coding_uint), (e, 194, 4, coding_uint),
      (e, 195, 1, coding_uint), (e, 196, 1, coding_uint), (e, 197, 1, coding_uint),
      (e, 198, 8, coding_uint), (e, 199, 8, coding_uint), (e, 200, 1, coding_uint),
      (e, 201, 4, coding_uint), (e, 202, 4, coding_uint), (e, 203, 1, coding_uint),
      (e, 204, 4, coding_uint), (e, 205, 2, coding_uint), (e, 206, 1, coding_uint),
      (e, 207, 1, coding_uint), (e, 208, 4, coding_uint), (e, 209, 8, coding_uint),
      (e, 210, 65535, coding_bytes), (e, 211, 4, coding_ipaddr), (e, 212, 16, coding_ipaddr),
      (e, 213, 4, coding_uint), (e, 214, 1, coding_uint), (e, 215, 1, coding_uint),
      (e, 216, 2, coding_uint), (e, 217, 2, coding_uint), (e, 218, 8, coding_uint),
      (e, 219, 8, coding_uint), (e, 220, 8, coding_uint), (e, 221, 8, coding_uint),
      (e, 222, 8, coding_uint), (e, 223, 8, coding_uint), (e, 224, 8, coding_uint),
      (e, 237, 1, coding_uint), (e, 238, 2, coding_uint), (e, 300, 8, coding_uint),
      (e, 301, 8, coding_uint), (e, 302, 2, coding_uint), (e, 303, 2, coding_uint),
      (e, 304, 2, coding_uint), (e, 305, 4, coding_uint), (e, 306, 4, coding_uint),
      (e, 307, 8, coding_ntp), (e, 308, 8, coding_ntp), (e, 309, 4, coding_uint),
      (e, 310, 4, coding_uint), (e, 311, 8, coding_float), (e, 312, 4, coding_uint),
      (e, 313, 65535, coding_bytes), (e, 314, 65535, coding_bytes), (e, 315, 65535, coding_bytes),
      (e, 316, 65535, coding_bytes), (e, 317, 65535, coding_bytes), (e, 318, 8, coding_uint),
      (e, 319, 8, coding_uint), (e, 320, 8, coding_float), (e, 321, 8, coding_float),
      (e, 322, 4, coding_uint), (e, 323, 8, coding_uint), (e, 324, 8, coding_ntp),
      (e, 325, 8, coding_ntp), (e, 326, 8, coding_uint), (e, 327, 8, coding_uint),
      (e, 328, 8, coding_uint), (e, 329, 8, coding_uint), (e, 330, 8, coding_uint),
      (e, 331, 8, coding_uint), (e, 332, 8, coding_uint), (e, 333, 1, coding_bytes),
      (e, 334, 8, coding_uint), (e, 0, - 1, 0)]"

definition shape_table :: "int \<Rightarrow> (int \<times> int \<times> int \<times> int) list" where
  "shape_table e = shape_table_1 e @ shape_table_2 e @ shape_table_3 e"

lemma forward_shapes_1: "map field_shape forward_fields_1 = shape_table_1 0"
  by (simp only: forward_fields_1_def shape_table_1_def list.map field_shape_of)

lemma forward_shapes_2: "map field_shape forward_fields_2 = shape_table_2 0"
  by (simp only: forward_fields_2_def shape_table_2_def list.map field_shape_of)

lemma forward_shapes_3: "map field_shape forward_fields_3 = shape_table_3 0"
  by (simp only: forward_fields_3_def shape_table_3_def list.map field_shape_of)

lemma forward_shapes: "map field_shape forward_fields = shape_table 0"
  by (simp add: forward_fields_def shape_table_def forward_shapes_1 forward_shapes_2 forward_shapes_3)

lemma reverse_shapes_1: "map field_shape reverse_fields_1 = shape_table_1 rev_pen"
  by (simp only: reverse_fields_1_def shape_table_1_def list.map field_shape_of)

lemma reverse_shapes_2: "map field_shape reverse_fields_2 = shape_table_2 rev_pen"
  by (simp only: reverse_fields_2_def shape_table_2_def list.map field_shape_of)

lemma reverse_shapes_3: "map field_shape reverse_fields_3 = shape_table_3 rev_pen"
  by (simp only: reverse_fields_3_def shape_table_3_def list.map field_shape_of)

lemma reverse_shapes: "map field_shape reverse_fields = shape_table rev_pen"
  by (simp add: reverse_fields_def shape_table_def reverse_shapes_1 reverse_shapes_2 reverse_shapes_3)

lemmas shape_tables = shape_table_def shape_table_1_def shape_table_2_def shape_table_3_def

lemma shapes_ascending: "successively (<) (map (\<lambda>s. fst (snd s)) (butlast (shape_table e)))"
  unfolding shape_tables by simp

lemma shapes_split: "\<exists>ss. shape_table e = (e, 1, 8, coding_uint) # ss @ [(e, 0, - 1, 0)]"
  unfolding shape_tables by (simp add: append_eq_Cons_conv)

lemma shapes_eno: "list_all (\<lambda>s. fst s = e) (shape_table e)"
  unfolding shape_tables by simp

lemma shapes_length: "length (shape_table e) = 213"
  unfolding shape_tables by simp

lemma shapes_distinct: "distinct (map (\<lambda>s. fst (snd s)) (shape_table e))"
proof -
  obtain ss where ss: "shape_table e = (e, 1, 8, coding_uint) # ss @ [(e, 0, - 1, 0)]"
    using shapes_split by blast
  let ?ts = "map (\<lambda>s. fst (snd s)) ss"
  have "sorted_wrt (<) (1 # ?ts)"
    using shapes_ascending [of e]
    by (simp add: ss butlast_append successively_conv_sorted_wrt transp_on_def del: successively.simps)
  then have "distinct (1 # ?ts)" and "0 \<notin> set ?ts"
    by (auto simp: strict_sorted_iff)
  then show ?thesis by (simp add: ss)
qed

section \<open>The container of known fields\<close>

definition field_id :: "field_type \<Rightarrow> int \<times> int" where
  "field_id f = (ft_eno f, ft_ftype f)"

lemma field_equal_id: "field_equal f g \<longleftrightarrow> field_id f = field_id g"
  by (simp add: field_equal_def field_id_def)

lemma add_field_types_fresh:
  assumes "distinct (map field_id fs)" and "field_id ` set fc \<inter> field_id ` set fs = {}"
  shows "add_field_types fs fc = Ret () (fc @ fs)"
  using assms
proof (induction fs arbitrary: fc)
  case Nil
  then show ?case by simp
next
  case (Cons f fs)
  from Cons.prems(2) have "field_id f \<notin> field_id ` set fc" by auto
  then have "\<not> (\<exists>g \<in> set fc. field_equal g f)"
    by (metis field_equal_id imageI)
  then have "add_field_type f fc = Ret () (fc @ [f])" by (simp add: add_field_type_def)
  with Cons.IH [of "fc @ [f]"] Cons.prems show ?case by auto
qed

lemma ids_of_shapes:
  assumes "map field_shape fs = shape_table e"
  shows "map field_id fs = map (\<lambda>s. (e, fst (snd s))) (shape_table e)"
proof -
  have "map field_id fs = map (\<lambda>s. (fst s, fst (snd s))) (map field_shape fs)"
    by (simp add: field_id_def field_shape_def)
  also have "\<dots> = map (\<lambda>s. (e, fst (snd s))) (shape_table e)"
    unfolding assms using shapes_eno [of e] by (simp add: list_all_iff)
  finally show ?thesis .
qed

lemma table_ids:
  assumes "map field_shape fs = shape_table e"
  shows "distinct (map field_id fs)" and "f \<in> set fs \<Longrightarrow> fst (field_id f) = e"
proof -
  show "distinct (map field_id fs)"
    unfolding ids_of_shapes [OF assms] using shapes_distinct [of e] by (auto simp: distinct_map inj_on_def)
  assume "f \<in> set fs"
  then have "field_id f \<in> set (map field_id fs)" by simp
  then show "fst (field_id f) = e" unfolding ids_of_shapes [OF assms] by auto
qed

lemma ids_disjoint: "field_id ` set forward_fields \<inter> field_id ` set reverse_fields = {}"
  using table_ids(2) [OF forward_shapes] table_ids(2) [OF reverse_shapes]
  by (fastforce simp: rev_pen_def)

text \<open>Looking a field up in a container without duplicates\<close>

locale field_dictionary =
  fixes fc :: field_container
  assumes distinct_ids: "distinct (map field_id fc)"
begin

lemma get_field_iff: "get_field fc e t = Some f \<longleftrightarrow> f \<in> set fc \<and> field_id f = (e, t)"
proof
  assume "get_field fc e t = Some f"
  then show "f \<in> set fc \<and> field_id f = (e, t)"
    by (auto simp: get_field_def find_Some_iff field_id_def)
next
  assume f: "f \<in> set fc \<and> field_id f = (e, t)"
  have g: "g = f" if "g \<in> set fc" "ft_ftype g = t \<and> ft_eno g = e" for g
    using that f distinct_ids by (auto simp: field_id_def distinct_map inj_on_def)
  show "get_field fc e t = Some f"
  proof (cases "get_field fc e t")
    case None
    with f show ?thesis by (auto simp: get_field_def find_None_iff field_id_def)
  next
    case (Some h)
    then have "h \<in> set fc" "ft_ftype h = t \<and> ft_eno h = e"
      by (auto simp: get_field_def find_Some_iff)
    with g have "h = f" by blast
    with Some show ?thesis by simp
  qed
qed

lemma get_field_self: "f \<in> set fc \<Longrightarrow> get_field fc (ft_eno f) (ft_ftype f) = Some f"
  by (simp add: get_field_iff field_id_def)

lemma add_existing: "f \<in> set fc \<Longrightarrow> field_id g = field_id f \<Longrightarrow> add_field_type g fc = Exn Ipfix_Bad_Argument fc"
  by (auto simp: add_field_type_def field_equal_def field_id_def)

end

interpretation known: field_dictionary known_fields
  by unfold_locales
    (use ids_disjoint in \<open>auto simp: known_fields_def table_ids(1) [OF forward_shapes] table_ids(1) [OF reverse_shapes]\<close>)

lemma initialize_known:
  "initialize_forward [] = Ret () forward_fields" "initialize_reverse forward_fields = Ret () known_fields"
  using add_field_types_fresh [OF table_ids(1) [OF forward_shapes], of "[]"]
    add_field_types_fresh [OF table_ids(1) [OF reverse_shapes] ids_disjoint]
  by (simp_all add: initialize_forward_def initialize_reverse_def known_fields_def)

text \<open>
  Filling a container with the two tables never throws for a duplicate: it holds 426 fields
  with different numbers, and each of them is what \<open>get_field\<close> finds under its numbers.
\<close>

theorem initialize_fields:
  "r_bind (initialize_forward []) (\<lambda>_. initialize_reverse) = Ret () known_fields \<and>
    length known_fields = 426 \<and>
    (\<forall>f. f \<in> set known_fields \<longleftrightarrow> get_field known_fields (ft_eno f) (ft_ftype f) = Some f)"
proof -
  have "length forward_fields = 213" "length reverse_fields = 213"
    using arg_cong [OF forward_shapes, of length] arg_cong [OF reverse_shapes, of length]
    by (simp_all add: shapes_length)
  then have "length known_fields = 426" by (simp add: known_fields_def)
  then show ?thesis by (auto simp: initialize_known known.get_field_iff field_id_def)
qed

end
