(* ===== verification/Ipfix_Message.thy ===== *)
theory Ipfix_Message
  imports Ipfix_Template Ipfix_Tables
begin

unbundle bit_operations_syntax

text \<open>
  Building an IPFIX message and writing it to its buffer (src/msg/ipfix_t.cpp and the first
  half of src/msg/mnslp_ipfix_message.cpp). The buffer is modelled by the bytes that have been
  written to it; the memory behind them is indeterminate and never read. To write beyond
  \<open>buffer_lenght\<close> bytes is undefined. \<open>delete\<close> and \<open>realloc\<close> of memory that came from
  \<open>new[]\<close> are taken to work as they do with the allocator of the platform. The clock is the
  argument \<open>now\<close>, the byte order \<open>H\<close>.
\<close>

section \<open>The raw message\<close>

text \<open>The start of the current data set: a position in the buffer, or in one already freed\<close>

datatype cs_ptr = CS_Null | CS_At nat | CS_Dangling

record ipfix_raw =
  ip_sourceid :: int
  ip_version :: int
  ip_templates :: template_container
  ip_buffer :: "u8 list"
  ip_nrecords :: int
  ip_offset :: nat
  ip_buffer_lenght :: nat
  ip_seqno :: u32
  ip_cs_tid :: int
  ip_cs_bytes :: int
  ip_cs_offset :: int
  ip_cs_header :: cs_ptr
  ip_count :: u16
  ip_sysuptime :: u32
  ip_unixtime :: u32
  ip_length :: u16
  ip_exporttime :: u32

definition ipfix_version_nf9 :: int where "ipfix_version_nf9 = 0x09"
definition ipfix_version :: int where "ipfix_version = 0x0A"
definition ipfix_default_buflen :: nat where "ipfix_default_buflen = 1400"

definition new_ipfix_raw :: ipfix_raw where
  "new_ipfix_raw =
     \<lparr>ip_sourceid = 0, ip_version = ipfix_version, ip_templates = [], ip_buffer = [], ip_nrecords = 0,
      ip_offset = 0, ip_buffer_lenght = ipfix_default_buflen, ip_seqno = 0, ip_cs_tid = 0,
      ip_cs_bytes = 0, ip_cs_offset = 0, ip_cs_header = CS_Null, ip_count = 0, ip_sysuptime = 0,
      ip_unixtime = 0, ip_length = 0, ip_exporttime = 0\<rparr>"

text \<open>A copy has a buffer of its own with the bytes up to \<open>offset\<close>.\<close>

definition ipfix_raw_copy :: "ipfix_raw \<Rightarrow> ipfix_raw" where
  "ipfix_raw_copy i =
     i\<lparr>ip_templates := template_container_copy (ip_templates i),
       ip_buffer := (if ip_buffer_lenght i > 0 then take (ip_offset i) (ip_buffer i) else []),
       ip_cs_header :=
         (if ip_cs_header i = CS_Null then CS_Null
          else if ip_cs_offset i < 0 then CS_Dangling else CS_At (nat (ip_cs_offset i)))\<rparr>"

definition ipfix_raw_equal :: "ipfix_raw \<Rightarrow> ipfix_raw \<Rightarrow> bool option" where
  "ipfix_raw_equal i j =
     (if ip_sourceid i \<noteq> ip_sourceid j \<or> ip_version i \<noteq> ip_version j then Some False
      else
        (case template_container_equal (ip_templates i) (ip_templates j) of
           None \<Rightarrow> None
         | Some eq \<Rightarrow>
             if \<not> eq \<or> ip_nrecords i \<noteq> ip_nrecords j \<or> ip_offset i \<noteq> ip_offset j \<or>
               ip_buffer_lenght i \<noteq> ip_buffer_lenght j \<or> ip_seqno i \<noteq> ip_seqno j then Some False
             else if ip_version i = ipfix_version_nf9 \<and>
               (ip_count j \<noteq> ip_count i \<or> ip_sysuptime j \<noteq> ip_sysuptime i \<or> ip_unixtime j \<noteq> ip_unixtime i)
             then Some False
             else if ip_version i = ipfix_version \<and>
               (ip_length j \<noteq> ip_length i \<or> ip_exporttime j \<noteq> ip_exporttime i)
             then Some False
             else Some True))"

definition free_buffer :: "cs_ptr \<Rightarrow> cs_ptr" where
  "free_buffer p = (case p of CS_At k \<Rightarrow> CS_Dangling | q \<Rightarrow> q)"

text \<open>The check looks at the old fill level, not at the number of bytes to copy.\<close>

definition copy_raw_message :: "u8 list \<Rightarrow> nat \<Rightarrow> ipfix_raw \<Rightarrow> (ipfix_exn, unit, ipfix_raw) result" where
  "copy_raw_message msg n i =
     (if ip_offset i \<le> ip_buffer_lenght i then
        (if n > ip_buffer_lenght i \<or> n > length msg then Undef
         else Ret () (i\<lparr>ip_buffer := take n msg, ip_offset := n, ip_cs_header := free_buffer (ip_cs_header i)\<rparr>))
      else Exn Ipfix_Bad_Argument i)"

definition reinitiate_buffer :: "ipfix_raw \<Rightarrow> ipfix_raw" where
  "reinitiate_buffer i =
     i\<lparr>ip_buffer := [], ip_buffer_lenght := ipfix_default_buflen, ip_offset := 0,
       ip_cs_header := free_buffer (ip_cs_header i)\<rparr>"

text \<open>Writing bytes at a position, \<open>None\<close> beyond the end of the buffer\<close>

definition overwrite :: "nat \<Rightarrow> u8 list \<Rightarrow> u8 list \<Rightarrow> u8 list" where
  "overwrite k bs buf = take k (buf @ replicate (k - length buf) 0) @ bs @ drop (k + length bs) buf"

definition write_at :: "nat \<Rightarrow> u8 list \<Rightarrow> ipfix_raw \<Rightarrow> ipfix_raw option" where
  "write_at k bs i =
     (if k + length bs > ip_buffer_lenght i then None
      else Some (i\<lparr>ip_buffer := overwrite k bs (ip_buffer i)\<rparr>))"

text \<open>\<open>INSERTU16\<close> and \<open>INSERTU32\<close>, or their variants without conversion\<close>

definition insert_u16 :: "byte_order \<Rightarrow> bool \<Rightarrow> u16 \<Rightarrow> u8 list" where
  "insert_u16 H encode_network v = store16 H (if encode_network then htons H v else v)"

definition insert_u32 :: "byte_order \<Rightarrow> bool \<Rightarrow> u32 \<Rightarrow> u8 list" where
  "insert_u32 H encode_network v = store32 H (if encode_network then htonl H v else v)"

section \<open>The message\<close>

datatype 'a pointer = Null | Dangling | Ptr 'a

text \<open>\<open>require_output\<close> is not initialised by the constructor without arguments (\<open>None\<close>).\<close>

record ipfix_message =
  im_message :: "ipfix_raw pointer"
  im_fields :: field_container
  im_tstart :: int
  im_lasttid :: u16
  im_data_list :: "data_record list"
  im_encode_network :: bool
  im_require_output :: "bool option"

type_synonym 'a ipfix_result = "(ipfix_exn, 'a, ipfix_message) result"

definition with_raw :: "ipfix_message \<Rightarrow> (ipfix_raw \<Rightarrow> 'a ipfix_result) \<Rightarrow> 'a ipfix_result" where
  "with_raw m f = (case im_message m of Ptr i \<Rightarrow> f i | _ \<Rightarrow> Undef)"

definition or_throw :: "'b option \<Rightarrow> ipfix_message \<Rightarrow> ('b \<Rightarrow> 'a ipfix_result) \<Rightarrow> 'a ipfix_result" where
  "or_throw x m f = (case x of None \<Rightarrow> Exn Ipfix_Bad_Argument m | Some y \<Rightarrow> f y)"

definition set_raw :: "ipfix_raw \<Rightarrow> ipfix_message \<Rightarrow> ipfix_message" where
  "set_raw i m = m\<lparr>im_message := Ptr i\<rparr>"

definition set_raw_templates :: "template_container \<Rightarrow> ipfix_raw \<Rightarrow> ipfix_message \<Rightarrow> ipfix_message" where
  "set_raw_templates ts i m = set_raw (i\<lparr>ip_templates := ts\<rparr>) m"

definition blank_ipfix_message :: "bool \<Rightarrow> bool option \<Rightarrow> ipfix_message" where
  "blank_ipfix_message enc req =
     \<lparr>im_message = Null, im_fields = [], im_tstart = 0, im_lasttid = 0, im_data_list = [],
      im_encode_network = enc, im_require_output = req\<rparr>"

definition ipfix_init :: "int \<Rightarrow> int \<Rightarrow> int \<Rightarrow> ipfix_message \<Rightarrow> unit ipfix_result" where
  "ipfix_init sourceid version now m =
     (let m = m\<lparr>im_message := Ptr (new_ipfix_raw\<lparr>ip_sourceid := sourceid, ip_version := version\<rparr>),
                im_tstart := now, im_lasttid := 255\<rparr>
      in case initialize_forward (im_fields m) of
           Ret u fc \<Rightarrow>
             (case initialize_reverse fc of
                Ret u fc \<Rightarrow> Ret () (m\<lparr>im_fields := fc\<rparr>)
              | Exn e fc \<Rightarrow> Exn e (m\<lparr>im_fields := fc\<rparr>)
              | Abort \<Rightarrow> Abort
              | Undef \<Rightarrow> Undef)
         | Exn e fc \<Rightarrow> Exn e (m\<lparr>im_fields := fc\<rparr>)
         | Abort \<Rightarrow> Abort
         | Undef \<Rightarrow> Undef)"

definition default_ipfix_message :: "int \<Rightarrow> unit ipfix_result" where
  "default_ipfix_message now = ipfix_init 0 ipfix_version now (blank_ipfix_message True None)"

definition new_ipfix_message :: "int \<Rightarrow> int \<Rightarrow> bool \<Rightarrow> int \<Rightarrow> unit ipfix_result" where
  "new_ipfix_message sourceid version enc now =
     (let m = blank_ipfix_message enc (Some True)
      in if version = ipfix_version_nf9 \<or> version = ipfix_version then ipfix_init sourceid version now m
         else Exn Ipfix_Bad_Argument m)"

text \<open>The pointer is not reset; to delete it a second time is undefined.\<close>

definition ipfix_close :: "ipfix_message \<Rightarrow> unit ipfix_result" where
  "ipfix_close m =
     (case im_message m of
        Null \<Rightarrow> Ret () (m\<lparr>im_fields := [], im_data_list := []\<rparr>)
      | Ptr i \<Rightarrow> Ret () (m\<lparr>im_message := Dangling, im_fields := [], im_data_list := []\<rparr>)
      | Dangling \<Rightarrow> Undef)"

definition set_encode_mode :: "bool \<Rightarrow> ipfix_message \<Rightarrow> ipfix_message" where
  "set_encode_mode enc m = m\<lparr>im_encode_network := enc\<rparr>"

definition add_vendor_information_element :: "field_type \<Rightarrow> ipfix_message \<Rightarrow> unit ipfix_result" where
  "add_vendor_information_element f m =
     (if im_tstart m = 0 then Exn Ipfix_Bad_Argument m
      else case add_field_type f (im_fields m) of
             Ret u fc \<Rightarrow> Ret () (m\<lparr>im_fields := fc\<rparr>)
           | _ \<Rightarrow> Exn Ipfix_Bad_Argument m)"

section \<open>Templates and data of the message\<close>

text \<open>The number of the new template; it is not replaced if the number is taken.\<close>

definition new_template :: "int \<Rightarrow> ipfix_message \<Rightarrow> u16 ipfix_result" where
  "new_template nfields m =
     (if im_message m = Null then Exn Ipfix_Bad_Argument m
      else if nfields < 1 then Exn Ipfix_Bad_Argument m
      else with_raw m (\<lambda>i.
        let tid = im_lasttid m + 1;
            t = new_ipfix_template\<lparr>tp_tid := tid, tp_maxfields := nfields\<rparr>
        in Ret tid (set_raw_templates (add_template t (ip_templates i)) i
             (m\<lparr>im_lasttid := tid, im_require_output := Some True\<rparr>))))"

definition new_typed_template :: "templ_type \<Rightarrow> int \<Rightarrow> ipfix_message \<Rightarrow> u16 ipfix_result" where
  "new_typed_template ty nfields m =
     r_bind (new_template nfields (m\<lparr>im_require_output := Some True\<rparr>)) (\<lambda>tid m.
     with_raw m (\<lambda>i.
       or_throw (get_template tid (ip_templates i)) m (\<lambda>t.
         Ret tid (set_raw_templates (set_template tid (\<lambda>t. t\<lparr>tp_type := ty\<rparr>) (ip_templates i)) i m))))"

definition new_data_template :: "int \<Rightarrow> ipfix_message \<Rightarrow> u16 ipfix_result" where
  "new_data_template nfields m = new_typed_template DATA_TEMPLATE nfields m"

definition new_option_template :: "int \<Rightarrow> ipfix_message \<Rightarrow> u16 ipfix_result" where
  "new_option_template nfields m = new_typed_template OPTION_TEMPLATE nfields m"

definition ipfix_eft_vendor_bit :: u16 where "ipfix_eft_vendor_bit = 0x8000"
definition ipfix_ft_varlen :: u16 where "ipfix_ft_varlen = 65535"

definition add_field :: "u16 \<Rightarrow> u32 \<Rightarrow> u16 \<Rightarrow> u16 \<Rightarrow> ipfix_message \<Rightarrow> unit ipfix_result" where
  "add_field tid eno typ len m =
     with_raw m (\<lambda>i.
     or_throw (get_template tid (ip_templates i)) m (\<lambda>t.
       if get_numfields t < tp_maxfields t \<and> typ < ipfix_eft_vendor_bit
       then or_throw (get_field (im_fields m) (sint eno) (uint typ)) m (\<lambda>f.
         Ret () (set_raw_templates
           (set_template tid (add_data_field len KNOWN (im_encode_network m) f) (ip_templates i)) i
           (m\<lparr>im_require_output := Some True\<rparr>)))
       else Exn Ipfix_Bad_Argument m))"

definition message_add_scope_field :: "u16 \<Rightarrow> u32 \<Rightarrow> u16 \<Rightarrow> u16 \<Rightarrow> ipfix_message \<Rightarrow> unit ipfix_result" where
  "message_add_scope_field tid eno typ len m =
     with_raw m (\<lambda>i.
     or_throw (get_template tid (ip_templates i)) m (\<lambda>t.
       if tp_type t \<noteq> OPTION_TEMPLATE then Exn Ipfix_Bad_Argument m
       else if get_numfields t < tp_maxfields t
       then or_throw (get_field (im_fields m) (sint eno) (uint typ)) m (\<lambda>f.
         Ret () (set_raw_templates
           (set_template tid (add_scope_field len KNOWN (im_encode_network m) f) (ip_templates i)) i
           (m\<lparr>im_require_output := Some True\<rparr>)))
       else Exn Ipfix_Bad_Argument m))"

definition message_delete_template :: "u16 \<Rightarrow> ipfix_message \<Rightarrow> unit ipfix_result" where
  "message_delete_template tid m =
     with_raw m (\<lambda>i.
     case delete_template tid (ip_templates i) of
       Ret u ts \<Rightarrow> Ret () (set_raw_templates ts i (m\<lparr>im_require_output := Some True\<rparr>))
     | _ \<Rightarrow> Undef)"

definition message_delete_all_templates :: "ipfix_message \<Rightarrow> unit ipfix_result" where
  "message_delete_all_templates m =
     with_raw m (\<lambda>i.
       Ret () (set_raw_templates (delete_all_templates (ip_templates i)) i (m\<lparr>im_require_output := Some True\<rparr>)))"

record export_field =
  ef_eno :: u32
  ef_ienum :: u16
  ef_length :: u16

fun add_export_fields :: "u16 \<Rightarrow> export_field list \<Rightarrow> nat \<Rightarrow> ipfix_message \<Rightarrow> unit ipfix_result" where
  "add_export_fields tid fs 0 m = Ret () m"
| "add_export_fields tid [] (Suc n) m = Undef"
| "add_export_fields tid (f # fs) (Suc n) m =
     r_bind (add_field tid (ef_eno f) (ef_ienum f) (ef_length f) m) (\<lambda>_. add_export_fields tid fs n)"

definition make_template :: "export_field list \<Rightarrow> int \<Rightarrow> ipfix_message \<Rightarrow> u16 ipfix_result" where
  "make_template fs nfields m =
     r_bind (new_data_template nfields m) (\<lambda>tid m.
       case add_export_fields tid fs (nat nfields) m of
         Ret u m \<Rightarrow> Ret tid (m\<lparr>im_require_output := Some True\<rparr>)
       | Exn e m \<Rightarrow> r_bind (message_delete_template tid m) (\<lambda>_ m. Exn Ipfix_Bad_Argument m)
       | Abort \<Rightarrow> Abort
       | Undef \<Rightarrow> Undef)"

definition include_data :: "u16 \<Rightarrow> data_record \<Rightarrow> ipfix_message \<Rightarrow> unit ipfix_result" where
  "include_data tid r m =
     with_raw m (\<lambda>i.
     or_throw (get_template tid (ip_templates i)) m (\<lambda>t.
       if get_numfields t \<noteq> get_num_fields r then Exn Ipfix_Bad_Argument m
       else Ret () (m\<lparr>im_data_list := im_data_list m @ [r], im_require_output := Some True\<rparr>)))"

text \<open>To read the flag before it is set is undefined.\<close>

definition needs_output :: "ipfix_message \<Rightarrow> (bool \<Rightarrow> 'a ipfix_result) \<Rightarrow> 'a ipfix_result" where
  "needs_output m f = (case im_require_output m of None \<Rightarrow> Undef | Some b \<Rightarrow> f b)"

definition get_message :: "ipfix_message \<Rightarrow> u8 list option ipfix_result" where
  "get_message m =
     (case im_message m of
        Null \<Rightarrow> Ret None m
      | Ptr i \<Rightarrow> needs_output m (\<lambda>b. Ret (if b then None else Some (ip_buffer i)) m)
      | Dangling \<Rightarrow> needs_output m (\<lambda>b. if b then Ret None m else Undef))"

definition get_offset :: "ipfix_message \<Rightarrow> nat ipfix_result" where
  "get_offset m =
     (case im_message m of
        Null \<Rightarrow> Ret 0 m
      | Ptr i \<Rightarrow> needs_output m (\<lambda>b. Ret (if b then 0 else ip_offset i) m)
      | Dangling \<Rightarrow> needs_output m (\<lambda>b. if b then Ret 0 m else Undef))"

section \<open>Output\<close>

text \<open>
  The test of the result of \<open>realloc\<close> is inverted: when the memory has been enlarged the
  function throws. When the sum does not exceed the length it does nothing.
\<close>

definition allocate_additional_memory :: "nat \<Rightarrow> ipfix_raw \<Rightarrow> (ipfix_exn, unit, ipfix_raw) result" where
  "allocate_additional_memory additional i =
     (if ip_offset i + additional > ip_buffer_lenght i
      then Exn Ipfix_Bad_Argument (i\<lparr>ip_cs_header := free_buffer (ip_cs_header i)\<rparr>)
      else Ret () i)"

text \<open>The check that precedes every write of \<open>n\<close> more bytes\<close>

definition check_space :: "nat \<Rightarrow> ipfix_raw \<Rightarrow> (ipfix_exn, unit, ipfix_raw) result" where
  "check_space n i =
     (if n + ip_offset i > ip_buffer_lenght i
      then allocate_additional_memory (n + ip_offset i - ip_buffer_lenght i) i
      else Ret () i)"

definition try_write :: "nat \<Rightarrow> u8 list \<Rightarrow> ipfix_raw \<Rightarrow> (ipfix_exn, unit, ipfix_raw) result" where
  "try_write k bs i = (case write_at k bs i of None \<Rightarrow> Undef | Some i' \<Rightarrow> Ret () i')"

text \<open>\<open>memmove(buffer + n, buffer, offset)\<close>, if there is anything to move\<close>

definition shift_buffer :: "nat \<Rightarrow> ipfix_raw \<Rightarrow> (ipfix_exn, unit, ipfix_raw) result" where
  "shift_buffer n i =
     (if ip_offset i > 0 then try_write n (take (ip_offset i) (ip_buffer i)) i else Ret () i)"

definition finish_cs :: "byte_order \<Rightarrow> bool \<Rightarrow> ipfix_raw \<Rightarrow> (ipfix_exn, unit, ipfix_raw) result" where
  "finish_cs H enc i =
     (case ip_cs_header i of
        CS_Null \<Rightarrow> Ret () i
      | CS_Dangling \<Rightarrow> Undef
      | CS_At k \<Rightarrow>
          r_bind (try_write k (insert_u16 H enc (of_int (ip_cs_tid i)) @ insert_u16 H enc (of_int (ip_cs_bytes i))) i)
            (\<lambda>_ i. Ret () (i\<lparr>ip_cs_bytes := 0, ip_cs_offset := 0, ip_cs_header := CS_Null, ip_cs_tid := 0\<rparr>)))"

definition output_flush :: "byte_order \<Rightarrow> bool \<Rightarrow> ipfix_raw \<Rightarrow> (ipfix_exn, unit, ipfix_raw) result" where
  "output_flush H enc i =
     (if ip_offset i = 0 then Ret () i
      else if ip_cs_tid i > 0 then finish_cs H enc i
      else Ret () i)"

definition ipfix_hdr_bytes_nf9 :: nat where "ipfix_hdr_bytes_nf9 = 20"
definition ipfix_hdr_bytes :: nat where "ipfix_hdr_bytes = 16"

definition write_hdr_nf9 :: "byte_order \<Rightarrow> bool \<Rightarrow> int \<Rightarrow> int \<Rightarrow> ipfix_raw \<Rightarrow> (ipfix_exn, unit, ipfix_raw) result" where
  "write_hdr_nf9 H enc tstart now i =
     r_bind (check_space ipfix_hdr_bytes_nf9 i) (\<lambda>_ i.
     r_bind (shift_buffer ipfix_hdr_bytes_nf9 i) (\<lambda>_ i.
     let i = i\<lparr>ip_seqno := ip_seqno i + 1\<rparr>
     in r_bind (try_write 0
          (insert_u16 H enc (of_int (ip_version i)) @ insert_u16 H enc (of_int (ip_nrecords i)) @
           insert_u32 H enc (of_int ((now - tstart) * 1000)) @ insert_u32 H enc (of_int now) @
           insert_u32 H enc (ip_seqno i) @ insert_u32 H enc (of_int (ip_sourceid i))) i)
          (\<lambda>_ i. Ret () (i\<lparr>ip_offset := ip_offset i + ipfix_hdr_bytes_nf9\<rparr>))))"

definition write_hdr_ipfix :: "byte_order \<Rightarrow> bool \<Rightarrow> int \<Rightarrow> ipfix_raw \<Rightarrow> (ipfix_exn, unit, ipfix_raw) result" where
  "write_hdr_ipfix H enc now i =
     r_bind (check_space ipfix_hdr_bytes i) (\<lambda>_ i.
     r_bind (shift_buffer ipfix_hdr_bytes i) (\<lambda>_ i.
     let len = of_nat (ip_offset i + ipfix_hdr_bytes)
     in r_bind (try_write 0
          (insert_u16 H enc (of_int (ip_version i)) @ insert_u16 H enc len @
           insert_u32 H enc (of_int now) @ insert_u32 H enc (of_int (ip_nrecords i)) @
           insert_u32 H enc (of_int (ip_sourceid i))) i)
          (\<lambda>_ i. Ret () (i\<lparr>ip_length := len, ip_exporttime := of_int now,
                           ip_offset := ip_offset i + ipfix_hdr_bytes\<rparr>))))"

definition write_hdr :: "byte_order \<Rightarrow> bool \<Rightarrow> int \<Rightarrow> int \<Rightarrow> ipfix_raw \<Rightarrow> (ipfix_exn, unit, ipfix_raw) result" where
  "write_hdr H enc tstart now i =
     (if ip_version i = ipfix_version_nf9 then write_hdr_nf9 H enc tstart now i
      else write_hdr_ipfix H enc now i)"

text \<open>\<open>get_field(i)\<close> for each \<open>i\<close> of a range\<close>

fun fields_at :: "ipfix_template \<Rightarrow> int list \<Rightarrow> (ipfix_exn, template_field list, unit) result" where
  "fields_at t [] = Ret [] ()"
| "fields_at t (i # js) =
     r_bind (get_template_field t i) (\<lambda>f _. r_bind (fields_at t js) (\<lambda>fs _. Ret (f # fs) ()))"

definition ipfix_ft_noeno :: int where "ipfix_ft_noeno = 0"

definition field_spec_size :: "template_field \<Rightarrow> nat" where
  "field_spec_size f = (if ft_eno (tf_elem f) \<noteq> ipfix_ft_noeno then 4 + 4 else 4)"

definition field_spec :: "byte_order \<Rightarrow> bool \<Rightarrow> template_field \<Rightarrow> u8 list" where
  "field_spec H enc f =
     (if ft_eno (tf_elem f) = ipfix_ft_noeno
      then insert_u16 H enc (of_int (ft_ftype (tf_elem f))) @ insert_u16 H enc (tf_flength f)
      else insert_u16 H enc (of_int (ft_ftype (tf_elem f)) OR ipfix_eft_vendor_bit) @
        insert_u16 H enc (tf_flength f) @ insert_u32 H enc (of_int (ft_eno (tf_elem f))))"

definition setid_template_nf9 :: u16 where "setid_template_nf9 = 0"
definition setid_opttemplate_nf9 :: u16 where "setid_opttemplate_nf9 = 1"
definition setid_template :: u16 where "setid_template = 2"
definition setid_opttemplate :: u16 where "setid_opttemplate = 3"

text \<open>The header of a template set, from the sizes of the scope and of the other fields\<close>

definition template_set_header :: "byte_order \<Rightarrow> bool \<Rightarrow> int \<Rightarrow> ipfix_template \<Rightarrow> nat \<Rightarrow> nat \<Rightarrow> nat \<Rightarrow> u8 list" where
  "template_set_header H enc version t tsize ssize osize =
     (let u16 = insert_u16 H enc
      in if version = ipfix_version_nf9
         then
           (if tp_type t = OPTION_TEMPLATE
            then u16 setid_opttemplate_nf9 @ u16 (of_nat tsize) @ u16 (tp_tid t) @ u16 (of_nat ssize) @
              u16 (of_nat osize)
            else u16 setid_template_nf9 @ u16 (of_nat tsize) @ u16 (tp_tid t) @ u16 (of_int (get_numfields t)))
         else
           (if tp_type t = OPTION_TEMPLATE
            then u16 setid_opttemplate @ u16 (of_nat tsize) @ u16 (tp_tid t) @ u16 (of_int (get_numfields t)) @
              u16 (of_int (get_number_scopefields t))
            else u16 setid_template @ u16 (of_nat tsize) @ u16 (tp_tid t) @ u16 (of_int (get_numfields t))))"

text \<open>
  The template goes before everything that is in the buffer. The result is the raw message; the
  caller notes the time in the template.
\<close>

definition write_template_bytes :: "byte_order \<Rightarrow> bool \<Rightarrow> ipfix_template \<Rightarrow> nat \<Rightarrow> u8 list \<Rightarrow> ipfix_raw \<Rightarrow>
    (ipfix_exn, unit, ipfix_raw) result" where
  "write_template_bytes H enc t tsize bs i =
     r_bind (check_space tsize i) (\<lambda>_ i.
     r_bind (shift_buffer tsize i) (\<lambda>_ i.
     (if ip_offset i > 0 \<and> ip_cs_tid i \<noteq> 0 \<and> ip_cs_header i = CS_Null then Undef
      else
        let i = (if ip_offset i > 0
                 then i\<lparr>ip_cs_offset := ip_cs_offset i + int tsize,
                   ip_cs_header := (if ip_cs_tid i \<noteq> 0
                     then (case ip_cs_header i of CS_At k \<Rightarrow> CS_At (k + tsize) | p \<Rightarrow> p) else ip_cs_header i)\<rparr>
                 else i)
        in r_bind (try_write 0 bs i) (\<lambda>_ i.
           Ret () (i\<lparr>ip_offset := ip_offset i + length bs,
             ip_nrecords := (if ip_version i = ipfix_version_nf9 then ip_nrecords i + 1 else ip_nrecords i)\<rparr>)))))"

text \<open>A call without state of its own within one on the message\<close>

definition call_pure :: "('e, 'a, unit) result \<Rightarrow> 's \<Rightarrow> ('a \<Rightarrow> ('e, 'b, 's) result) \<Rightarrow> ('e, 'b, 's) result" where
  "call_pure r s f =
     (case r of Ret a _ \<Rightarrow> f a | Exn e _ \<Rightarrow> Exn e s | Abort \<Rightarrow> Abort | Undef \<Rightarrow> Undef)"

lemma call_pure_simps [simp]:
  "call_pure (Ret a u) s f = f a" "call_pure (Exn e u) s f = Exn e s"
  "call_pure Abort s f = Abort" "call_pure Undef s f = Undef"
  by (simp_all add: call_pure_def)

definition write_template :: "byte_order \<Rightarrow> bool \<Rightarrow> int \<Rightarrow> ipfix_template \<Rightarrow> ipfix_raw \<Rightarrow>
    (ipfix_exn, unit, ipfix_raw) result" where
  "write_template H enc now t i =
     (let scope = (if tp_type t = OPTION_TEMPLATE then get_number_scopefields t else 0)
      in call_pure (fields_at t [0..scope - 1]) i (\<lambda>ss.
         call_pure (fields_at t [scope..get_numfields t - 1]) i (\<lambda>fs.
         let ssize = sum_list (map field_spec_size ss);
             osize = sum_list (map field_spec_size fs);
             tsize = (if tp_type t = OPTION_TEMPLATE then 10 + osize + ssize else 8 + osize)
         in r_bind (write_template_bytes H enc t tsize
              (template_set_header H enc (ip_version i) t tsize ssize osize @
               concat (map (field_spec H enc) (ss @ fs))) i) (\<lambda>_ i.
            Ret () (i\<lparr>ip_templates := set_template (tp_tid t) (\<lambda>t. t\<lparr>tp_tsend := now\<rparr>) (ip_templates i)\<rparr>)))))"

text \<open>The length that is checked and the bytes that are written for one field of a record\<close>

definition value_size :: "template_field \<Rightarrow> data_record \<Rightarrow> (ipfix_exn, nat, unit) result" where
  "value_size f r =
     (case get_value_length r (get_field_key (tf_elem f)) of
        None \<Rightarrow> Exn Ipfix_Bad_Argument ()
      | Some len \<Rightarrow>
          if tf_flength f = ipfix_ft_varlen then Ret ((if len > 254 then 3 else 1) + unat len) ()
          else if len > tf_flength f then Exn Ipfix_Bad_Argument ()
          else Ret (unat len) ())"

fun record_size :: "template_field list \<Rightarrow> data_record \<Rightarrow> (ipfix_exn, nat, unit) result" where
  "record_size [] r = Ret 0 ()"
| "record_size (f # fs) r =
     r_bind (value_size f r) (\<lambda>n _. r_bind (record_size fs r) (\<lambda>k _. Ret (n + k) ()))"

definition varlen_prefix :: "byte_order \<Rightarrow> bool \<Rightarrow> u16 \<Rightarrow> u8 list" where
  "varlen_prefix H enc len = (if len > 254 then 0xFF # insert_u16 H enc len else [ucast len])"

definition value_bytes :: "byte_order \<Rightarrow> bool \<Rightarrow> template_field \<Rightarrow> data_record \<Rightarrow> u8 list option" where
  "value_bytes H enc f r =
     Option.bind (get_field_value r (get_field_key (tf_elem f))) (\<lambda>v.
       map_option (\<lambda>bs. (if tf_flength f = ipfix_ft_varlen then varlen_prefix H enc (of_int (vf_length v)) else []) @ bs)
         (encode H (tf_elem f) v (tf_relay f)))"

fun record_bytes :: "byte_order \<Rightarrow> bool \<Rightarrow> template_field list \<Rightarrow> data_record \<Rightarrow> u8 list option" where
  "record_bytes H enc [] r = Some []"
| "record_bytes H enc (f # fs) r =
     Option.bind (value_bytes H enc f r) (\<lambda>bs. map_option (\<lambda>cs. bs @ cs) (record_bytes H enc fs r))"

text \<open>
  One record: \<open>datasetlen\<close> has grown by the records before it, and each record becomes a data
  set of its own, whose header \<open>finish_cs\<close> corrects.
\<close>

definition start_data_set :: "ipfix_template \<Rightarrow> bool \<Rightarrow> ipfix_raw \<Rightarrow> ipfix_raw" where
  "start_data_set t newset i =
     (if newset then i\<lparr>ip_cs_bytes := 0, ip_cs_header := CS_At (ip_offset i),
        ip_cs_offset := int (ip_offset i), ip_cs_tid := uint (tp_tid t)\<rparr> else i)"

definition output_record :: "byte_order \<Rightarrow> bool \<Rightarrow> ipfix_template \<Rightarrow> bool \<Rightarrow> data_record \<Rightarrow> nat \<Rightarrow> ipfix_raw \<Rightarrow>
    (ipfix_exn, nat, ipfix_raw) result" where
  "output_record H enc t newset r datasetlen i =
     call_pure (fields_at t [0..get_numfields t - 1]) i (\<lambda>fs.
     call_pure (record_size fs r) i (\<lambda>n.
     let datasetlen = datasetlen + n
     in r_bind (check_space datasetlen i) (\<lambda>_ i.
        let i = start_data_set t newset i;
            hdr = (if newset then insert_u16 H enc (tp_tid t) @ insert_u16 H enc (of_nat datasetlen) else [])
        in deref (record_bytes H enc fs r) (\<lambda>bs.
           r_bind (try_write (ip_offset i) (hdr @ bs) i) (\<lambda>_ i.
           r_bind (finish_cs H enc
             (i\<lparr>ip_nrecords := ip_nrecords i + 1, ip_offset := ip_offset i + length (hdr @ bs),
                ip_cs_bytes := ip_cs_bytes i + int (length (hdr @ bs))\<rparr>)) (\<lambda>_ i.
           Ret datasetlen (if ip_version i = ipfix_version then i\<lparr>ip_seqno := ip_seqno i + 1\<rparr> else i)))))))"

fun output_records :: "byte_order \<Rightarrow> bool \<Rightarrow> ipfix_template \<Rightarrow> bool \<Rightarrow> data_record list \<Rightarrow> nat \<Rightarrow> ipfix_raw \<Rightarrow>
    (ipfix_exn, nat, ipfix_raw) result" where
  "output_records H enc t newset [] datasetlen i = Ret datasetlen i"
| "output_records H enc t newset (r # rs) datasetlen i =
     (if dr_template_id r = tp_tid t
      then r_bind (output_record H enc t newset r datasetlen i) (output_records H enc t newset rs)
      else output_records H enc t newset rs datasetlen i)"

definition output_set :: "byte_order \<Rightarrow> bool \<Rightarrow> int \<Rightarrow> data_record list \<Rightarrow> u16 \<Rightarrow> ipfix_raw \<Rightarrow>
    (ipfix_exn, unit, ipfix_raw) result" where
  "output_set H enc now records tid i =
     (case get_template tid (ip_templates i) of
        None \<Rightarrow> Exn Ipfix_Bad_Argument i
      | Some t \<Rightarrow>
          r_bind (if tp_tsend t = 0 then write_template H enc now t i else Ret () i) (\<lambda>_ i.
          if uint (tp_tid t) = ip_cs_tid i
          then r_bind (output_records H enc t False records 0 i) (\<lambda>_. output_flush H enc)
          else
            r_bind (if ip_cs_tid i > 0 then finish_cs H enc i else Ret () i) (\<lambda>_ i.
            r_bind (output_records H enc t True records 4 i) (\<lambda>_. output_flush H enc))))"

text \<open>A pass over the templates, the option templates or the others\<close>

fun output_sets :: "byte_order \<Rightarrow> bool \<Rightarrow> int \<Rightarrow> data_record list \<Rightarrow> bool \<Rightarrow> u16 list \<Rightarrow> ipfix_raw \<Rightarrow>
    (ipfix_exn, unit, ipfix_raw) result" where
  "output_sets H enc now records options [] i = Ret () i"
| "output_sets H enc now records options (tid # tids) i =
     (case get_template tid (ip_templates i) of
        None \<Rightarrow> Exn Ipfix_Bad_Argument i
      | Some t \<Rightarrow>
          r_bind (if (tp_type t = OPTION_TEMPLATE) = options then output_set H enc now records tid i else Ret () i)
            (\<lambda>_. output_sets H enc now records options tids))"

definition output_raw :: "byte_order \<Rightarrow> bool \<Rightarrow> int \<Rightarrow> int \<Rightarrow> data_record list \<Rightarrow> ipfix_raw \<Rightarrow>
    (ipfix_exn, unit, ipfix_raw) result" where
  "output_raw H enc tstart now records i =
     (let i = reinitiate_buffer i;
          lst_templates = get_template_list (ip_templates i)
      in r_bind (output_sets H enc now records True lst_templates i) (\<lambda>_ i.
         r_bind (output_sets H enc now records False lst_templates i) (\<lambda>_ i.
         write_hdr H enc tstart now i)))"

definition message_output :: "byte_order \<Rightarrow> int \<Rightarrow> ipfix_message \<Rightarrow> unit ipfix_result" where
  "message_output H now m =
     needs_output m (\<lambda>req.
     if \<not> req then Ret () m
     else with_raw m (\<lambda>i.
       case output_raw H (im_encode_network m) (im_tstart m) now (im_data_list m) i of
         Ret u i \<Rightarrow> Ret () ((set_raw i m)\<lparr>im_require_output := Some False\<rparr>)
       | Exn e i \<Rightarrow> Exn e (set_raw i m)
       | Abort \<Rightarrow> Abort
       | Undef \<Rightarrow> Undef))"

section \<open>Copies, comparison and queries\<close>

definition copy_raw_pointer :: "ipfix_raw pointer \<Rightarrow> ipfix_raw pointer \<Rightarrow> ipfix_raw pointer option" where
  "copy_raw_pointer src dst =
     (case src of Null \<Rightarrow> Some dst | Ptr i \<Rightarrow> Some (Ptr (ipfix_raw_copy i)) | Dangling \<Rightarrow> None)"

definition ipfix_copy :: "ipfix_message \<Rightarrow> ipfix_message option" where
  "ipfix_copy m = map_option (\<lambda>p. m\<lparr>im_message := p\<rparr>) (copy_raw_pointer (im_message m) Null)"

definition ipfix_assign :: "ipfix_message \<Rightarrow> ipfix_message \<Rightarrow> ipfix_message option" where
  "ipfix_assign m other =
     map_option (\<lambda>p. other\<lparr>im_message := p, im_require_output := Some True\<rparr>)
       (copy_raw_pointer (im_message other) (im_message m))"

text \<open>
  The records of the left side; one that the right side lacks is undefined, a field that it
  lacks throws.
\<close>

fun records_equal :: "data_record list \<Rightarrow> data_record list \<Rightarrow> (ipfix_exn, bool, unit) result" where
  "records_equal [] ys = Ret True ()"
| "records_equal (x # xs) [] = Undef"
| "records_equal (x # xs) (y # ys) =
     (case data_record_differs x y of
        None \<Rightarrow> Exn Ipfix_Bad_Argument ()
      | Some d \<Rightarrow> if d then Ret False () else records_equal xs ys)"

definition isEqual :: "ipfix_message \<Rightarrow> ipfix_message \<Rightarrow> (ipfix_exn, bool, unit) result" where
  "isEqual m obj =
     (case (im_message obj, im_message m) of
        (Null, Null) \<Rightarrow> Ret True ()
      | (Ptr j, Ptr i) \<Rightarrow>
          deref (ipfix_raw_equal j i) (\<lambda>eq.
            if eq then records_equal (im_data_list m) (im_data_list obj) else Ret False ())
      | (Dangling, _) \<Rightarrow> Undef
      | (_, Dangling) \<Rightarrow> Undef
      | _ \<Rightarrow> Ret False ())"

text \<open>All records of the template have its fields, and there is at least one.\<close>

fun record_has_fields :: "ipfix_template \<Rightarrow> data_record \<Rightarrow> int list \<Rightarrow> (ipfix_exn, bool, unit) result" where
  "record_has_fields t r [] = Ret True ()"
| "record_has_fields t r (j # js) =
     (case get_template_field t j of
        Ret f _ \<Rightarrow> if get_field_value r (get_field_key (tf_elem f)) = None then Ret False ()
          else record_has_fields t r js
      | Exn e _ \<Rightarrow> Ret False ()
      | Abort \<Rightarrow> Abort
      | Undef \<Rightarrow> Undef)"

fun include_all_from :: "bool \<Rightarrow> ipfix_template \<Rightarrow> data_record list \<Rightarrow> (ipfix_exn, bool, unit) result" where
  "include_all_from found t [] = Ret found ()"
| "include_all_from found t (r # rs) =
     (if dr_template_id r \<noteq> tp_tid t then include_all_from found t rs
      else if get_num_fields r \<noteq> get_numfields t then Ret False ()
      else r_bind (record_has_fields t r [0..get_numfields t - 1]) (\<lambda>ok _.
        if ok then include_all_from True t rs else Ret False ()))"

definition include_all_data_fields :: "ipfix_template \<Rightarrow> ipfix_message \<Rightarrow> (ipfix_exn, bool, unit) result" where
  "include_all_data_fields t m = include_all_from False t (im_data_list m)"

fun field_data_values_from :: "byte_order \<Rightarrow> ipfix_template \<Rightarrow> field_type \<Rightarrow> data_record list \<Rightarrow>
    (ipfix_exn, string list, unit) result" where
  "field_data_values_from H t f [] = Ret [] ()"
| "field_data_values_from H t f (r # rs) =
     (if dr_template_id r \<noteq> tp_tid t then field_data_values_from H t f rs
      else
        (case get_field_value r (get_field_key f) of
           None \<Rightarrow> Exn Ipfix_Bad_Argument ()
         | Some v \<Rightarrow>
             deref (print_value H f v) (\<lambda>s.
               r_bind (field_data_values_from H t f rs) (\<lambda>ss _. Ret (s # ss) ()))))"

definition get_field_data_values :: "byte_order \<Rightarrow> ipfix_template \<Rightarrow> field_type \<Rightarrow> ipfix_message \<Rightarrow>
    (ipfix_exn, string list, unit) result" where
  "get_field_data_values H t f m = field_data_values_from H t f (im_data_list m)"

end
