(* ===== verification/Ipfix_Import.thy ===== *)
theory Ipfix_Import
  imports Ipfix_Message
begin

unbundle bit_operations_syntax

text \<open>
  Parsing an IPFIX message (the second half of src/msg/mnslp_ipfix_message.cpp). The bytes of
  the message are a list; a function that gets a pointer into them gets the rest of the list,
  and reading beyond its end is undefined. The loops are partial functions: \<open>None\<close> is a loop
  that does not end.
\<close>

section \<open>Header\<close>

definition read_u16 :: "byte_order \<Rightarrow> bool \<Rightarrow> u8 list \<Rightarrow> u16" where
  "read_u16 H enc bs = (if enc then ntohs H (load16 H (take 2 bs)) else load16 H (take 2 bs))"

definition read_u32 :: "byte_order \<Rightarrow> bool \<Rightarrow> u8 list \<Rightarrow> u32" where
  "read_u32 H enc bs = (if enc then ntohl H (load32 H (take 4 bs)) else load32 H (take 4 bs))"

text \<open>
  \<open>message\<close> is used in the last branch although \<open>init\<close> has not been called: it is NULL, or the
  message \<open>close\<close> has deleted.
\<close>

definition parse_hdr :: "byte_order \<Rightarrow> int \<Rightarrow> u8 list \<Rightarrow> ipfix_message \<Rightarrow> unit ipfix_result" where
  "parse_hdr H now mes m =
     (let enc = im_encode_network m; version = uint (read_u16 H enc mes)
      in if version = ipfix_version_nf9 then
           (if length mes < ipfix_hdr_bytes_nf9 then Exn Ipfix_Bad_Argument m
            else r_bind (ipfix_init (sint (read_u32 H enc (drop 16 mes))) version now m) (\<lambda>_ m.
              with_raw m (\<lambda>i. Ret () (set_raw (i\<lparr>ip_count := read_u16 H enc (drop 2 mes),
                ip_sysuptime := read_u32 H enc (drop 4 mes), ip_unixtime := read_u32 H enc (drop 8 mes),
                ip_seqno := read_u32 H enc (drop 12 mes)\<rparr>) m))))
         else if version = ipfix_version then
           (if length mes < ipfix_hdr_bytes then Exn Ipfix_Bad_Argument m
            else r_bind (ipfix_init (sint (read_u32 H enc (drop 12 mes))) version now m) (\<lambda>_ m.
              with_raw m (\<lambda>i. Ret () (set_raw (i\<lparr>ip_length := read_u16 H enc (drop 2 mes),
                ip_exporttime := read_u32 H enc (drop 4 mes), ip_seqno := read_u32 H enc (drop 8 mes)\<rparr>) m))))
         else with_raw m (\<lambda>i. Exn Ipfix_Bad_Argument (set_raw (i\<lparr>ip_version := -1\<rparr>) m)))"

section \<open>Template records\<close>

text \<open>
  Number, number of fields, number of scope fields and length of the header of a template
  record. In the branch of version 9 the lengths are variables of eight bytes that are not
  initialised; without conversion only two bytes of them are written.
\<close>

definition trecord_header :: "byte_order \<Rightarrow> bool \<Rightarrow> u16 \<Rightarrow> u8 list \<Rightarrow> nat \<Rightarrow>
    (ipfix_exn, u16 \<times> u16 \<times> u16 \<times> nat, unit) result" where
  "trecord_header H enc setid buf len =
     (let u16_at = (\<lambda>k. read_u16 H enc (drop k buf))
      in if setid = setid_opttemplate then
           (if len < 6 then Exn Ipfix_Bad_Argument () else Ret (u16_at 0, u16_at 2, u16_at 4, 6) ())
         else if setid = setid_opttemplate_nf9 then
           (if len < 6 then Exn Ipfix_Bad_Argument ()
            else if \<not> enc then Undef
            else if unat (u16_at 2) + unat (u16_at 4) < len then Exn Ipfix_Bad_Argument ()
            else Ret (u16_at 0, u16_at 2 div 4 + u16_at 4 div 4, u16_at 2 div 4, 6) ())
         else if setid = setid_template \<or> setid = setid_template_nf9 then
           (if len < 4 then Exn Ipfix_Bad_Argument () else Ret (u16_at 0, u16_at 2, 0, 4) ())
         else Exn Ipfix_Bad_Argument ())"

text \<open>The field is added to the template with number \<open>tid\<close>; the result is the number of bytes.\<close>

definition read_field :: "byte_order \<Rightarrow> u16 \<Rightarrow> u8 list \<Rightarrow> nat \<Rightarrow> bool \<Rightarrow> ipfix_message \<Rightarrow> nat ipfix_result" where
  "read_field H tid buf buflen isscopefield m =
     (if buflen < 4 then Exn Ipfix_Bad_Argument m
      else with_raw m (\<lambda>i. deref (get_template tid (ip_templates i)) (\<lambda>t.
        if get_numfields t \<ge> tp_maxfields t then Exn Ipfix_Bad_Argument m
        else
          let enc = im_encode_network m;
              ftype = read_u16 H enc buf;
              len = read_u16 H enc (drop 2 buf);
              vendor = ftype AND ipfix_eft_vendor_bit \<noteq> 0
          in if vendor \<and> buflen < 8 then Exn Ipfix_Bad_Argument m
             else
               let ftype = (if vendor then ftype AND NOT ipfix_eft_vendor_bit else ftype);
                   eno = (if vendor then sint (read_u32 H enc (drop 4 buf)) else ipfix_ft_noeno);
                   nread = (if vendor then 4 + 4 else 4);
                   add = (\<lambda>unknown_f f. Ret nread (set_raw_templates (set_template tid
                     (if isscopefield then add_scope_field len unknown_f enc f
                      else add_data_field len unknown_f enc f) (ip_templates i)) i m))
               in (case get_field (im_fields m) eno (uint ftype) of
                     Some f \<Rightarrow> add KNOWN f
                   | None \<Rightarrow> or_throw (get_field (im_fields m) 0 0) m (add UNKNOWN)))))"

text \<open>The fields from the \<open>j\<close>-th on; \<open>n\<close> are left. The result is the offset behind them.\<close>

fun read_fields :: "byte_order \<Rightarrow> u16 \<Rightarrow> u8 list \<Rightarrow> nat \<Rightarrow> nat \<Rightarrow> nat \<Rightarrow> nat \<Rightarrow> nat \<Rightarrow> ipfix_message \<Rightarrow>
    nat ipfix_result" where
  "read_fields H tid buf len nscope j 0 offset m = Ret offset m"
| "read_fields H tid buf len nscope j (Suc n) offset m =
     (if offset \<ge> len then Exn Ipfix_Bad_Argument m
      else r_bind (read_field H tid (drop offset buf) (len - offset) (j < nscope) m) (\<lambda>k m.
        read_fields H tid buf len nscope (Suc j) n (offset + k) m))"

text \<open>
  A template withdrawal deletes, but then goes on to make a template without fields. An
  existing template with the number in the record is deleted; the new one gets the next free
  number, not that of the record.
\<close>

definition withdraw_template :: "u16 \<Rightarrow> u16 \<Rightarrow> ipfix_message \<Rightarrow> unit ipfix_result" where
  "withdraw_template setid tid m =
     (if tid = setid then message_delete_all_templates m
      else with_raw m (\<lambda>i. case delete_template tid (ip_templates i) of
             Ret u ts \<Rightarrow> Ret () (set_raw_templates ts i m)
           | _ \<Rightarrow> Undef))"

definition replace_template :: "u16 \<Rightarrow> ipfix_message \<Rightarrow> unit ipfix_result" where
  "replace_template tid m =
     with_raw m (\<lambda>i. case delete_template tid (ip_templates i) of
       Ret u ts \<Rightarrow> Ret () (set_raw_templates ts i m)
     | _ \<Rightarrow> Ret () m)"

definition decode_trecord :: "byte_order \<Rightarrow> u16 \<Rightarrow> u8 list \<Rightarrow> nat \<Rightarrow> ipfix_message \<Rightarrow> nat ipfix_result" where
  "decode_trecord H setid buf len m =
     call_pure (trecord_header H (im_encode_network m) setid buf len) m (\<lambda>(tid, nfields, nscope, offset).
     r_bind (if nfields = 0 then withdraw_template setid tid m else Ret () m) (\<lambda>_ m.
     r_bind (replace_template tid m) (\<lambda>_ m.
     r_bind (if setid = setid_opttemplate \<or> setid = setid_opttemplate_nf9
             then new_option_template (uint nfields) m else new_data_template (uint nfields) m) (\<lambda>tid m.
     with_raw m (\<lambda>i.
     let m = set_raw_templates (set_template tid (\<lambda>t. t\<lparr>tp_tid := tid, tp_maxfields := uint nfields\<rparr>)
               (ip_templates i)) i m
     in read_fields H tid buf len (unat nscope) 0 (unat nfields) offset m)))))"

section \<open>Data records\<close>

text \<open>
  The length of a field of variable length: one byte, or 255 and two bytes. Without conversion
  the two bytes are copied into a variable of four bytes that holds 255.
\<close>

definition long_length :: "byte_order \<Rightarrow> bool \<Rightarrow> u8 list \<Rightarrow> int" where
  "long_length H enc b =
     (if enc then uint (read_u16 H True b)
      else case H of Little_Endian \<Rightarrow> uint (load16 H b)
           | Big_Endian \<Rightarrow> sint (push_bit 16 (ucast (load16 H b)) OR 255 :: u32))"

definition field_length :: "byte_order \<Rightarrow> bool \<Rightarrow> template_field \<Rightarrow> u8 list \<Rightarrow>
    (ipfix_exn, int \<times> nat, unit) result" where
  "field_length H enc f buf =
     (if tf_flength f = ipfix_ft_varlen then
        read_mem 1 buf (\<lambda>b.
          if hd b = 255 then read_mem 2 (drop 1 buf) (\<lambda>b. Ret (long_length H enc b, 3) ())
          else Ret (uint (hd b), 1) ())
      else Ret (uint (tf_flength f), 0) ())"

text \<open>
  The bytes of the length itself are not taken from \<open>bytesleft\<close>. Each value is printed into
  a buffer of 30 characters.
\<close>

definition salida_size :: nat where "salida_size = 30"

fun decode_fields :: "byte_order \<Rightarrow> bool \<Rightarrow> ipfix_template \<Rightarrow> int list \<Rightarrow> u8 list \<Rightarrow> int \<Rightarrow> nat \<Rightarrow> data_record \<Rightarrow>
    (ipfix_exn, data_record \<times> nat, unit) result" where
  "decode_fields H enc t [] buf bytesleft nread r = Ret (r, nread) ()"
| "decode_fields H enc t (j # js) buf bytesleft nread r =
     r_bind (get_template_field t j) (\<lambda>f _.
     r_bind (field_length H enc f buf) (\<lambda>(len, k) _.
     if bytesleft - len < 0 then Exn Ipfix_Bad_Argument ()
     else if len < 0 then Undef
     else
       r_bind (decode H (tf_elem f) (drop k buf) (nat len) enc) (\<lambda>v _.
       deref (snprint H (tf_elem f) salida_size v) (\<lambda>_.
       decode_fields H enc t js (drop (k + nat len) buf) (bytesleft - len) (nread + k + nat len)
         (insert_field (ft_eno (tf_elem f)) (ft_ftype (tf_elem f)) v r)))))"

definition decode_datarecord :: "byte_order \<Rightarrow> bool \<Rightarrow> ipfix_template \<Rightarrow> u8 list \<Rightarrow> int \<Rightarrow>
    (ipfix_exn, data_record \<times> nat, unit) result" where
  "decode_datarecord H enc t buf buflen =
     decode_fields H enc t [0..get_numfields t - 1] buf buflen 0 (new_data_record (tp_tid t))"

section \<open>The sets of a message\<close>

partial_function (option) decode_templates :: "byte_order \<Rightarrow> u16 \<Rightarrow> u8 list \<Rightarrow> nat \<Rightarrow> ipfix_message \<Rightarrow>
    unit ipfix_result option" where
  [code]: "decode_templates H setid buf bytesleft m =
     (if bytesleft \<le> 4 then Some (Ret () m)
      else
        (case decode_trecord H setid buf bytesleft m of
           Ret n m \<Rightarrow> decode_templates H setid (drop n buf) (bytesleft - n) m
         | Exn e m \<Rightarrow> Some (Exn e m)
         | Abort \<Rightarrow> Some Abort
         | Undef \<Rightarrow> Some Undef))"

partial_function (option) decode_records :: "byte_order \<Rightarrow> ipfix_template \<Rightarrow> u8 list \<Rightarrow> int \<Rightarrow> ipfix_message \<Rightarrow>
    unit ipfix_result option" where
  [code]: "decode_records H t buf bytesleft m =
     (if bytesleft \<le> 0 then Some (Ret () m)
      else
        (case decode_datarecord H (im_encode_network m) t buf bytesleft of
           Ret (r, n) _ \<Rightarrow>
             decode_records H t (drop n buf) (bytesleft - int n) (m\<lparr>im_data_list := im_data_list m @ [r]\<rparr>)
         | Exn e _ \<Rightarrow> Some (Exn e m)
         | Abort \<Rightarrow> Some Abort
         | Undef \<Rightarrow> Some Undef))"

text \<open>One set with \<open>setlen\<close> bytes behind its header, at the begin of \<open>buf\<close>\<close>

definition decode_set :: "byte_order \<Rightarrow> u16 \<Rightarrow> u8 list \<Rightarrow> nat \<Rightarrow> ipfix_message \<Rightarrow> unit ipfix_result option" where
  "decode_set H setid buf setlen m =
     (if setid = setid_template_nf9 \<or> setid = setid_opttemplate_nf9 \<or>
         setid = setid_template \<or> setid = setid_opttemplate
      then decode_templates H setid buf setlen m
      else if setid > 255 then
        (case im_message m of
           Ptr i \<Rightarrow>
             (case get_template setid (ip_templates i) of
                None \<Rightarrow> Some (Exn Ipfix_Bad_Argument m)
              | Some t \<Rightarrow> decode_records H t buf (int setlen) m)
         | _ \<Rightarrow> Some Undef)
      else Some (Ret () m))"

text \<open>
  The loop over the sets. Its result is the number of bytes read, and identifier and length of
  the last set if there was one.
\<close>

partial_function (option) import_sets :: "byte_order \<Rightarrow> u8 list \<Rightarrow> nat \<Rightarrow> nat \<Rightarrow> (u16 \<times> u16) option \<Rightarrow>
    ipfix_message \<Rightarrow> (nat \<times> (u16 \<times> u16) option) ipfix_result option" where
  [code]: "import_sets H buf k nread prev m =
     (if \<not> nread + 4 < length buf then Some (Ret (nread, prev) m)
      else
        (case im_message m of
           Ptr i \<Rightarrow>
             (if ip_version i = ipfix_version_nf9 \<and> k \<ge> unat (ip_count i) then Some (Ret (nread, prev) m)
              else
                (let setid = read_u16 H (im_encode_network m) (drop nread buf);
                     setlen = read_u16 H (im_encode_network m) (drop (nread + 2) buf)
                 in if setlen < 4 then import_sets H buf (Suc k) (nread + 4) (Some (setid, setlen)) m
                    else if unat (setlen - 4) > length buf - (nread + 4)
                    then Some (Ret (nread + 4, Some (setid, setlen - 4)) m)
                    else
                      (case decode_set H setid (drop (nread + 4) buf) (unat (setlen - 4)) m of
                         None \<Rightarrow> None
                       | Some (Ret u m) \<Rightarrow>
                           import_sets H buf (Suc k) (nread + 4 + unat (setlen - 4)) (Some (setid, setlen - 4)) m
                       | Some (Exn e m) \<Rightarrow> Some (Exn e m)
                       | Some Abort \<Rightarrow> Some Abort
                       | Some Undef \<Rightarrow> Some Undef)))
         | _ \<Rightarrow> Some Undef))"

text \<open>
  The end of the import: the bytes are copied into the buffer and the last data set becomes the
  current one. \<open>setid\<close> is read even if no set was there.
\<close>

definition import_end :: "u8 list \<Rightarrow> nat \<Rightarrow> (u16 \<times> u16) option \<Rightarrow> ipfix_message \<Rightarrow> nat ipfix_result" where
  "import_end buf nread prev m =
     with_raw m (\<lambda>i.
     case copy_raw_message buf nread i of
       Ret u i \<Rightarrow>
         deref prev (\<lambda>(setid, setlen).
           let i = (if setid > 255
                    then i\<lparr>ip_cs_tid := uint setid, ip_cs_bytes := uint setlen,
                      ip_cs_offset := int nread - uint setlen,
                      ip_cs_header := (if int nread < uint setlen then CS_Dangling
                        else CS_At (nread - unat setlen))\<rparr>
                    else i)
           in Ret nread ((set_raw (i\<lparr>ip_nrecords := int (length (im_data_list m))\<rparr>) m)
                \<lparr>im_require_output := Some False\<rparr>))
     | Exn e i \<Rightarrow> Exn e (set_raw i m)
     | Abort \<Rightarrow> Abort
     | Undef \<Rightarrow> Undef)"

definition ipfix_import :: "byte_order \<Rightarrow> int \<Rightarrow> u8 list \<Rightarrow> ipfix_message \<Rightarrow> nat ipfix_result option" where
  "ipfix_import H now buf m =
     (if length buf < 2 then Some (Exn Ipfix_Bad_Argument m)
      else
        (case parse_hdr H now buf m of
           Ret u m \<Rightarrow>
             (case im_message m of
                Ptr i \<Rightarrow>
                  (case import_sets H buf 0 (if ip_version i = ipfix_version_nf9 then ipfix_hdr_bytes_nf9
                     else ipfix_hdr_bytes) None m of
                     None \<Rightarrow> None
                   | Some (Ret (nread, prev) m) \<Rightarrow> Some (import_end buf nread prev m)
                   | Some (Exn e m) \<Rightarrow> Some (Exn e m)
                   | Some Abort \<Rightarrow> Some Abort
                   | Some Undef \<Rightarrow> Some Undef)
              | _ \<Rightarrow> Some Undef)
         | Exn e m \<Rightarrow> Some (Exn e m)
         | Abort \<Rightarrow> Some Abort
         | Undef \<Rightarrow> Some Undef))"

text \<open>The constructor from the bytes of a message\<close>

definition import_ipfix_message :: "byte_order \<Rightarrow> int \<Rightarrow> u8 list \<Rightarrow> bool \<Rightarrow> nat ipfix_result option" where
  "import_ipfix_message H now buf enc = ipfix_import H now buf (blank_ipfix_message enc (Some True))"

end
