(* ===== verification/Ipfix_Output.thy ===== *)
theory Ipfix_Output
  imports Ipfix_Import
begin

text \<open>
  What a message with one data template is written as: its bytes as a function of the template
  and the records, and the proof that the buffer operations of Ipfix_Message.thy, which write
  the parts at different times, move them and correct them, leave exactly these bytes.
\<close>

section \<open>Bytes\<close>

definition data_set_bytes :: "byte_order \<Rightarrow> bool \<Rightarrow> u16 \<Rightarrow> u8 list \<Rightarrow> u8 list" where
  "data_set_bytes H enc tid bs = insert_u16 H enc tid @ insert_u16 H enc (of_nat (4 + length bs)) @ bs"

definition records_bytes :: "byte_order \<Rightarrow> bool \<Rightarrow> ipfix_template \<Rightarrow> data_record list \<Rightarrow> u8 list" where
  "records_bytes H enc t rs =
     concat (map (\<lambda>r. data_set_bytes H enc (tp_tid t) (the (record_bytes H enc (tp_datafields t) r))) rs)"

definition template_bytes :: "byte_order \<Rightarrow> bool \<Rightarrow> ipfix_template \<Rightarrow> u8 list" where
  "template_bytes H enc t =
     (let osize = sum_list (map field_spec_size (tp_datafields t))
      in template_set_header H enc ipfix_version t (8 + osize) 0 osize @
         concat (map (field_spec H enc) (tp_datafields t)))"

definition header_bytes :: "byte_order \<Rightarrow> bool \<Rightarrow> int \<Rightarrow> nat \<Rightarrow> int \<Rightarrow> int \<Rightarrow> u8 list" where
  "header_bytes H enc now len nrecords sourceid =
     insert_u16 H enc (of_int ipfix_version) @ insert_u16 H enc (of_nat len) @
     insert_u32 H enc (of_int now) @ insert_u32 H enc (of_int nrecords) @ insert_u32 H enc (of_int sourceid)"

lemma length_insert [simp]: "length (insert_u16 H enc v) = 2" "length (insert_u32 H enc w) = 4"
  by (simp_all add: insert_u16_def insert_u32_def)

lemma length_header_bytes [simp]: "length (header_bytes H enc now len n src) = 16"
  by (simp add: header_bytes_def)

lemma read_insert_u16: "read_u16 H enc (insert_u16 H enc v @ rest) = v"
  by (simp add: read_u16_def insert_u16_def del: store_hton)

lemma read_insert_u32: "read_u32 H enc (insert_u32 H enc w @ rest) = w"
  by (simp add: read_u32_def insert_u32_def del: store_hton)

lemma drop_insert:
  "drop 2 (insert_u16 H enc v @ rest) = rest" "drop 4 (insert_u32 H enc w @ rest) = rest"
  by simp_all

lemma length_field_spec: "length (field_spec H enc f) = field_spec_size f"
  by (simp add: field_spec_def field_spec_size_def)

lemma length_template_bytes:
  "length (template_bytes H enc t) =
     (if tp_type t = OPTION_TEMPLATE then 10 else 8) + sum_list (map field_spec_size (tp_datafields t))"
  by (simp add: template_bytes_def Let_def template_set_header_def length_concat comp_def
      length_field_spec)

section \<open>Writing\<close>

lemma overwrite_end: "overwrite (length buf) bs buf = buf @ bs"
  by (simp add: overwrite_def)

lemma overwrite_middle:
  assumes "length a = k" and "length b = length c"
  shows "overwrite k c (a @ b @ d) = a @ c @ d"
  using assms by (auto simp: overwrite_def)

lemma overwrite_front:
  assumes "length h = n"
  shows "overwrite 0 h (overwrite n buf buf) = h @ buf"
  using assms by (simp add: overwrite_def)

lemma try_write_eq:
  "try_write k bs i = Ret u j \<longleftrightarrow>
     k + length bs \<le> ip_buffer_lenght i \<and> j = i\<lparr>ip_buffer := overwrite k bs (ip_buffer i)\<rparr>"
  by (auto simp: try_write_def write_at_def)

lemma check_space_Ret: "check_space n i = Ret u j \<Longrightarrow> j = i"
  by (simp add: check_space_def allocate_additional_memory_def split: if_splits)

text \<open>The list is exactly the part of the buffer that is filled.\<close>

definition filled :: "ipfix_raw \<Rightarrow> bool" where
  "filled i \<longleftrightarrow> length (ip_buffer i) = ip_offset i"

lemma fields_at_data:
  assumes "tp_scopefields t = []" and "k \<le> length (tp_datafields t)"
  shows "fields_at t [int k..get_numfields t - 1] = Ret (drop k (tp_datafields t)) ()"
  using assms(2)
proof (induction "length (tp_datafields t) - k" arbitrary: k)
  case 0
  with assms(1) show ?case by (simp add: get_numfields_def)
next
  case (Suc n)
  then have k: "k < length (tp_datafields t)" by simp
  then have "[int k..get_numfields t - 1] = int k # [int (Suc k)..get_numfields t - 1]"
    using assms(1) by (subst upto.simps) (simp add: get_numfields_def add.commute)
  moreover have "get_template_field t (int k) = Ret (tp_datafields t ! k) ()"
    using k assms(1) by (simp add: get_template_field_def get_numfields_def get_number_scopefields_def)
  moreover have "fields_at t [int (Suc k)..get_numfields t - 1] = Ret (drop (Suc k) (tp_datafields t)) ()"
    using Suc.hyps(1) [of "Suc k"] Suc.hyps(2) k by simp
  ultimately show ?case using k by (simp add: Cons_nth_drop_Suc)
qed

lemmas fields_at_all = fields_at_data [of _ 0, simplified]

definition after_record :: "byte_order \<Rightarrow> bool \<Rightarrow> ipfix_template \<Rightarrow> u8 list \<Rightarrow> ipfix_raw \<Rightarrow> ipfix_raw" where
  "after_record H enc t bs i =
     i\<lparr>ip_buffer := ip_buffer i @ data_set_bytes H enc (tp_tid t) bs,
       ip_offset := ip_offset i + 4 + length bs,
       ip_nrecords := ip_nrecords i + 1,
       ip_seqno := (if ip_version i = ipfix_version then ip_seqno i + 1 else ip_seqno i),
       ip_cs_tid := 0, ip_cs_bytes := 0, ip_cs_offset := 0, ip_cs_header := CS_Null\<rparr>"

lemma finish_cs_corrects:
  assumes "ip_cs_header j = CS_At (length buf)" and "ip_buffer j = buf @ hdr @ bs" and "length hdr = 4"
    and "ip_cs_tid j = uint tid" and "ip_cs_bytes j = int (4 + length bs)"
    and "length buf + 4 \<le> ip_buffer_lenght j"
  shows "finish_cs H enc j = Ret () (j\<lparr>ip_buffer := buf @ data_set_bytes H enc tid bs,
    ip_cs_bytes := 0, ip_cs_offset := 0, ip_cs_header := CS_Null, ip_cs_tid := 0\<rparr>)"
proof -
  let ?new = "insert_u16 H enc tid @ insert_u16 H enc (of_nat (4 + length bs))"
  have "overwrite (length buf) ?new (buf @ hdr @ bs) = buf @ ?new @ bs"
    using assms(3) by (intro overwrite_middle) simp_all
  moreover have "word_of_int (int (4 + length bs)) = (of_nat (4 + length bs) :: u16)" by simp
  ultimately show ?thesis
    using assms by (simp add: finish_cs_def try_write_def write_at_def data_set_bytes_def)
qed

lemma output_record_eq:
  assumes f: "filled i" and s: "tp_scopefields t = []"
    and n: "record_size (tp_datafields t) r = Ret n ()"
    and bs: "record_bytes H enc (tp_datafields t) r = Some bs"
    and c: "check_space (d + n) i = Ret () i" and k: "ip_offset i + 4 + length bs \<le> ip_buffer_lenght i"
  shows "output_record H enc t True r d i = Ret (d + n) (after_record H enc t bs i)"
proof -
  let ?hdr = "insert_u16 H enc (tp_tid t) @ insert_u16 H enc (of_nat (d + n))"
  let ?s = "start_data_set t True i"
  let ?j = "(?s\<lparr>ip_buffer := ip_buffer i @ ?hdr @ bs\<rparr>)"
  let ?k = "?j\<lparr>ip_nrecords := ip_nrecords ?j + 1, ip_offset := ip_offset ?j + length (?hdr @ bs),
    ip_cs_bytes := ip_cs_bytes ?j + int (length (?hdr @ bs))\<rparr>"
  have w: "try_write (ip_offset ?s) (?hdr @ bs) ?s = Ret () ?j"
    using k f overwrite_end [of "ip_buffer i" "?hdr @ bs"]
    by (simp add: try_write_def write_at_def start_data_set_def filled_def)
  have fin: "finish_cs H enc ?k = Ret () (?k\<lparr>ip_buffer := ip_buffer i @ data_set_bytes H enc (tp_tid t) bs,
    ip_cs_bytes := 0, ip_cs_offset := 0, ip_cs_header := CS_Null, ip_cs_tid := 0\<rparr>)"
    by (rule finish_cs_corrects [where hdr = ?hdr])
      (use f k in \<open>simp_all add: start_data_set_def filled_def\<close>)
  have "output_record H enc t True r d i =
    (case finish_cs H enc ?k of
       Ret u i \<Rightarrow> Ret (d + n) (if ip_version i = ipfix_version then i\<lparr>ip_seqno := ip_seqno i + 1\<rparr> else i)
     | Exn e i \<Rightarrow> Exn e i | Abort \<Rightarrow> Abort | Undef \<Rightarrow> Undef)"
    using n bs c w
    by (simp add: output_record_def fields_at_all [OF s] Let_def del: length_append split: result.split)
  also have "\<dots> = Ret (d + n) (after_record H enc t bs i)"
    unfolding fin by (cases i) (simp add: after_record_def start_data_set_def)
  finally show ?thesis .
qed

lemma record_size_pure: "record_size fs r = Ret n u \<Longrightarrow> record_size fs r = Ret n ()"
  by simp

lemma output_record_Ret:
  assumes f: "filled i" and s: "tp_scopefields t = []"
    and o: "output_record H enc t True r d i = Ret d' i'"
  shows "\<exists>bs. record_bytes H enc (tp_datafields t) r = Some bs \<and> i' = after_record H enc t bs i \<and>
    ip_offset i + 4 + length bs \<le> ip_buffer_lenght i"
proof -
  obtain n where n: "record_size (tp_datafields t) r = Ret n ()"
    using o by (cases "record_size (tp_datafields t) r") (auto simp: output_record_def fields_at_all [OF s])
  have c: "check_space (d + n) i = Ret () i"
    using o n check_space_Ret [of "d + n" i]
    by (cases "check_space (d + n) i") (auto simp: output_record_def fields_at_all [OF s])
  obtain bs where bs: "record_bytes H enc (tp_datafields t) r = Some bs"
    using o n c by (cases "record_bytes H enc (tp_datafields t) r")
      (auto simp: output_record_def fields_at_all [OF s] Let_def)
  let ?hdr = "insert_u16 H enc (tp_tid t) @ insert_u16 H enc (of_nat (d + n))"
  have "try_write (ip_offset i) (?hdr @ bs) (start_data_set t True i) \<noteq> Undef"
    using o n c bs by (auto simp: output_record_def fields_at_all [OF s] Let_def start_data_set_def)
  then have k: "ip_offset i + 4 + length bs \<le> ip_buffer_lenght i"
    by (auto simp: try_write_def write_at_def start_data_set_def split: if_splits)
  from output_record_eq [OF f s n bs c k] o have "i' = after_record H enc t bs i" by simp
  with bs k show ?thesis by blast
qed

lemma after_record_simps [simp]:
  "filled i \<Longrightarrow> filled (after_record H enc t bs i)"
  "ip_buffer (after_record H enc t bs i) = ip_buffer i @ data_set_bytes H enc (tp_tid t) bs"
  "ip_offset (after_record H enc t bs i) = ip_offset i + length (data_set_bytes H enc (tp_tid t) bs)"
  "ip_buffer_lenght (after_record H enc t bs i) = ip_buffer_lenght i"
  "ip_version (after_record H enc t bs i) = ip_version i"
  "ip_cs_tid (after_record H enc t bs i) = 0" "ip_cs_header (after_record H enc t bs i) = CS_Null"
  "ip_nrecords (after_record H enc t bs i) = ip_nrecords i + 1"
  by (simp_all add: after_record_def filled_def data_set_bytes_def)

text \<open>What a pass over the records leaves unchanged, and what it counts\<close>

definition after_records :: "byte_order \<Rightarrow> bool \<Rightarrow> ipfix_template \<Rightarrow> data_record list \<Rightarrow> ipfix_raw \<Rightarrow> ipfix_raw \<Rightarrow> bool" where
  "after_records H enc t rs i j \<longleftrightarrow>
     ip_buffer j = ip_buffer i @ records_bytes H enc t rs \<and> filled j \<and>
     ip_nrecords j = ip_nrecords i + int (length rs) \<and>
     ip_seqno j = ip_seqno i + of_nat (length rs) \<and>
     ip_cs_tid j = 0 \<and> ip_cs_header j = CS_Null \<and>
     ip_version j = ip_version i \<and> ip_sourceid j = ip_sourceid i \<and> ip_templates j = ip_templates i \<and>
     ip_buffer_lenght j = ip_buffer_lenght i \<and> ip_count j = ip_count i"

definition encodable :: "byte_order \<Rightarrow> bool \<Rightarrow> ipfix_template \<Rightarrow> data_record \<Rightarrow> bool" where
  "encodable H enc t r \<longleftrightarrow> record_bytes H enc (tp_datafields t) r \<noteq> None"

lemma output_records_Ret:
  assumes "filled i" and s: "tp_scopefields t = []" and v: "ip_version i = ipfix_version"
    and "ip_cs_tid i = 0" "ip_cs_header i = CS_Null"
    and "\<forall>r \<in> set rs. dr_template_id r = tp_tid t"
    and "output_records H enc t True rs d i = Ret d' j"
  shows "after_records H enc t rs i j \<and> (\<forall>r \<in> set rs. encodable H enc t r)"
  using assms(1,3-7)
proof (induction rs arbitrary: d i)
  case Nil
  then show ?case by (simp add: after_records_def records_bytes_def)
next
  case (Cons r rs)
  from Cons.prems(5,6) obtain d1 i1 where o: "output_record H enc t True r d i = Ret d1 i1"
    and os: "output_records H enc t True rs d1 i1 = Ret d' j"
    by (auto simp: r_bind_eq_Ret)
  from output_record_Ret [OF Cons.prems(1) s o] obtain bs where
    bs: "record_bytes H enc (tp_datafields t) r = Some bs" "i1 = after_record H enc t bs i" by blast
  have "after_records H enc t rs i1 j \<and> (\<forall>r \<in> set rs. encodable H enc t r)"
    using Cons.prems bs(2) os by (intro Cons.IH [of i1 d1]) simp_all
  then show ?case
    using bs Cons.prems(2)
    by (auto simp: after_records_def records_bytes_def encodable_def after_record_def)
qed

text \<open>The message with one data template, as the functions that build it leave it\<close>

definition single_template :: "ipfix_raw \<Rightarrow> ipfix_template \<Rightarrow> bool" where
  "single_template i t \<longleftrightarrow>
     ip_templates i = [(tp_tid t, t)] \<and> tp_type t = DATA_TEMPLATE \<and> tp_tsend t = 0 \<and>
     tp_scopefields t = [] \<and> tp_tid t > 0 \<and> ip_version i = ipfix_version \<and> ip_nrecords i = 0 \<and> ip_seqno i = 0 \<and>
     ip_cs_tid i = 0 \<and> ip_cs_header i = CS_Null"

lemma write_template_bytes_empty:
  assumes z: "ip_offset i = 0" "ip_buffer i = []" and v: "ip_version i \<noteq> ipfix_version_nf9"
    and w: "write_template_bytes H enc t tsize bs i = Ret u j"
  shows "j = i\<lparr>ip_buffer := bs, ip_offset := length bs\<rparr>"
proof -
  from w obtain k where k: "check_space tsize i = Ret () i" "try_write 0 bs i = Ret () k"
    and j: "j = k\<lparr>ip_offset := ip_offset k + length bs,
      ip_nrecords := (if ip_version k = ipfix_version_nf9 then ip_nrecords k + 1 else ip_nrecords k)\<rparr>"
    using z by (auto simp: write_template_bytes_def r_bind_eq_Ret shift_buffer_def Let_def
        dest!: check_space_Ret split: if_splits)
  from k(2) z have "k = i\<lparr>ip_buffer := bs\<rparr>" by (simp add: try_write_eq overwrite_def)
  with j z v show ?thesis by (cases i) simp
qed

lemma write_template_Ret:
  assumes s: "single_template i t" and z: "ip_offset i = 0" "ip_buffer i = []"
    and w: "write_template H enc now t i = Ret u j"
  shows "j = i\<lparr>ip_buffer := template_bytes H enc t, ip_offset := length (template_bytes H enc t),
    ip_templates := [(tp_tid t, t\<lparr>tp_tsend := now\<rparr>)]\<rparr>"
proof -
  let ?osize = "sum_list (map field_spec_size (tp_datafields t))"
  have s': "tp_scopefields t = []" "tp_type t \<noteq> OPTION_TEMPLATE" "ip_version i = ipfix_version"
    "ip_templates i = [(tp_tid t, t)]" "ip_version i \<noteq> ipfix_version_nf9"
    using s by (auto simp: single_template_def ipfix_version_def ipfix_version_nf9_def)
  have f: "fields_at t [0..get_numfields t - 1] = Ret (tp_datafields t) ()" "[0..- 1 :: int] = []"
    using fields_at_all [OF s'(1)] by simp_all
  have "r_bind (write_template_bytes H enc t (8 + ?osize) (template_bytes H enc t) i) (\<lambda>_ i.
      Ret () (i\<lparr>ip_templates := set_template (tp_tid t) (\<lambda>t. t\<lparr>tp_tsend := now\<rparr>) (ip_templates i)\<rparr>)) = Ret u j"
    using w s'(2,3) by (simp add: write_template_def f template_bytes_def Let_def)
  then obtain k where k: "write_template_bytes H enc t (8 + ?osize) (template_bytes H enc t) i = Ret () k"
    and j: "j = k\<lparr>ip_templates := set_template (tp_tid t) (\<lambda>t. t\<lparr>tp_tsend := now\<rparr>) (ip_templates k)\<rparr>"
    by (auto simp: r_bind_eq_Ret)
  from write_template_bytes_empty [OF z s'(5) k] j s'(4) show ?thesis
    by (cases i) (simp add: set_template_def)
qed

text \<open>The whole output\<close>

definition message_bytes :: "byte_order \<Rightarrow> bool \<Rightarrow> int \<Rightarrow> int \<Rightarrow> ipfix_template \<Rightarrow> data_record list \<Rightarrow> u8 list" where
  "message_bytes H enc now sourceid t rs =
     (let body = template_bytes H enc t @ records_bytes H enc t rs
      in header_bytes H enc now (length body + 16) (int (length rs)) sourceid @ body)"

lemma write_hdr_Ret:
  assumes f: "filled i" and v: "ip_version i = ipfix_version" and w: "write_hdr H enc ts now i = Ret u j"
  shows "j = i\<lparr>ip_buffer := header_bytes H enc now (ip_offset i + 16) (ip_nrecords i) (ip_sourceid i) @ ip_buffer i,
      ip_length := of_nat (ip_offset i + 16), ip_exporttime := of_int now, ip_offset := ip_offset i + 16\<rparr> \<and>
    ip_offset i + 16 \<le> ip_buffer_lenght i"
proof -
  let ?h = "header_bytes H enc now (ip_offset i + 16) (ip_nrecords i) (ip_sourceid i)"
  have v': "ip_version i \<noteq> ipfix_version_nf9" using v by (simp add: ipfix_version_def ipfix_version_nf9_def)
  from w v' obtain i1 where s: "shift_buffer 16 i = Ret () i1"
    and rest: "r_bind (try_write 0 (insert_u16 H enc (of_int (ip_version i1)) @ insert_u16 H enc (of_nat (ip_offset i1 + 16)) @
        insert_u32 H enc (of_int now) @ insert_u32 H enc (of_int (ip_nrecords i1)) @
        insert_u32 H enc (of_int (ip_sourceid i1))) i1) (\<lambda>_ i. Ret () (i\<lparr>ip_length := of_nat (ip_offset i1 + 16),
          ip_exporttime := of_int now, ip_offset := ip_offset i + 16\<rparr>)) = Ret u j"
    by (auto simp: write_hdr_def write_hdr_ipfix_def ipfix_hdr_bytes_def Let_def r_bind_eq_Ret dest!: check_space_Ret)
  have i1: "i1 = i\<lparr>ip_buffer := (if ip_offset i > 0 then overwrite 16 (ip_buffer i) (ip_buffer i) else ip_buffer i)\<rparr>"
    "ip_offset i > 0 \<longrightarrow> 16 + ip_offset i \<le> ip_buffer_lenght i"
    using s f by (auto simp: shift_buffer_def try_write_eq filled_def split: if_splits)
  have j: "j = i1\<lparr>ip_buffer := overwrite 0 ?h (ip_buffer i1), ip_length := of_nat (ip_offset i + 16),
      ip_exporttime := of_int now, ip_offset := ip_offset i + 16\<rparr>" "16 \<le> ip_buffer_lenght i"
    using rest i1(1) v by (auto simp: r_bind_eq_Ret try_write_eq header_bytes_def)
  have "overwrite 0 ?h (ip_buffer i1) = ?h @ ip_buffer i"
  proof (cases "ip_offset i > 0")
    case True
    then show ?thesis by (simp add: i1(1) overwrite_front)
  next
    case False
    with f have "ip_buffer i = []" by (simp add: filled_def)
    with False show ?thesis by (simp add: i1(1) overwrite_def)
  qed
  with j i1 show ?thesis by (cases i) auto
qed

text \<open>
  The raw message after a successful output: the bytes, the header members and the template,
  which is marked as sent.
\<close>

definition after_output :: "byte_order \<Rightarrow> bool \<Rightarrow> int \<Rightarrow> ipfix_template \<Rightarrow> data_record list \<Rightarrow> ipfix_raw \<Rightarrow> ipfix_raw \<Rightarrow> bool" where
  "after_output H enc now t rs i j \<longleftrightarrow>
     (let bytes = message_bytes H enc now (ip_sourceid i) t rs
      in ip_buffer j = bytes \<and> ip_offset j = length bytes \<and> length bytes \<le> 1400 \<and>
         ip_buffer_lenght j = 1400 \<and> ip_version j = ipfix_version \<and> ip_sourceid j = ip_sourceid i \<and>
         ip_nrecords j = int (length rs) \<and> ip_seqno j = of_nat (length rs) \<and>
         ip_length j = of_nat (length bytes) \<and> ip_exporttime j = of_int now \<and>
         ip_templates j = [(tp_tid t, t\<lparr>tp_tsend := now\<rparr>)])"

lemma output_set_Ret:
  assumes s: "single_template i t" and z: "ip_offset i = 0" "ip_buffer i = []"
    and rs: "\<forall>r \<in> set rs. dr_template_id r = tp_tid t"
    and o: "output_set H enc now rs (tp_tid t) i = Ret u j"
  shows "ip_buffer j = template_bytes H enc t @ records_bytes H enc t rs \<and> filled j \<and>
    ip_nrecords j = int (length rs) \<and> ip_seqno j = of_nat (length rs) \<and> ip_version j = ipfix_version \<and>
    ip_sourceid j = ip_sourceid i \<and> ip_templates j = [(tp_tid t, t\<lparr>tp_tsend := now\<rparr>)] \<and>
    ip_buffer_lenght j = ip_buffer_lenght i \<and> (\<forall>r \<in> set rs. encodable H enc t r)"
proof -
  let ?t = "t"
  have s': "ip_templates i = [(tp_tid t, t)]" "tp_tsend t = 0" "tp_scopefields t = []" "tp_tid t > 0"
    "ip_version i = ipfix_version" "ip_nrecords i = 0" "ip_seqno i = 0" "ip_cs_tid i = 0" "ip_cs_header i = CS_Null"
    using s by (simp_all add: single_template_def)
  have g: "get_template (tp_tid t) (ip_templates i) = Some t"
    by (simp add: get_template_def s'(1) equiv_key_def)
  have n: "uint (tp_tid t) \<noteq> 0" using s'(4) by (simp add: unsigned_eq_0_iff)
  from o g s'(2) obtain k where k: "write_template H enc now t i = Ret () k"
    and rest: "(if uint (tp_tid t) = ip_cs_tid k
      then r_bind (output_records H enc t False rs 0 k) (\<lambda>_. output_flush H enc)
      else r_bind (if ip_cs_tid k > 0 then finish_cs H enc k else Ret () k) (\<lambda>_ i.
        r_bind (output_records H enc t True rs 4 i) (\<lambda>_. output_flush H enc))) = Ret u j"
    by (auto simp: output_set_def r_bind_eq_Ret)
  note k' = write_template_Ret [OF s z k]
  have c: "ip_cs_tid k = 0" "ip_cs_header k = CS_Null" "ip_version k = ipfix_version" "filled k"
    using k' s' by (simp_all add: filled_def)
  from rest c(1) n obtain d l where l: "output_records H enc t True rs 4 k = Ret d l"
    "output_flush H enc l = Ret u j"
    by (auto simp: r_bind_eq_Ret split: if_splits)
  note a = output_records_Ret [OF c(4) s'(3) c(3,1,2) rs l(1)]
  then have "j = l" using l(2) by (auto simp: output_flush_def after_records_def split: if_splits)
  with a k' s' show ?thesis by (auto simp: after_records_def)
qed

lemma output_raw_Ret:
  assumes s: "single_template i t" and rs: "\<forall>r \<in> set rs. dr_template_id r = tp_tid t"
    and o: "output_raw H enc ts now rs i = Ret u j"
  shows "after_output H enc now t rs i j \<and> (\<forall>r \<in> set rs. encodable H enc t r)"
proof -
  let ?i = "reinitiate_buffer i"
  have s1: "single_template ?i t" "ip_offset ?i = 0" "ip_buffer ?i = []" "ip_buffer_lenght ?i = 1400"
    "ip_sourceid ?i = ip_sourceid i"
    using s by (simp_all add: single_template_def reinitiate_buffer_def free_buffer_def ipfix_default_buflen_def)
  then have t: "ip_templates ?i = [(tp_tid t, t)]" "tp_type t \<noteq> OPTION_TEMPLATE" "get_template_list (ip_templates ?i) = [tp_tid t]"
    "get_template (tp_tid t) (ip_templates ?i) = Some t"
    by (auto simp: single_template_def get_template_list_def get_template_def equiv_key_def)
  from o t obtain k where k: "output_set H enc now rs (tp_tid t) ?i = Ret () k"
    "write_hdr H enc ts now k = Ret u j"
    by (auto simp: output_raw_def Let_def r_bind_eq_Ret)
  note a = output_set_Ret [OF s1(1-3) rs k(1)]
  then have f: "filled k" "ip_version k = ipfix_version" by simp_all
  note b = write_hdr_Ret [OF f k(2)]
  from f(1) a have off: "ip_offset k = length (template_bytes H enc t @ records_bytes H enc t rs)"
    by (simp add: filled_def)
  from a b off s1(4,5) show ?thesis
    by (auto simp: after_output_def message_bytes_def Let_def add.commute add.left_commute)
qed

end
