(* ===== verification/Ipfix_Roundtrip.thy ===== *)
theory Ipfix_Roundtrip
  imports Ipfix_Output
begin

unbundle bit_operations_syntax

text \<open>
  A message that is built, written and read again: the records and the template the reader gets
  are those of the writer. The lemmas follow the layers of the reader: a value, a record, a
  template record, a set, the message.
\<close>

section \<open>Records as sorted maps\<close>

context keyed_order
begin

lemma find_member:
  assumes "smap_wf lt m" and "(k, v) \<in> set m"
  shows "smap_find lt k m = Some v"
  using assms by (induction m) (auto simp: equiv_num lt_num dest!: bspec [of _ _ "(k, v)"])

lemma set_set_fresh: "smap_find lt k m = None \<Longrightarrow> set (smap_set lt k v m) = insert (k, v) (set m)"
  by (induction m) (auto simp: equiv_num lt_num split: if_splits)

lemma find_none: "num k \<notin> (num \<circ> fst) ` set m \<Longrightarrow> smap_find lt k m = None"
  by (induction m) (auto simp: equiv_num)

lemma wf_ext:
  assumes "smap_wf lt m" and "smap_wf lt m'" and "set m = set m'"
  shows "m = m'"
  using assms
proof (induction m arbitrary: m')
  case Nil
  then show ?case by simp
next
  case (Cons p m)
  obtain q m'' where m': "m' = q # m''" using Cons.prems(3) by (cases m') auto
  obtain a b c d where pq: "p = (a, b)" "q = (c, d)" by (cases p; cases q)
  have "p = q"
    using Cons.prems m' pq by (auto simp: lt_num) (metis case_prodD insert_iff less_asym prod.inject)+
  then have "set m = set m''"
    using Cons.prems m' pq by (fastforce simp: lt_num)
  then have "m = m''" using Cons.IH Cons.prems m' pq by simp
  with \<open>p = q\<close> m' show ?case by simp
qed

lemma insert_all:
  assumes "smap_wf lt m" and "distinct (map (num \<circ> fst) ps)"
    and "(num \<circ> fst) ` set ps \<inter> (num \<circ> fst) ` set m = {}"
  shows "smap_wf lt (fold (\<lambda>(k, v). smap_insert lt k v) ps m) \<and>
    set (fold (\<lambda>(k, v). smap_insert lt k v) ps m) = set ps \<union> set m"
  using assms
proof (induction ps arbitrary: m)
  case Nil
  then show ?case by simp
next
  case (Cons p ps)
  obtain k v where p: "p = (k, v)" by (cases p)
  have "smap_find lt k m = None" using Cons.prems(3) p by (intro find_none) auto
  then have i: "set (smap_insert lt k v m) = insert (k, v) (set m)"
    by (simp add: smap_insert_def set_set_fresh)
  have "smap_wf lt (smap_insert lt k v m)" using Cons.prems(1) by (rule wf_insert)
  moreover have "(num \<circ> fst) ` set ps \<inter> (num \<circ> fst) ` set (smap_insert lt k v m) = {}"
    using Cons.prems(2,3) p by (auto simp: i)
  ultimately show ?case
    using Cons.IH [of "smap_insert lt k v m"] Cons.prems(2) p i by auto
qed

end

section \<open>Values and records\<close>

text \<open>What a value must be to survive: made by its field, of the length in the template, and
  short enough for the buffer the reader prints it to.\<close>

definition readable_value :: "byte_order \<Rightarrow> template_field \<Rightarrow> value_field \<Rightarrow> bool" where
  "readable_value H f v \<longleftrightarrow>
     value_of_field (tf_elem f) v \<and> snprint H (tf_elem f) salida_size v \<noteq> None \<and>
     (tf_flength f = ipfix_ft_varlen \<or> uint (tf_flength f) = vf_length v)"

definition tf_key :: "template_field \<Rightarrow> field_key" where
  "tf_key f = get_field_key (tf_elem f)"

text \<open>The number the comparison of the keys looks at\<close>

definition field_num :: "template_field \<Rightarrow> int" where
  "field_num f = ft_eno (tf_elem f) * 1000 + ft_ftype (tf_elem f)"

definition readable :: "byte_order \<Rightarrow> ipfix_template \<Rightarrow> data_record \<Rightarrow> bool" where
  "readable H t r \<longleftrightarrow>
     dr_template_id r = tp_tid t \<and> smap_wf field_key_less (dr_field_data r) \<and>
     fst ` set (dr_field_data r) = tf_key ` set (tp_datafields t) \<and>
     (\<forall>f \<in> set (tp_datafields t). \<forall>v. (tf_key f, v) \<in> set (dr_field_data r) \<longrightarrow> readable_value H f v)"

definition field_value :: "data_record \<Rightarrow> template_field \<Rightarrow> value_field" where
  "field_value r f = the (smap_find field_key_less (tf_key f) (dr_field_data r))"

lemma readable_field:
  assumes "readable H t r" and "f \<in> set (tp_datafields t)"
  shows "(tf_key f, field_value r f) \<in> set (dr_field_data r)" "readable_value H f (field_value r f)"
    "get_field_value r (tf_key f) = Some (field_value r f)"
proof -
  from assms have "tf_key f \<in> fst ` set (dr_field_data r)" by (auto simp: readable_def)
  then obtain v where v: "(tf_key f, v) \<in> set (dr_field_data r)" by auto
  with assms have e: "smap_find field_key_less (tf_key f) (dr_field_data r) = Some v"
    by (intro fmap.find_member) (auto simp: readable_def)
  then have fv: "field_value r f = v" by (simp add: field_value_def)
  show "(tf_key f, field_value r f) \<in> set (dr_field_data r)" using v fv by simp
  show rv: "readable_value H f (field_value r f)" using assms v fv by (auto simp: readable_def)
  show "get_field_value r (tf_key f) = Some (field_value r f)"
    using e fv vf_copy_of_field [of "tf_elem f" v] rv by (auto simp: get_field_value_def readable_value_def)
qed

lemma bytes_that_fit_30: "bytes_that_fit 30 n = min n 14"
  by (induction n) auto

lemma snprint_bytes_short: "ipfix_snprint_bytes 30 v \<noteq> None \<Longrightarrow> vf_length v < 14"
  by (auto simp: ipfix_snprint_bytes_def bytes_that_fit_30 Let_def min_def split: if_splits)

lemma readable_length:
  assumes "readable_value H f v"
  shows "0 < vf_length v" "vf_length v < 255"
proof -
  have v: "value_of_field (tf_elem f) v" "snprint H (tf_elem f) 30 v \<noteq> None"
    using assms by (auto simp: readable_value_def salida_size_def)
  have "0 < vf_length v \<and> vf_length v < 255"
  proof (cases "int_value (tf_elem f) v \<or> wide_value (tf_elem f) v")
    case True
    then have "vf_length v = 1 \<or> vf_length v = 2 \<or> vf_length v = 4 \<or> vf_length v = 8"
      unfolding int_value_def wide_value_def by (metis vf_length_set(1-4))
    then show ?thesis by auto
  next
    case False
    with v(1) have c: "ft_coding (tf_elem f) = coding_ipaddr \<or> ft_coding (tf_elem f) = coding_bytes"
      and b: "bytes_value (tf_elem f) v"
      by (auto simp: value_of_field_def split: if_splits)
    from b have "0 < vf_length v" by (auto simp: bytes_value_def split: option.splits)
    moreover have "vf_length v < 255"
    proof (cases "vf_length v = 4 \<or> vf_length v = 16")
      case False
      with v(2) c have "ipfix_snprint_bytes 30 v \<noteq> None"
        by (auto simp: snprint_def ipfix_snprint_ipaddr_def coding_defs)
      then show ?thesis using snprint_bytes_short by fastforce
    qed auto
    ultimately show ?thesis ..
  qed
  then show "0 < vf_length v" "vf_length v < 255" by auto
qed

text \<open>The reader takes from the bytes of a value what the writer has put there.\<close>

lemma list_all2_fields_at: "fields_at t js = Ret fs u \<Longrightarrow> list_all2 (\<lambda>j f. get_template_field t j = Ret f ()) js fs"
  by (induction js arbitrary: fs) (auto simp: r_bind_eq_Ret)

lemma value_bytes_read:
  assumes rv: "readable_value H f v" and g: "get_field_value r (tf_key f) = Some v" and y: "tf_relay f = enc"
  shows "\<exists>p bs. value_bytes H enc f r = Some (p @ bs) \<and> encodes_as H (tf_elem f) v enc bs \<and>
    (\<forall>rest. field_length H enc f (p @ bs @ rest) = Ret (vf_length v, length p) ())"
proof -
  obtain bs where bs: "encodes_as H (tf_elem f) v enc bs"
    using rv value_encodes [of "tf_elem f" v H enc] by (auto simp: readable_value_def)
  note len = readable_length [OF rv]
  have e: "encode H (tf_elem f) v (tf_relay f) = Some bs" using bs y by (simp add: encodes_as_def)
  show ?thesis
  proof (cases "tf_flength f = ipfix_ft_varlen")
    case True
    have n: "\<not> (word_of_int (vf_length v) :: u16) > 254"
      using len by (simp add: word_less_def uint_word_of_int_eq take_bit_int_eq_self)
    let ?b = "ucast (word_of_int (vf_length v) :: u16) :: u8"
    have b: "uint ?b = vf_length v" using len by (simp add: uint_word_of_int_eq unsigned_ucast_eq take_bit_int_eq_self)
    then have "?b \<noteq> 255" using len by auto
    with True n e g b bs show ?thesis
      by (intro exI [of _ "[?b]"] exI [of _ bs])
        (auto simp: value_bytes_def tf_key_def varlen_prefix_def field_length_def read_mem_def)
  next
    case False
    with rv have "uint (tf_flength f) = vf_length v" by (auto simp: readable_value_def)
    with False e g bs show ?thesis
      by (intro exI [of _ "[]"] exI [of _ bs]) (auto simp: value_bytes_def tf_key_def field_length_def)
  qed
qed

definition insert_value_of :: "data_record \<Rightarrow> template_field \<Rightarrow> data_record \<Rightarrow> data_record" where
  "insert_value_of r f r' = insert_field (ft_eno (tf_elem f)) (ft_ftype (tf_elem f)) (field_value r f) r'"

lemma decode_fields_read:
  assumes "list_all2 (\<lambda>j f. get_template_field t j = Ret f ()) js fs" and r: "readable H t r"
    and "set fs \<subseteq> set (tp_datafields t)" and "\<forall>f \<in> set fs. tf_relay f = enc"
  shows "\<exists>bs. record_bytes H enc fs r = Some bs \<and> length fs \<le> length bs \<and>
    (\<forall>rest bl nread r0. int (length bs) \<le> bl \<longrightarrow>
      decode_fields H enc t js (bs @ rest) bl nread r0 =
        Ret (fold (insert_value_of r) fs r0, nread + length bs) ())"
  using assms(1,3,4)
proof (induction js fs rule: list_all2_induct)
  case Nil
  then show ?case by simp
next
  case (Cons j js f fs)
  let ?v = "field_value r f"
  from Cons.prems have f: "f \<in> set (tp_datafields t)" "tf_relay f = enc" by simp_all
  note rv = readable_field [OF r f(1)]
  from value_bytes_read [OF rv(2,3) f(2)] obtain p cs where p: "value_bytes H enc f r = Some (p @ cs)"
    "encodes_as H (tf_elem f) ?v enc cs"
    "\<And>rest. field_length H enc f (p @ cs @ rest) = Ret (vf_length ?v, length p) ()" by auto
  from Cons obtain bs where bs: "record_bytes H enc fs r = Some bs" "length fs \<le> length bs"
    and rest: "\<And>rest bl nread r0. int (length bs) \<le> bl \<Longrightarrow>
      decode_fields H enc t js (bs @ rest) bl nread r0 =
        Ret (fold (insert_value_of r) fs r0, nread + length bs) ()" by auto
  have len: "vf_length ?v = int (length cs)" "0 < length cs"
    and d: "\<And>rest. decode H (tf_elem f) (cs @ rest) (length cs) enc = Ret ?v ()"
    using p(2) readable_length(1) [OF rv(2)] by (auto simp: encodes_as_def)
  obtain s where s: "snprint H (tf_elem f) salida_size ?v = Some s"
    using rv(2) by (auto simp: readable_value_def)
  have "decode_fields H enc t (j # js) ((p @ cs @ bs) @ rest) bl nread r0 =
      Ret (fold (insert_value_of r) (f # fs) r0, nread + length (p @ cs @ bs)) ()"
    if "int (length (p @ cs @ bs)) \<le> bl" for rest bl nread r0
    using that rest [of "bl - int (length cs)" rest "nread + length p + length cs" "insert_value_of r f r0"]
    by (simp add: Cons.hyps(1) p(3) len(1) d s insert_value_of_def add.assoc)
  moreover have "length (f # fs) \<le> length (p @ cs @ bs)" using bs(2) len(2) by (cases cs) simp_all
  moreover have "record_bytes H enc (f # fs) r = Some (p @ cs @ bs)" using p(1) bs(1) by simp
  ultimately show ?case by blast
qed

text \<open>Inserting the values of a record in the order of the template gives the record.\<close>

lemma fold_insert_values:
  assumes "\<forall>f \<in> set fs. vf_copy (field_value r f) = field_value r f"
  shows "fold (insert_value_of r) fs r0 = r0\<lparr>dr_field_data :=
    fold (\<lambda>(k, v). smap_insert field_key_less k v) (map (\<lambda>f. (tf_key f, field_value r f)) fs) (dr_field_data r0)\<rparr>"
  using assms
  by (induction fs arbitrary: r0)
    (simp_all add: insert_value_of_def insert_field_def insert_field_value_def tf_key_def get_field_key_def)

lemma rebuild_record:
  assumes r: "readable H t r" and d: "distinct (map field_num (tp_datafields t))"
  shows "fold (insert_value_of r) (tp_datafields t) (new_data_record (tp_tid t)) = r"
proof -
  let ?ps = "map (\<lambda>f. (tf_key f, field_value r f)) (tp_datafields t)"
  have wf: "smap_wf field_key_less (dr_field_data r)" using r by (simp add: readable_def)
  have c: "\<forall>f \<in> set (tp_datafields t). vf_copy (field_value r f) = field_value r f"
    using readable_field(2) [OF r] vf_copy_of_field by (auto simp: readable_value_def)
  have "map ((\<lambda>k. fk_eno k * 1000 + fk_ftype k) \<circ> fst) ?ps = map field_num (tp_datafields t)"
    by (simp add: field_num_def tf_key_def get_field_key_def)
  with d have "distinct (map ((\<lambda>k. fk_eno k * 1000 + fk_ftype k) \<circ> fst) ?ps)" by metis
  from fmap.insert_all [OF smap_wf_Nil this] have i: "smap_wf field_key_less (fold (\<lambda>(k, v). smap_insert field_key_less k v) ?ps [])"
    "set (fold (\<lambda>(k, v). smap_insert field_key_less k v) ?ps []) = set ?ps"
    by simp_all
  have "set ?ps = set (dr_field_data r)"
  proof
    show "set ?ps \<subseteq> set (dr_field_data r)" using readable_field(1) [OF r] by auto
    show "set (dr_field_data r) \<subseteq> set ?ps"
    proof clarify
      fix k v assume kv: "(k, v) \<in> set (dr_field_data r)"
      then have "k \<in> fst ` set (dr_field_data r)" by force
      with r obtain f where f: "f \<in> set (tp_datafields t)" "k = tf_key f" by (auto simp: readable_def)
      have "field_value r f = v" using fmap.find_member [OF wf kv] f(2) by (simp add: field_value_def)
      with f show "(k, v) \<in> set ?ps" by auto
    qed
  qed
  with i fmap.wf_ext [OF i(1) wf] have "fold (\<lambda>(k, v). smap_insert field_key_less k v) ?ps [] = dr_field_data r"
    by simp
  moreover have "dr_template_id r = tp_tid t" using r by (simp add: readable_def)
  ultimately show ?thesis by (simp add: fold_insert_values [OF c] new_data_record_def)
qed

lemma decode_datarecord_read:
  assumes r: "readable H t r" and d: "distinct (map field_num (tp_datafields t))"
    and s: "tp_scopefields t = []" and y: "\<forall>f \<in> set (tp_datafields t). tf_relay f = enc"
  shows "\<exists>bs. record_bytes H enc (tp_datafields t) r = Some bs \<and> length (tp_datafields t) \<le> length bs \<and>
    (\<forall>rest. decode_datarecord H enc t (bs @ rest) (int (length bs)) = Ret (r, length bs) ())"
  using decode_fields_read [OF list_all2_fields_at [OF fields_at_all [OF s]] r order.refl y]
    rebuild_record [OF r d]
  by (auto simp: decode_datarecord_def)

section \<open>Template records\<close>

text \<open>A field as \<open>add_field\<close> puts it into a template\<close>

definition known_field :: "bool \<Rightarrow> template_field \<Rightarrow> bool" where
  "known_field enc f \<longleftrightarrow>
     tf_unknown f = KNOWN \<and> tf_relay f = enc \<and>
     (\<exists>eno :: u32. \<exists>ty :: u16. get_field known_fields (sint eno) (uint ty) = Some (tf_elem f) \<and>
       ty < ipfix_eft_vendor_bit)"

lemma vendor_bit:
  fixes ty :: u16
  assumes "ty < ipfix_eft_vendor_bit"
  shows "ty AND ipfix_eft_vendor_bit = 0" "(ty OR ipfix_eft_vendor_bit) AND ipfix_eft_vendor_bit \<noteq> 0"
    "(ty OR ipfix_eft_vendor_bit) AND NOT ipfix_eft_vendor_bit = ty"
proof -
  have e: "ipfix_eft_vendor_bit = 2 ^ 15" by (simp add: ipfix_eft_vendor_bit_def)
  have b: "bit ipfix_eft_vendor_bit k \<longleftrightarrow> k = 15" for k
    unfolding e bit_exp_iff by (auto simp: possible_bit_word)
  have "uint ty < 2 ^ 15" using assms by (simp add: word_less_def ipfix_eft_vendor_bit_def)
  then have "take_bit 15 ty = ty"
    by (simp add: word_uint_eq_iff unsigned_take_bit_eq take_bit_int_eq_self)
  then have n: "\<not> bit ty 15" by (metis bit_take_bit_iff less_irrefl)
  then show z: "ty AND ipfix_eft_vendor_bit = 0"
    by (intro bit_word_eqI) (auto simp: bit_simps b)
  have "bit ((ty OR ipfix_eft_vendor_bit) AND ipfix_eft_vendor_bit) 15"
    by (simp add: bit_simps b)
  then show "(ty OR ipfix_eft_vendor_bit) AND ipfix_eft_vendor_bit \<noteq> 0" by auto
  show "(ty OR ipfix_eft_vendor_bit) AND NOT ipfix_eft_vendor_bit = ty"
    using n by (intro bit_word_eqI) (auto simp: bit_simps b)
qed

lemma set_single_template [simp]: "set_template tid g [(tid, t)] = [(tid, g t)]"
  by (simp add: set_template_def)

lemma get_single_template [simp]: "get_template tid [(tid, t)] = Some t"
  by (simp add: get_template_def equiv_key_def)

lemma read_field_known:
  assumes k: "known_field enc f" and m: "im_fields m = known_fields" "im_encode_network m = enc"
    "im_message m = Ptr i" "ip_templates i = [(tid, t)]" "get_numfields t < tp_maxfields t"
    and len: "field_spec_size f \<le> buflen"
  shows "read_field H tid (field_spec H enc f @ rest) buflen False m =
    Ret (field_spec_size f) (set_raw_templates [(tid, t\<lparr>tp_datafields := tp_datafields t @ [f]\<rparr>)] i m)"
proof -
  from k obtain eno :: u32 and ty :: u16 where g: "get_field known_fields (sint eno) (uint ty) = Some (tf_elem f)"
    and ty: "ty < ipfix_eft_vendor_bit" and f: "tf_unknown f = KNOWN" "tf_relay f = enc"
    by (auto simp: known_field_def)
  then have id: "ft_eno (tf_elem f) = sint eno" "ft_ftype (tf_elem f) = uint ty"
    by (simp_all add: known.get_field_iff field_id_def)
  note v = vendor_bit [OF ty]
  have a: "add_data_field (tf_flength f) KNOWN enc (tf_elem f) t = t\<lparr>tp_datafields := tp_datafields t @ [f]\<rparr>"
    using f by (cases f) (simp add: add_data_field_def)
  show ?thesis
  proof (cases "sint eno = 0")
    case True
    then show ?thesis
      using g m len a v(1)
      by (simp add: read_field_def with_raw_def field_spec_def field_spec_size_def id ipfix_ft_noeno_def
          read_insert_u16 Let_def drop_insert)
  next
    case False
    then show ?thesis
      using g m len a v(2,3)
      by (simp add: read_field_def with_raw_def field_spec_def field_spec_size_def id ipfix_ft_noeno_def
          read_insert_u16 read_insert_u32 Let_def drop_insert)
  qed
qed

text \<open>The fields one after the other; the rest of the message is untouched.\<close>

lemma read_fields_known:
  assumes "\<forall>f \<in> set fs. known_field enc f" and "im_fields m = known_fields" "im_encode_network m = enc"
    and "im_message m = Ptr i" "ip_templates i = [(tid, t)]"
    and "get_numfields t + int (length fs) \<le> tp_maxfields t"
    and "drop offset buf = concat (map (field_spec H enc) fs) @ rest"
    and "offset + sum_list (map field_spec_size fs) \<le> len"
  shows "read_fields H tid buf len 0 j (length fs) offset m =
    Ret (offset + sum_list (map field_spec_size fs))
      (set_raw_templates [(tid, t\<lparr>tp_datafields := tp_datafields t @ fs\<rparr>)] i m)"
  using assms
proof (induction fs arbitrary: m i t offset j)
  case Nil
  then show ?case by (cases m; cases i) (simp add: set_raw_templates_def set_raw_def)
next
  case (Cons f fs)
  let ?t = "t\<lparr>tp_datafields := tp_datafields t @ [f]\<rparr>"
  let ?m = "set_raw_templates [(tid, ?t)] i m"
  have n: "get_numfields t < tp_maxfields t" using Cons.prems(6) by simp
  have l: "field_spec_size f \<le> len - offset" "offset < len"
    using Cons.prems(8) by (auto simp: field_spec_size_def split: if_splits)
  have r: "read_field H tid (drop offset buf) (len - offset) (j < 0) m = Ret (field_spec_size f) ?m"
    using read_field_known [OF _ Cons.prems(2-5) n l(1)] Cons.prems(1,7) by simp
  have d: "drop (offset + field_spec_size f) buf = concat (map (field_spec H enc) fs) @ rest"
    using arg_cong [OF Cons.prems(7), of "drop (field_spec_size f)"]
    by (simp add: length_field_spec [of H enc f, symmetric] add.commute)
  have "read_fields H tid buf len 0 (Suc j) (length fs) (offset + field_spec_size f) ?m =
    Ret (offset + field_spec_size f + sum_list (map field_spec_size fs))
      (set_raw_templates [(tid, ?t\<lparr>tp_datafields := tp_datafields ?t @ fs\<rparr>)] (i\<lparr>ip_templates := [(tid, ?t)]\<rparr>) ?m)"
    by (rule Cons.IH)
      (use Cons.prems d in \<open>auto simp: set_raw_templates_def set_raw_def get_numfields_def\<close>)
  then show ?case
    using r l(2) by (simp add: set_raw_templates_def set_raw_def add.assoc)
qed

text \<open>A data template with known fields, complete and not yet sent, as \<open>make_template\<close> leaves it\<close>

definition known_template :: "bool \<Rightarrow> ipfix_template \<Rightarrow> bool" where
  "known_template enc t \<longleftrightarrow>
     tp_type t = DATA_TEMPLATE \<and> tp_tsend t = 0 \<and> tp_tid t = 256 \<and> tp_scopefields t = [] \<and>
     tp_maxfields t = get_numfields t \<and> tp_datafields t \<noteq> [] \<and> (\<forall>f \<in> set (tp_datafields t). known_field enc f)"

definition specs_size :: "ipfix_template \<Rightarrow> nat" where
  "specs_size t = sum_list (map field_spec_size (tp_datafields t))"

lemma length_le_specs: "4 * length fs \<le> sum_list (map field_spec_size fs)"
  by (induction fs) (auto simp: field_spec_size_def)

text \<open>The number in the record is not used.\<close>

lemma decode_trecord_known:
  assumes t: "known_template enc t" "specs_size t < 65536"
    and m: "im_fields m = known_fields" "im_encode_network m = enc" "im_message m = Ptr i"
      "ip_templates i = []" "im_lasttid m = 255"
    and buf: "buf = insert_u16 H enc w @ insert_u16 H enc (of_int (get_numfields t)) @
      concat (map (field_spec H enc) (tp_datafields t)) @ rest"
  shows "decode_trecord H setid_template buf (4 + specs_size t) m =
    Ret (4 + specs_size t) (set_raw_templates [(256, t)] i (m\<lparr>im_lasttid := 256, im_require_output := Some True\<rparr>))"
proof -
  let ?n = "length (tp_datafields t)"
  let ?t0 = "new_ipfix_template\<lparr>tp_tid := 256, tp_maxfields := int ?n, tp_type := DATA_TEMPLATE\<rparr>"
  let ?m = "set_raw_templates [(256, ?t0)] i (m\<lparr>im_lasttid := 256, im_require_output := Some True\<rparr>)"
  have n: "get_numfields t = int ?n" "?n \<noteq> 0" "?n < 65536"
    using t length_le_specs [of "tp_datafields t"]
    by (auto simp: known_template_def get_numfields_def specs_size_def)
  then have un: "unat (of_nat ?n :: u16) = ?n" "uint (of_nat ?n :: u16) = int ?n" "(of_nat ?n :: u16) \<noteq> 0"
    by (simp_all add: unat_of_nat uint_nat) (simp add: word_of_nat_eq_0_iff nat_dvd_not_less)
  have h: "trecord_header H enc setid_template buf (4 + specs_size t) = Ret (w, of_nat ?n, 0, 4) ()"
    using n(1) by (simp add: trecord_header_def setid_template_def setid_opttemplate_def
        setid_opttemplate_nf9_def buf read_insert_u16 drop_insert)
  have nt: "new_data_template (int ?n) m = Ret 256 ?m"
    using m n(2) by (cases m; cases i) (simp add: new_data_template_def new_typed_template_def new_template_def
        with_raw_def or_throw_def add_template_def smap_insert_def set_raw_templates_def set_raw_def new_ipfix_template_def)
  have rf: "read_fields H 256 buf (4 + specs_size t) 0 0 ?n 4 ?m =
    Ret (4 + specs_size t) (set_raw_templates [(256, ?t0\<lparr>tp_datafields := tp_datafields ?t0 @ tp_datafields t\<rparr>)]
      (i\<lparr>ip_templates := [(256, ?t0)]\<rparr>) ?m)"
    unfolding specs_size_def
    by (rule read_fields_known)
      (use t m in \<open>auto simp: known_template_def set_raw_templates_def set_raw_def get_numfields_def
        new_ipfix_template_def buf drop_insert\<close>)
  have "?t0\<lparr>tp_datafields := tp_datafields ?t0 @ tp_datafields t\<rparr> = t"
    using t n(1) by (cases t) (simp add: known_template_def new_ipfix_template_def)
  with rf show ?thesis
    using h nt m un n(2)
    by (simp add: decode_trecord_def replace_template_def with_raw_def delete_template_def exists_template_def
        setid_template_def setid_opttemplate_def setid_opttemplate_nf9_def set_raw_templates_def set_raw_def
        new_ipfix_template_def)
qed

section \<open>Sets\<close>

lemma import_set_case:
  assumes b: "drop nread buf = insert_u16 H enc sid @ insert_u16 H enc (of_nat (4 + length body)) @ body @ rest"
    and l: "body \<noteq> []" "4 + length body < 65536"
    and m: "im_encode_network m = enc" "im_message m = Ptr i" "ip_version i = ipfix_version"
  shows "import_sets H buf k nread prev m =
    (case decode_set H sid (body @ rest) (length body) m of
       None \<Rightarrow> None
     | Some (Ret u m) \<Rightarrow> import_sets H buf (Suc k) (nread + 4 + length body) (Some (sid, of_nat (length body))) m
     | Some (Exn e m) \<Rightarrow> Some (Exn e m)
     | Some Abort \<Rightarrow> Some Abort
     | Some Undef \<Rightarrow> Some Undef)"
proof -
  let ?n = "length body"
  have len: "length buf = nread + 4 + ?n + length rest"
    using arg_cong [OF b, of length] l(1) by auto
  have u: "unat (of_nat (4 + ?n) :: u16) = 4 + ?n"
    unfolding unat_of_nat using l(2) by simp
  have s: "(of_nat (4 + ?n) :: u16) - 4 = of_nat ?n" "unat (of_nat ?n :: u16) = ?n" "\<not> (of_nat (4 + ?n) :: u16) < 4"
    using l(2) unfolding word_less_nat_alt u by (simp_all add: unat_of_nat)
  have "drop (nread + 2) buf = drop 2 (drop nread buf)" "drop (nread + 4) buf = drop 4 (drop nread buf)"
    by (simp_all add: add.commute)
  then have r: "read_u16 H enc (drop nread buf) = sid" "read_u16 H enc (drop (nread + 2) buf) = of_nat (4 + ?n)"
    "drop (nread + 4) buf = body @ rest"
    by (simp_all only: b drop_insert read_insert_u16) simp
  have v: "ip_version i \<noteq> ipfix_version_nf9" using m(3) by (simp add: ipfix_version_def ipfix_version_nf9_def)
  have n: "nread + 4 < length buf" "\<not> ?n > length buf - (nread + 4)" using len l(1) by (cases body; simp)+
  show ?thesis
    by (subst import_sets.simps) (simp only: n(1) m(1,2) v r s Let_def n(2) pointer.case if_False if_True
        not_True_eq_False simp_thms)
qed

lemma import_set_step:
  assumes "drop nread buf = insert_u16 H enc sid @ insert_u16 H enc (of_nat (4 + length body)) @ body @ rest"
    and "body \<noteq> []" "4 + length body < 65536"
    and "im_encode_network m = enc" "im_message m = Ptr i" "ip_version i = ipfix_version"
    and "decode_set H sid (body @ rest) (length body) m = Some (Ret u m')"
  shows "import_sets H buf k nread prev m =
    import_sets H buf (Suc k) (nread + 4 + length body) (Some (sid, of_nat (length body))) m'"
  by (simp only: import_set_case [OF assms(1-6)] assms(7) option.case result.case)

text \<open>What the reader has to find in the template, and the records it can read with it\<close>

definition good_records :: "byte_order \<Rightarrow> bool \<Rightarrow> ipfix_template \<Rightarrow> data_record list \<Rightarrow> bool" where
  "good_records H enc t rs \<longleftrightarrow>
     known_template enc t \<and> distinct (map field_num (tp_datafields t)) \<and> (\<forall>r \<in> set rs. readable H t r)"

lemma decode_set_record:
  assumes g: "good_records H enc t [r]"
    and m: "im_encode_network m = enc" "im_message m = Ptr i" "ip_templates i = [(256, t)]"
  shows "\<exists>bs. record_bytes H enc (tp_datafields t) r = Some bs \<and> bs \<noteq> [] \<and>
    (\<forall>rest. decode_set H 256 (bs @ rest) (length bs) m =
      Some (Ret () (m\<lparr>im_data_list := im_data_list m @ [r]\<rparr>)))"
proof -
  have t: "tp_scopefields t = []" "\<forall>f \<in> set (tp_datafields t). tf_relay f = enc" "tp_datafields t \<noteq> []"
    using g by (auto simp: good_records_def known_template_def known_field_def)
  obtain bs where bs: "record_bytes H enc (tp_datafields t) r = Some bs" "length (tp_datafields t) \<le> length bs"
    and d: "\<And>rest. decode_datarecord H enc t (bs @ rest) (int (length bs)) = Ret (r, length bs) ()"
    using decode_datarecord_read [OF _ _ t(1,2), of H r] g by (auto simp: good_records_def)
  have ne: "bs \<noteq> []" using bs(2) t(3) by auto
  have e: "decode_records H t rest 0 m' = Some (Ret () m')" for rest m'
    by (subst decode_records.simps) simp
  have "decode_records H t (bs @ rest) (int (length bs)) m =
      Some (Ret () (m\<lparr>im_data_list := im_data_list m @ [r]\<rparr>))" for rest
    by (subst decode_records.simps) (use d e m(1) ne in simp)
  with m bs(1) ne show ?thesis
    by (auto simp: decode_set_def setid_template_nf9_def setid_opttemplate_nf9_def setid_template_def
        setid_opttemplate_def)
qed

lemma records_bytes_Cons:
  "records_bytes H enc t (r # rs) =
     data_set_bytes H enc (tp_tid t) (the (record_bytes H enc (tp_datafields t) r)) @ records_bytes H enc t rs"
  by (simp add: records_bytes_def)

lemma import_records:
  assumes "good_records H enc t rs" and "im_encode_network m = enc" "im_message m = Ptr i"
    and i: "ip_templates i = [(256, t)]" "ip_version i = ipfix_version"
    and "drop nread buf = records_bytes H enc t rs @ pad" "length pad \<le> 4" "nread \<le> length buf"
    and "length (records_bytes H enc t rs) < 65536" "prev \<noteq> None"
  shows "\<exists>prev'. prev' \<noteq> None \<and> import_sets H buf k nread prev m =
    Some (Ret (nread + length (records_bytes H enc t rs), prev') (m\<lparr>im_data_list := im_data_list m @ rs\<rparr>))"
  using assms(1-3,6-)
proof (induction rs arbitrary: m nread k prev)
  case Nil
  have "length buf = nread + length pad"
    using Nil.prems(6) arg_cong [OF Nil.prems(4), of length] by (simp add: records_bytes_def)
  with Nil show ?case
    by (subst import_sets.simps) (simp add: records_bytes_def)
next
  case (Cons r rs)
  have g: "good_records H enc t [r]" "good_records H enc t rs" using Cons.prems(1) by (simp_all add: good_records_def)
  let ?m = "m\<lparr>im_data_list := im_data_list m @ [r]\<rparr>"
  from decode_set_record [OF g(1) Cons.prems(2,3) i(1)] obtain bs where
    bs: "record_bytes H enc (tp_datafields t) r = Some bs" "bs \<noteq> []"
    "\<And>rest. decode_set H 256 (bs @ rest) (length bs) m = Some (Ret () ?m)" by auto
  let ?rest = "records_bytes H enc t rs @ pad"
  have "tp_tid t = 256" using Cons.prems(1) by (simp add: good_records_def known_template_def)
  then have rb: "records_bytes H enc t (r # rs) = data_set_bytes H enc 256 bs @ records_bytes H enc t rs"
    by (simp add: records_bytes_Cons bs(1))
  then have b: "drop nread buf = insert_u16 H enc 256 @ insert_u16 H enc (of_nat (4 + length bs)) @ bs @ ?rest"
    using Cons.prems(4) by (simp add: data_set_bytes_def)
  have d: "drop (nread + 4 + length bs) buf = ?rest"
    using arg_cong [OF b, of "drop (4 + length bs)"] by (simp add: ac_simps)
  have l: "nread + 4 + length bs \<le> length buf" using arg_cong [OF b, of length] Cons.prems(6) by simp
  have n: "4 + length bs < 65536" "length (records_bytes H enc t rs) < 65536"
    using Cons.prems(7) rb by (simp_all add: data_set_bytes_def)
  have "import_sets H buf k nread prev m =
      import_sets H buf (Suc k) (nread + 4 + length bs) (Some (256, of_nat (length bs))) ?m"
    by (rule import_set_step [OF b bs(2) n(1) Cons.prems(2,3) i(2) bs(3)])
  moreover obtain prev' where "prev' \<noteq> None" "import_sets H buf (Suc k) (nread + 4 + length bs)
      (Some (256, of_nat (length bs))) ?m = Some (Ret (nread + 4 + length bs + length (records_bytes H enc t rs), prev')
        (?m\<lparr>im_data_list := im_data_list ?m @ rs\<rparr>))"
    using Cons.IH [of ?m "nread + 4 + length bs" "Some (256, of_nat (length bs))" "Suc k"]
      g(2) Cons.prems(2,3,5) d l n(2) by auto
  ultimately show ?case by (auto simp: rb data_set_bytes_def)
qed

section \<open>Messages\<close>

definition reader_state :: "bool \<Rightarrow> ipfix_raw \<Rightarrow> ipfix_message \<Rightarrow> bool" where
  "reader_state enc i m \<longleftrightarrow>
     im_fields m = known_fields \<and> im_encode_network m = enc \<and> im_message m = Ptr i \<and>
     ip_templates i = [] \<and> im_lasttid m = 255 \<and> ip_version i = ipfix_version \<and> im_data_list m = []"

lemma ipfix_init_blank:
  "ipfix_init src version now (blank_ipfix_message enc req) =
     Ret () \<lparr>im_message = Ptr (new_ipfix_raw\<lparr>ip_sourceid := src, ip_version := version\<rparr>), im_fields = known_fields,
       im_tstart = now, im_lasttid = 255, im_data_list = [], im_encode_network = enc, im_require_output = req\<rparr>"
  by (simp only: ipfix_init_def blank_ipfix_message_def Let_def initialize_known ipfix_message.simps result.case)

text \<open>An object before it reads a message: new, or closed\<close>

definition fresh_message :: "bool \<Rightarrow> ipfix_message \<Rightarrow> bool" where
  "fresh_message enc m \<longleftrightarrow> im_fields m = [] \<and> im_data_list m = [] \<and> im_encode_network m = enc"

lemma fresh_blank: "fresh_message enc (blank_ipfix_message enc req)"
  by (simp add: fresh_message_def blank_ipfix_message_def)

lemma ipfix_init_fresh:
  assumes "fresh_message enc m"
  shows "ipfix_init src version now m =
    Ret () (m\<lparr>im_message := Ptr (new_ipfix_raw\<lparr>ip_sourceid := src, ip_version := version\<rparr>),
      im_fields := known_fields, im_tstart := now, im_lasttid := 255\<rparr>)"
proof -
  have f: "im_fields m = []" using assms by (simp add: fresh_message_def)
  show ?thesis
    by (cases m) (use f in \<open>simp only: ipfix_init_def Let_def initialize_known ipfix_message.simps
      ipfix_message.update_convs result.case\<close>)
qed

text \<open>The raw message behind the header\<close>

definition read_header :: "int \<Rightarrow> nat \<Rightarrow> int \<Rightarrow> int \<Rightarrow> ipfix_raw" where
  "read_header now len n src =
     new_ipfix_raw\<lparr>ip_sourceid := src, ip_version := ipfix_version, ip_length := of_nat len,
       ip_exporttime := of_int now, ip_seqno := of_int n\<rparr>"

lemma parse_header_bytes:
  assumes f: "fresh_message enc m0" and "- (2 ^ 31) \<le> src" "src < 2 ^ 31"
  shows "\<exists>m. parse_hdr H now1 (header_bytes H enc now len n src @ rest) m0 = Ret () m \<and>
    reader_state enc (read_header now len n src) m"
proof -
  let ?bs = "header_bytes H enc now len n src @ rest"
  have e: "im_encode_network m0 = enc" "im_data_list m0 = []" using f by (simp_all add: fresh_message_def)
  have r: "read_u16 H enc ?bs = of_int ipfix_version" "read_u16 H enc (drop 2 ?bs) = of_nat len"
    "read_u32 H enc (drop 4 ?bs) = of_int now" "read_u32 H enc (drop 8 ?bs) = of_int n"
    "read_u32 H enc (drop 12 ?bs) = of_int src"
    by (simp_all add: header_bytes_def read_insert_u16 read_insert_u32)
  have s: "sint (of_int src :: u32) = src"
    using assms by (simp add: sint_sbintrunc' signed_take_bit_int_eq_self)
  have l: "\<not> length ?bs < 16" by simp
  have v: "uint (of_int 10 :: u16) = 10" by simp
  show ?thesis
    unfolding parse_hdr_def e r s Let_def ipfix_init_fresh [OF f] with_raw_def set_raw_def read_header_def reader_state_def
    using l e by (simp add: v ipfix_version_def ipfix_version_nf9_def ipfix_hdr_bytes_def new_ipfix_raw_def)
qed

lemma import_template_set:
  assumes t: "known_template enc t" "8 + specs_size t < 65536" and m: "reader_state enc i m"
    and b: "drop nread buf = template_bytes H enc (t\<lparr>tp_tid := w\<rparr>) @ rest"
  shows "import_sets H buf k nread prev m =
    import_sets H buf (Suc k) (nread + length (template_bytes H enc t)) (Some (setid_template, of_nat (4 + specs_size t)))
      (set_raw_templates [(256, t)] i (m\<lparr>im_lasttid := 256, im_require_output := Some True\<rparr>))"
proof -
  let ?specs = "concat (map (field_spec H enc) (tp_datafields t))"
  let ?body = "insert_u16 H enc w @ insert_u16 H enc (of_int (get_numfields t)) @ ?specs"
  have t': "tp_type t \<noteq> OPTION_TEMPLATE" "tp_tid t = 256" using t(1) by (auto simp: known_template_def)
  have specs: "length ?specs = specs_size t"
    by (simp add: length_concat comp_def length_field_spec specs_size_def)
  then have l: "length ?body = 4 + specs_size t" by simp
  have tb: "template_bytes H enc (t\<lparr>tp_tid := w\<rparr>) = insert_u16 H enc setid_template @ insert_u16 H enc (of_nat (4 + length ?body)) @ ?body"
    unfolding l using t' by (simp add: template_bytes_def template_set_header_def Let_def ipfix_version_def
        ipfix_version_nf9_def specs_size_def get_numfields_def)
  have m': "im_fields m = known_fields" "im_encode_network m = enc" "im_message m = Ptr i"
    "ip_templates i = []" "im_lasttid m = 255" "ip_version i = ipfix_version"
    using m by (simp_all add: reader_state_def)
  have e: "decode_templates H sid bs 0 m = Some (Ret () m)" for sid bs m
    by (subst decode_templates.simps) simp
  have sp: "0 < specs_size t"
    using length_le_specs [of "tp_datafields t"] t(1)
    by (cases "tp_datafields t") (auto simp: specs_size_def known_template_def)
  have "decode_trecord H setid_template (?body @ rest) (4 + specs_size t) m = Ret (4 + specs_size t)
      (set_raw_templates [(256, t)] i (m\<lparr>im_lasttid := 256, im_require_output := Some True\<rparr>))"
    by (rule decode_trecord_known [OF t(1) _ m'(1-5)]) (use t(2) in simp_all)
  then have "decode_set H setid_template (?body @ rest) (length ?body) m =
      Some (Ret () (set_raw_templates [(256, t)] i (m\<lparr>im_lasttid := 256, im_require_output := Some True\<rparr>)))"
    unfolding l decode_set_def by (subst decode_templates.simps) (use sp in \<open>simp add: e\<close>)
  moreover have "?body \<noteq> []" using l by (metis add_is_0 list.size(3) zero_neq_numeral)
  moreover have "4 + length ?body < 65536" unfolding l using t(2) by simp
  moreover have "drop nread buf = insert_u16 H enc setid_template @ insert_u16 H enc (of_nat (4 + length ?body)) @ ?body @ rest"
    using b tb by simp
  moreover have "nread + 4 + length ?body = nread + length (template_bytes H enc t)"
    using t' by (simp add: length_template_bytes specs specs_size_def)
  ultimately show ?thesis
    using import_set_step [of nread buf H enc setid_template ?body rest m i] m'(2,3,6) l by metis
qed

text \<open>The reader's message: everything the comparison of two messages looks at\<close>

definition read_back :: "int \<Rightarrow> int \<Rightarrow> ipfix_template \<Rightarrow> data_record list \<Rightarrow> u8 list \<Rightarrow> ipfix_message \<Rightarrow> bool" where
  "read_back now src t rs bytes m \<longleftrightarrow>
     im_data_list m = rs \<and> im_require_output m = Some False \<and>
     (\<exists>i. im_message m = Ptr i \<and> ip_templates i = [(256, t)] \<and> ip_sourceid i = src \<and>
        ip_version i = ipfix_version \<and> ip_nrecords i = int (length rs) \<and> ip_seqno i = of_nat (length rs) \<and>
        ip_buffer i = bytes \<and> ip_offset i = length bytes \<and> ip_buffer_lenght i = 1400 \<and>
        ip_length i = of_nat (length bytes) \<and> ip_exporttime i = of_int now)"

lemma import_end_read_back:
  assumes m: "im_message m = Ptr i" "im_data_list m = rs" and p: "prev \<noteq> None"
    and i: "i = (read_header now (length bytes) (int (length rs)) src)\<lparr>ip_templates := [(256, t)]\<rparr>"
    and l: "length bytes \<le> 1400"
  shows "\<exists>m'. import_end (bytes @ pad) (length bytes) prev m = Ret (length bytes) m' \<and>
    read_back now src t rs bytes m'"
proof -
  obtain sid len where prev: "prev = Some (sid, len)" using p by auto
  show ?thesis
    using m l unfolding import_end_def with_raw_def m(1) pointer.case prev
    by (simp add: i copy_raw_message_def read_header_def new_ipfix_raw_def ipfix_default_buflen_def
        read_back_def set_raw_def Let_def)
qed

text \<open>The message behind the template set, whatever follows\<close>

definition after_template :: "int \<Rightarrow> nat \<Rightarrow> int \<Rightarrow> int \<Rightarrow> bool \<Rightarrow> ipfix_template \<Rightarrow> ipfix_message \<Rightarrow> bool" where
  "after_template now len n src enc t m \<longleftrightarrow>
     im_encode_network m = enc \<and> im_data_list m = [] \<and>
     im_message m = Ptr ((read_header now len n src)\<lparr>ip_templates := [(256, t)]\<rparr>)"

lemma import_header_template:
  assumes f: "fresh_message enc m0" and t: "known_template enc t" "8 + specs_size t < 65536" and src: "- (2 ^ 31) \<le> src" "src < 2 ^ 31"
    and buf: "buf = header_bytes H enc now len n src @ template_bytes H enc (t\<lparr>tp_tid := w\<rparr>) @ rest"
  shows "\<exists>m prev. prev \<noteq> None \<and> after_template now len n src enc t m \<and>
    ipfix_import H now1 buf m0 =
      (case import_sets H buf 1 (16 + length (template_bytes H enc t)) prev m of
         None \<Rightarrow> None
       | Some (Ret (nread, prev) m) \<Rightarrow> Some (import_end buf nread prev m)
       | Some (Exn e m) \<Rightarrow> Some (Exn e m)
       | Some Abort \<Rightarrow> Some Abort
       | Some Undef \<Rightarrow> Some Undef)"
proof -
  let ?i = "read_header now len n src"
  obtain m where m: "parse_hdr H now1 buf m0 = Ret () m" "reader_state enc ?i m"
    using parse_header_bytes [OF f src, of H now1 now len n] unfolding buf by blast
  let ?m = "set_raw_templates [(256, t)] ?i (m\<lparr>im_lasttid := 256, im_require_output := Some True\<rparr>)"
  let ?prev = "Some (setid_template, of_nat (4 + specs_size t)) :: (u16 \<times> u16) option"
  have d: "drop 16 buf = template_bytes H enc (t\<lparr>tp_tid := w\<rparr>) @ rest" unfolding buf by simp
  have s: "import_sets H buf 0 16 None m = import_sets H buf 1 (16 + length (template_bytes H enc t)) ?prev ?m"
    unfolding One_nat_def by (rule import_template_set [OF t m(2) d])
  have pm: "im_message m = Ptr ?i" "ip_version ?i \<noteq> ipfix_version_nf9" "\<not> length buf < 2"
    using m(2) unfolding buf by (auto simp: reader_state_def ipfix_version_def ipfix_version_nf9_def)
  have "after_template now len n src enc t ?m"
    using m(2) by (simp add: after_template_def reader_state_def set_raw_templates_def set_raw_def)
  moreover have "ipfix_import H now1 buf m0 =
      (case import_sets H buf 1 (16 + length (template_bytes H enc t)) ?prev ?m of
         None \<Rightarrow> None
       | Some (Ret (nread, prev) m) \<Rightarrow> Some (import_end buf nread prev m)
       | Some (Exn e m) \<Rightarrow> Some (Exn e m)
       | Some Abort \<Rightarrow> Some Abort
       | Some Undef \<Rightarrow> Some Undef)"
    unfolding ipfix_import_def ipfix_hdr_bytes_def
    by (simp only: pm m(1) s if_False result.case pointer.case)
  ultimately show ?thesis by blast
qed

lemma import_message_sets:
  assumes f: "fresh_message enc m0" and g: "good_records H enc t rs" and src: "- (2 ^ 31) \<le> src" "src < 2 ^ 31"
    and bytes: "bytes = message_bytes H enc now src t rs" "length bytes < 65536" and pad: "length pad \<le> 4"
  shows "\<exists>prev m. prev \<noteq> None \<and>
    ipfix_import H now1 (bytes @ pad) m0 = Some (import_end (bytes @ pad) (length bytes) prev m) \<and>
    im_message m = Ptr ((read_header now (length bytes) (int (length rs)) src)\<lparr>ip_templates := [(256, t)]\<rparr>) \<and>
    im_data_list m = rs"
proof -
  let ?tb = "template_bytes H enc t" and ?rb = "records_bytes H enc t rs" and ?buf = "bytes @ pad"
  let ?i = "(read_header now (length bytes) (int (length rs)) src)\<lparr>ip_templates := [(256, t)]\<rparr>"
  have len: "length bytes = 16 + length ?tb + length ?rb" using bytes(1) by (simp add: message_bytes_def Let_def)
  have t: "known_template enc t" "8 + specs_size t = length ?tb" "t\<lparr>tp_tid := 256\<rparr> = t"
    using g by (auto simp: good_records_def length_template_bytes specs_size_def known_template_def
        intro: ipfix_template.equality)
  have split: "?buf = header_bytes H enc now (length bytes) (int (length rs)) src @
      template_bytes H enc (t\<lparr>tp_tid := 256\<rparr>) @ ?rb @ pad"
    using bytes(1) len unfolding t(3) by (simp add: message_bytes_def Let_def add.commute add.left_commute)
  have sizes: "8 + specs_size t < 65536" "length ?rb < 65536" using t(2) len bytes(2) by simp_all
  from import_header_template [OF f t(1) sizes(1) src split, of now1] obtain m prev where
    m: "prev \<noteq> None" "after_template now (length bytes) (int (length rs)) src enc t m"
    and imp: "ipfix_import H now1 ?buf m0 =
      (case import_sets H ?buf 1 (16 + length ?tb) prev m of
         None \<Rightarrow> None
       | Some (Ret (nread, prev) m) \<Rightarrow> Some (import_end ?buf nread prev m)
       | Some (Exn e m) \<Rightarrow> Some (Exn e m)
       | Some Abort \<Rightarrow> Some Abort
       | Some Undef \<Rightarrow> Some Undef)" by blast
  have m': "im_encode_network m = enc" "im_message m = Ptr ?i" "im_data_list m = []"
    using m(2) by (simp_all add: after_template_def)
  have i: "ip_templates ?i = [(256, t)]" "ip_version ?i = ipfix_version" by (simp_all add: read_header_def)
  have d: "drop (16 + length ?tb) ?buf = ?rb @ pad" unfolding split t(3) by simp
  have l: "16 + length ?tb \<le> length ?buf" using len by simp
  from import_records [OF g m'(1,2) i d pad l sizes(2) m(1), of 1] obtain prev' where
    "prev' \<noteq> None" "import_sets H ?buf 1 (16 + length ?tb) prev m =
      Some (Ret (length bytes, prev') (m\<lparr>im_data_list := rs\<rparr>))"
    unfolding len m'(3) by auto
  then have "ipfix_import H now1 ?buf m0 =
      Some (import_end ?buf (length bytes) prev' (m\<lparr>im_data_list := rs\<rparr>))"
    unfolding imp by simp
  with \<open>prev' \<noteq> None\<close> m'(2) show ?thesis
    by (intro exI [of _ prev'] exI [of _ "m\<lparr>im_data_list := rs\<rparr>"]) simp
qed

lemma import_message_bytes:
  assumes f: "fresh_message enc m0" and g: "good_records H enc t rs" and src: "- (2 ^ 31) \<le> src" "src < 2 ^ 31"
    and bytes: "bytes = message_bytes H enc now src t rs" "length bytes \<le> 1400" and pad: "length pad \<le> 4"
  shows "\<exists>m. ipfix_import H now1 (bytes @ pad) m0 = Some (Ret (length bytes) m) \<and>
    read_back now src t rs bytes m"
proof -
  have l: "length bytes < 65536" using bytes(2) by simp
  obtain prev m where m: "prev \<noteq> None"
    "ipfix_import H now1 (bytes @ pad) m0 = Some (import_end (bytes @ pad) (length bytes) prev m)"
    "im_message m = Ptr ((read_header now (length bytes) (int (length rs)) src)\<lparr>ip_templates := [(256, t)]\<rparr>)"
    "im_data_list m = rs"
    using import_message_sets [OF f g src bytes(1) l pad, of now1] by blast
  then show ?thesis using import_end_read_back [OF m(3,4,1) refl bytes(2), of pad] by auto
qed

section \<open>The writer\<close>

definition message_template :: "u16 \<Rightarrow> ipfix_message \<Rightarrow> ipfix_template option" where
  "message_template tid m = (case im_message m of Ptr i \<Rightarrow> get_template tid (ip_templates i) | _ \<Rightarrow> None)"

text \<open>\<open>include_data\<close> for each record\<close>

fun include_records :: "u16 \<Rightarrow> data_record list \<Rightarrow> ipfix_message \<Rightarrow> unit ipfix_result" where
  "include_records tid [] m = Ret () m"
| "include_records tid (r # rs) m = r_bind (include_data tid r m) (\<lambda>_. include_records tid rs)"

lemma add_field_Ret:
  assumes m: "im_message m = Ptr i" "ip_templates i = [(tid, t)]" "im_fields m = known_fields"
    "im_encode_network m = enc" and a: "add_field tid eno ty len m = Ret u m'"
  shows "\<exists>f. known_field enc f \<and> m' = set_raw_templates [(tid, t\<lparr>tp_datafields := tp_datafields t @ [f]\<rparr>)] i
    (m\<lparr>im_require_output := Some True\<rparr>)"
proof -
  from a m obtain g where g: "get_field known_fields (sint eno) (uint ty) = Some g" "ty < ipfix_eft_vendor_bit"
    and m': "m' = set_raw_templates [(tid, add_data_field len KNOWN enc g t)] i (m\<lparr>im_require_output := Some True\<rparr>)"
    by (auto simp: add_field_def with_raw_def or_throw_def split: if_splits option.splits)
  have "known_field enc \<lparr>tf_flength = len, tf_unknown = KNOWN, tf_relay = enc, tf_elem = g\<rparr>"
    using g by (auto simp: known_field_def)
  with m' show ?thesis unfolding add_data_field_def by blast
qed

lemma add_export_fields_Ret:
  assumes "im_message m = Ptr i" "ip_templates i = [(tid, t)]" "im_fields m = known_fields"
    "im_encode_network m = enc" and "add_export_fields tid fs k m = Ret u m'"
  shows "\<exists>gs. length gs = k \<and> (\<forall>g \<in> set gs. known_field enc g) \<and>
    im_message m' = Ptr (i\<lparr>ip_templates := [(tid, t\<lparr>tp_datafields := tp_datafields t @ gs\<rparr>)]\<rparr>) \<and>
    im_data_list m' = im_data_list m \<and> im_encode_network m' = enc"
  using assms
proof (induction tid fs k m arbitrary: i t rule: add_export_fields.induct)
  case (1 tid fs m)
  then show ?case by (cases i) simp
next
  case (3 tid f fs n m)
  from "3.prems"(5) obtain m1 where a: "add_field tid (ef_eno f) (ef_ienum f) (ef_length f) m = Ret () m1"
    and rest: "add_export_fields tid fs n m1 = Ret u m'" by (auto simp: r_bind_eq_Ret)
  obtain g where g: "known_field enc g" "m1 = set_raw_templates [(tid, t\<lparr>tp_datafields := tp_datafields t @ [g]\<rparr>)] i
      (m\<lparr>im_require_output := Some True\<rparr>)"
    using add_field_Ret [OF "3.prems"(1-4) a] by blast
  let ?t = "t\<lparr>tp_datafields := tp_datafields t @ [g]\<rparr>" and ?i = "i\<lparr>ip_templates := [(tid, t\<lparr>tp_datafields := tp_datafields t @ [g]\<rparr>)]\<rparr>"
  have m1: "im_message m1 = Ptr ?i" "im_fields m1 = known_fields" "im_encode_network m1 = enc"
    "im_data_list m1 = im_data_list m" and i1: "ip_templates ?i = [(tid, ?t)]"
    using g(2) "3.prems"(3,4) by (simp_all add: set_raw_templates_def set_raw_def)
  from "3.IH" [OF m1(1) i1 m1(2,3) rest] obtain gs where gs: "length gs = n" "\<forall>g \<in> set gs. known_field enc g"
    "im_message m' = Ptr (?i\<lparr>ip_templates := [(tid, ?t\<lparr>tp_datafields := tp_datafields ?t @ gs\<rparr>)]\<rparr>)"
    "im_data_list m' = im_data_list m1" "im_encode_network m' = enc" by blast
  then show ?case using g(1) m1(4) by (intro exI [of _ "g # gs"]) simp
qed simp

text \<open>The message after \<open>make_template\<close>\<close>

lemma make_template_Ret:
  assumes n: "new_ipfix_message src ipfix_version enc now0 = Ret () m0" and t: "make_template fs n m0 = Ret tid m1"
  shows "\<exists>i t. im_message m1 = Ptr i \<and> single_template i t \<and> known_template enc t \<and> tid = 256 \<and>
    im_data_list m1 = [] \<and> im_encode_network m1 = enc \<and> im_require_output m1 = Some True \<and> ip_sourceid i = src"
proof -
  let ?i0 = "new_ipfix_raw\<lparr>ip_sourceid := src, ip_version := ipfix_version\<rparr>"
  have m0: "m0 = \<lparr>im_message = Ptr ?i0, im_fields = known_fields, im_tstart = now0, im_lasttid = 255,
      im_data_list = [], im_encode_network = enc, im_require_output = Some True\<rparr>"
    using n by (simp add: new_ipfix_message_def Let_def ipfix_init_blank)
  have pos: "\<not> n < 1" using t by (auto simp: make_template_def new_data_template_def new_typed_template_def
        new_template_def m0)
  let ?t0 = "new_ipfix_template\<lparr>tp_type := DATA_TEMPLATE, tp_tid := 256, tp_maxfields := n\<rparr>"
  let ?i = "?i0\<lparr>ip_templates := [(256, ?t0)]\<rparr>"
  let ?m = "m0\<lparr>im_message := Ptr ?i, im_lasttid := 256, im_require_output := Some True\<rparr>"
  have nt: "new_data_template n m0 = Ret 256 ?m"
    using pos by (simp add: new_data_template_def new_typed_template_def new_template_def m0
        with_raw_def or_throw_def add_template_def smap_insert_def set_raw_templates_def set_raw_def
        new_ipfix_template_def new_ipfix_raw_def)
  obtain m where m: "add_export_fields 256 fs (nat n) ?m = Ret () m" "m1 = m\<lparr>im_require_output := Some True\<rparr>" "tid = 256"
    using t by (auto simp: make_template_def nt r_bind_eq_Ret split: result.splits)
  have e: "im_message ?m = Ptr ?i" "ip_templates ?i = [(256, ?t0)]" "im_fields ?m = known_fields"
    "im_encode_network ?m = enc" by (simp_all add: m0)
  from add_export_fields_Ret [OF e m(1)] obtain gs where gs: "length gs = nat n" "\<forall>g \<in> set gs. known_field enc g"
    "im_message m = Ptr (?i\<lparr>ip_templates := [(256, ?t0\<lparr>tp_datafields := tp_datafields ?t0 @ gs\<rparr>)]\<rparr>)"
    "im_data_list m = []" "im_encode_network m = enc" by (auto simp: m0)
  let ?t = "?t0\<lparr>tp_datafields := tp_datafields ?t0 @ gs\<rparr>"
  have "known_template enc ?t"
    using gs(1,2) pos by (auto simp: known_template_def new_ipfix_template_def get_numfields_def)
  moreover have "single_template (?i\<lparr>ip_templates := [(256, ?t)]\<rparr>) ?t"
    by (simp add: single_template_def new_ipfix_template_def new_ipfix_raw_def)
  ultimately show ?thesis using gs(3-5) m(2,3) by (auto simp: new_ipfix_raw_def)
qed

lemma include_records_Ret:
  "include_records tid rs m = Ret u m' \<Longrightarrow> im_require_output m = Some True \<Longrightarrow>
    m' = m\<lparr>im_data_list := im_data_list m @ rs\<rparr>"
proof (induction tid rs m rule: include_records.induct)
  case (2 tid r rs m)
  then obtain m1 where m1: "include_data tid r m = Ret () m1" "include_records tid rs m1 = Ret u m'"
    by (auto simp: r_bind_eq_Ret)
  then have "m1 = m\<lparr>im_data_list := im_data_list m @ [r]\<rparr>"
    using "2.prems"(2) by (cases m) (auto simp: include_data_def with_raw_def or_throw_def
        split: pointer.splits option.splits if_splits)
  with "2.IH" [OF m1(2)] "2.prems"(2) show ?case by simp
qed simp

lemma record_same:
  assumes "readable H t r"
  shows "data_record_differs r r = Some False"
proof -
  have wf: "smap_wf field_key_less (dr_field_data r)" using assms by (simp add: readable_def)
  have "field_data_equal ps r = Some True" if "set ps \<subseteq> set (dr_field_data r)" for ps
    using that
  proof (induction ps)
    case (Cons p ps)
    obtain k v where p: "p = (k, v)" by (cases p)
    with Cons.prems have "(k, v) \<in> set (dr_field_data r)" by simp
    from fmap.find_member [OF wf this] have "get_field_value r k = Some (vf_copy v)"
      by (simp add: get_field_value_def)
    moreover have "vf_equal (vf_copy v) (vf_copy v)"
      by (simp add: vf_equal_def same_bytes_def split: option.split)
    ultimately show ?case using Cons p by simp
  qed simp
  then show ?thesis by (simp add: data_record_differs_def)
qed

lemma records_same: "\<forall>r \<in> set rs. readable H t r \<Longrightarrow> records_equal rs rs = Ret True ()"
  by (induction rs) (auto simp: record_same)

lemma template_same:
  assumes "tp_type s = tp_type t" "tp_tid s = tp_tid t" "tp_maxfields s = tp_maxfields t"
    "tp_datafields s = tp_datafields t" "tp_scopefields s = tp_scopefields t"
  shows "template_equal s t = Some True"
proof -
  have "template_fields_equal fs fs = Some True" for fs
    by (induction fs) (auto simp: template_field_equal_def field_equal_def)
  then show ?thesis using assms by (simp add: template_equal_def)
qed

lemma read_back_equal:
  assumes o: "after_output H enc now t rs i j" and m: "im_message m3 = Ptr j" "im_data_list m3 = rs"
    and b: "read_back now (ip_sourceid i) t rs (message_bytes H enc now (ip_sourceid i) t rs) m4"
    and r: "\<forall>r \<in> set rs. readable H t r" and t: "tp_tid t = 256"
  shows "isEqual m3 m4 = Ret True ()"
proof -
  obtain k where k: "im_message m4 = Ptr k" "im_data_list m4 = rs" "ip_templates k = [(256, t)]"
    "ip_sourceid k = ip_sourceid j" "ip_version k = ip_version j" "ip_version j = ipfix_version"
    "ip_nrecords k = ip_nrecords j" "ip_seqno k = ip_seqno j" "ip_offset k = ip_offset j"
    "ip_buffer_lenght k = ip_buffer_lenght j" "ip_length k = ip_length j" "ip_exporttime k = ip_exporttime j"
    "ip_templates j = [(256, t\<lparr>tp_tsend := now\<rparr>)]"
    using o b t by (auto simp: read_back_def after_output_def Let_def)
  have "template_container_equal (ip_templates k) (ip_templates j) = Some True"
    by (simp add: k(3,13) template_container_equal_def get_num_templates_def template_same)
  then have "ipfix_raw_equal k j = Some True"
    using k by (simp add: ipfix_raw_equal_def ipfix_version_def ipfix_version_nf9_def)
  then show ?thesis using k(1,2) m records_same [OF r] by (simp add: isEqual_def)
qed

section \<open>Output of a small message\<close>

lemma value_size_readable:
  assumes rv: "readable_value H f v" and g: "get_field_value r (tf_key f) = Some v"
    and b: "value_bytes H enc f r = Some bs"
  shows "value_size f r = Ret (length bs) ()"
proof -
  note len = readable_length [OF rv]
  obtain cs where cs: "encode H (tf_elem f) v (tf_relay f) = Some cs" "int (length cs) = vf_length v"
    using rv value_encodes [of "tf_elem f" v H "tf_relay f"] by (auto simp: readable_value_def encodes_as_def)
  let ?n = "word_of_int (vf_length v) :: u16"
  have n: "uint ?n = vf_length v" using len by (simp add: uint_word_of_int_eq take_bit_int_eq_self)
  then have u: "unat ?n = length cs" using cs(2) by (metis nat_int unat_eq_nat_uint)
  have "\<not> ?n > 254" using n len by (simp add: word_less_def)
  then show ?thesis
    using g b cs u rv n unfolding value_size_def value_bytes_def get_value_length_def tf_key_def
    by (auto simp: varlen_prefix_def readable_value_def word_less_def)
qed

lemma record_size_readable:
  assumes r: "readable H t r" and "set fs \<subseteq> set (tp_datafields t)" and "record_bytes H enc fs r = Some bs"
  shows "record_size fs r = Ret (length bs) ()"
  using assms(2,3)
proof (induction fs arbitrary: bs)
  case (Cons f fs)
  then obtain cs ds where c: "value_bytes H enc f r = Some cs" "record_bytes H enc fs r = Some ds" "bs = cs @ ds"
    by (auto simp: bind_eq_Some_conv)
  have f: "f \<in> set (tp_datafields t)" using Cons.prems(1) by simp
  from value_size_readable [OF readable_field(2,3) [OF r f] c(1)] Cons.IH [OF _ c(2)] Cons.prems(1) c(3)
  show ?case by simp
qed simp

lemma output_records_small:
  assumes g: "good_records H enc t rs" and "filled i" and "ip_version i = ipfix_version"
    and "ip_offset i + d + 2 * length (records_bytes H enc t rs) \<le> ip_buffer_lenght i"
  shows "\<exists>d' j. output_records H enc t True rs d i = Ret d' j"
  using assms
proof (induction rs arbitrary: d i)
  case (Cons r rs)
  have t: "tp_scopefields t = []" "\<forall>f \<in> set (tp_datafields t). tf_relay f = enc"
    and r: "readable H t r" "dr_template_id r = tp_tid t" and g: "good_records H enc t rs"
    using Cons.prems(1) by (auto simp: good_records_def known_template_def known_field_def readable_def)
  obtain bs where bs: "record_bytes H enc (tp_datafields t) r = Some bs"
    using decode_datarecord_read [OF r(1) _ t] Cons.prems(1) by (auto simp: good_records_def)
  note n = record_size_readable [OF r(1) order.refl bs]
  let ?i = "after_record H enc t bs i"
  have l: "length (records_bytes H enc t (r # rs)) = 4 + length bs + length (records_bytes H enc t rs)"
    by (simp add: records_bytes_Cons bs data_set_bytes_def)
  have c: "check_space (d + length bs) i = Ret () i" using Cons.prems(4) l by (simp add: check_space_def)
  have k: "ip_offset i + 4 + length bs \<le> ip_buffer_lenght i" using Cons.prems(4) l by simp
  have o: "output_record H enc t True r d i = Ret (d + length bs) ?i"
    by (rule output_record_eq [OF Cons.prems(2) t(1) n bs c k])
  have "\<exists>d' j. output_records H enc t True rs (d + length bs) ?i = Ret d' j"
    by (rule Cons.IH [OF g]) (use Cons.prems l in \<open>simp_all add: data_set_bytes_def\<close>)
  then show ?case using o r(2) by auto
qed simp

lemma write_template_small:
  assumes s: "single_template i t" and z: "ip_offset i = 0" "ip_buffer i = []"
    and l: "length (template_bytes H enc t) \<le> ip_buffer_lenght i"
  shows "\<exists>j. write_template H enc now t i = Ret () j"
proof -
  let ?osize = "sum_list (map field_spec_size (tp_datafields t))"
  have s': "tp_scopefields t = []" "tp_type t \<noteq> OPTION_TEMPLATE" "ip_version i = ipfix_version"
    using s by (auto simp: single_template_def)
  have f: "fields_at t [0..get_numfields t - 1] = Ret (tp_datafields t) ()" "[0..- 1 :: int] = []"
    using fields_at_all [OF s'(1)] by simp_all
  have n: "8 + ?osize \<le> ip_buffer_lenght i" using l s'(2) by (simp add: length_template_bytes)
  have "\<exists>k. write_template_bytes H enc t (8 + ?osize) (template_bytes H enc t) i = Ret () k"
    using n l z by (simp add: write_template_bytes_def check_space_def shift_buffer_def Let_def try_write_def write_at_def)
  then show ?thesis
    using s'(2,3) by (auto simp: write_template_def f template_bytes_def Let_def)
qed

lemma write_hdr_small:
  assumes "filled i" and "ip_version i = ipfix_version" and "ip_offset i + 16 \<le> ip_buffer_lenght i"
  shows "\<exists>j. write_hdr H enc ts now i = Ret () j"
  using assms
  by (simp add: write_hdr_def write_hdr_ipfix_def ipfix_version_def ipfix_version_nf9_def ipfix_hdr_bytes_def
      check_space_def shift_buffer_def try_write_def write_at_def Let_def filled_def)

text \<open>The bound counts the records twice, as the check of the space does.\<close>

definition small_output :: "byte_order \<Rightarrow> bool \<Rightarrow> ipfix_template \<Rightarrow> data_record list \<Rightarrow> bool" where
  "small_output H enc t rs \<longleftrightarrow>
     length (template_bytes H enc t) + 2 * length (records_bytes H enc t rs) + 16 \<le> ipfix_default_buflen"

lemma output_raw_small:
  assumes s: "single_template i t" and g: "good_records H enc t rs" and l: "small_output H enc t rs"
  shows "\<exists>j. output_raw H enc ts now rs i = Ret () j"
proof -
  let ?i = "reinitiate_buffer i" and ?tb = "template_bytes H enc t"
  have i: "single_template ?i t" "ip_offset ?i = 0" "ip_buffer ?i = []" "ip_buffer_lenght ?i = 1400"
    using s by (simp_all add: single_template_def reinitiate_buffer_def free_buffer_def ipfix_default_buflen_def)
  then have t: "ip_templates ?i = [(tp_tid t, t)]" "tp_type t \<noteq> OPTION_TEMPLATE" "tp_tsend t = 0"
    "get_template_list (ip_templates ?i) = [tp_tid t]" "ip_version ?i = ipfix_version" "tp_tid t \<noteq> 0"
    "tp_scopefields t = []" "ip_cs_tid ?i = 0" "ip_cs_header ?i = CS_Null"
    by (auto simp: single_template_def get_template_list_def)
  have l': "length ?tb + 2 * length (records_bytes H enc t rs) + 16 \<le> 1400"
    using l by (simp add: small_output_def ipfix_default_buflen_def)
  obtain k where k: "write_template H enc now t ?i = Ret () k"
    using write_template_small [OF i(1-3), of H enc now] l' i(4) by auto
  note k' = write_template_Ret [OF i(1-3) k]
  have kk: "filled k" "ip_version k = ipfix_version" "ip_offset k = length ?tb" "ip_buffer_lenght k = 1400"
    "ip_cs_tid k = 0" "ip_cs_header k = CS_Null"
    using k' i(4) t(5,8,9) by (simp_all add: filled_def)
  have n0: "uint (tp_tid t) \<noteq> 0" using t(6) by (simp add: unsigned_eq_0_iff)
  obtain d j where j: "output_records H enc t True rs 4 k = Ret d j"
    using output_records_small [OF g kk(1,2), of 4] l' kk(3,4) by auto
  have rs: "\<forall>r \<in> set rs. dr_template_id r = tp_tid t" using g by (simp add: good_records_def readable_def)
  note a = output_records_Ret [OF kk(1) t(7) kk(2,5,6) rs j]
  then have jj: "filled j" "ip_version j = ipfix_version" "ip_cs_tid j = 0" "ip_buffer_lenght j = 1400"
    "ip_buffer j = ?tb @ records_bytes H enc t rs"
    using kk k' by (auto simp: after_records_def)
  have "ip_offset j = length ?tb + length (records_bytes H enc t rs)"
    using jj(1,5) by (simp add: filled_def)
  then obtain w where w: "write_hdr H enc ts now j = Ret () w"
    using write_hdr_small [OF jj(1,2), of H enc ts now] l' jj(4) by auto
  have "output_set H enc now rs (tp_tid t) ?i = Ret () j"
    using t(1,3) k kk(5) n0 j jj(3) by (simp add: output_set_def output_flush_def)
  with w show ?thesis using t(1,2,4) by (simp add: output_raw_def Let_def)
qed

section \<open>Messages that are written and read\<close>

text \<open>A message with one template, the way a client makes it\<close>

definition build_message :: "int \<Rightarrow> bool \<Rightarrow> int \<Rightarrow> export_field list \<Rightarrow> int \<Rightarrow> data_record list \<Rightarrow> unit ipfix_result" where
  "build_message src enc now fs n rs =
     r_bind (new_ipfix_message src ipfix_version enc now) (\<lambda>_ m.
     r_bind (make_template fs n m) (\<lambda>tid. include_records tid rs))"

lemma build_message_Ret:
  assumes "build_message src enc now fs n rs = Ret u m" and "message_template 256 m = Some t"
  shows "\<exists>i. im_message m = Ptr i \<and> single_template i t \<and> known_template enc t \<and> im_data_list m = rs \<and>
    im_encode_network m = enc \<and> im_require_output m = Some True \<and> ip_sourceid i = src"
proof -
  from assms(1) obtain m0 tid m1 where b: "new_ipfix_message src ipfix_version enc now = Ret () m0"
    "make_template fs n m0 = Ret tid m1" "include_records tid rs m1 = Ret u m"
    by (auto simp: build_message_def r_bind_eq_Ret)
  obtain i t' where m1: "im_message m1 = Ptr i" "single_template i t'" "known_template enc t'"
    "im_data_list m1 = []" "im_encode_network m1 = enc" "im_require_output m1 = Some True" "ip_sourceid i = src"
    using make_template_Ret [OF b(1,2)] by blast
  have m: "m = m1\<lparr>im_data_list := rs\<rparr>" using include_records_Ret [OF b(3) m1(6)] m1(4) by simp
  have "t' = t" using assms(2) m m1(1-3) by (simp add: message_template_def single_template_def known_template_def)
  with m m1 show ?thesis by auto
qed

lemma message_output_Ret:
  assumes b: "im_message m = Ptr i" "single_template i t" "im_encode_network m = enc" "im_require_output m = Some True"
    and g: "good_records H enc t (im_data_list m)" and o: "message_output H now m = Ret u m3"
  shows "\<exists>j. after_output H enc now t (im_data_list m) i j \<and> m3 = (set_raw j m)\<lparr>im_require_output := Some False\<rparr> \<and>
    get_message m3 = Ret (Some (message_bytes H enc now (ip_sourceid i) t (im_data_list m))) m3"
proof -
  obtain j where j: "output_raw H enc (im_tstart m) now (im_data_list m) i = Ret () j"
    and m3: "m3 = (set_raw j m)\<lparr>im_require_output := Some False\<rparr>"
    using o b(1,3,4) by (auto simp: message_output_def needs_output_def with_raw_def split: result.splits)
  have "\<forall>r \<in> set (im_data_list m). dr_template_id r = tp_tid t"
    using g by (simp add: good_records_def readable_def)
  with output_raw_Ret [OF b(2) _ j] have a: "after_output H enc now t (im_data_list m) i j" by blast
  then have "get_message m3 = Ret (Some (message_bytes H enc now (ip_sourceid i) t (im_data_list m))) m3"
    by (simp add: get_message_def m3 set_raw_def needs_output_def after_output_def Let_def)
  with a m3 show ?thesis by blast
qed

lemma build_output_small:
  assumes "build_message src enc now0 fs n rs = Ret () m" and "message_template 256 m = Some t"
    and "distinct (map field_num (tp_datafields t))" and "\<forall>r \<in> set rs. readable H t r"
    and "small_output H enc t rs"
  shows "\<exists>m3. message_output H now m = Ret () m3 \<and>
    get_message m3 = Ret (Some (message_bytes H enc now src t rs)) m3"
proof -
  obtain i where m: "im_message m = Ptr i" "single_template i t" "known_template enc t" "im_data_list m = rs"
    "im_encode_network m = enc" "im_require_output m = Some True" "ip_sourceid i = src"
    using build_message_Ret [OF assms(1,2)] by blast
  have g: "good_records H enc t rs" using assms(3,4) m(3) by (simp add: good_records_def)
  obtain j where "output_raw H enc (im_tstart m) now rs i = Ret () j"
    using output_raw_small [OF m(2) g assms(5)] by blast
  then have o: "\<exists>m3. message_output H now m = Ret () m3"
    using m by (simp add: message_output_def needs_output_def with_raw_def)
  then show ?thesis using message_output_Ret [OF m(1,2,5,6)] g m(4,7) by blast
qed

section \<open>A port and an address\<close>

definition port_field :: field_type where
  "port_field = field_type_of 0 7 2 coding_uint ''sourceTransportPort'' []"

definition address_field :: field_type where
  "address_field = field_type_of 0 8 4 coding_ipaddr ''sourceIPv4Address'' []"

definition flow_fields :: "export_field list" where
  "flow_fields = [\<lparr>ef_eno = 0, ef_ienum = 7, ef_length = 2\<rparr>, \<lparr>ef_eno = 0, ef_ienum = 8, ef_length = 4\<rparr>]"

definition flow_template :: "bool \<Rightarrow> ipfix_template" where
  "flow_template enc =
     \<lparr>tp_type = DATA_TEMPLATE, tp_tsend = 0, tp_tid = 256, tp_maxfields = 2,
      tp_datafields = [\<lparr>tf_flength = 2, tf_unknown = KNOWN, tf_relay = enc, tf_elem = port_field\<rparr>,
        \<lparr>tf_flength = 4, tf_unknown = KNOWN, tf_relay = enc, tf_elem = address_field\<rparr>],
      tp_scopefields = []\<rparr>"

definition flow_record :: "u16 \<Rightarrow> u8 list \<Rightarrow> data_record" where
  "flow_record port addr =
     \<lparr>dr_template_id = 256, dr_field_data =
        [(\<lparr>fk_eno = 0, fk_ftype = 7\<rparr>, set_value_int16 port new_value_field),
         (\<lparr>fk_eno = 0, fk_ftype = 8\<rparr>, set_value_vunit8 addr new_value_field)]\<rparr>"

lemma flow_fields_known:
  "get_field known_fields 0 7 = Some port_field" "get_field known_fields 0 8 = Some address_field"
proof -
  have "port_field \<in> set forward_fields_1" "address_field \<in> set forward_fields_1"
    by (simp_all add: port_field_def address_field_def forward_fields_1_def)
  then show "get_field known_fields 0 7 = Some port_field" "get_field known_fields 0 8 = Some address_field"
    unfolding known.get_field_iff
    by (simp_all add: known_fields_def forward_fields_def field_id_def port_field_def address_field_def)
qed

lemma flow_readable:
  assumes "length addr = 4"
  shows "readable H (flow_template enc) (flow_record port addr)"
  using assms
  by (auto simp: readable_def flow_template_def flow_record_def port_field_def address_field_def tf_key_def
      get_field_key_def field_key_less_def readable_value_def value_of_field_def coding_defs int_value_def
      bytes_value_def snprint_def ipfix_snprint_uint_def ipfix_snprint_ipaddr_def snprintf_def salida_size_def)

lemma flow_distinct: "distinct (map field_num (tp_datafields (flow_template enc)))"
  by (simp add: flow_template_def field_num_def port_field_def address_field_def)

lemma add_two_fields:
  "add_export_fields tid [f, g] 2 m =
     r_bind (add_field tid (ef_eno f) (ef_ienum f) (ef_length f) m)
       (\<lambda>_. add_field tid (ef_eno g) (ef_ienum g) (ef_length g))"
proof -
  have one: "add_export_fields tid [g] (Suc 0) m = add_field tid (ef_eno g) (ef_ienum g) (ef_length g) m" for m
    by (cases "add_field tid (ef_eno g) (ef_ienum g) (ef_length g) m") simp_all
  show ?thesis unfolding numeral_2_eq_2 add_export_fields.simps(3) [of tid f "[g]" "Suc 0"] one ..
qed

lemma flow_built:
  "\<exists>m. build_message src enc now flow_fields 2 [flow_record port addr] = Ret () m \<and>
    message_template 256 m = Some (flow_template enc)"
  by (simp add: build_message_def new_ipfix_message_def ipfix_init_blank make_template_def new_data_template_def
      new_typed_template_def new_template_def with_raw_def or_throw_def add_template_def smap_insert_def
      set_raw_templates_def set_raw_def new_ipfix_raw_def new_ipfix_template_def flow_fields_def add_field_def
      flow_fields_known ipfix_eft_vendor_bit_def get_numfields_def add_data_field_def include_data_def
      get_num_fields_def flow_record_def message_template_def flow_template_def add_two_fields)

lemma flow_record_length:
  assumes "length addr = 4"
  shows "length (records_bytes H enc (flow_template enc) (replicate n (flow_record port addr))) = 10 * n"
proof -
  have "addr \<noteq> []" using assms by auto
  with assms have "length (the (record_bytes H enc (tp_datafields (flow_template enc)) (flow_record port addr))) = 6"
    by (simp add: flow_template_def port_field_def address_field_def flow_record_def value_bytes_def
        get_field_value_def get_field_key_def field_key_less_def equiv_key_def encode_def coding_defs
        ipfix_encode_int_def ipfix_encode_bytes_def ipfix_ft_varlen_def)
  then show ?thesis by (induction n) (simp_all add: records_bytes_def data_set_bytes_def)
qed

lemma flow_small:
  assumes "length addr = 4"
  shows "small_output H enc (flow_template enc) [flow_record port addr]"
  using flow_record_length [OF assms, of H enc 1 port]
  by (simp add: small_output_def length_template_bytes flow_template_def field_spec_size_def port_field_def
      address_field_def ipfix_default_buflen_def ipfix_ft_noeno_def)

text \<open>The message of the examples below: port 8080 and address 10.0.0.1\<close>

lemma flow_example:
  "\<exists>m. build_message 7 True 1000 flow_fields 2 [flow_record 8080 [10, 0, 0, 1]] = Ret () m \<and>
    message_template 256 m = Some (flow_template True) \<and>
    distinct (map field_num (tp_datafields (flow_template True))) \<and>
    (\<forall>r \<in> set [flow_record 8080 [10, 0, 0, 1]]. readable Little_Endian (flow_template True) r) \<and>
    small_output Little_Endian True (flow_template True) [flow_record 8080 [10, 0, 0, 1]]"
  using flow_built flow_distinct flow_small flow_readable [of "[10, 0, 0, 1]"] by simp

section \<open>The properties\<close>

text \<open>
  C14: A message with one template and records that fit, counted twice, into the buffer of 1400
  bytes is output without an exception, and its bytes are the specified ones: the header with
  the total length, time, number of records and source, the template set, and for each record
  a data set of its own.
\<close>

theorem ipfix_output_bytes:
  assumes "build_message src enc now0 fs n rs = Ret () m" and "message_template 256 m = Some t"
    and "distinct (map field_num (tp_datafields t))" and "\<forall>r \<in> set rs. readable H t r"
    and "small_output H enc t rs"
  shows "\<exists>m3. message_output H now m = Ret () m3 \<and>
    get_message m3 = Ret (Some (message_bytes H enc now src t rs)) m3"
  by (rule build_output_small [OF assms])

theorem ipfix_output_bytes_witness:
  "\<exists>m m3. build_message 7 True 1000 flow_fields 2 [flow_record 8080 [10, 0, 0, 1]] = Ret () m \<and>
    message_output Little_Endian 1001 m = Ret () m3 \<and>
    get_message m3 =
      Ret (Some (message_bytes Little_Endian True 1001 7 (flow_template True) [flow_record 8080 [10, 0, 0, 1]])) m3"
proof -
  obtain m where m: "build_message 7 True 1000 flow_fields 2 [flow_record 8080 [10, 0, 0, 1]] = Ret () m"
    "message_template 256 m = Some (flow_template True)"
    "distinct (map field_num (tp_datafields (flow_template True)))"
    "\<forall>r \<in> set [flow_record 8080 [10, 0, 0, 1]]. readable Little_Endian (flow_template True) r"
    "small_output Little_Endian True (flow_template True) [flow_record 8080 [10, 0, 0, 1]]"
    using flow_example by blast
  from ipfix_output_bytes [OF m] m(1) show ?thesis by blast
qed

text \<open>
  C12: A message that is built with one template and output without an exception is read back: the
  reader of its bytes (with up to four bytes of padding behind them) returns their number and
  holds the same template and the same records in the same order, and the two messages are
  equal. The records are those the template describes, with values that the fields have made
  and whose printed form fits the reader's buffer; the identifiers of the fields differ. This
  holds in both modes and on machines of either byte order.
\<close>

theorem ipfix_round_trip:
  assumes "build_message src enc now0 fs n rs = Ret () m" and "message_template 256 m = Some t"
    and "distinct (map field_num (tp_datafields t))" and "\<forall>r \<in> set rs. readable H t r"
    and "message_output H now m = Ret () m3"
    and "- (2 ^ 31) \<le> src" "src < 2 ^ 31" and "length pad \<le> 4"
  shows "\<exists>bytes m4. get_message m3 = Ret (Some bytes) m3 \<and>
    import_ipfix_message H now1 (bytes @ pad) enc = Some (Ret (length bytes) m4) \<and>
    message_template 256 m4 = Some t \<and> im_data_list m4 = rs \<and> isEqual m3 m4 = Ret True ()"
proof -
  obtain i where m: "im_message m = Ptr i" "single_template i t" "known_template enc t" "im_data_list m = rs"
    "im_encode_network m = enc" "im_require_output m = Some True" "ip_sourceid i = src"
    using build_message_Ret [OF assms(1,2)] by blast
  have tid: "tp_tid t = 256" using m(3) by (simp add: known_template_def)
  have g: "good_records H enc t rs" using assms(3,4) m(3) by (simp add: good_records_def)
  let ?bytes = "message_bytes H enc now src t rs"
  obtain j where o: "after_output H enc now t rs i j" and m3: "m3 = (set_raw j m)\<lparr>im_require_output := Some False\<rparr>"
    and get: "get_message m3 = Ret (Some ?bytes) m3"
    using message_output_Ret [OF m(1,2,5,6) _ assms(5)] g m(4,7) by auto
  have b: "length ?bytes \<le> 1400" using o m(7) by (auto simp: after_output_def Let_def)
  from import_message_bytes [OF fresh_blank g assms(6,7) refl b assms(8)] obtain m4 where
    m4: "import_ipfix_message H now1 (?bytes @ pad) enc = Some (Ret (length ?bytes) m4)"
    "read_back now src t rs ?bytes m4" unfolding import_ipfix_message_def by blast
  have "isEqual m3 m4 = Ret True ()"
    by (rule read_back_equal [OF o]) (use m3 m m4(2) assms(4) tid in \<open>simp_all add: set_raw_def\<close>)
  moreover have "message_template 256 m4 = Some t" "im_data_list m4 = rs"
    using m4(2) by (auto simp: read_back_def message_template_def)
  ultimately show ?thesis using get m4(1) by blast
qed

theorem ipfix_round_trip_witness:
  "\<exists>m m3 bytes m4. build_message 7 True 1000 flow_fields 2 [flow_record 8080 [10, 0, 0, 1]] = Ret () m \<and>
    message_output Little_Endian 1001 m = Ret () m3 \<and> get_message m3 = Ret (Some bytes) m3 \<and>
    import_ipfix_message Little_Endian 1002 (bytes @ [0, 0]) True = Some (Ret (length bytes) m4) \<and>
    message_template 256 m4 = Some (flow_template True) \<and>
    im_data_list m4 = [flow_record 8080 [10, 0, 0, 1]] \<and> isEqual m3 m4 = Ret True ()"
proof -
  obtain m where m: "build_message 7 True 1000 flow_fields 2 [flow_record 8080 [10, 0, 0, 1]] = Ret () m"
    "message_template 256 m = Some (flow_template True)"
    "distinct (map field_num (tp_datafields (flow_template True)))"
    "\<forall>r \<in> set [flow_record 8080 [10, 0, 0, 1]]. readable Little_Endian (flow_template True) r"
    "small_output Little_Endian True (flow_template True) [flow_record 8080 [10, 0, 0, 1]]"
    using flow_example by blast
  obtain m3 where m3: "message_output Little_Endian 1001 m = Ret () m3"
    using build_output_small [OF m] by blast
  have "\<exists>bytes m4. get_message m3 = Ret (Some bytes) m3 \<and>
    import_ipfix_message Little_Endian 1002 (bytes @ [0, 0]) True = Some (Ret (length bytes) m4) \<and>
    message_template 256 m4 = Some (flow_template True) \<and> im_data_list m4 = [flow_record 8080 [10, 0, 0, 1]] \<and>
    isEqual m3 m4 = Ret True ()"
    by (rule ipfix_round_trip [OF m(1-4) m3]) simp_all
  with m(1) m3 show ?thesis by blast
qed

end
