(* ===== verification/Ipfix_Faults.thy ===== *)
theory Ipfix_Faults
  imports Ipfix_Roundtrip
begin

unbundle bit_operations_syntax

text \<open>
  What reading and writing IPFIX messages does outside the conditions of the round trip: the
  inputs for which the reader does not end, refuses a correct message, or has undefined
  behaviour, and what a second output loses.
\<close>

section \<open>Templates for the examples\<close>

lemma known_fieldI:
  assumes "get_field known_fields (sint (eno :: u32)) (uint (ty :: u16)) = Some g" and "ty < ipfix_eft_vendor_bit"
  shows "known_field enc \<lparr>tf_flength = len, tf_unknown = KNOWN, tf_relay = enc, tf_elem = g\<rparr>"
  using assms by (auto simp: known_field_def)

lemma flow_known: "known_template enc (flow_template enc)" "specs_size (flow_template enc) = 8"
proof -
  have "known_field enc \<lparr>tf_flength = 2, tf_unknown = KNOWN, tf_relay = enc, tf_elem = port_field\<rparr>"
    by (rule known_fieldI [of 0 7]) (simp_all add: flow_fields_known ipfix_eft_vendor_bit_def)
  moreover have "known_field enc \<lparr>tf_flength = 4, tf_unknown = KNOWN, tf_relay = enc, tf_elem = address_field\<rparr>"
    by (rule known_fieldI [of 0 8]) (simp_all add: flow_fields_known ipfix_eft_vendor_bit_def)
  ultimately show "known_template enc (flow_template enc)"
    by (simp add: known_template_def flow_template_def get_numfields_def)
  show "specs_size (flow_template enc) = 8"
    by (simp add: specs_size_def flow_template_def field_spec_size_def port_field_def address_field_def ipfix_ft_noeno_def)
qed

section \<open>Headers\<close>

lemma import_bad_version:
  assumes "length buf \<ge> 2" and "uint (read_u16 H enc buf) \<notin> {ipfix_version_nf9, ipfix_version}"
  shows "import_ipfix_message H now buf enc = Some Undef"
  using assms by (simp add: import_ipfix_message_def ipfix_import_def parse_hdr_def Let_def
      blank_ipfix_message_def with_raw_def)

lemma import_header_only:
  assumes "- (2 ^ 31) \<le> src" "src < 2 ^ 31" and "length rest \<le> 4"
  shows "import_ipfix_message H now1 (header_bytes H enc now len n src @ rest) enc = Some Undef"
proof -
  let ?buf = "header_bytes H enc now len n src @ rest"
  obtain m where m: "parse_hdr H now1 ?buf (blank_ipfix_message enc (Some True)) = Ret () m"
    "reader_state enc (read_header now len n src) m"
    using parse_header_bytes [OF fresh_blank assms(1,2)] by blast
  have l: "\<not> length ?buf < 2" "\<not> 16 + 4 < length ?buf" using assms(3) by simp_all
  have v: "im_message m = Ptr (read_header now len n src)" "ip_version (read_header now len n src) \<noteq> ipfix_version_nf9"
    using m(2) by (auto simp: reader_state_def ipfix_version_def ipfix_version_nf9_def)
  have e: "import_sets H ?buf 0 16 None m = Some (Ret (16, None) m)"
    by (subst import_sets.simps) (simp only: l if_True not_False_eq_True)
  have "import_ipfix_message H now1 ?buf enc = Some (import_end ?buf 16 None m)"
    unfolding import_ipfix_message_def ipfix_import_def ipfix_hdr_bytes_def
    by (simp only: l m(1) v e if_False result.case pointer.case option.case prod.case)
  then show ?thesis
    by (simp add: import_end_def with_raw_def v(1) copy_raw_message_def read_header_def new_ipfix_raw_def
        ipfix_default_buflen_def)
qed

text \<open>
  A message of at least two bytes whose version is neither 9 nor 10 makes the constructor use
  the message pointer it has not set, and so does a header that no set follows with the
  identifier of the last set.
\<close>

theorem ipfix_bad_header_undefined:
  "(2 \<le> length buf \<longrightarrow> uint (read_u16 H enc buf) \<notin> {ipfix_version_nf9, ipfix_version} \<longrightarrow>
     import_ipfix_message H now1 buf enc = Some Undef) \<and>
   (- (2 ^ 31) \<le> src \<longrightarrow> src < 2 ^ 31 \<longrightarrow> length rest \<le> 4 \<longrightarrow>
     import_ipfix_message H now1 (header_bytes H enc now len n src @ rest) enc = Some Undef)"
  using import_bad_version import_header_only by blast

theorem ipfix_bad_header_undefined_witness:
  "import_ipfix_message Little_Endian 0 [0, 0] True = Some Undef \<and>
   import_ipfix_message Little_Endian 0 (header_bytes Little_Endian True 0 16 0 7 @ []) True = Some Undef"
  using ipfix_bad_header_undefined [where buf = "[0, 0]" and H = Little_Endian and enc = True and ?now1.0 = 0
      and src = 7 and rest = "[]" and now = 0 and len = 16 and n = 0]
  by (simp add: read_u16_def ipfix_version_def ipfix_version_nf9_def load16_def in_memory_def ntohs_def
      store16_def word16_be_def)

section \<open>One data set behind a template\<close>

lemma import_template_and_set:
  fixes sid :: u16
  assumes "known_template enc t" "8 + specs_size t < 65536" and "- (2 ^ 31) \<le> src" "src < 2 ^ 31"
    and body: "body \<noteq> []" "4 + length body < 65536"
    and bytes: "bytes = header_bytes H enc now len n src @ template_bytes H enc (t\<lparr>tp_tid := w\<rparr>) @
      data_set_bytes H enc sid body"
  shows "\<exists>m. after_template now len n src enc t m \<and>
    (decode_set H sid body (length body) m = None \<longrightarrow> import_ipfix_message H now1 bytes enc = None) \<and>
    (\<forall>e m'. decode_set H sid body (length body) m = Some (Exn e m') \<longrightarrow>
       import_ipfix_message H now1 bytes enc = Some (Exn e m')) \<and>
    (decode_set H sid body (length body) m = Some Undef \<longrightarrow> import_ipfix_message H now1 bytes enc = Some Undef)"
proof -
  let ?tb = "template_bytes H enc t" and ?i = "(read_header now len n src)\<lparr>ip_templates := [(256, t)]\<rparr>"
  from import_header_template [OF fresh_blank [where req = "Some True"] assms(1-4) bytes, of now1, folded import_ipfix_message_def] obtain m prev where
    m: "after_template now len n src enc t m" and imp: "import_ipfix_message H now1 bytes enc =
      (case import_sets H bytes 1 (16 + length ?tb) prev m of
         None \<Rightarrow> None
       | Some (Ret (nread, prev) m) \<Rightarrow> Some (import_end bytes nread prev m)
       | Some (Exn e m) \<Rightarrow> Some (Exn e m)
       | Some Abort \<Rightarrow> Some Abort
       | Some Undef \<Rightarrow> Some Undef)" by blast
  have m': "im_encode_network m = enc" "im_message m = Ptr ?i" "ip_version ?i = ipfix_version"
    using m by (simp_all add: after_template_def read_header_def)
  have d: "drop (16 + length ?tb) bytes = insert_u16 H enc sid @ insert_u16 H enc (of_nat (4 + length body)) @ body @ []"
    by (simp add: bytes length_template_bytes data_set_bytes_def)
  note sets = import_set_case [OF d body m', of 1 prev, unfolded append_Nil2]
  show ?thesis
    by (intro exI [of _ m] conjI impI allI) (simp_all only: m imp sets option.case result.case)
qed

text \<open>
  The reader does not keep the number of a template: a message whose template has another
  number than 256 is refused when the data set that uses that number follows.
\<close>

theorem ipfix_foreign_template_refused:
  assumes "known_template enc t" and "8 + specs_size t < 65536" and "- (2 ^ 31) \<le> src" "src < 2 ^ 31"
    and "w > 256" and "body \<noteq> []" "4 + length body < 65536"
  shows "\<exists>m. import_ipfix_message H now1 (header_bytes H enc now len n src @
    template_bytes H enc (t\<lparr>tp_tid := w\<rparr>) @ data_set_bytes H enc w body) enc = Some (Exn Ipfix_Bad_Argument m)"
proof -
  have "get_template w [(256, t)] = None" using assms(5) by (auto simp: get_template_def equiv_key_def)
  then have "decode_set H w body (length body) m = Some (Exn Ipfix_Bad_Argument m)"
    if "after_template now len n src enc t m" for m
    using assms(5) that by (auto simp: decode_set_def setid_template_nf9_def setid_opttemplate_nf9_def
        setid_template_def setid_opttemplate_def word_less_nat_alt after_template_def)
  then show ?thesis
    using import_template_and_set [OF assms(1-4,6,7) refl, where H = H and sid = w and w = w and now = now
        and len = len and n = n and ?now1.0 = now1] by metis
qed

theorem ipfix_foreign_template_refused_witness:
  "\<exists>m. import_ipfix_message Little_Endian 0 (header_bytes Little_Endian True 0 36 1 7 @
    template_bytes Little_Endian True ((flow_template True)\<lparr>tp_tid := 300\<rparr>) @
    data_set_bytes Little_Endian True 300 [0x1f, 0x90, 10, 0, 0, 1]) True = Some (Exn Ipfix_Bad_Argument m)"
  by (rule ipfix_foreign_template_refused) (simp_all add: flow_known)

section \<open>Fields of length 0\<close>

text \<open>A template whose fields are numbers without bytes\<close>

definition empty_fields :: "ipfix_template \<Rightarrow> bool" where
  "empty_fields t \<longleftrightarrow> (\<forall>f \<in> set (tp_datafields t). tf_flength f = 0 \<and> ft_coding (tf_elem f) = coding_uint)"

lemma decode_fields_empty:
  assumes "list_all2 (\<lambda>j f. get_template_field t j = Ret f ()) js fs"
    and "\<forall>f \<in> set fs. tf_flength f = 0 \<and> ft_coding (tf_elem f) = coding_uint" and "0 \<le> bl"
  shows "\<exists>r'. decode_fields H enc t js buf bl nread r = Ret (r', nread) ()"
  using assms(1,2)
proof (induction js fs arbitrary: r rule: list_all2_induct)
  case (Cons j js f fs)
  then have f: "tf_flength f = 0" "ft_coding (tf_elem f) = coding_uint" by simp_all
  have d: "decode H (tf_elem f) buf 0 enc = Ret new_value_field ()"
    "snprint H (tf_elem f) salida_size new_value_field = Some ''err''"
    using f(2) by (simp_all add: decode_def ipfix_decode_int_def coding_defs snprint_def
        ipfix_snprint_uint_def snprintf_def salida_size_def new_value_field_def)
  show ?case
    using Cons d f(1) assms(3) by (simp add: field_length_def ipfix_ft_varlen_def)
qed simp

lemma decode_datarecord_empty:
  assumes "empty_fields t" and "tp_scopefields t = []" and "0 \<le> bl"
  shows "\<exists>r. decode_datarecord H enc t buf bl = Ret (r, 0) ()"
  unfolding decode_datarecord_def
  by (rule decode_fields_empty [OF list_all2_fields_at [OF fields_at_all [OF assms(2)]]])
    (use assms in \<open>auto simp: empty_fields_def\<close>)

text \<open>Each round of the loop is the same; a result would be one of a loop that has ended.\<close>

lemma decode_records_empty:
  assumes e: "empty_fields t" "tp_scopefields t = []" and "0 < bl"
  shows "decode_records H t buf bl m = None"
proof -
  have "t' = t \<longrightarrow> \<not> 0 < bl" if "decode_records H t' buf bl m = Some r" for H t' buf bl m r
  proof (rule decode_records.raw_induct [where P = "\<lambda>H t' buf bl m r. t' = t \<longrightarrow> \<not> 0 < bl", OF _ that])
    fix f H t' buf bl m r
    assume f: "\<And>H t' buf bl m r. f H t' buf bl m = Some r \<Longrightarrow> t' = t \<longrightarrow> \<not> 0 < bl"
      and body: "(if bl \<le> 0 then Some (Ret () m)
      else case decode_datarecord H (im_encode_network m) t' buf bl of
             Ret (r, n) u \<Rightarrow> f H t' (drop n buf) (bl - int n) (m\<lparr>im_data_list := im_data_list m @ [r]\<rparr>)
           | Exn e u \<Rightarrow> Some (Exn e m) | Abort \<Rightarrow> Some Abort | Undef \<Rightarrow> Some Undef) = Some r"
    show "t' = t \<longrightarrow> \<not> 0 < bl"
    proof (intro impI notI)
      assume t: "t' = t" "0 < bl"
      then obtain r' where "decode_datarecord H (im_encode_network m) t buf bl = Ret (r', 0) ()"
        using decode_datarecord_empty [OF e, of bl H "im_encode_network m" buf] by auto
      with body t have "f H t buf bl (m\<lparr>im_data_list := im_data_list m @ [r']\<rparr>) = Some r" by simp
      with f t(2) show False by blast
    qed
  qed
  then show ?thesis using assms(3) by (cases "decode_records H t buf bl m") auto
qed

text \<open>
  C39: A message whose template gives the fields length 0, followed by a data set for it, keeps the
  reader in its loop over the records forever.
\<close>

theorem ipfix_empty_fields_hang:
  assumes "known_template enc t" and "empty_fields t" and "8 + specs_size t < 65536"
    and "- (2 ^ 31) \<le> src" "src < 2 ^ 31" and "body \<noteq> []" "4 + length body < 65536"
  shows "import_ipfix_message H now1 (header_bytes H enc now len n src @
    template_bytes H enc t @ data_set_bytes H enc 256 body) enc = None"
proof -
  have t: "t\<lparr>tp_tid := 256\<rparr> = t" "tp_scopefields t = []"
    using assms(1) by (auto simp: known_template_def intro: ipfix_template.equality)
  have "decode_set H 256 body (length body) m = None" if "after_template now len n src enc t m" for m
    using that decode_records_empty [OF assms(2) t(2)] assms(6)
    by (simp add: decode_set_def setid_template_nf9_def setid_opttemplate_nf9_def setid_template_def
        setid_opttemplate_def after_template_def)
  then show ?thesis
    using import_template_and_set [OF assms(1,3-7) refl, where H = H and sid = 256 and w = 256 and now = now
        and len = len and n = n and ?now1.0 = now1] unfolding t(1) by metis
qed

definition empty_template :: ipfix_template where
  "empty_template = (flow_template True)\<lparr>tp_maxfields := 1,
     tp_datafields := [\<lparr>tf_flength = 0, tf_unknown = KNOWN, tf_relay = True, tf_elem = port_field\<rparr>]\<rparr>"

lemma empty_known: "known_template True empty_template" "empty_fields empty_template" "specs_size empty_template = 4"
proof -
  have "known_field True \<lparr>tf_flength = 2, tf_unknown = KNOWN, tf_relay = True, tf_elem = port_field\<rparr>"
    using flow_known(1) [of True] by (simp add: known_template_def flow_template_def)
  then show "known_template True empty_template"
    by (simp add: known_template_def known_field_def empty_template_def flow_template_def get_numfields_def)
  show "empty_fields empty_template" "specs_size empty_template = 4"
    by (simp_all add: empty_fields_def empty_template_def port_field_def specs_size_def field_spec_size_def ipfix_ft_noeno_def)
qed

theorem ipfix_empty_fields_hang_witness:
  "import_ipfix_message Little_Endian 0 (header_bytes Little_Endian True 0 33 1 7 @
    template_bytes Little_Endian True empty_template @ data_set_bytes Little_Endian True 256 [0]) True = None"
  by (rule ipfix_empty_fields_hang) (simp_all add: empty_known)

section \<open>Values the reader cannot print\<close>

text \<open>A byte string of 14 bytes or more, in any record, overruns the reader's buffer.\<close>

definition long_bytes :: "template_field \<Rightarrow> bool" where
  "long_bytes f \<longleftrightarrow> ft_coding (tf_elem f) = coding_bytes \<and> tf_flength f \<noteq> ipfix_ft_varlen \<and>
     14 \<le> tf_flength f \<and> (ft_length (tf_elem f) = uint (tf_flength f) \<or> ft_length (tf_elem f) = 65535)"

lemma decode_fields_long:
  assumes "get_template_field t j = Ret f ()" and f: "long_bytes f" and l: "unat (tf_flength f) \<le> length buf"
    and "int (length buf) \<le> bl"
  shows "decode_fields H enc t (j # js) buf bl nread r = Undef"
proof -
  let ?bs = "take (unat (tf_flength f)) buf"
  have n: "14 \<le> unat (tf_flength f)" using f by (simp add: long_bytes_def word_le_nat_alt)
  have len: "length ?bs = unat (tf_flength f)" using l by simp
  then have ilen: "int (length ?bs) = uint (tf_flength f)" by (simp only: len of_nat_unat)
  from len n have ne: "?bs \<noteq> []" by (metis list.size(3) not_numeral_le_zero)
  have "get_ipfix_value_field_bytes (tf_elem f) ?bs = Ret (set_value_vunit8 ?bs new_value_field) ()"
    using f unfolding get_ipfix_value_field_bytes_def ilen by (auto simp: long_bytes_def coding_defs)
  then have d: "decode H (tf_elem f) buf (unat (tf_flength f)) enc = Ret (set_value_vunit8 ?bs new_value_field) ()"
    using f l ne by (simp add: long_bytes_def decode_def coding_defs ipfix_decode_bytes_def read_mem_def assign_value_def)
  have s: "snprint H (tf_elem f) salida_size (set_value_vunit8 ?bs new_value_field) = None"
    using f len n by (simp add: long_bytes_def snprint_def coding_defs ipfix_snprint_bytes_def salida_size_def
        bytes_that_fit_30 Let_def)
  have bl: "uint (tf_flength f) \<le> bl" using l assms(4) ilen len by linarith
  show ?thesis
    using assms(1) f d s bl by (simp add: field_length_def long_bytes_def)
qed

text \<open>
  A data record whose first field is a byte string of fixed length 14 or more overruns the
  reader's buffer of 30 characters, whatever the bytes are.
\<close>

theorem ipfix_long_bytes_overrun:
  assumes "tp_scopefields t = []" and "tp_datafields t = f # fs" and "long_bytes f"
    and "unat (tf_flength f) \<le> length buf"
  shows "decode_datarecord H enc t buf (int (length buf)) = Undef"
proof -
  have n: "get_template_field t 0 = Ret f ()" "0 < get_numfields t"
    using assms(1,2) by (simp_all add: get_template_field_def get_numfields_def get_number_scopefields_def)
  then have "[0..get_numfields t - 1] = 0 # [0 + 1..get_numfields t - 1]" by (subst upto.simps) simp
  then show ?thesis
    unfolding decode_datarecord_def by (simp only: decode_fields_long [OF n(1) assms(3,4) order.refl])
qed

theorem ipfix_long_bytes_overrun_witness:
  "let f = \<lparr>tf_flength = 14, tf_unknown = KNOWN, tf_relay = False,
         tf_elem = field_type_of 0 70 65535 coding_bytes ''mplsTopLabelStackSection'' []\<rparr>
   in decode_datarecord Big_Endian False (new_ipfix_template\<lparr>tp_datafields := [f]\<rparr>) (replicate 14 0)
     (int (length (replicate 14 (0 :: u8)))) = Undef"
  unfolding Let_def
  by (rule ipfix_long_bytes_overrun [where fs = "[]"])
    (simp add: new_ipfix_template_def long_bytes_def ipfix_ft_varlen_def)+

section \<open>Long messages\<close>

text \<open>
  C38: A message that is correct in every set but longer than 1400 bytes is copied beyond the end
  of the reader's buffer.
\<close>

theorem ipfix_long_message_overrun:
  assumes "good_records H enc t rs" and "- (2 ^ 31) \<le> src" "src < 2 ^ 31"
    and "bytes = message_bytes H enc now src t rs" and "1400 < length bytes" "length bytes < 65536"
  shows "import_ipfix_message H now1 bytes enc = Some Undef"
proof -
  obtain prev m where m: "import_ipfix_message H now1 (bytes @ []) enc =
      Some (import_end (bytes @ []) (length bytes) prev m)"
    "im_message m = Ptr ((read_header now (length bytes) (int (length rs)) src)\<lparr>ip_templates := [(256, t)]\<rparr>)"
    using import_message_sets [OF fresh_blank [where req = "Some True"] assms(1-4,6), of "[]" now1]
    unfolding import_ipfix_message_def by auto
  then show ?thesis
    using assms(5) by (simp add: import_end_def with_raw_def copy_raw_message_def read_header_def new_ipfix_raw_def
        ipfix_default_buflen_def)
qed

lemma length_flow_message:
  assumes "length addr = 4"
  shows "length (message_bytes H enc now src (flow_template enc) (replicate n (flow_record port addr))) = 32 + 10 * n"
proof -
  have "tp_type (flow_template enc) = DATA_TEMPLATE" by (simp add: flow_template_def)
  then have "length (template_bytes H enc (flow_template enc)) = 16"
    using flow_known(2) [of enc] by (simp add: length_template_bytes specs_size_def)
  then show ?thesis using assms by (simp add: message_bytes_def Let_def flow_record_length)
qed

theorem ipfix_long_message_overrun_witness:
  "import_ipfix_message Little_Endian 0 (message_bytes Little_Endian True 0 7 (flow_template True)
    (replicate 150 (flow_record 8080 [10, 0, 0, 1]))) True = Some Undef"
proof (rule ipfix_long_message_overrun [OF _ _ _ refl])
  show "good_records Little_Endian True (flow_template True) (replicate 150 (flow_record 8080 [10, 0, 0, 1]))"
    using flow_known(1) flow_distinct flow_readable [of "[10, 0, 0, 1]"] by (simp add: good_records_def)
qed (simp_all add: length_flow_message)

section \<open>Option templates\<close>

lemma get_template_field_past:
  assumes "int (length (tp_scopefields t)) \<le> k" "int (length (tp_datafields t)) \<le> k" "k < get_numfields t"
  shows "get_template_field t k = Undef"
  using assms by (simp add: get_template_field_def get_number_scopefields_def nat_less_iff)

lemma fields_at_past:
  assumes "a \<le> b" and "0 \<le> a" "b < get_numfields t" and "get_template_field t b = Undef"
  shows "fields_at t [a..b] = Undef"
  using assms(1,2)
proof (induction "nat (b - a)" arbitrary: a)
  case 0
  with assms(4) show ?case by (simp add: upto.simps)
next
  case (Suc n)
  then have "[a..b] = a # [a + 1..b]" by (subst upto.simps) simp
  moreover have "fields_at t [a + 1..b] = Undef" using Suc by (intro Suc.hyps(1)) simp_all
  moreover have "get_template_field t a = Undef \<or> (\<exists>f. get_template_field t a = Ret f ())"
    using Suc.prems assms(3) by (auto simp: get_template_field_def)
  ultimately show ?case by auto
qed

text \<open>
  The output of an option template with a scope field and another field reads behind the
  other fields, because their index is not reduced by the number of scope fields.
\<close>

theorem ipfix_option_template_undefined:
  assumes "tp_type t = OPTION_TEMPLATE" and "tp_scopefields t \<noteq> []" and "tp_datafields t \<noteq> []"
  shows "write_template H enc now t i = Undef"
proof -
  let ?s = "int (length (tp_scopefields t))" and ?k = "get_numfields t - 1"
  have k: "?s \<le> ?k" "int (length (tp_datafields t)) \<le> ?k" "?k < get_numfields t" "0 \<le> ?s"
    using assms(2,3) by (auto simp: get_numfields_def Suc_le_eq)
  have "fields_at t [?s..?k] = Undef"
    by (rule fields_at_past [OF k(1,4,3) get_template_field_past [OF k(1-3)]])
  moreover have "\<exists>fs. fields_at t [a..?s - 1] = Ret fs ()" if "0 \<le> a" for a
    using that
  proof (induction "nat (?s - a)" arbitrary: a)
    case (Suc n)
    then have "[a..?s - 1] = a # [a + 1..?s - 1]" by (subst upto.simps) simp
    moreover have "\<exists>f. get_template_field t a = Ret f ()"
      using Suc.hyps(2) Suc.prems by (auto simp: get_template_field_def get_number_scopefields_def get_numfields_def)
    moreover have "\<exists>fs. fields_at t [a + 1..?s - 1] = Ret fs ()" using Suc by (intro Suc.hyps(1)) simp_all
    ultimately show ?case by auto
  qed simp
  then obtain ss where "fields_at t [0..?s - 1] = Ret ss ()" by blast
  ultimately show ?thesis using assms(1) by (simp add: write_template_def Let_def get_number_scopefields_def)
qed

theorem ipfix_option_template_undefined_witness:
  "let f = \<lparr>tf_flength = 2, tf_unknown = KNOWN, tf_relay = False, tf_elem = port_field\<rparr>
   in write_template Big_Endian False 0 (new_ipfix_template\<lparr>tp_type := OPTION_TEMPLATE, tp_datafields := [f],
     tp_scopefields := [f]\<rparr>) new_ipfix_raw = Undef"
  unfolding Let_def by (rule ipfix_option_template_undefined) simp_all

end
