(* ===== verification/Ipfix_Body.thy ===== *)
theory Ipfix_Body
  imports Ipfix_Faults Gistka_Mapper
begin

unbundle bit_operations_syntax

text \<open>
  An IPFIX message as the body of a metering object (\<open>get_serialized_size\<close>, \<open>serialize_body\<close>,
  \<open>deserialize_body\<close> and \<open>check_body\<close> of src/msg/mnslp_ipfix_message.cpp): the bytes of the
  message, padded with zeros to whole words. This gives the record \<open>body_ops\<close> of the protocol
  its instance. The buffer operations \<open>copy_to\<close> and \<open>copy_from\<close> of protlib are the record
  \<open>copy_ops\<close>, with the documented behaviour \<open>copy_laws\<close>: they copy at a position and do not
  move the one of the buffer.
\<close>

section \<open>The virtual functions\<close>

record 'n copy_ops =
  net_copy_to :: "'n \<Rightarrow> u32 \<Rightarrow> nat \<Rightarrow> u8 list option"
  net_copy_from :: "u8 list \<Rightarrow> u32 \<Rightarrow> nat \<Rightarrow> 'n \<Rightarrow> 'n option"

definition copy_laws :: "('n \<Rightarrow> u8 list \<times> u8 list) \<Rightarrow> 'n copy_ops \<Rightarrow> bool" where
  "copy_laws V C \<longleftrightarrow>
     (\<forall>n k. k \<le> length (snd (V n)) \<longrightarrow>
        net_copy_to C n (of_nat (length (fst (V n)))) k = Some (take k (snd (V n)))) \<and>
     (\<forall>n bs. length bs \<le> length (snd (V n)) \<longrightarrow>
        (\<exists>n'. net_copy_from C bs (of_nat (length (fst (V n)))) (length bs) n = Some n' \<and>
           V n' = (fst (V n), bs @ drop (length bs) (snd (V n)))))"

definition word_padding :: "nat \<Rightarrow> nat" where
  "word_padding n = (if n mod 4 \<noteq> 0 then 4 - n mod 4 else 0)"

text \<open>
  The size and the check are values in the protocol part; for a message whose flag
  \<open>require_output\<close> has never been set, where reading it is undefined, they are those of an
  empty message.
\<close>

definition ipfix_offset :: "ipfix_message \<Rightarrow> nat" where
  "ipfix_offset m = (case get_offset m of Ret k _ \<Rightarrow> k | _ \<Rightarrow> 0)"

definition ipfix_get_serialized_size :: "ipfix_message mspec_object \<Rightarrow> nat" where
  "ipfix_get_serialized_size m =
     (let val_return = 4 + ipfix_offset (ms_body m) in val_return + word_padding val_return)"

definition ipfix_check_body :: "ipfix_message mspec_object \<Rightarrow> bool" where
  "ipfix_check_body m \<longleftrightarrow> ipfix_offset (ms_body m) > 0"

definition ipfix_equals_body :: "ipfix_message mspec_object \<Rightarrow> ipfix_message mspec_object \<Rightarrow>
    (ipfix_exn, bool, unit) result" where
  "ipfix_equals_body m obj = isEqual (ms_body m) (ms_body obj)"

text \<open>Copying \<open>count\<close> bytes from a pointer, which may be NULL if there are none to copy\<close>

definition copy_from_ptr :: "'n net_ops \<Rightarrow> 'n copy_ops \<Rightarrow> u8 list option \<Rightarrow> nat \<Rightarrow> 'n \<Rightarrow> (wire_exn, unit, 'n) result" where
  "copy_from_ptr N C buf count n =
     (let bs = (case buf of None \<Rightarrow> [] | Some b \<Rightarrow> b); start_pos = net_get_pos N n
      in if length bs < count then Undef
         else r_bind (encode_or_throw (net_copy_from C (take count bs) start_pos count) n) (\<lambda>_ n.
           Ret () (net_set_pos N (start_pos + of_nat count) n)))"

definition ipfix_serialize_body :: "'n net_ops \<Rightarrow> 'n copy_ops \<Rightarrow> ipfix_message mspec_object \<Rightarrow> 'n \<Rightarrow>
    (wire_exn, unit, 'n) result" where
  "ipfix_serialize_body N C m n =
     (case (get_message (ms_body m), get_offset (ms_body m)) of
        (Ret buf _, Ret offset _) \<Rightarrow>
          r_bind (copy_from_ptr N C buf offset n) (\<lambda>_ n.
          let num_padding = word_padding offset
          in if num_padding \<noteq> 0 then copy_from_ptr N C (Some (replicate 4 0)) num_padding n else Ret () n)
      | _ \<Rightarrow> Undef)"

text \<open>
  A loop that does not end appends a record in every round, until there is no memory left and
  the process ends. The exception of the reader is no \<open>IEError\<close>. Padding that is not zero puts
  no error on the list.
\<close>

definition ipfix_deserialize_body :: "byte_order \<Rightarrow> int \<Rightarrow> 'n net_ops \<Rightarrow> 'n copy_ops \<Rightarrow>
    ipfix_message mspec_object \<Rightarrow> u16 \<Rightarrow> bool \<Rightarrow> 'n \<Rightarrow> ie_error list \<Rightarrow>
    (wire_exn, bool \<times> ipfix_message mspec_object, 'n \<times> ie_error list) result" where
  "ipfix_deserialize_body H now N C m body_length skip n errs =
     (let start_pos = net_get_pos N n
      in case net_copy_to C n start_pos (unat body_length) of
           None \<Rightarrow> Exn NetMsg_Error (n, errs)
         | Some messdef \<Rightarrow>
             (case ipfix_close (ms_body m) of
                Ret u b \<Rightarrow>
                  (case ipfix_import H now messdef b of
                     None \<Rightarrow> Abort
                   | Some (Ret num_read b) \<Rightarrow>
                       (if \<forall>x \<in> set (drop num_read messdef). x = 0
                        then Ret (True, m\<lparr>ms_body := b\<rparr>) (net_set_pos N (start_pos + ucast body_length) n, errs)
                        else Ret (False, m\<lparr>ms_body := b\<rparr>) (n, errs))
                   | Some (Exn e b) \<Rightarrow> Exn Ipfix_Error (n, errs)
                   | Some Abort \<Rightarrow> Abort
                   | Some Undef \<Rightarrow> Undef)
              | _ \<Rightarrow> Undef))"

definition new_ipfix_object :: "ipfix_message \<Rightarrow> ipfix_message mspec_object" where
  "new_ipfix_object b =
     \<lparr>ms_hdr = \<lparr>oh_object_type = ot_mnslp_ipfix_message, oh_unique = False, oh_treatment = Tr_Mandatory\<rparr>,
      ms_body = b\<rparr>"

text \<open>What \<open>default_ipfix_message\<close> makes, which never throws\<close>

definition default_body :: "int \<Rightarrow> ipfix_message" where
  "default_body now = (case default_ipfix_message now of Ret u m \<Rightarrow> m | _ \<Rightarrow> blank_ipfix_message True None)"

definition ipfix_body :: "byte_order \<Rightarrow> int \<Rightarrow> 'n net_ops \<Rightarrow> 'n copy_ops \<Rightarrow> (ipfix_message, 'n) body_ops" where
  "ipfix_body H now N C =
     \<lparr>bo_new_instance = new_ipfix_object (default_body now),
      bo_check_body = ipfix_check_body, bo_get_serialized_size = ipfix_get_serialized_size,
      bo_deserialize_body = ipfix_deserialize_body H now N C,
      bo_serialize_body = ipfix_serialize_body N C\<rparr>"

lemma default_body_eq:
  "default_ipfix_message now = Ret () (default_body now)"
  "default_body now = \<lparr>im_message = Ptr (new_ipfix_raw\<lparr>ip_sourceid := 0, ip_version := ipfix_version\<rparr>),
     im_fields = known_fields, im_tstart = now, im_lasttid = 255, im_data_list = [], im_encode_network = True,
     im_require_output = None\<rparr>"
  by (simp_all add: default_body_def default_ipfix_message_def ipfix_init_blank)

section \<open>Copying\<close>

lemma copy_lawsD:
  assumes "copy_laws V C"
  shows "k \<le> length (snd (V n)) \<Longrightarrow>
      net_copy_to C n (of_nat (length (fst (V n)))) k = Some (take k (snd (V n)))"
    and "length bs \<le> length (snd (V n)) \<Longrightarrow>
      \<exists>n'. net_copy_from C bs (of_nat (length (fst (V n)))) (length bs) n = Some n' \<and>
        V n' = (fst (V n), bs @ drop (length bs) (snd (V n)))"
  using assms unfolding copy_laws_def by blast+

lemma set_pos_forward:
  assumes N: "net_laws N V" and V: "V n = (d, bs @ r)"
  shows "V (net_set_pos N (of_nat (length d) + of_nat (length bs)) n) = (d @ bs, r)"
proof -
  let ?p = "of_nat (length d) + of_nat (length bs) :: u32"
  have "length d + length (bs @ r) < 2 ^ 32" using net_pos_left(3) [OF N, of n] V by simp
  then have "length d + length bs < 2 ^ 32" by simp
  moreover have "?p = of_nat (length d + length bs)" by simp
  ultimately have p: "unat ?p = length d + length bs" unfolding \<open>?p = _\<close> unat_of_nat by simp
  then have "unat ?p \<le> length (fst (V n) @ snd (V n))" using V by simp
  then have "V (net_set_pos N ?p n) = (take (unat ?p) (fst (V n) @ snd (V n)), drop (unat ?p) (fst (V n) @ snd (V n)))"
    using N unfolding net_laws_def net_pos_laws_def by blast
  then show ?thesis unfolding p V by simp
qed

text \<open>
  The body satisfies what reading a message asks of it: the header of the object stays, and the
  position moves forward only. It is not total: a body can be undefined to read.
\<close>

lemma ipfix_body_contract:
  assumes N: "net_laws N V" and C: "copy_laws V C"
  shows "body_contract V (ipfix_body H now N C)"
proof -
  have "case ipfix_deserialize_body H now N C m len skip n errs of
      Ret (ok, m') (n', errs') \<Rightarrow> ms_hdr m' = ms_hdr m \<and> length (snd (V n')) \<le> length (snd (V n))
    | _ \<Rightarrow> True" if len: "unat len \<le> length (snd (V n))" for m and len :: u16 and skip n errs
  proof -
    obtain d where d: "V n = (d, take (unat len) (snd (V n)) @ drop (unat len) (snd (V n)))"
      by (metis append_take_drop_id prod.collapse)
    have "length (take (unat len) (snd (V n))) = unat len" using len by simp
    then have "V (net_set_pos N (net_get_pos N n + ucast len) n) =
        (d @ take (unat len) (snd (V n)), drop (unat len) (snd (V n)))"
      using set_pos_forward [OF N d] net_pos_left(1) [OF N, of n] d
      by (metis fst_conv of_nat_unat)
    then show ?thesis
      by (auto simp: ipfix_deserialize_body_def Let_def split: result.splits option.splits if_splits prod.splits)
  qed
  then show ?thesis by (simp add: body_contract_def ipfix_body_def new_ipfix_object_def)
qed

lemma copy_from_ptr_at:
  assumes N: "net_laws N V" and C: "copy_laws V C"
    and l: "count \<le> length b" "count \<le> length (snd (V n))"
  shows "\<exists>n'. copy_from_ptr N C (Some b) count n = Ret () n' \<and>
    V n' = (fst (V n) @ take count b, drop count (snd (V n)))"
proof -
  have len: "length (take count b) = count" using l(1) by simp
  then have "length (take count b) \<le> length (snd (V n))" using l(2) by simp
  from copy_lawsD(2) [OF C this] obtain n1 where n1: "net_copy_from C (take count b) (of_nat (length (fst (V n)))) count n = Some n1"
    "V n1 = (fst (V n), take count b @ drop count (snd (V n)))" unfolding len by blast
  from set_pos_forward [OF N n1(2)] have "V (net_set_pos N (of_nat (length (fst (V n))) + of_nat count) n1) =
      (fst (V n) @ take count b, drop count (snd (V n)))" unfolding len .
  then show ?thesis
    using l(1) n1(1) net_pos_left(1) [OF N, of n] by (simp add: copy_from_ptr_def encode_or_throw_def)
qed

section \<open>The bytes of a body\<close>

definition padded :: "u8 list \<Rightarrow> u8 list" where
  "padded bs = bs @ replicate (word_padding (length bs)) 0"

lemma length_padded: "length (padded bs) mod 4 = 0" "length (padded bs) \<le> length bs + 3"
  by (auto simp: padded_def word_padding_def) presburger+

lemma word_padding_header: "word_padding (4 + k) = word_padding k"
  by (simp add: word_padding_def)

lemma word_padding_le: "word_padding k \<le> 3"
  by (auto simp: word_padding_def)

text \<open>A message whose bytes have been written, or read\<close>

definition has_bytes :: "ipfix_message \<Rightarrow> u8 list \<Rightarrow> bool" where
  "has_bytes m bs \<longleftrightarrow> get_message m = Ret (Some bs) m \<and> get_offset m = Ret (length bs) m"

lemma serialize_padded:
  assumes N: "net_laws N V" and C: "copy_laws V C" and m: "has_bytes (ms_body m) bs"
    and room: "length (padded bs) \<le> length (snd (V n))"
  shows "\<exists>n'. ipfix_serialize_body N C m n = Ret () n' \<and>
    V n' = (fst (V n) @ padded bs, drop (length (padded bs)) (snd (V n)))"
proof -
  let ?k = "word_padding (length bs)"
  have l: "length bs \<le> length (snd (V n))" "?k \<le> length (drop (length bs) (snd (V n)))"
    using room by (simp_all add: padded_def)
  obtain n1 where n1: "copy_from_ptr N C (Some bs) (length bs) n = Ret () n1"
    "V n1 = (fst (V n) @ bs, drop (length bs) (snd (V n)))"
    using copy_from_ptr_at [OF N C order.refl l(1)] by auto
  have k: "?k \<le> length (replicate 4 (0 :: u8))" using word_padding_le [of "length bs"] by simp
  obtain n2 where n2: "copy_from_ptr N C (Some (replicate 4 0)) ?k n1 = Ret () n2"
    "V n2 = (fst (V n1) @ take ?k (replicate 4 0), drop ?k (snd (V n1)))"
    using copy_from_ptr_at [OF N C k, of n1] l(2) n1(2) by auto
  have "take ?k (replicate 4 (0 :: u8)) = replicate ?k 0" using k by (simp add: take_replicate)
  then have "V n2 = (fst (V n) @ padded bs, drop (length (padded bs)) (snd (V n)))"
    using n1(2) n2(2) by (simp add: padded_def add.commute)
  moreover have "?k = 0 \<Longrightarrow> V n1 = (fst (V n) @ padded bs, drop (length (padded bs)) (snd (V n)))"
    using n1(2) by (simp add: padded_def)
  ultimately show ?thesis
    using m n1(1) n2(1) by (cases "?k = 0") (auto simp: ipfix_serialize_body_def has_bytes_def Let_def)
qed

lemma close_default:
  "\<exists>b. ipfix_close (default_body now) = Ret () b \<and> fresh_message True b"
  by (simp add: default_body_eq(2) ipfix_close_def fresh_message_def)

lemma deserialize_padded:
  assumes N: "net_laws N V" and C: "copy_laws V C" and V: "V n = (d, padded bs @ r)"
    and l: "length (padded bs) < 65536"
    and imp: "\<And>b. fresh_message True b \<Longrightarrow> \<exists>m. ipfix_import H now (padded bs) b = Some (Ret (length bs) m) \<and> P m"
    and m: "ms_body m0 = default_body now"
  shows "\<exists>m n'. ipfix_deserialize_body H now N C m0 (of_nat (length (padded bs))) skip n errs =
      Ret (True, m0\<lparr>ms_body := m\<rparr>) (n', errs) \<and> P m \<and> V n' = (d @ padded bs, r)"
proof -
  let ?len = "of_nat (length (padded bs)) :: u16"
  have u: "unat ?len = length (padded bs)" using l by (simp add: unat_of_nat)
  have uc: "(ucast ?len :: u32) = of_nat (length (padded bs))"
    by (metis u of_nat_unat)
  obtain b where b: "ipfix_close (ms_body m0) = Ret () b" "fresh_message True b"
    using close_default m by metis
  obtain m where m: "ipfix_import H now (padded bs) b = Some (Ret (length bs) m)" "P m"
    using imp [OF b(2)] by blast
  have "net_copy_to C n (of_nat (length d)) (length (padded bs)) = Some (padded bs)"
    using copy_lawsD(1) [OF C, of "length (padded bs)" n] V by simp
  moreover have "\<forall>x \<in> set (drop (length bs) (padded bs)). x = 0" by (simp add: padded_def)
  moreover have "net_get_pos N n = of_nat (length d)" using net_pos_left(1) [OF N, of n] V by simp
  ultimately have "ipfix_deserialize_body H now N C m0 ?len skip n errs =
      Ret (True, m0\<lparr>ms_body := m\<rparr>) (net_set_pos N (of_nat (length d) + of_nat (length (padded bs))) n, errs)"
    using b(1) m(1) by (simp add: ipfix_deserialize_body_def u uc)
  then show ?thesis using m(2) set_pos_forward [OF N V] by blast
qed

section \<open>A metering object on the wire\<close>

definition ipfix_object :: "treatment \<Rightarrow> ipfix_message \<Rightarrow> ipfix_message mnslp_object" where
  "ipfix_object tr m = Mspec_Object
     \<lparr>ms_hdr = \<lparr>oh_object_type = ot_mnslp_ipfix_message, oh_unique = False, oh_treatment = tr\<rparr>, ms_body = m\<rparr>"

definition ipfix_object_bytes :: "treatment \<Rightarrow> u8 list \<Rightarrow> u8 list" where
  "ipfix_object_bytes tr bs =
     word32_be (obj_header_word \<lparr>oh_object_type = ot_mnslp_ipfix_message, oh_unique = False, oh_treatment = tr\<rparr>
       (of_nat (length (padded bs)))) @ padded bs"

lemma length_ipfix_object_bytes: "length (ipfix_object_bytes tr bs) = 4 + length (padded bs)"
  by (simp add: ipfix_object_bytes_def)

lemma serialize_ipfix_object:
  assumes N: "net_laws N V" and C: "copy_laws V C" and m: "has_bytes m bs" "bs \<noteq> []"
    and room: "length (ipfix_object_bytes tr bs) \<le> length (snd (V n))"
  shows "\<exists>n'. object_serialize N (ipfix_body H now N C) (ipfix_object tr m) Protocol_V1 n =
      Ret (of_nat (length (ipfix_object_bytes tr bs))) n' \<and>
    V n' = (fst (V n) @ ipfix_object_bytes tr bs, drop (length (ipfix_object_bytes tr bs)) (snd (V n)))"
proof -
  let ?B = "ipfix_body H now N C" and ?ob = "ipfix_object tr m" and ?n = "length (padded bs)"
  let ?w = "obj_header_word (obj_header ?ob) (of_nat ?n)"
  have off: "ipfix_offset m = length bs" using m(1) by (simp add: ipfix_offset_def has_bytes_def)
  have chk: "ie_check_ser_args N (supports_coding Protocol_V1) (object_check (bo_check_body ?B) ?ob) = None"
    using net_checks(1) [OF N] m(2) off
    by (simp add: supports_coding_def object_check_def get_object_type_def ipfix_object_def ot_defs ipfix_body_def
        ipfix_check_body_def)
  have size: "get_serialized_size ?B ?ob - 4 = ?n"
    by (simp add: ipfix_object_def ipfix_body_def ipfix_get_serialized_size_def off Let_def word_padding_header padded_def)
  have room': "4 + ?n \<le> length (snd (V n))" using room by (simp add: length_ipfix_object_bytes)
  obtain n1 where 1: "encode_or_throw (serialize_header N ?ob (of_nat ?n)) n = Ret () n1"
    "V n1 = (fst (V n) @ word32_be ?w, drop 4 (snd (V n)))"
    using encode_or_throw_at [of V "word32_be ?w" n "serialize_header N ?ob (of_nat ?n)"]
      net_put(3) [OF N] room' by (fastforce simp: serialize_header_def)
  have "?n \<le> length (snd (V n1))" using 1(2) room' by simp
  then obtain n2 where 2: "ipfix_serialize_body N C (the (as_mspec_object ?ob)) n1 = Ret () n2"
    "V n2 = (fst (V n1) @ padded bs, drop ?n (snd (V n1)))"
    using serialize_padded [OF N C, of "the (as_mspec_object ?ob)" bs n1] m(1) by (auto simp: ipfix_object_def)
  have b: "serialize_body N ?B ?ob n1 = Ret () n2" using 2(1) by (simp add: ipfix_object_def ipfix_body_def)
  have V2: "V n2 = (fst (V n) @ ipfix_object_bytes tr bs, drop (length (ipfix_object_bytes tr bs)) (snd (V n)))"
    using 1 2 by (simp add: ipfix_object_bytes_def ipfix_object_def add.commute)
  have "net_get_pos N n2 - net_get_pos N n = of_nat (length (ipfix_object_bytes tr bs))"
    by (rule net_pos_diff [OF N _ V2]) (rule prod.collapse [symmetric])
  with chk 1 b V2 show ?thesis by (simp add: object_serialize_def size)
qed

lemma deserialize_ipfix_object:
  assumes N: "net_laws N V" and C: "copy_laws V C" and V: "V n = (d, ipfix_object_bytes tr bs @ r)"
    and l: "length bs \<le> 1400"
    and imp: "\<And>b. fresh_message True b \<Longrightarrow> \<exists>m. ipfix_import H now (padded bs) b = Some (Ret (length bs) m) \<and> P m"
  shows "\<exists>m n'. object_deserialize N (ipfix_body H now N C) (new_object_instance (ipfix_body H now N C) Cl_Ipfix_Message)
      skip n errs = Ret (Some (ipfix_object tr m), of_nat (length (ipfix_object_bytes tr bs))) (n', errs) \<and> P m \<and>
    V n' = (d @ ipfix_object_bytes tr bs, r)"
proof -
  let ?B = "ipfix_body H now N C" and ?new = "new_ipfix_object (default_body now)"
  let ?h = "\<lparr>oh_object_type = ot_mnslp_ipfix_message, oh_unique = False, oh_treatment = tr\<rparr>"
  define k where "k = length (padded bs) div 4"
  have k: "length (padded bs) = 4 * k" "k < 4096"
    using length_padded [of bs] l by (auto simp: k_def)
  let ?w = "obj_header_word ?h (of_nat (4 * k))"
  have V': "V n = (d, word32_be ?w @ padded bs @ r)" using V k(1) by (simp add: ipfix_object_bytes_def)
  have ty: "oh_object_type ?h AND NOT 0xFFF = 0" by (simp add: ot_defs)
  obtain n1 where 1: "deserialize_header N (Mspec_Object ?new) n errs = (True, of_nat (4 * k),
      set_obj_header (\<lambda>g. g\<lparr>oh_treatment := oh_treatment ?h, oh_object_type := oh_object_type ?h\<rparr>) (Mspec_Object ?new),
      n1, errs)" "V n1 = (d @ word32_be ?w, padded bs @ r)"
    using deserialize_header_bytes [OF N ty k(2) V', of "Mspec_Object ?new" errs] k(1) by auto
  have h: "set_obj_header (\<lambda>g. g\<lparr>oh_treatment := oh_treatment ?h, oh_object_type := oh_object_type ?h\<rparr>)
      (Mspec_Object ?new) = ipfix_object tr (default_body now)"
    by (simp add: new_ipfix_object_def ipfix_object_def)
  have l': "length (padded bs) < 65536" using k by simp
  obtain m n2 where 2: "ipfix_deserialize_body H now N C (the (as_mspec_object (ipfix_object tr (default_body now))))
      (of_nat (length (padded bs))) skip n1 errs =
      Ret (True, (the (as_mspec_object (ipfix_object tr (default_body now))))\<lparr>ms_body := m\<rparr>) (n2, errs)" "P m"
    "V n2 = ((d @ word32_be ?w) @ padded bs, r)"
    using deserialize_padded [OF N C 1(2) l' imp, of "the (as_mspec_object (ipfix_object tr (default_body now)))" skip errs]
    by (auto simp: ipfix_object_def)
  then have b: "deserialize_body N ?B (ipfix_object tr (default_body now)) (of_nat (4 * k)) skip n1 errs =
      Ret (True, ipfix_object tr m) (n2, errs)"
    by (simp add: ipfix_object_def ipfix_body_def k(1))
  have V2: "V n2 = (d @ ipfix_object_bytes tr bs, r)" using 2(3) k(1) by (simp add: ipfix_object_bytes_def)
  have new: "new_object_instance ?B Cl_Ipfix_Message = Mspec_Object ?new" by (simp add: ipfix_body_def)
  show ?thesis
    using 1(1) b 2(2) V2 unfolding new h
    by (auto simp: object_deserialize_def supports_coding_def net_checks(2) [OF N] net_pos_diff [OF N V V2])
qed

section \<open>Bodies that cannot be read\<close>

text \<open>The object the reader is called on: a new one, closed\<close>

definition closed_body :: "int \<Rightarrow> ipfix_message" where
  "closed_body now = (default_body now)\<lparr>im_message := Dangling, im_fields := [], im_data_list := []\<rparr>"

lemma close_default_eq: "ipfix_close (default_body now) = Ret () (closed_body now)"
  by (simp add: default_body_eq(2) ipfix_close_def closed_body_def)

text \<open>What becomes of a body: the outcome of the reader and the bytes behind what it has read\<close>

definition body_outcome :: "byte_order \<Rightarrow> int \<Rightarrow> u8 list \<Rightarrow> (wire_exn, bool, unit) result" where
  "body_outcome H now bs =
     (case ipfix_import H now bs (closed_body now) of
        None \<Rightarrow> Abort
      | Some (Ret k m) \<Rightarrow> Ret (\<forall>x \<in> set (drop k bs). x = 0) ()
      | Some (Exn e m) \<Rightarrow> Exn Ipfix_Error ()
      | Some Abort \<Rightarrow> Abort
      | Some Undef \<Rightarrow> Undef)"

lemma deserialize_ipfix_outcome:
  assumes N: "net_laws N V" and C: "copy_laws V C" and V: "V n = (d, bs)" and l: "length bs < 65536"
    and m: "ms_body m = default_body now"
  shows "(body_outcome H now bs = Undef \<longrightarrow>
      ipfix_deserialize_body H now N C m (of_nat (length bs)) skip n errs = Undef) \<and>
    (body_outcome H now bs = Abort \<longrightarrow>
      ipfix_deserialize_body H now N C m (of_nat (length bs)) skip n errs = Abort) \<and>
    (body_outcome H now bs = Exn Ipfix_Error () \<longrightarrow>
      ipfix_deserialize_body H now N C m (of_nat (length bs)) skip n errs = Exn Ipfix_Error (n, errs)) \<and>
    (body_outcome H now bs = Ret False () \<longrightarrow>
      (\<exists>m'. ipfix_deserialize_body H now N C m (of_nat (length bs)) skip n errs = Ret (False, m') (n, errs)))"
proof -
  have u: "unat (of_nat (length bs) :: u16) = length bs" using l by (simp add: unat_of_nat)
  have "net_copy_to C n (net_get_pos N n) (unat (of_nat (length bs) :: u16)) = Some bs"
    using copy_lawsD(1) [OF C, of "length bs" n] net_pos_left(1) [OF N, of n] V u by simp
  then show ?thesis
    using m close_default_eq
    by (auto simp: ipfix_deserialize_body_def body_outcome_def Let_def split: option.splits result.splits if_splits)
qed

lemma object_ipfix_outcome:
  assumes N: "net_laws N V" and C: "copy_laws V C"
    and V: "V n = (d, word32_be (obj_header_word \<lparr>oh_object_type = ot_mnslp_ipfix_message, oh_unique = u, oh_treatment = tr\<rparr>
      (of_nat (4 * k))) @ bs)" and l: "length bs = 4 * k" "k < 4096"
  shows "(body_outcome H now bs = Undef \<longrightarrow>
      deserialize_object N (ipfix_body H now N C) coding skip n errs = Undef) \<and>
    (body_outcome H now bs = Abort \<longrightarrow>
      deserialize_object N (ipfix_body H now N C) coding skip n errs = Abort) \<and>
    (body_outcome H now bs = Exn Ipfix_Error () \<longrightarrow>
      (\<exists>s. deserialize_object N (ipfix_body H now N C) coding skip n errs = Exn Ipfix_Error s)) \<and>
    (body_outcome H now bs = Ret False () \<longrightarrow>
      (\<exists>n'. deserialize_object N (ipfix_body H now N C) coding skip n errs = Ret (None, 0) (n', errs)))"
proof -
  let ?h = "\<lparr>oh_object_type = ot_mnslp_ipfix_message, oh_unique = u, oh_treatment = tr\<rparr>" and ?B = "ipfix_body H now N C"
  let ?w = "obj_header_word ?h (of_nat (4 * k))" and ?new = "new_ipfix_object (default_body now)"
  have ty: "oh_object_type ?h AND NOT 0xFFF = 0" by (simp add: ot_defs)
  have peek: "net_peek32 N n = Some ?w" using net_peek32_at [OF N V] .
  have et: "extract_object_type ?w = ot_mnslp_ipfix_message"
    using obj_header_word_fields(2) [OF ty l(2)] by simp
  have look: "lookup_ie N Cat_Object ot_mnslp_ipfix_message 0 = Some (Proto_Object Cl_Ipfix_Message)"
    by (simp add: lookup_object [OF N])
  obtain n1 ob where 1: "deserialize_header N (Mspec_Object ?new) n errs = (True, of_nat (4 * k), Mspec_Object ob, n1, errs)"
    "V n1 = (d @ word32_be ?w, bs)" "ms_body ob = default_body now"
    using deserialize_header_bytes [OF N ty l(2) V, of "Mspec_Object ?new" errs] l(1)
    by (auto simp: new_ipfix_object_def)
  have l': "length bs < 65536" using l by simp
  have new: "new_object_instance ?B Cl_Ipfix_Message = Mspec_Object ?new" by (simp add: ipfix_body_def)
  have b: "bo_deserialize_body ?B = ipfix_deserialize_body H now N C" by (simp add: ipfix_body_def)
  have "deserialize_object N ?B coding skip n errs = object_deserialize N ?B (Mspec_Object ?new) skip n errs"
    by (simp only: deserialize_object_def peek et look new option.case ie_proto.case)
  also have "\<dots> =
      r_bind (deserialize_body N ?B (Mspec_Object ob) (of_nat (4 * k)) skip n1 errs) (\<lambda>(ok, ob2) (n2, errs3).
        if \<not> ok then Ret (None, 0) (n2, errs3)
        else Ret (Some ob2, net_get_pos N n2 - net_get_pos N n) (n2, errs3))"
    by (simp add: object_deserialize_def supports_coding_def net_checks(2) [OF N] 1(1))
  finally show ?thesis
    using deserialize_ipfix_outcome [OF N C 1(2) l' 1(3), of H skip errs] by (auto simp: b l(1))
qed

lemma configure_ipfix_outcome:
  assumes N: "net_laws N V" and C: "copy_laws V C"
    and V: "V n = (d, word32_be (push_bit 24 (ucast (class_msg_type c))) @
      word32_be (obj_header_word \<lparr>oh_object_type = ot_mnslp_ipfix_message, oh_unique = u, oh_treatment = tr\<rparr>
      (of_nat (4 * k))) @ bs)" and l: "length bs = 4 * k" "k < 4096"
  shows "(body_outcome H now bs = Undef \<longrightarrow>
      deserialize_msg N (ipfix_body H now N C) coding skip n errs = Some Undef) \<and>
    (body_outcome H now bs = Abort \<longrightarrow>
      deserialize_msg N (ipfix_body H now N C) coding skip n errs = Some Abort) \<and>
    (body_outcome H now bs = Exn Ipfix_Error () \<longrightarrow>
      (\<exists>s. deserialize_msg N (ipfix_body H now N C) coding skip n errs = Some (Exn Ipfix_Error s))) \<and>
    (body_outcome H now bs = Ret False () \<longrightarrow>
      (\<exists>w n'. deserialize_msg N (ipfix_body H now N C) coding skip n errs = Some (Ret (None, w) (n', errs))))"
proof -
  let ?B = "ipfix_body H now N C"
  obtain n' where n': "V n' = (d @ word32_be (push_bit 24 (ucast (class_msg_type c))),
      word32_be (obj_header_word \<lparr>oh_object_type = ot_mnslp_ipfix_message, oh_unique = u, oh_treatment = tr\<rparr>
      (of_nat (4 * k))) @ bs)"
    "deserialize_msg N ?B coding skip n errs = (case msg_objects_loop N ?B coding skip (new_msg c) 4 n' errs of
                Some (Ret (Some m1, w) (n2, errs2)) \<Rightarrow>
                  if msg_get_num_objects m1 = 0
                  then Some (Ret (if skip then Some m1 else None, w)
                    (n2, errs2 @ [PDU_Syntax_Error coding Cat_Msg 0 0 (of_nat (length d))]))
                  else Some (Ret (Some m1, w) (n2, errs2))
              | r \<Rightarrow> r)"
    using deserialize_msg_start [OF N V] by blast
  have left: "net_bytes_left N n' \<noteq> 0"
    using n'(1) by (intro left_nonzero [OF N]) (simp add: word32_be_def)
  have loop: "msg_objects_loop N ?B coding skip (new_msg c) 4 n' errs = r" if
    "(case deserialize_object N ?B coding skip n' errs of
       Ret (None, w) s \<Rightarrow> Some (Ret (None, 4) s) | Ret (Some ob, w) s \<Rightarrow> undefined ob w s
     | Exn e s \<Rightarrow> Some (Exn e s) | Abort \<Rightarrow> Some Abort | Undef \<Rightarrow> Some Undef) = r"
    "\<forall>ob w s. deserialize_object N ?B coding skip n' errs \<noteq> Ret (Some ob, w) s" for r
    using that left by (subst msg_objects_loop.simps) (auto split: result.splits option.splits)
  show ?thesis
    using object_ipfix_outcome [OF N C n'(1) l, of H now coding skip errs] n'(2)
    by (auto simp: loop)
qed

section \<open>The copies on lists\<close>

definition list_copy :: "(u8 list \<times> u8 list) copy_ops" where
  "list_copy =
     \<lparr>net_copy_to = \<lambda>n p k. (let b = fst (list_norm n) @ snd (list_norm n)
        in if unat p + k \<le> length b then Some (take k (drop (unat p) b)) else None),
      net_copy_from = \<lambda>bs p k n. (let (d, r) = list_norm n; b = take (unat p) (d @ r) @ take k bs @ drop (unat p + k) (d @ r)
        in if unat p + k \<le> length (d @ r) then Some (take (length d) b, drop (length d) b) else None)\<rparr>"

lemma list_copy_laws: "copy_laws list_norm list_copy"
proof -
  have u: "unat (of_nat (length d) :: u32) = length d" if "list_norm n = (d, r)" for n d r
    using list_norm_length [of n] that by (simp add: unat_of_nat)
  have s: "list_norm (d, bs @ drop (length bs) r) = (d, bs @ drop (length bs) r)"
    if "list_norm n = (d, r)" "length bs \<le> length r" for n d r and bs :: "u8 list"
    using list_norm_length [of n] that by (intro list_norm_short) simp
  show ?thesis
    unfolding copy_laws_def
  proof (intro conjI allI impI)
    fix n k assume k: "k \<le> length (snd (list_norm n))"
    obtain d r where n: "list_norm n = (d, r)" by (cases "list_norm n")
    with k u [OF n] show "net_copy_to list_copy n (of_nat (length (fst (list_norm n)))) k = Some (take k (snd (list_norm n)))"
      by (simp add: list_copy_def)
  next
    fix n and bs :: "u8 list" assume k: "length bs \<le> length (snd (list_norm n))"
    obtain d r where n: "list_norm n = (d, r)" by (cases "list_norm n")
    with k u [OF n] s [OF n, of bs] show "\<exists>n'. net_copy_from list_copy bs (of_nat (length (fst (list_norm n)))) (length bs) n = Some n' \<and>
        list_norm n' = (fst (list_norm n), bs @ drop (length bs) (snd (list_norm n)))"
      by (simp add: list_copy_def)
  qed
qed

section \<open>Properties\<close>

text \<open>
  C11: A metering object whose message has been built and output is written to the wire as a
  header with its treatment, the bytes of the message and the padding; read from there, by
  any node and whatever follows, it is an object of the same treatment with an equal message,
  which holds the same bytes again, so that a forwarder sends on what it has received.
\<close>

theorem ipfix_object_wire:
  assumes "net_laws N V" and "copy_laws V C"
    and "build_message src True now0 fs n rs = Ret () m" and "message_template 256 m = Some t"
    and "distinct (map field_num (tp_datafields t))" and "\<forall>r \<in> set rs. readable H t r"
    and "message_output H now m = Ret () m3" and "- (2 ^ 31) \<le> src" "src < 2 ^ 31"
  shows "\<exists>bs. get_message m3 = Ret (Some bs) m3 \<and>
    (\<forall>v. length (ipfix_object_bytes tr bs) \<le> length (snd (V v)) \<longrightarrow>
      (\<exists>v'. object_serialize N (ipfix_body H now1 N C) (ipfix_object tr m3) Protocol_V1 v =
          Ret (of_nat (length (ipfix_object_bytes tr bs))) v' \<and>
        V v' = (fst (V v) @ ipfix_object_bytes tr bs, drop (length (ipfix_object_bytes tr bs)) (snd (V v))))) \<and>
    (\<forall>v d r. V v = (d, ipfix_object_bytes tr bs @ r) \<longrightarrow>
      (\<exists>m4 v'. object_deserialize N (ipfix_body H now2 N C)
          (new_object_instance (ipfix_body H now2 N C) Cl_Ipfix_Message) skip v errs =
          Ret (Some (ipfix_object tr m4), of_nat (length (ipfix_object_bytes tr bs))) (v', errs) \<and>
        V v' = (d @ ipfix_object_bytes tr bs, r) \<and>
        isEqual m3 m4 = Ret True () \<and> get_message m4 = Ret (Some bs) m4))"
proof -
  note N = assms(1) note C = assms(2)
  obtain i where m: "im_message m = Ptr i" "single_template i t" "known_template True t" "im_data_list m = rs"
    "im_encode_network m = True" "im_require_output m = Some True" "ip_sourceid i = src"
    using build_message_Ret [OF assms(3,4)] by blast
  have tid: "tp_tid t = 256" using m(3) by (simp add: known_template_def)
  have g: "good_records H True t rs" using assms(5,6) m(3) by (simp add: good_records_def)
  let ?bs = "message_bytes H True now src t rs"
  obtain j where o: "after_output H True now t rs i j" and m3: "m3 = (set_raw j m)\<lparr>im_require_output := Some False\<rparr>"
    and get: "get_message m3 = Ret (Some ?bs) m3"
    using message_output_Ret [OF m(1,2,5,6) _ assms(7)] g m(4,7) by auto
  have "16 \<le> length ?bs" by (simp add: message_bytes_def Let_def)
  then have b: "length ?bs \<le> 1400" "?bs \<noteq> []" using o m(7) by (auto simp: after_output_def Let_def)
  have hb: "has_bytes m3 ?bs"
    using o get m(7) by (simp add: has_bytes_def get_offset_def m3 set_raw_def needs_output_def after_output_def Let_def)
  have imp: "\<exists>m4. ipfix_import H now2 (padded ?bs) b = Some (Ret (length ?bs) m4) \<and>
      isEqual m3 m4 = Ret True () \<and> get_message m4 = Ret (Some ?bs) m4" if fb: "fresh_message True b" for b
  proof -
    have pad: "length (replicate (word_padding (length ?bs)) (0 :: u8)) \<le> 4"
      using word_padding_le [of "length ?bs"] by simp
    obtain m4 where m4: "ipfix_import H now2 (padded ?bs) b = Some (Ret (length ?bs) m4)"
      "read_back now src t rs ?bs m4"
      using import_message_bytes [OF fb g assms(8,9) refl b(1) pad] unfolding padded_def by blast
    have "isEqual m3 m4 = Ret True ()"
      by (rule read_back_equal [OF o]) (use m3 m m4(2) assms(6) tid in \<open>simp_all add: set_raw_def\<close>)
    moreover have "get_message m4 = Ret (Some ?bs) m4"
      using m4(2) by (auto simp: read_back_def get_message_def needs_output_def)
    ultimately show ?thesis using m4(1) by blast
  qed
  have read: "\<exists>m4 v'. object_deserialize N (ipfix_body H now2 N C)
          (new_object_instance (ipfix_body H now2 N C) Cl_Ipfix_Message) skip v errs =
          Ret (Some (ipfix_object tr m4), of_nat (length (ipfix_object_bytes tr ?bs))) (v', errs) \<and>
        V v' = (d @ ipfix_object_bytes tr ?bs, r) \<and>
        isEqual m3 m4 = Ret True () \<and> get_message m4 = Ret (Some ?bs) m4"
    if "V v = (d, ipfix_object_bytes tr ?bs @ r)" for v d r
    using deserialize_ipfix_object [OF N C that b(1) imp, of skip errs] by blast
  show ?thesis
    using get serialize_ipfix_object [OF N C hb b(2)] read by blast
qed

theorem ipfix_object_wire_witness:
  "\<exists>m3 bs. get_message m3 = Ret (Some bs) m3 \<and>
    (\<forall>v. length (ipfix_object_bytes Tr_Forward bs) \<le> length (snd (list_norm v)) \<longrightarrow>
      (\<exists>v'. object_serialize list_net (ipfix_body Little_Endian 1 list_net list_copy) (ipfix_object Tr_Forward m3) Protocol_V1 v =
          Ret (of_nat (length (ipfix_object_bytes Tr_Forward bs))) v' \<and>
        list_norm v' = (fst (list_norm v) @ ipfix_object_bytes Tr_Forward bs,
          drop (length (ipfix_object_bytes Tr_Forward bs)) (snd (list_norm v))))) \<and>
    (\<forall>v d r. list_norm v = (d, ipfix_object_bytes Tr_Forward bs @ r) \<longrightarrow>
      (\<exists>m4 v'. object_deserialize list_net (ipfix_body Little_Endian 2 list_net list_copy)
          (new_object_instance (ipfix_body Little_Endian 2 list_net list_copy) Cl_Ipfix_Message) False v [] =
          Ret (Some (ipfix_object Tr_Forward m4), of_nat (length (ipfix_object_bytes Tr_Forward bs))) (v', []) \<and>
        list_norm v' = (d @ ipfix_object_bytes Tr_Forward bs, r) \<and>
        isEqual m3 m4 = Ret True () \<and> get_message m4 = Ret (Some bs) m4))"
proof -
  obtain m where m: "build_message 7 True 1000 flow_fields 2 [flow_record 8080 [10, 0, 0, 1]] = Ret () m"
    "message_template 256 m = Some (flow_template True)"
    "distinct (map field_num (tp_datafields (flow_template True)))"
    "\<forall>r \<in> set [flow_record 8080 [10, 0, 0, 1]]. readable Little_Endian (flow_template True) r"
    "small_output Little_Endian True (flow_template True) [flow_record 8080 [10, 0, 0, 1]]"
    using flow_example by blast
  obtain m3 where m3: "message_output Little_Endian 1001 m = Ret () m3"
    using build_output_small [OF m] by blast
  show ?thesis
    by (rule exI [of _ m3]) (rule ipfix_object_wire [OF list_net_laws list_copy_laws m(1-4) m3]; simp)
qed

text \<open>
  C37: A payload whose first object is an IPFIX message decides by its bytes alone what becomes of
  the daemon: where the reader of the message has undefined behaviour so has the worker loop; a
  reader that throws ends the loop with an exception; one that does not end, or that leaves
  bytes other than zero behind what it has read, ends in abort.
\<close>

theorem ipfix_payload_faults:
  fixes bs :: "u8 list"
  assumes "net_laws N V" and "copy_laws V C" and "length bs = 4 * k" "0 < k" "k < 4096"
    and "am_subtype a = Recv_Message" and "am_sessionid a = Some i"
    and "am_data a = Some (word32_be (push_bit 24 (ucast (class_msg_type c))) @
      word32_be (obj_header_word \<lparr>oh_object_type = ot_mnslp_ipfix_message, oh_unique = u, oh_treatment = tr\<rparr>
        (of_nat (4 * k))) @ bs)"
  shows "(body_outcome H now bs = Undef \<longrightarrow>
      main_loop_round N (ipfix_body H now N C) E (Api_Msg a) d = Some Undef) \<and>
    (body_outcome H now bs = Exn Ipfix_Error () \<longrightarrow>
      main_loop_round N (ipfix_body H now N C) E (Api_Msg a) d = Some (Exn (Inl Ipfix_Error) d)) \<and>
    (body_outcome H now bs \<in> {Abort, Ret False ()} \<longrightarrow>
      main_loop_round N (ipfix_body H now N C) E (Api_Msg a) d = Some Abort)"
proof -
  let ?b = "word32_be (push_bit 24 (ucast (class_msg_type c))) @
      word32_be (obj_header_word \<lparr>oh_object_type = ot_mnslp_ipfix_message, oh_unique = u, oh_treatment = tr\<rparr>
        (of_nat (4 * k))) @ bs"
  have "length ?b < 2 ^ 32" using assms(3,5) by simp
  then have "V (net_of_buffer N ?b) = ([], ?b)" using assms(1) by (simp add: net_laws_def net_pos_laws_def)
  note o = configure_ipfix_outcome [OF assms(1,2) this assms(3,5), of H now Protocol_V1 False "[]"]
  from o assms(6-8) show ?thesis
    by (cases i) (auto simp: main_loop_round_def map_api_message_def map_api_receive_message_def map_payload_def)
qed

text \<open>A body of four zero bytes: the reader uses the message that \<open>close\<close> has deleted.\<close>

lemma zero_body_undefined: "body_outcome H now [0, 0, 0, 0] = Undef"
proof -
  have "im_message (closed_body now) = Dangling" "im_encode_network (closed_body now) = True"
    by (simp_all add: closed_body_def default_body_eq(2))
  moreover have "read_u16 H True [0, 0, 0, 0] = 0"
    by (simp add: read_u16_def)
  ultimately show ?thesis
    by (simp add: body_outcome_def ipfix_import_def parse_hdr_def with_raw_def ipfix_version_def ipfix_version_nf9_def)
qed

theorem ipfix_payload_faults_witness:
  "\<forall>E :: (nat, ipfix_message, nat mri_fields, unit) env.
     main_loop_round list_net (ipfix_body Little_Endian 1 list_net list_copy) E
     (Api_Msg (ex_arrival (word32_be (push_bit 24 (ucast (class_msg_type Mnslp_Configure))) @
        word32_be (obj_header_word \<lparr>oh_object_type = ot_mnslp_ipfix_message, oh_unique = False,
          oh_treatment = Tr_Forward\<rparr> (of_nat (4 * 1))) @ [0, 0, 0, 0]))) (empty_daemon ()) = Some Undef"
proof
  fix E :: "(nat, ipfix_message, nat mri_fields, unit) env"
  show "main_loop_round list_net (ipfix_body Little_Endian 1 list_net list_copy) E
     (Api_Msg (ex_arrival (word32_be (push_bit 24 (ucast (class_msg_type Mnslp_Configure))) @
        word32_be (obj_header_word \<lparr>oh_object_type = ot_mnslp_ipfix_message, oh_unique = False,
          oh_treatment = Tr_Forward\<rparr> (of_nat (4 * 1))) @ [0, 0, 0, 0]))) (empty_daemon ()) = Some Undef"
  using ipfix_payload_faults [OF list_net_laws list_copy_laws, where bs = "[0, 0, 0, 0]" and k = 1 and
      a = "ex_arrival (word32_be (push_bit 24 (ucast (class_msg_type Mnslp_Configure))) @
        word32_be (obj_header_word \<lparr>oh_object_type = ot_mnslp_ipfix_message, oh_unique = False,
          oh_treatment = Tr_Forward\<rparr> (of_nat (4 * 1))) @ [0, 0, 0, 0])" and
      c = Mnslp_Configure and u = False and tr = Tr_Forward and H = Little_Endian and now = 1 and E = E and
      d = "empty_daemon ()" and i = "(1, 2, 3, 4)"] zero_body_undefined
    by (simp add: ex_arrival_def)
qed

end
