(* ===== verification/Netmate_Installer.thy ===== *)
theory Netmate_Installer
  imports Policy_Action Ipfix_Body
begin

text \<open>
  The rule installer for the metering application netmate (src/policy_rule_installer.cpp,
  src/netmate_ipfix_policy_rule_installer.cpp): loading the two configuration files, checking
  whether the application can meter what an IPFIX message asks for, and installing and removing
  rules by HTTP requests. The library for the requests is the record \<open>curl_ops\<close>; the state of the
  application is its type parameter. Functions declared with an exception specification end in
  \<open>std::unexpected\<close> for any other exception, which is \<open>Abort\<close>.
\<close>

section \<open>State and configuration files\<close>

record netmate_config = mnslp_config +
  nc_configuration_file :: string
  nc_export_config_file :: string
  nc_metering_application :: string
  nc_user :: string
  nc_password :: string
  nc_server :: string
  nc_port :: u32
  nc_export_directory :: string

record installer_state =
  is_config :: netmate_config
  is_actions :: "action_container option"
  is_apps :: "app_container option"

definition new_installer :: "netmate_config \<Rightarrow> installer_state" where
  "new_installer conf = \<lparr>is_config = conf, is_actions = None, is_apps = None\<rparr>"

text \<open>
  \<open>xmlReaderForFile\<close> is the argument \<open>open_file\<close>. The container is in place before it is filled,
  so that it stays when the file has an error.
\<close>

definition parse_definition_file :: "('r \<Rightarrow> (exc, unit, 'c \<times> 'r) result option) \<Rightarrow> (string \<Rightarrow> 'r option) \<Rightarrow> string \<Rightarrow>
    ('c \<Rightarrow> installer_state \<Rightarrow> installer_state) \<Rightarrow> installer_state \<Rightarrow> (exc, unit, installer_state) result option" where
  "parse_definition_file read_file open_file filename store st =
     (case open_file filename of
        None \<Rightarrow> Some (Exn (configuration_error ''Export configuration file does not open'') st)
      | Some r \<Rightarrow> map_option (lift_state (\<lambda>(c, r). store c st)) (read_file r))"

definition parse_configuration_definition_file :: "'r xml_ops \<Rightarrow> (string \<Rightarrow> 'r option) \<Rightarrow> string \<Rightarrow> installer_state \<Rightarrow>
    (exc, unit, installer_state) result option" where
  "parse_configuration_definition_file X open_file filename st =
     parse_definition_file (app_container_read X []) open_file filename (\<lambda>c st. st\<lparr>is_apps := Some c\<rparr>) st"

definition parse_export_definition_file :: "'r xml_ops \<Rightarrow> (string \<Rightarrow> 'r option) \<Rightarrow> string \<Rightarrow> installer_state \<Rightarrow>
    (exc, unit, installer_state) result option" where
  "parse_export_definition_file X open_file filename st =
     parse_definition_file (action_container_read X []) open_file filename (\<lambda>c st. st\<lparr>is_actions := Some c\<rparr>) st"

text \<open>A node whose files have an error does not meter.\<close>

definition installer_setup :: "'r xml_ops \<Rightarrow> (string \<Rightarrow> 'r option) \<Rightarrow> installer_state \<Rightarrow>
    (exc, unit, installer_state) result option" where
  "installer_setup X open_file st =
     (if cf_is_ms_meter (is_config st)
      then (case o_bind (parse_configuration_definition_file X open_file (nc_configuration_file (is_config st)) st)
                   (\<lambda>_ st. parse_export_definition_file X open_file (nc_export_config_file (is_config st)) st) of
              Some (Exn (Policy_Rule_Installer_Error m sv c) st) \<Rightarrow>
                Some (Ret () (st\<lparr>is_config := (is_config st)\<lparr>cf_is_ms_meter := False\<rparr>\<rparr>))
            | Some (Exn e st) \<Rightarrow> Some Abort
            | r \<Rightarrow> r)
      else Some (Ret () st))"

definition get_action_container :: "installer_state \<Rightarrow> (exc, action_container, unit) result" where
  "get_action_container st =
     (case is_actions st of
        Some c \<Rightarrow> Ret c ()
      | None \<Rightarrow> Exn (configuration_error ''action configuration not defined'') ())"

definition get_app_container :: "installer_state \<Rightarrow> (exc, app_container, unit) result" where
  "get_app_container st =
     (case is_apps st of
        Some c \<Rightarrow> Ret c ()
      | None \<Rightarrow> Exn (configuration_error ''filter configuration not defined'') ())"

definition metering_application :: "installer_state \<Rightarrow> string" where
  "metering_application st = nc_metering_application (is_config st)"

section \<open>Templates of a message\<close>

text \<open>The number is that of the container, or 0 without one; \<open>NULL\<close> is \<open>None\<close>.\<close>

definition message_templates :: "ipfix_message \<Rightarrow> (exc, ipfix_template list, unit) result" where
  "message_templates m =
     (case im_message m of
        Null \<Rightarrow> Ret [] ()
      | Ptr i \<Rightarrow> Ret (map snd (ip_templates i)) ()
      | Dangling \<Rightarrow> Undef)"

text \<open>The loop ends at the first template of the type, and otherwise leaves the last one.\<close>

fun search_template :: "templ_type \<Rightarrow> ipfix_template option \<Rightarrow> ipfix_template list \<Rightarrow> ipfix_template option" where
  "search_template ty templ [] = templ"
| "search_template ty templ (t # ts) = (if tp_type t = ty then Some t else search_template ty (Some t) ts)"

definition get_filter_template :: "ipfix_message \<Rightarrow> (exc, ipfix_template option, unit) result" where
  "get_filter_template m = r_bind (message_templates m) (\<lambda>ts _. Ret (search_template OPTION_TEMPLATE None ts) ())"

definition get_export_template :: "ipfix_message \<Rightarrow> (exc, ipfix_template option, unit) result" where
  "get_export_template m = r_bind (message_templates m) (\<lambda>ts _. Ret (search_template DATA_TEMPLATE None ts) ())"

text \<open>A field by its index; the exceptions of the IPFIX part are not in the callers' specifications.\<close>

fun ipfix_or_abort :: "(ipfix_exn, 'a, unit) result \<Rightarrow> (exc, 'a, unit) result" where
  "ipfix_or_abort (Ret a s) = Ret a s"
| "ipfix_or_abort (Exn e s) = Abort"
| "ipfix_or_abort Abort = Abort"
| "ipfix_or_abort Undef = Undef"

definition field_at :: "ipfix_template \<Rightarrow> int \<Rightarrow> (exc, field_type, unit) result" where
  "field_at t i = r_bind (ipfix_or_abort (get_template_field t i)) (\<lambda>f _. Ret (tf_elem f) ())"

definition field_indices :: "ipfix_template \<Rightarrow> int list" where
  "field_indices t = [0..get_numfields t - 1]"

section \<open>Checking an object\<close>

definition is_export_field :: "installer_state \<Rightarrow> field_type \<Rightarrow> (exc, bool, unit) result" where
  "is_export_field st f =
     r_bind (get_app_container st) (\<lambda>c _. Ret (app_is_export_field (metering_application st) f c) ())"

definition is_filter_field :: "installer_state \<Rightarrow> field_type \<Rightarrow> (exc, bool, unit) result" where
  "is_filter_field st f =
     r_bind (get_app_container st) (\<lambda>c _. Ret (app_is_filter_field (metering_application st) f c) ())"

definition is_action_field :: "installer_state \<Rightarrow> field_type \<Rightarrow> (exc, bool, unit) result" where
  "is_action_field st f =
     r_bind (get_action_container st) (\<lambda>c _.
       deref (container_check_field (metering_application st) f c) (\<lambda>b. Ret b ()))"

fun all_fields :: "(field_type \<Rightarrow> (exc, bool, unit) result) \<Rightarrow> ipfix_template \<Rightarrow> int list \<Rightarrow> (exc, bool, unit) result" where
  "all_fields P t [] = Ret True ()"
| "all_fields P t (i # is) =
     r_bind (field_at t i) (\<lambda>f _. r_bind (P f) (\<lambda>b _. if b then all_fields P t is else Ret False ()))"

definition handle_export_fields :: "installer_state \<Rightarrow> ipfix_template \<Rightarrow> (exc, bool, unit) result" where
  "handle_export_fields st t =
     all_fields (\<lambda>f. r_bind (is_export_field st f) (\<lambda>b _. if b then is_action_field st f else Ret False ()))
       t (field_indices t)"

definition handle_filter_fields :: "installer_state \<Rightarrow> ipfix_template \<Rightarrow> (exc, bool, unit) result" where
  "handle_filter_fields st t =
     all_fields (\<lambda>f. r_bind (get_app_container st) (\<lambda>c _.
       Ret (app_check_field (metering_application st) f c) ())) t (field_indices t)"

abbreviation sigfail_rule_action_not_applicable :: u8 where "sigfail_rule_action_not_applicable \<equiv> 6"
abbreviation sigfail_filter_action_not_applicable :: u8 where "sigfail_filter_action_not_applicable \<equiv> 8"
abbreviation sigfail_metering_connection_broken :: u8 where "sigfail_metering_connection_broken \<equiv> 9"

definition invalid_message :: "u8 \<Rightarrow> (exc, 'a, unit) result" where
  "invalid_message c =
     Exn (Policy_Rule_Installer_Error ''Invalid ipfix message'' sc_signaling_session_failures c) ()"

definition netmate_check :: "installer_state \<Rightarrow> ipfix_message \<Rightarrow> (exc, unit, unit) result" where
  "netmate_check st mess =
     r_bind (message_templates mess) (\<lambda>ts _.
     if length ts \<noteq> 2 then invalid_message sigfail_wrong_conf_message
     else r_bind (get_export_template mess) (\<lambda>templ _.
       case templ of
         None \<Rightarrow> invalid_message sigfail_wrong_conf_message
       | Some t \<Rightarrow> r_bind (handle_export_fields st t) (\<lambda>ok _.
           if \<not> ok then invalid_message sigfail_rule_action_not_applicable
           else r_bind (get_filter_template mess) (\<lambda>templ _.
             case templ of
               None \<Rightarrow> invalid_message sigfail_wrong_conf_message
             | Some t \<Rightarrow> r_bind (ipfix_or_abort (include_all_data_fields t mess)) (\<lambda>ok _.
                 if \<not> ok then invalid_message sigfail_wrong_conf_message
                 else r_bind (handle_filter_fields st t) (\<lambda>ok _.
                   if \<not> ok then invalid_message sigfail_filter_action_not_applicable
                   else Ret () ()))))))"

section \<open>The commands for an object\<close>

text \<open>
  The first value goes under the key of the field; every further one extends \<open>comma\<close>, and finds
  the key in the map.
\<close>

fun print_filter_values :: "string \<Rightarrow> bool \<Rightarrow> string \<Rightarrow> string list \<Rightarrow> (string, string) smap \<Rightarrow> (string, string) smap" where
  "print_filter_values key first comma [] filter_fields = filter_fields"
| "print_filter_values key first comma (v # vs) filter_fields =
     (if first then print_filter_values key False comma vs (smap_insert (<) key v filter_fields)
      else print_filter_values key False (comma @ v) vs (smap_insert (<) key (comma @ v) filter_fields))"

fun collect_filters :: "byte_order \<Rightarrow> installer_state \<Rightarrow> ipfix_message \<Rightarrow> ipfix_template \<Rightarrow> int list \<Rightarrow>
    (string, string) smap \<Rightarrow> (exc, (string, string) smap, unit) result" where
  "collect_filters H st mess t [] filter_fields = Ret filter_fields ()"
| "collect_filters H st mess t (i # is) filter_fields =
     r_bind (field_at t i) (\<lambda>f _.
     r_bind (is_filter_field st f) (\<lambda>b _.
     if b
     then r_bind (ipfix_or_abort (get_field_data_values H t f mess)) (\<lambda>values _.
          r_bind (get_app_container st) (\<lambda>c _.
          collect_filters H st mess t is
            (print_filter_values (app_field_traslate (metering_application st) f c) True '','' values filter_fields)))
     else collect_filters H st mess t is filter_fields))"

definition build_command_filter_fields :: "byte_order \<Rightarrow> installer_state \<Rightarrow> ipfix_message \<Rightarrow> ipfix_template \<Rightarrow>
    (exc, string, unit) result" where
  "build_command_filter_fields H st mess t =
     r_bind (collect_filters H st mess t (field_indices t) []) (\<lambda>filter_fields _.
       Ret (''-r'' @ concat (map (\<lambda>(k, v). '' '' @ k @ ''='' @ v) filter_fields)) ())"

text \<open>The target of the export, which the metering procedures are collected under\<close>

definition export_target :: "installer_state \<Rightarrow> string \<Rightarrow> metering_config \<Rightarrow> string" where
  "export_target st key mc =
     (if mc_export_procedure mc = ''file'' then ''file:'' @ mc_export_directory mc @ key
      else if mc_export_procedure mc = ''ipfix'' then ''ipfix:''
      else ''file:'' @ nc_export_directory (is_config st) @ key)"

type_synonym exports = "(string, (string, unit) smap) smap"

definition add_export :: "string \<Rightarrow> string \<Rightarrow> exports \<Rightarrow> exports" where
  "add_export target procedure exports =
     (case smap_find (<) target exports of
        None \<Rightarrow> smap_set (<) target [(procedure, ())] exports
      | Some ps \<Rightarrow> smap_set (<) target (smap_insert (<) procedure () ps) exports)"

fun collect_exports :: "installer_state \<Rightarrow> string \<Rightarrow> ipfix_template \<Rightarrow> int list \<Rightarrow> exports \<Rightarrow> (exc, exports, unit) result" where
  "collect_exports st key t [] exports = Ret exports ()"
| "collect_exports st key t (i # is) exports =
     r_bind (field_at t i) (\<lambda>f _.
     r_bind (is_export_field st f) (\<lambda>b _.
     if b
     then r_bind (get_action_container st) (\<lambda>c _.
          deref (container_field_traslate (metering_application st) f c) (\<lambda>export_field.
          deref (container_get_package (metering_application st) f c) (\<lambda>met_conf.
          case met_conf of
            None \<Rightarrow> collect_exports st key t is exports
          | Some mc \<Rightarrow> collect_exports st key t is
              (add_export (export_target st key mc) (mc_metering_procedure mc) exports))))
     else collect_exports st key t is exports))"

definition rule_group :: string where
  "rule_group = ''NETMATE_IPFIX''"

definition rule_name :: "string \<Rightarrow> nat \<Rightarrow> string" where
  "rule_name key sequence = key @ ''_'' @ show_base 10 sequence"

definition export_command :: "string \<Rightarrow> nat \<Rightarrow> string \<Rightarrow> string \<times> (string, unit) smap \<Rightarrow> string" where
  "export_command key sequence filter_def = (\<lambda>(target, packages).
     ''Rule='' @ rule_group @ ''.'' @ rule_name key sequence @ '' '' @ filter_def @ '' -a '' @
     concat (map (\<lambda>(p, _). p @ '' '') packages) @ ''-e target='' @ target)"

definition list_commands :: "string \<Rightarrow> string \<Rightarrow> exports \<Rightarrow> (string, string) smap" where
  "list_commands key filter_def exports =
     fold (\<lambda>(i, x) cs. smap_insert (<) (rule_name key i) (export_command key i filter_def x) cs)
       (zip [1..<Suc (length exports)] exports) []"

definition build_command_export_fields :: "installer_state \<Rightarrow> string \<Rightarrow> ipfix_template \<Rightarrow> string \<Rightarrow>
    (exc, (string, string) smap, unit) result" where
  "build_command_export_fields st key t filter_def =
     r_bind (collect_exports st key t (field_indices t) []) (\<lambda>exports _.
       Ret (list_commands key filter_def exports) ())"

text \<open>Declared \<open>throw ()\<close>\<close>

fun no_throw :: "(exc, 'a, 's) result \<Rightarrow> (exc, 'a, 's) result" where
  "no_throw (Exn e s) = Abort"
| "no_throw r = r"

definition create_postfield_command :: "byte_order \<Rightarrow> installer_state \<Rightarrow> string \<Rightarrow> ipfix_message \<Rightarrow>
    (exc, (string, string) smap, unit) result" where
  "create_postfield_command H st key message =
     no_throw
       (r_bind (get_filter_template message) (\<lambda>templ _.
        r_bind (case templ of
                  Some t \<Rightarrow> r_bind (build_command_filter_fields H st message t) (\<lambda>s _. Ret ('' '' @ s) ())
                | None \<Rightarrow> Ret '''' ()) (\<lambda>postfields _.
        r_bind (get_export_template message) (\<lambda>templ _.
        case templ of
          Some t \<Rightarrow> build_command_export_fields st key t postfields
        | None \<Rightarrow> Ret [] ()))))"

section \<open>Requests to the application\<close>

record http_request =
  hr_url :: string
  hr_userpwd :: string
  hr_postfields :: string

text \<open>
  What libcurl reports of a request: whether it has been performed, the text in the error
  buffer, and what the two queries for content type and response code return. The type is
  NULL if the server has not sent one.
\<close>

record curl_reply =
  cr_performed :: bool
  cr_error :: string
  cr_type_known :: bool
  cr_content_type :: "string option"
  cr_code_known :: bool

record 'c curl_ops =
  curl_easy_init :: "'c \<Rightarrow> bool \<times> 'c"
  curl_easy_perform :: "http_request \<Rightarrow> 'c \<Rightarrow> curl_reply \<times> 'c"
  curl_escape :: "string \<Rightarrow> string"
  c_strerror :: "int \<Rightarrow> string"

text \<open>The number behind the last colon of the error is replaced by its text.\<close>

definition get_err :: "'c curl_ops \<Rightarrow> string \<Rightarrow> string option" where
  "get_err C err =
     (let number = rev (takeWhile (\<lambda>c. c \<noteq> CHR '':'') (rev err))
      in if CHR '':'' \<in> set err \<and> length number + 1 < length err
         then map_option (\<lambda>n. take (length err - length number - 1) err @ '': '' @ c_strerror C n) (atoi number)
         else Some '''')"

definition connection_broken :: "string \<Rightarrow> exc" where
  "connection_broken m = Policy_Rule_Installer_Error m sc_signaling_session_failures sigfail_metering_connection_broken"

text \<open>
  The result is declared \<open>bool\<close> but never returned, nor used. The reply is only printed; the
  content type is compared with a string without a test for NULL.
\<close>

definition execute_command :: "'c curl_ops \<Rightarrow> installer_state \<Rightarrow> string \<Rightarrow> string \<Rightarrow> 'c \<Rightarrow> (exc, unit, 'c) result" where
  "execute_command C st action post_fields w =
     (let conf = is_config st;
          request = \<lparr>hr_url = ''http://'' @ nc_server conf @ '':'' @ show_int (sint (nc_port conf)) @ action,
            hr_userpwd = nc_user conf @ '':'' @ nc_password conf, hr_postfields = curl_escape C post_fields\<rparr>
      in case curl_easy_init C w of (ok, w) \<Rightarrow>
           if \<not> ok then Exn (connection_broken ''Error during policy installation'') w
           else case curl_easy_perform C request w of (reply, w) \<Rightarrow>
             if \<not> cr_performed reply \<or> \<not> cr_type_known reply \<or> \<not> cr_code_known reply
             then deref (get_err C (cr_error reply)) (\<lambda>m. Exn (connection_broken m) w)
             else deref (cr_content_type reply) (\<lambda>ctype. Ret () w))"

section \<open>Installing and removing rules\<close>

text \<open>A copy of an object has the header of a new one: its treatment is mandatory.\<close>

definition ipfix_object_copy :: "ipfix_message mspec_object \<Rightarrow> ipfix_message mspec_object option" where
  "ipfix_object_copy ob = map_option new_ipfix_object (ipfix_copy (ms_body ob))"

text \<open>An error of the application is printed; the rule is left out.\<close>

fun run_commands :: "'c curl_ops \<Rightarrow> installer_state \<Rightarrow> string \<Rightarrow> (string, string) smap \<Rightarrow> string list \<Rightarrow> 'c \<Rightarrow>
    (exc, string list, 'c) result" where
  "run_commands C st action [] rule_keys w = Ret rule_keys w"
| "run_commands C st action ((k, command) # cs) rule_keys w =
     (case execute_command C st action command w of
        Ret u w \<Rightarrow> run_commands C st action cs (rule_keys @ [k]) w
      | Exn (Policy_Rule_Installer_Error m sv c) w \<Rightarrow> run_commands C st action cs rule_keys w
      | Exn e w \<Rightarrow> Exn e w
      | Abort \<Rightarrow> Abort
      | Undef \<Rightarrow> Undef)"

definition create_action_command :: "ipfix_message \<Rightarrow> string" where
  "create_action_command message = ''/add_task''"

fun install_objects :: "byte_order \<Rightarrow> 'c curl_ops \<Rightarrow> installer_state \<Rightarrow> (mspec_rule_key \<Rightarrow> string) \<Rightarrow>
    (mspec_rule_key, ipfix_message mspec_object) smap \<Rightarrow> ipfix_message mt_policy_rule \<Rightarrow> 'c \<Rightarrow>
    (exc, ipfix_message mt_policy_rule, 'c) result" where
  "install_objects H C st to_str [] rule_return w = Ret rule_return w"
| "install_objects H C st to_str ((k, ob) # obs) rule_return w =
     r_bind (lift_state (\<lambda>_. w) (create_postfield_command H st (to_str k) (ms_body ob))) (\<lambda>commands w.
     r_bind (run_commands C st (create_action_command (ms_body ob)) commands [] w) (\<lambda>rule_keys w.
     if rule_keys \<noteq> []
     then deref (ipfix_object_copy ob) (\<lambda>ob'.
            install_objects H C st to_str obs
              (rule_set_commands k rule_keys (rule_set_object_at k (Some ob') rule_return)) w)
     else install_objects H C st to_str obs rule_return w))"

definition netmate_install :: "byte_order \<Rightarrow> 'c curl_ops \<Rightarrow> installer_state \<Rightarrow> (mspec_rule_key \<Rightarrow> string) \<Rightarrow>
    ipfix_message mt_policy_rule \<Rightarrow> 'c \<Rightarrow> (exc, ipfix_message mt_policy_rule option, 'c) result" where
  "netmate_install H C st to_str rule w =
     r_bind (install_objects H C st to_str (pr_objects rule) new_rule w) (\<lambda>r w. Ret (Some r) w)"

fun copy_objects :: "(mspec_rule_key, ipfix_message mspec_object) smap \<Rightarrow>
    (mspec_rule_key, ipfix_message mspec_object) smap option" where
  "copy_objects [] = Some []"
| "copy_objects ((k, ob) # obs) =
     Option.bind (ipfix_object_copy ob) (\<lambda>ob'. map_option (Cons (k, ob')) (copy_objects obs))"

definition ipfix_rule_copy :: "ipfix_message mt_policy_rule \<Rightarrow> ipfix_message mt_policy_rule option" where
  "ipfix_rule_copy r = map_option (\<lambda>obs. rule_copy (r\<lparr>pr_objects := obs\<rparr>)) (copy_objects (pr_objects r))"

fun remove_rules :: "'c curl_ops \<Rightarrow> installer_state \<Rightarrow> string list \<Rightarrow> string list \<Rightarrow> 'c \<Rightarrow> (exc, string list, 'c) result" where
  "remove_rules C st [] return_keys w = Ret return_keys w"
| "remove_rules C st (k # ks) return_keys w =
     (let postfields = ''RuleID='' @ rule_group @ ''.'' @ k
      in case execute_command C st ''/rm_task'' postfields w of
           Ret u w \<Rightarrow> remove_rules C st ks (return_keys @ [postfields]) w
         | Exn (Policy_Rule_Installer_Error m sv c) w \<Rightarrow> remove_rules C st ks return_keys w
         | Exn e w \<Rightarrow> Exn e w
         | Abort \<Rightarrow> Abort
         | Undef \<Rightarrow> Undef)"

text \<open>The list of the removed rules is not cleared between the objects.\<close>

fun remove_objects :: "'c curl_ops \<Rightarrow> installer_state \<Rightarrow> (mspec_rule_key, string list) smap \<Rightarrow> string list \<Rightarrow>
    ipfix_message mt_policy_rule \<Rightarrow> 'c \<Rightarrow> (exc, ipfix_message mt_policy_rule, 'c) result" where
  "remove_objects C st [] return_keys rule_return w = Ret rule_return w"
| "remove_objects C st ((k, keys) # ks) return_keys rule_return w =
     r_bind (remove_rules C st keys return_keys w) (\<lambda>return_keys w.
       remove_objects C st ks return_keys (rule_set_commands k return_keys rule_return) w)"

definition netmate_remove :: "'c curl_ops \<Rightarrow> installer_state \<Rightarrow> ipfix_message mt_policy_rule \<Rightarrow> 'c \<Rightarrow>
    (exc, ipfix_message mt_policy_rule option, 'c) result" where
  "netmate_remove C st rule w =
     deref (ipfix_rule_copy rule) (\<lambda>r.
       r_bind (remove_objects C st (pr_rule_keys rule) [] (rule_clear_commands r) w) (\<lambda>r w. Ret (Some r) w))"

definition netmate_remove_all :: "'c curl_ops \<Rightarrow> installer_state \<Rightarrow> 'c \<Rightarrow> (exc, bool, 'c) result" where
  "netmate_remove_all C st w =
     (case execute_command C st ''/rm_task'' (''RuleID='' @ rule_group) w of
        Ret u w \<Rightarrow> Ret True w
      | Exn (Policy_Rule_Installer_Error m sv c) w \<Rightarrow> Ret False w
      | Exn e w \<Rightarrow> Exn e w
      | Abort \<Rightarrow> Abort
      | Undef \<Rightarrow> Undef)"

section \<open>Loops over the fields of a template\<close>

definition template_fields :: "ipfix_template \<Rightarrow> field_type list" where
  "template_fields t = map tf_elem (tp_datafields t)"

lemma upto_upt: "[0..int n - 1] = map int [0..<n]"
  by (induction n) (simp_all add: upto_rec2)

lemma field_indices_upt: "tp_scopefields t = [] \<Longrightarrow> field_indices t = map int [0..<length (template_fields t)]"
  by (simp add: field_indices_def get_numfields_def upto_upt template_fields_def)

lemma field_at_nth:
  assumes "tp_scopefields t = []" and "j < length (template_fields t)"
  shows "field_at t (int j) = Ret (template_fields t ! j) ()"
  using assms by (simp add: field_at_def get_template_field_def get_numfields_def get_number_scopefields_def
      template_fields_def)

text \<open>A loop over the indices is one over the fields.\<close>

lemma field_loop:
  assumes t: "tp_scopefields t = []"
    and step: "\<And>i f is s. field_at t i = Ret f () \<Longrightarrow> loop (i # is) s = body f (\<lambda>s. loop is s) s"
    and lstep: "\<And>f fs s. lloop (f # fs) s = body f (\<lambda>s. lloop fs s) s"
    and nil: "\<And>s. loop [] s = lloop [] s"
  shows "loop (field_indices t) s = lloop (template_fields t) s"
proof -
  let ?n = "length (template_fields t)"
  have "loop (map int [j..<?n]) s = lloop (drop j (template_fields t)) s" if "j \<le> ?n" for j s
    using that
  proof (induction "?n - j" arbitrary: j s)
    case 0
    then show ?case using nil by simp
  next
    case (Suc k)
    then have j: "j < ?n" by simp
    have IH: "loop (map int [Suc j..<?n]) s = lloop (drop (Suc j) (template_fields t)) s" for s
      using Suc by simp
    have "loop (map int [j..<?n]) s = loop (int j # map int [Suc j..<?n]) s" using j by (simp add: upt_rec)
    also have "\<dots> = body (template_fields t ! j) (\<lambda>s. lloop (drop (Suc j) (template_fields t)) s) s"
      using step [OF field_at_nth [OF t j]] IH by simp
    also have "\<dots> = lloop (template_fields t ! j # drop (Suc j) (template_fields t)) s" using lstep by simp
    finally show ?case using j by (simp add: Cons_nth_drop_Suc)
  qed
  from this [of 0 s] show ?thesis by (simp add: field_indices_upt [OF t])
qed

text \<open>The two configuration files have been loaded, and every action has a priority.\<close>

definition loaded :: "installer_state \<Rightarrow> app_container \<Rightarrow> action_container \<Rightarrow> bool" where
  "loaded st A c \<longleftrightarrow> is_apps st = Some A \<and> is_actions st = Some c \<and> container_wf c \<and>
     list_all (\<lambda>(k, a). pa_priority a \<noteq> None) c"

definition offered :: "string \<Rightarrow> field_type \<Rightarrow> action_container \<Rightarrow> bool" where
  "offered app f c \<longleftrightarrow> list_ex (\<lambda>(k, a). action_check_field app f a) c"

lemma container_check_offered:
  assumes "loaded st A c"
  shows "container_check_field app f c = Some (offered app f c)"
proof -
  have d: "distinct (map fst c)" and p: "list_all (\<lambda>(k, a). pa_priority a \<noteq> None) c"
    using assms by (simp_all add: loaded_def container_wf_def str_wf_distinct)
  then show ?thesis
    by (force simp: container_check_field_def ordered_actions_search [OF p] list_ex_iff set_search_order [OF d] offered_def)
qed

lemma field_queries:
  assumes "loaded st A c"
  shows "is_export_field st f = Ret (app_is_export_field (metering_application st) f A) ()"
    and "is_filter_field st f = Ret (app_is_filter_field (metering_application st) f A) ()"
    and "is_action_field st f = Ret (offered (metering_application st) f c) ()"
    and "get_app_container st = Ret A ()" and "get_action_container st = Ret c ()"
  using assms container_check_offered [OF assms]
  by (simp_all add: is_export_field_def is_filter_field_def is_action_field_def get_app_container_def
      get_action_container_def loaded_def)

lemma all_fields_pure:
  assumes "tp_scopefields t = []" and "\<And>f. P f = Ret (p f) ()"
  shows "all_fields P t (field_indices t) = Ret (list_all p (template_fields t)) ()"
proof -
  have "all_fields P t (field_indices t) = (\<lambda>fs s. Ret (list_all p fs) ()) (template_fields t) ()"
  proof (rule field_loop [where loop = "\<lambda>is s. all_fields P t is" and s = "()"
        and body = "\<lambda>f k s. if p f then k s else Ret False ()"])
  qed (use assms in auto)
  then show ?thesis by simp
qed

definition record_complete :: "ipfix_template \<Rightarrow> data_record \<Rightarrow> bool" where
  "record_complete t r \<longleftrightarrow> get_num_fields r = get_numfields t \<and>
     list_all (\<lambda>f. get_field_value r (get_field_key f) \<noteq> None) (template_fields t)"

text \<open>The records of the template, of which there is one, are complete.\<close>

definition records_complete :: "ipfix_template \<Rightarrow> data_record list \<Rightarrow> bool" where
  "records_complete t rs \<longleftrightarrow> (\<exists>r \<in> set rs. dr_template_id r = tp_tid t) \<and>
     list_all (record_complete t) (filter (\<lambda>r. dr_template_id r = tp_tid t) rs)"

lemma record_has_fields_pure:
  assumes "tp_scopefields t = []"
  shows "record_has_fields t r [0..get_numfields t - 1] =
    Ret (list_all (\<lambda>f. get_field_value r (get_field_key f) \<noteq> None) (template_fields t)) ()"
proof -
  have "record_has_fields t r (field_indices t) =
      (\<lambda>fs s. Ret (list_all (\<lambda>f. get_field_value r (get_field_key f) \<noteq> None) fs) ()) (template_fields t) ()"
  proof (rule field_loop [where loop = "\<lambda>is s. record_has_fields t r is" and s = "()"
        and body = "\<lambda>f k s. if get_field_value r (get_field_key f) \<noteq> None then k s else Ret False ()", OF assms])
    fix i f "is" s
    assume "field_at t i = Ret f ()"
    then obtain g where "get_template_field t i = Ret g ()" "f = tf_elem g"
      by (cases "get_template_field t i") (auto simp: field_at_def)
    then show "record_has_fields t r (i # is) =
        (if get_field_value r (get_field_key f) \<noteq> None then record_has_fields t r is else Ret False ())" by simp
  qed auto
  then show ?thesis by (simp add: field_indices_def)
qed

lemma include_all_from_pure:
  assumes "tp_scopefields t = []"
  shows "include_all_from found t rs =
    Ret (if list_all (record_complete t) (filter (\<lambda>r. dr_template_id r = tp_tid t) rs)
      then found \<or> (\<exists>r \<in> set rs. dr_template_id r = tp_tid t) else False) ()"
  by (induction rs arbitrary: found) (auto simp: record_has_fields_pure [OF assms] record_complete_def)

lemma include_all_pure:
  assumes "tp_scopefields t = []"
  shows "include_all_data_fields t m = Ret (records_complete t (im_data_list m)) ()"
  by (auto simp: include_all_data_fields_def include_all_from_pure [OF assms] records_complete_def)


section \<open>What an admitted object is\<close>

text \<open>The two templates of a message of two: each search falls back on the last one.\<close>

definition export_of :: "ipfix_template \<Rightarrow> ipfix_template \<Rightarrow> ipfix_template" where
  "export_of t u = (if tp_type t = DATA_TEMPLATE then t else u)"

definition filter_of :: "ipfix_template \<Rightarrow> ipfix_template \<Rightarrow> ipfix_template" where
  "filter_of t u = (if tp_type t = OPTION_TEMPLATE then t else u)"

text \<open>A message of two templates without scope fields\<close>

definition two_templates :: "ipfix_message \<Rightarrow> ipfix_template \<Rightarrow> ipfix_template \<Rightarrow> bool" where
  "two_templates m t u \<longleftrightarrow> message_templates m = Ret [t, u] () \<and>
     tp_scopefields t = [] \<and> tp_scopefields u = []"

definition exportable :: "installer_state \<Rightarrow> app_container \<Rightarrow> action_container \<Rightarrow> field_type \<Rightarrow> bool" where
  "exportable st A c f \<longleftrightarrow>
     app_is_export_field (metering_application st) f A \<and> offered (metering_application st) f c"

lemma two_templates_search:
  assumes "two_templates m t u"
  shows "get_export_template m = Ret (Some (export_of t u)) ()"
    and "get_filter_template m = Ret (Some (filter_of t u)) ()"
    and "tp_scopefields (export_of t u) = []" and "tp_scopefields (filter_of t u) = []"
  using assms by (auto simp: two_templates_def get_export_template_def get_filter_template_def export_of_def filter_of_def)

lemma handle_export_pure:
  assumes "loaded st A c" and "tp_scopefields t = []"
  shows "handle_export_fields st t = Ret (list_all (exportable st A c) (template_fields t)) ()"
  unfolding handle_export_fields_def
  by (rule all_fields_pure [OF assms(2)]) (simp add: field_queries [OF assms(1)] exportable_def)

lemma handle_filter_pure:
  assumes "loaded st A c" and "tp_scopefields t = []"
  shows "handle_filter_fields st t =
    Ret (list_all (\<lambda>f. app_check_field (metering_application st) f A) (template_fields t)) ()"
  unfolding handle_filter_fields_def
  by (rule all_fields_pure [OF assms(2)]) (simp add: field_queries [OF assms(1)])

lemma netmate_check_cases:
  assumes "loaded st A c" and "two_templates m t u"
  shows "netmate_check st m =
    (if \<not> list_all (exportable st A c) (template_fields (export_of t u))
     then invalid_message sigfail_rule_action_not_applicable
     else if \<not> records_complete (filter_of t u) (im_data_list m)
     then invalid_message sigfail_wrong_conf_message
     else if \<not> list_all (\<lambda>f. app_check_field (metering_application st) f A) (template_fields (filter_of t u))
     then invalid_message sigfail_filter_action_not_applicable
     else Ret () ())"
  using assms(2)
  by (simp add: netmate_check_def two_templates_search [OF assms(2)] two_templates_def include_all_pure
      handle_export_pure [OF assms(1)] handle_filter_pure [OF assms(1)])


text \<open>
  C17: The check of an object with two templates, as a function of the loaded configuration: an
  export field that is not configured or that no action offers is refused first, with code 6; then
  a filter template without records, or with a record that lacks a field, with code 7; then a
  filter field that is not configured, with code 8; anything else is admitted.
\<close>

theorem netmate_check_exact:
  assumes "loaded st A c" and "two_templates m t u"
  shows "netmate_check st m =
    (if \<not> list_all (exportable st A c) (template_fields (export_of t u))
     then invalid_message sigfail_rule_action_not_applicable
     else if \<not> records_complete (filter_of t u) (im_data_list m)
     then invalid_message sigfail_wrong_conf_message
     else if \<not> list_all (\<lambda>f. app_check_field (metering_application st) f A) (template_fields (filter_of t u))
     then invalid_message sigfail_filter_action_not_applicable
     else Ret () ())"
  by (rule netmate_check_cases [OF assms])

text \<open>The example: a meter that exports the flows of a source port\<close>

definition ex_state :: installer_state where
  "ex_state = \<lparr>is_config = \<lparr>cf_dispatcher_threads = 1, cf_ni_max_session_lifetime = 30, cf_ni_max_retries = 3,
       cf_ni_response_timeout = 2, cf_ni_msg_hop_count = 20, cf_nf_max_session_lifetime = 60,
       cf_nf_response_timeout = 2, cf_is_ms_meter = True, cf_ms_install_policy_rules = True,
       cf_nr_max_session_lifetime = 60, nc_configuration_file = ''conf.xml'', nc_export_config_file = ''export.xml'',
       nc_metering_application = ''netmate'', nc_user = ''u'', nc_password = ''p'', nc_server = ''meter'',
       nc_port = 12244, nc_export_directory = ''/var/''\<rparr>,
     is_actions = Some [(''flow'', ex_action)], is_apps = Some [(''netmate'', ex_mapping)]\<rparr>"

definition ex_template :: "templ_type \<Rightarrow> u16 \<Rightarrow> ipfix_template" where
  "ex_template ty tid = \<lparr>tp_type = ty, tp_tsend = 0, tp_tid = tid, tp_maxfields = 1,
     tp_datafields = [\<lparr>tf_flength = 2, tf_unknown = KNOWN, tf_relay = False, tf_elem = ex_port\<rparr>], tp_scopefields = []\<rparr>"

definition ex_record :: "u16 \<Rightarrow> data_record" where
  "ex_record v = \<lparr>dr_template_id = 257, dr_field_data = [(ex_key, new_value_field\<lparr>vf_value16 := v, vf_length := 2\<rparr>)]\<rparr>"

definition ex_metering :: "templ_type \<Rightarrow> data_record list \<Rightarrow> ipfix_message" where
  "ex_metering ty rs =
     (blank_ipfix_message True None)\<lparr>im_message := Ptr (new_ipfix_raw\<lparr>ip_templates :=
       [(256, ex_template DATA_TEMPLATE 256), (257, ex_template ty 257)]\<rparr>), im_data_list := rs\<rparr>"

lemma ex_loaded: "loaded ex_state [(''netmate'', ex_mapping)] [(''flow'', ex_action)]"
  using ex_container_wf by (simp add: loaded_def ex_state_def ex_action_def)

lemma ex_two_templates:
  "two_templates (ex_metering ty rs) (ex_template DATA_TEMPLATE 256) (ex_template ty 257)"
  by (simp add: two_templates_def ex_metering_def message_templates_def ex_template_def)

lemma ex_admitted:
  "list_all (exportable ex_state [(''netmate'', ex_mapping)] [(''flow'', ex_action)])
     (template_fields (export_of (ex_template DATA_TEMPLATE 256) (ex_template ty 257)))"
  "records_complete (filter_of (ex_template DATA_TEMPLATE 256) (ex_template ty 257))
     (im_data_list (ex_metering ty [ex_record 80]))"
  "list_all (\<lambda>f. app_check_field (metering_application ex_state) f [(''netmate'', ex_mapping)])
     (template_fields (filter_of (ex_template DATA_TEMPLATE 256) (ex_template ty 257)))"
proof -
  have f: "template_fields (ex_template ty n) = [ex_port]" for ty n by (simp add: template_fields_def ex_template_def)
  have e: "template_fields (export_of (ex_template DATA_TEMPLATE 256) (ex_template ty 257)) = [ex_port]" for ty
    by (simp add: export_of_def f)
  have g: "filter_of (ex_template DATA_TEMPLATE 256) (ex_template ty 257) = ex_template ty 257" for ty
    by (simp add: filter_of_def ex_template_def)
  have d: "im_data_list (ex_metering ty rs) = rs" for ty rs by (simp add: ex_metering_def)
  have "list_all (exportable ex_state [(''netmate'', ex_mapping)] [(''flow'', ex_action)]) [ex_port]"
    "list_all (\<lambda>f. app_check_field (metering_application ex_state) f [(''netmate'', ex_mapping)]) [ex_port]"
    "records_complete (ex_template DATA_TEMPLATE 257) [ex_record 80]"
    "records_complete (ex_template OPTION_TEMPLATE 257) [ex_record 80]" by code_simp+
  then show "list_all (exportable ex_state [(''netmate'', ex_mapping)] [(''flow'', ex_action)])
     (template_fields (export_of (ex_template DATA_TEMPLATE 256) (ex_template ty 257)))"
    "records_complete (filter_of (ex_template DATA_TEMPLATE 256) (ex_template ty 257))
       (im_data_list (ex_metering ty [ex_record 80]))"
    "list_all (\<lambda>f. app_check_field (metering_application ex_state) f [(''netmate'', ex_mapping)])
       (template_fields (filter_of (ex_template DATA_TEMPLATE 256) (ex_template ty 257)))"
    unfolding e f g d by (cases ty; simp)+
qed

lemma ex_checked: "netmate_check ex_state (ex_metering ty [ex_record 80]) = Ret () ()"
  using ex_admitted [of ty] by (simp add: netmate_check_cases [OF ex_loaded ex_two_templates])

text \<open>Two data templates are admitted as well: the last one serves as the filter template.\<close>

theorem netmate_check_exact_witness:
  "netmate_check ex_state (ex_metering OPTION_TEMPLATE [ex_record 80]) = Ret () () \<and>
   netmate_check ex_state (ex_metering DATA_TEMPLATE [ex_record 80]) = Ret () () \<and>
   netmate_check ex_state (ex_metering OPTION_TEMPLATE []) = invalid_message 7"
proof -
  have "\<not> records_complete t (im_data_list (ex_metering OPTION_TEMPLATE []))" for t
    by (simp add: records_complete_def ex_metering_def)
  then show ?thesis
    using ex_admitted by (simp add: netmate_check_exact [OF ex_loaded ex_two_templates])
qed

section \<open>The filter of a command\<close>

fun clauses :: "byte_order \<Rightarrow> installer_state \<Rightarrow> app_container \<Rightarrow> ipfix_message \<Rightarrow> ipfix_template \<Rightarrow> field_type list \<Rightarrow>
    (string, string) smap \<Rightarrow> (exc, (string, string) smap, unit) result" where
  "clauses H st A m t [] cs = Ret cs ()"
| "clauses H st A m t (f # fs) cs =
     (if app_is_filter_field (metering_application st) f A
      then r_bind (ipfix_or_abort (get_field_data_values H t f m)) (\<lambda>values _. clauses H st A m t fs
        (print_filter_values (app_field_traslate (metering_application st) f A) True '','' values cs))
      else clauses H st A m t fs cs)"

lemma collect_filters_pure:
  assumes "loaded st A c" and "tp_scopefields t = []"
  shows "collect_filters H st m t (field_indices t) cs = clauses H st A m t (template_fields t) cs"
proof (rule field_loop [where loop = "collect_filters H st m t" and lloop = "clauses H st A m t" and s = cs
      and body = "\<lambda>f k cs. if app_is_filter_field (metering_application st) f A
        then r_bind (ipfix_or_abort (get_field_data_values H t f m)) (\<lambda>values _.
          k (print_filter_values (app_field_traslate (metering_application st) f A) True '','' values cs))
        else k cs", OF assms(2)])
qed (simp_all add: field_queries [OF assms(1)])

text \<open>Only the first value has an effect: the key of the further ones is there already.\<close>

lemma print_further_values:
  assumes "smap_wf (<) cs" and "smap_find (<) key cs \<noteq> None"
  shows "print_filter_values key False comma vs cs = (cs :: (string, string) smap)"
  using assms
  by (induction vs arbitrary: comma) (auto simp: smap_insert_def)

lemma print_first_value:
  assumes "smap_wf (<) cs"
  shows "print_filter_values key False comma vs (smap_insert (<) key v cs) = (smap_insert (<) key v cs :: (string, string) smap)"
  using assms
  by (simp add: print_further_values [OF str.wf_insert] str.find_insert equiv_key_def split: option.split)

text \<open>The values of a field, in all records of the template\<close>

definition record_printable :: "byte_order \<Rightarrow> ipfix_template \<Rightarrow> data_record \<Rightarrow> bool" where
  "record_printable H t r \<longleftrightarrow> list_all (\<lambda>f. case get_field_value r (get_field_key f) of
     None \<Rightarrow> False | Some v \<Rightarrow> print_value H f v \<noteq> None) (template_fields t)"

lemma record_printableD:
  assumes "record_printable H t r" and "f \<in> set (template_fields t)"
  shows "\<exists>v s. get_field_value r (get_field_key f) = Some v \<and> print_value H f v = Some s"
proof -
  from assms have "case get_field_value r (get_field_key f) of
     None \<Rightarrow> False | Some v \<Rightarrow> print_value H f v \<noteq> None"
    by (simp add: record_printable_def list_all_iff)
  then show ?thesis by (simp split: option.splits)
qed

lemma field_data_values_printable:
  assumes "list_all (record_printable H t) (filter (\<lambda>r. dr_template_id r = tp_tid t) rs)"
    and "f \<in> set (template_fields t)"
  shows "\<exists>vs. field_data_values_from H t f rs = Ret vs ()"
  using assms
proof (induction rs)
  case (Cons r rs)
  then show ?case
  proof (cases "dr_template_id r = tp_tid t")
    case True
    then obtain v s where "get_field_value r (get_field_key f) = Some v" "print_value H f v = Some s"
      using record_printableD [of H t r f] Cons.prems by auto
    moreover obtain vs where "field_data_values_from H t f rs = Ret vs ()"
      using Cons.IH Cons.prems True by auto
    ultimately show ?thesis using True by simp
  qed simp
qed simp

lemma clauses_first_record:
  assumes r: "dr_template_id r = tp_tid t"
    and p: "list_all (record_printable H t) (filter (\<lambda>r. dr_template_id r = tp_tid t) (r # rs))"
    and fs: "set fs \<subseteq> set (template_fields t)" and cs: "smap_wf (<) cs"
  shows "clauses H st A (m\<lparr>im_data_list := r # rs\<rparr>) t fs cs = clauses H st A (m\<lparr>im_data_list := [r]\<rparr>) t fs cs"
  using fs cs
proof (induction fs arbitrary: cs)
  case (Cons f fs)
  obtain v s where v: "get_field_value r (get_field_key f) = Some v" "print_value H f v = Some s"
    using record_printableD [of H t r f] p r Cons.prems by auto
  obtain vs where vs: "field_data_values_from H t f rs = Ret vs ()"
    using field_data_values_printable [of H t rs f] p r Cons.prems by auto
  show ?case
    using Cons r v vs by (auto simp: get_field_data_values_def print_first_value str.wf_insert)
qed simp

text \<open>
  C30: A filter template can have several records, and the check looks at all of them; but the
  filter of the rule is that of the first record. The values of the other ones are to be appended
  behind a comma, with \<open>insert\<close>, which leaves the value that is there.
\<close>

theorem filter_of_first_record:
  assumes "loaded st A c" and "tp_scopefields t = []" and "dr_template_id r = tp_tid t"
    and "list_all (record_printable H t) (filter (\<lambda>r. dr_template_id r = tp_tid t) (r # rs))"
  shows "build_command_filter_fields H st (m\<lparr>im_data_list := r # rs\<rparr>) t =
         build_command_filter_fields H st (m\<lparr>im_data_list := [r]\<rparr>) t"
  by (simp add: build_command_filter_fields_def collect_filters_pure [OF assms(1,2)]
      clauses_first_record [OF assms(3,4)])

theorem filter_of_first_record_witness:
  "build_command_filter_fields Little_Endian ex_state (ex_metering OPTION_TEMPLATE [ex_record 80, ex_record 22])
     (ex_template OPTION_TEMPLATE 257) =
   build_command_filter_fields Little_Endian ex_state (ex_metering OPTION_TEMPLATE [ex_record 80])
     (ex_template OPTION_TEMPLATE 257)"
proof -
  have 1: "list_all (record_printable Little_Endian (ex_template OPTION_TEMPLATE 257)) [ex_record 80, ex_record 22]"
    by code_simp
  have u: "(ex_metering OPTION_TEMPLATE [])\<lparr>im_data_list := rs\<rparr> = ex_metering OPTION_TEMPLATE rs" for rs
    by (simp add: ex_metering_def)
  have 2: "tp_scopefields (ex_template OPTION_TEMPLATE 257) = []" "dr_template_id (ex_record v) = 257"
    "tp_tid (ex_template OPTION_TEMPLATE 257) = 257" for v
    by (simp_all add: ex_template_def ex_record_def)
  show ?thesis
    using filter_of_first_record [OF ex_loaded 2(1), of "ex_record 80" Little_Endian "[ex_record 22]" "ex_metering OPTION_TEMPLATE []"]
      1 2 by (simp add: u)
qed

text \<open>
  C31: The value of an unsigned field in a filter is cut to as many digits as the field has bytes:
  the buffer it is printed to is one byte longer than the field. A filter for the protocol 17
  becomes one for the protocol 1.
\<close>

theorem filter_value_truncated:
  assumes "ft_coding f = coding_uint" and "vf_length v = ft_length f" and "ft_length f \<in> {1, 2, 4, 8}"
  shows "print_value H f v = Some (take (nat (ft_length f)) (show_int
    (if ft_length f = 1 then uint (vf_value8 v) else if ft_length f = 2 then uint (vf_value16 v)
     else if ft_length f = 4 then uint (vf_value32 v) else uint (vf_value64 v))))"
proof -
  have "print_value H f v = ipfix_snprint_uint (nat (ft_length f + 1)) v"
    using assms(1) by (simp add: print_value_def snprint_def coding_int_def coding_uint_def coding_ipaddr_def)
  moreover have "nat (ft_length f + 1) = Suc (nat (ft_length f))" using assms(3) by auto
  ultimately show ?thesis
    using assms(2,3) by (auto simp only: ipfix_snprint_uint_def snprintf_def insert_iff empty_iff diff_Suc_1 nat.simps
      split: if_split)
qed

theorem filter_value_truncated_witness:
  "print_value Little_Endian ex_port (new_value_field\<lparr>vf_value16 := 8080, vf_length := 2\<rparr>) = Some ''80''"
proof -
  let ?v = "new_value_field\<lparr>vf_value16 := 8080, vf_length := 2\<rparr>"
  have "show_digit 8 = CHR ''8''" "show_digit 0 = CHR ''0''" by code_simp+
  then have s: "take (nat 2) (show_int (uint (8080 :: 16 word))) = ''80''"
    by (simp add: show_int_def show_base.simps)
  have p: "ft_coding ex_port = coding_uint" "ft_length ex_port = 2" by (simp_all add: ex_port_def)
  have v: "vf_length ?v = 2" "vf_value16 ?v = 8080" by simp_all
  have 2: "2 \<in> {1, 2, 4, 8 :: int}" "(2 = (1 :: int)) = False" by simp_all
  show "print_value Little_Endian ex_port ?v = Some ''80''"
    using filter_value_truncated [of ex_port ?v Little_Endian] by (simp only: p v 2 s if_True if_False simp_thms)
qed

end
