(* ===== verification/Netmate_Rules.thy ===== *)
theory Netmate_Rules
  imports Netmate_Installer "HOL-Library.Sublist"
begin

text \<open>
  What the netmate installer makes of a rule: the outcome of its requests, the commands and their
  names, the rule it returns from \<open>install\<close> and \<open>remove\<close>, and the contract of an installer that
  holds on the rules whose objects the node has checked.
\<close>

section \<open>Requests\<close>

text \<open>
  A reply that arrives names a content type; and the number behind the last colon of an error is
  in the range of \<open>int\<close>.
\<close>

definition reply_ok :: "'c curl_ops \<Rightarrow> curl_reply \<Rightarrow> bool" where
  "reply_ok C reply \<longleftrightarrow>
     (if cr_performed reply \<and> cr_type_known reply \<and> cr_code_known reply then cr_content_type reply \<noteq> None
      else get_err C (cr_error reply) \<noteq> None)"

definition answers :: "'c curl_ops \<Rightarrow> bool" where
  "answers C \<longleftrightarrow> (\<forall>q w. reply_ok C (fst (curl_easy_perform C q w)))"

lemma execute_outcome:
  assumes "answers C"
  shows "(\<exists>w'. execute_command C st action p w = Ret () w') \<or>
    (\<exists>m w'. execute_command C st action p w = Exn (connection_broken m) w')"
proof -
  obtain ok w1 where i: "curl_easy_init C w = (ok, w1)" by (cases "curl_easy_init C w")
  define q where "q = \<lparr>hr_url = ''http://'' @ nc_server (is_config st) @ '':'' @ show_int (sint (nc_port (is_config st))) @ action,
    hr_userpwd = nc_user (is_config st) @ '':'' @ nc_password (is_config st), hr_postfields = curl_escape C p\<rparr>"
  obtain reply w2 where p: "curl_easy_perform C q w1 = (reply, w2)" by (cases "curl_easy_perform C q w1")
  then have "reply_ok C reply" using assms unfolding answers_def by (metis fst_conv)
  then show ?thesis using i p by (auto simp: execute_command_def Let_def q_def reply_ok_def split: if_splits)
qed

lemma execute_cases [consumes 1, case_names performed refused]:
  assumes "answers C"
  obtains (performed) w' where "execute_command C st action p w = Ret () w'"
  | (refused) m w' where "execute_command C st action p w = Exn (connection_broken m) w'"
  using execute_outcome [OF assms, of st action p w] by blast

lemma run_commands_outcome:
  assumes "answers C"
  shows "\<exists>ks w'. run_commands C st action cs rule_keys w = Ret (rule_keys @ ks) w' \<and> subseq ks (map fst cs)"
proof (induction cs arbitrary: rule_keys w)
  case (Cons c cs)
  obtain k command where c: "c = (k, command)" by (cases c)
  from assms show ?case
  proof (cases rule: execute_cases [of C st action command w])
    case (performed w')
    from Cons.IH [of "rule_keys @ [k]" w'] show ?thesis using performed c by auto
  next
    case (refused m w')
    from Cons.IH [of rule_keys w'] show ?thesis using refused c by (auto simp: connection_broken_def intro: list_emb_Cons)
  qed
qed simp

lemma remove_rules_outcome:
  assumes "answers C"
  shows "\<exists>ks w'. remove_rules C st keys return_keys w = Ret (return_keys @ ks) w' \<and>
    subseq ks (map (\<lambda>k. ''RuleID='' @ rule_group @ ''.'' @ k) keys)"
proof (induction keys arbitrary: return_keys w)
  case (Cons k keys)
  let ?p = "''RuleID='' @ rule_group @ ''.'' @ k"
  from assms show ?case
  proof (cases rule: execute_cases [of C st "''/rm_task''" ?p w])
    case (performed w')
    from Cons.IH [of "return_keys @ [?p]" w'] show ?thesis using performed by auto
  next
    case (refused m w')
    from Cons.IH [of return_keys w'] show ?thesis
      using refused by (auto simp: connection_broken_def Let_def intro: list_emb_Cons)
  qed
qed simp

section \<open>The rule that is installed\<close>

text \<open>The rule with the entries of a list: key, object and commands\<close>

type_synonym installed = "(mspec_rule_key \<times> ipfix_message mspec_object \<times> string list) list"

definition rule_of :: "installed \<Rightarrow> ipfix_message mt_policy_rule" where
  "rule_of sel = \<lparr>pr_objects = map (\<lambda>(k, ob, ks). (k, ob)) sel, pr_rule_keys = map (\<lambda>(k, ob, ks). (k, ks)) sel\<rparr>"

definition add_installed :: "installed \<Rightarrow> ipfix_message mt_policy_rule \<Rightarrow> ipfix_message mt_policy_rule" where
  "add_installed sel = fold (\<lambda>(k, ob, ks) r. rule_set_commands k ks (rule_set_object_at k (Some ob) r)) sel"

lemma add_installed_fold:
  "add_installed sel r = r\<lparr>
     pr_objects := fold (\<lambda>(k, v). smap_set mspec_rule_key_less k v) (map (\<lambda>(k, ob, ks). (k, ob)) sel) (pr_objects r),
     pr_rule_keys := fold (\<lambda>(k, v). smap_insert mspec_rule_key_less k v) (map (\<lambda>(k, ob, ks). (k, ks)) sel) (pr_rule_keys r)\<rparr>"
  unfolding add_installed_def
  by (induction sel arbitrary: r) (auto simp: rule_set_commands_def rule_set_object_at_def)

lemma smap_wf_keys: "map fst m = map fst n \<Longrightarrow> smap_wf lt m \<longleftrightarrow> smap_wf lt n"
  unfolding smap_wf_def by (simp only:)

lemma add_installed_new:
  assumes "sorted_wrt mspec_rule_key_less (map fst sel)"
  shows "add_installed sel new_rule = rule_of sel" and "rule_wf (rule_of sel)"
proof -
  have k: "map fst (map (\<lambda>(k, ob, ks). (k, ob)) sel) = map fst sel"
    "map fst (map (\<lambda>(k, ob, ks). (k, ks)) sel) = map fst sel" by (induction sel) auto
  have "smap_wf mspec_rule_key_less (map (\<lambda>(k, ob, ks). (k, ob)) sel)"
    "smap_wf mspec_rule_key_less (map (\<lambda>(k, ob, ks). (k, ks)) sel)"
    using assms unfolding smap_wf_def k by simp_all
  then show "add_installed sel new_rule = rule_of sel" "rule_wf (rule_of sel)"
    by (simp_all add: add_installed_fold new_rule_def rule_of_def rk.rebuild rk.rebuild_insert rule_wf_def)
qed


text \<open>The commands of an object can be made, and the object copied.\<close>

definition object_installable :: "byte_order \<Rightarrow> installer_state \<Rightarrow> (mspec_rule_key \<Rightarrow> string) \<Rightarrow>
    mspec_rule_key \<times> ipfix_message mspec_object \<Rightarrow> bool" where
  "object_installable H st to_str = (\<lambda>(k, ob).
     (case create_postfield_command H st (to_str k) (ms_body ob) of Ret cs u \<Rightarrow> True | _ \<Rightarrow> False) \<and>
     ipfix_object_copy ob \<noteq> None)"

definition installable :: "byte_order \<Rightarrow> installer_state \<Rightarrow> (mspec_rule_key \<Rightarrow> string) \<Rightarrow>
    ipfix_message mt_policy_rule \<Rightarrow> bool" where
  "installable H st to_str r \<longleftrightarrow> list_all (object_installable H st to_str) (pr_objects r)"

text \<open>An entry of the rule that is returned: a copy of the object, with some of its commands\<close>

definition installed_as :: "byte_order \<Rightarrow> installer_state \<Rightarrow> (mspec_rule_key \<Rightarrow> string) \<Rightarrow>
    (mspec_rule_key, ipfix_message mspec_object) smap \<Rightarrow>
    mspec_rule_key \<times> ipfix_message mspec_object \<times> string list \<Rightarrow> bool" where
  "installed_as H st to_str obs = (\<lambda>(k, ob', ks). ks \<noteq> [] \<and>
     (\<exists>ob cs. (k, ob) \<in> set obs \<and> ipfix_object_copy ob = Some ob' \<and>
        create_postfield_command H st (to_str k) (ms_body ob) = Ret cs () \<and> subseq ks (map fst cs)))"

lemma object_installableE:
  assumes "object_installable H st to_str (k, ob)"
  obtains cs ob' where "create_postfield_command H st (to_str k) (ms_body ob) = Ret cs ()"
    and "ipfix_object_copy ob = Some ob'"
  using assms by (auto simp: object_installable_def split: result.splits)

lemma installed_as_mono:
  "installed_as H st to_str obs x \<Longrightarrow> installed_as H st to_str (p # obs) x"
  by (auto simp: installed_as_def)

lemma install_objects_outcome:
  assumes C: "answers C" and "list_all (object_installable H st to_str) obs"
  shows "\<exists>sel w'. install_objects H C st to_str obs r w = Ret (add_installed sel r) w' \<and>
    subseq (map fst sel) (map fst obs) \<and> list_all (installed_as H st to_str obs) sel"
  using assms(2)
proof (induction obs arbitrary: r w)
  case (Cons p obs)
  obtain k ob where p: "p = (k, ob)" by (cases p)
  from Cons.prems obtain cs ob' where ob: "create_postfield_command H st (to_str k) (ms_body ob) = Ret cs ()"
    "ipfix_object_copy ob = Some ob'" unfolding p by (auto elim: object_installableE)
  obtain ks w1 where run: "run_commands C st (create_action_command (ms_body ob)) cs [] w = Ret ks w1"
    "subseq ks (map fst cs)"
    using run_commands_outcome [OF C, of st "create_action_command (ms_body ob)" cs "[]" w] by auto
  have prems: "list_all (object_installable H st to_str) obs" using Cons.prems by simp
  show ?case
  proof (cases "ks = []")
    case True
    from Cons.IH [OF prems, of r w1] obtain sel w' where
      "install_objects H C st to_str obs r w1 = Ret (add_installed sel r) w'"
      "subseq (map fst sel) (map fst obs)" "list_all (installed_as H st to_str obs) sel" by blast
    then show ?thesis using True p ob run installed_as_mono [of H st to_str obs _ p]
      by (intro exI [of _ sel] exI [of _ w']) (auto simp: list_all_iff intro: list_emb_Cons)
  next
    case False
    let ?r = "rule_set_commands k ks (rule_set_object_at k (Some ob') r)"
    from Cons.IH [OF prems, of ?r w1] obtain sel w' where IH:
      "install_objects H C st to_str obs ?r w1 = Ret (add_installed sel ?r) w'"
      "subseq (map fst sel) (map fst obs)" "list_all (installed_as H st to_str obs) sel" by blast
    have "installed_as H st to_str (p # obs) (k, ob', ks)"
      using False p ob run by (auto simp: installed_as_def)
    then show ?thesis using False p ob run IH installed_as_mono [of H st to_str obs _ p]
      by (intro exI [of _ "(k, ob', ks) # sel"] exI [of _ w']) (auto simp: list_all_iff add_installed_def)
  qed
qed (simp add: add_installed_def exI [of _ "[]"])

lemma subseq_sorted_wrt: "subseq xs ys \<Longrightarrow> sorted_wrt P ys \<Longrightarrow> sorted_wrt P xs"
  by (induction rule: list_emb.induct) (auto dest: list_emb_set)

lemma netmate_install_outcome:
  assumes "rule_wf r" and "answers C" and "installable H st to_str r"
  shows "\<exists>sel w'. netmate_install H C st to_str r w = Ret (Some (rule_of sel)) w' \<and> rule_wf (rule_of sel) \<and>
    subseq (map fst sel) (map fst (pr_objects r)) \<and> list_all (installed_as H st to_str (pr_objects r)) sel"
proof -
  obtain sel w' where i: "install_objects H C st to_str (pr_objects r) new_rule w = Ret (add_installed sel new_rule) w'"
    "subseq (map fst sel) (map fst (pr_objects r))" "list_all (installed_as H st to_str (pr_objects r)) sel"
    using install_objects_outcome [OF assms(2)] assms(3) unfolding installable_def by blast
  have "sorted_wrt mspec_rule_key_less (map fst (pr_objects r))"
    using assms(1) by (simp add: rule_wf_def smap_wf_def)
  from add_installed_new [OF subseq_sorted_wrt [OF i(2) this]] i show ?thesis
    by (auto simp: netmate_install_def)
qed


section \<open>The rule that is removed\<close>

lemma remove_objects_outcome:
  assumes C: "answers C"
  shows "\<exists>xs w'. remove_objects C st ks return_keys r w = Ret (fold (\<lambda>(k, keys). rule_set_commands k keys) xs r) w' \<and>
    map fst xs = map fst ks"
proof (induction ks arbitrary: return_keys r w)
  case (Cons p ks)
  obtain k keys where p: "p = (k, keys)" by (cases p)
  obtain rs w1 where rem: "remove_rules C st keys return_keys w = Ret (return_keys @ rs) w1"
    using remove_rules_outcome [OF C, of st keys return_keys w] by blast
  from Cons.IH [of "return_keys @ rs" "rule_set_commands k (return_keys @ rs) r" w1] obtain xs w' where
    "remove_objects C st ks (return_keys @ rs) (rule_set_commands k (return_keys @ rs) r) w1 =
       Ret (fold (\<lambda>(k, keys). rule_set_commands k keys) xs (rule_set_commands k (return_keys @ rs) r)) w'"
    "map fst xs = map fst ks" by blast
  then show ?case using p rem by (intro exI [of _ "(k, return_keys @ rs) # xs"] exI [of _ w']) simp
qed simp

definition objects_copyable :: "ipfix_message mt_policy_rule \<Rightarrow> bool" where
  "objects_copyable r \<longleftrightarrow> list_all (\<lambda>(k, ob). ipfix_object_copy ob \<noteq> None) (pr_objects r)"

lemma copy_objects_outcome:
  assumes "list_all (\<lambda>(k, ob). ipfix_object_copy ob \<noteq> None) obs"
  shows "\<exists>obs'. copy_objects obs = Some obs' \<and> map fst obs' = map fst obs"
  using assms by (induction obs rule: copy_objects.induct) auto

lemma netmate_remove_outcome:
  assumes wf: "rule_wf r" and C: "answers C" and "objects_copyable r"
  shows "\<exists>r' w'. netmate_remove C st r w = Ret (Some r') w' \<and>
    map fst (pr_objects r') = map fst (pr_objects r) \<and> map fst (pr_rule_keys r') = map fst (pr_rule_keys r)"
proof -
  obtain obs where obs: "copy_objects (pr_objects r) = Some obs" "map fst obs = map fst (pr_objects r)"
    using copy_objects_outcome [of "pr_objects r"] assms(3) by (auto simp: objects_copyable_def)
  have w: "rule_wf (r\<lparr>pr_objects := obs\<rparr>)"
    using wf smap_wf_keys [OF obs(2)] by (simp add: rule_wf_def)
  have copy: "ipfix_rule_copy r = Some (r\<lparr>pr_objects := obs\<rparr>)"
    by (simp add: ipfix_rule_copy_def obs(1) rule_copy_id [OF w])
  let ?r = "rule_clear_commands (r\<lparr>pr_objects := obs\<rparr>)"
  obtain xs w' where x: "remove_objects C st (pr_rule_keys r) [] ?r w =
      Ret (fold (\<lambda>(k, keys). rule_set_commands k keys) xs ?r) w'" "map fst xs = map fst (pr_rule_keys r)"
    using remove_objects_outcome [OF C] by blast
  have "smap_wf mspec_rule_key_less xs" using wf smap_wf_keys [OF x(2)] by (simp add: rule_wf_def)
  then show ?thesis
    using x obs(2) by (simp add: netmate_remove_def copy fold_set_commands rule_clear_commands_def rk.rebuild_insert)
qed

section \<open>The contract\<close>

text \<open>
  An installer whose calls return a rule for every rule it is ready for: \<open>install\<close> keeps a part of
  the objects, and \<open>remove\<close> as many lists of commands as it was given.
\<close>

locale metering_installer =
  fixes ready removable :: "'o mt_policy_rule \<Rightarrow> bool"
    and install remove :: "'o mt_policy_rule \<Rightarrow> 'i \<Rightarrow> (exc, 'o mt_policy_rule option, 'i) result"
  assumes installs: "rule_wf r \<Longrightarrow> ready r \<Longrightarrow> \<exists>r' j. install r i = Ret (Some r') j \<and> rule_wf r' \<and>
      subseq (map fst (pr_objects r')) (map fst (pr_objects r))"
    and removes: "rule_wf r \<Longrightarrow> removable r \<Longrightarrow> \<exists>r' j. remove r i = Ret (Some r') j \<and>
      map fst (pr_rule_keys r') = map fst (pr_rule_keys r)"
begin

lemma same_number:
  assumes "rule_wf r" "ready r" and "install r i = Ret (Some r') j"
    and "get_number_mspec_objects r' = get_number_mspec_objects r"
  shows "map fst (pr_objects r') = map fst (pr_objects r)"
  using installs [OF assms(1,2), of i] assms(3,4)
  by (auto simp: get_number_mspec_objects_def intro: subseq_same_length)

text \<open>The dispatcher compares the numbers of the command lists, which never differ.\<close>

lemma removal_reported:
  assumes "rule_wf r" "removable r" and "ri_remove (e_installer E) = remove"
  shows "\<exists>w'. remove_policy_rules E r w = Ret () w'"
proof -
  obtain r' j where "remove r (w_installer w) = Ret (Some r') j"
    "map fst (pr_rule_keys r') = map fst (pr_rule_keys r)" using removes [OF assms(1,2)] by blast
  moreover from this(2) have "length (pr_rule_keys r') = length (pr_rule_keys r)" by (metis length_map)
  ultimately show ?thesis
    using assms(3) by (simp add: remove_policy_rules_def get_number_rule_keys_def act_def)
qed

lemma installation_reported:
  assumes "rule_wf r" "ready r" and "ri_install (e_installer E) = install"
  shows "\<exists>r' w'. install_policy_rules E r w = Ret (Some r') w' \<and> rule_wf r' \<and>
    subseq (map fst (pr_objects r')) (map fst (pr_objects r))"
proof -
  obtain r' j where "install r (w_installer w) = Ret (Some r') j" "rule_wf r'"
    "subseq (map fst (pr_objects r')) (map fst (pr_objects r))" using installs [OF assms(1,2)] by blast
  then show ?thesis using assms(3) by (simp add: install_policy_rules_def act_def)
qed

end

text \<open>An installer that is ready for every rule meets the contract of the sessions.\<close>

locale total_installer = metering_installer "\<lambda>r. True" "\<lambda>r. True" install remove
  for install remove :: "'o mt_policy_rule \<Rightarrow> 'i \<Rightarrow> (exc, 'o mt_policy_rule option, 'i) result"

sublocale total_installer \<subseteq> rule_installer install remove
proof unfold_locales
  fix r :: "'o mt_policy_rule" and i :: 'i
  assume wf: "rule_wf r"
  from installs [OF wf TrueI, of i]
  show "(\<exists>r' j. install r i = Ret (Some r') j \<and> rule_wf r') \<or>
      (\<exists>m s c j. install r i = Exn (Policy_Rule_Installer_Error m s c) j)" by blast
  from removes [OF wf TrueI, of i]
  show "(\<exists>r' j. remove r i = Ret (Some r') j) \<or>
      (\<exists>m s c j. remove r i = Exn (Policy_Rule_Installer_Error m s c) j)" by blast
qed

interpretation nop_total: total_installer "nop_install to_str" nop_remove
proof unfold_locales
  fix r :: "'a mt_policy_rule" and i :: 'b
  assume "rule_wf r"
  then show "\<exists>r' j. nop_install to_str r i = Ret (Some r') j \<and> rule_wf r' \<and>
      subseq (map fst (pr_objects r')) (map fst (pr_objects r))"
    and "\<exists>r' j. nop_remove r i = Ret (Some r') j \<and> map fst (pr_rule_keys r') = map fst (pr_rule_keys r)"
    by (simp_all add: nop_install_eq rule_wf_def wf_fold_insert nop_remove_def rule_copy_id)
qed

lemma rule_of_keys: "map fst (pr_objects (rule_of sel)) = map fst sel"
  by (induction sel) (auto simp: rule_of_def)

interpretation netmate: metering_installer
  "\<lambda>r. answers C \<and> installable H st to_str r" "\<lambda>r. answers C \<and> objects_copyable r"
  "netmate_install H C st to_str" "netmate_remove C st"
proof unfold_locales
  fix r :: "ipfix_message mt_policy_rule" and i :: 'a
  assume wf: "rule_wf r"
  show "\<exists>r' j. netmate_install H C st to_str r i = Ret (Some r') j \<and> rule_wf r' \<and>
      subseq (map fst (pr_objects r')) (map fst (pr_objects r))"
    if "answers C \<and> installable H st to_str r"
    using netmate_install_outcome [OF wf, of C H st to_str i] that by (auto simp: rule_of_keys)
  show "\<exists>r' j. netmate_remove C st r i = Ret (Some r') j \<and> map fst (pr_rule_keys r') = map fst (pr_rule_keys r)"
    if "answers C \<and> objects_copyable r"
    using netmate_remove_outcome [OF wf, of C st i] that by auto
qed


section \<open>Names of commands\<close>

text \<open>A command asks for the rule it is stored under.\<close>

definition names_its_rule :: "string \<times> string \<Rightarrow> bool" where
  "names_its_rule = (\<lambda>(k, c). prefix (''Rule='' @ rule_group @ ''.'' @ k @ '' '') c)"

lemma str_insert_subset: "set (smap_insert (<) (k :: string) v m) \<subseteq> insert (k, v) (set m)"
  using str_set_subset [of k v m] by (auto simp: smap_insert_def split: option.split)

lemma list_commands_named:
  "list_all names_its_rule cs0 \<Longrightarrow>
   list_all names_its_rule (fold (\<lambda>(i, x) cs. smap_insert (<) (rule_name key i) (export_command key i filter_def x) cs) xs cs0)"
proof (induction xs arbitrary: cs0)
  case (Cons p xs)
  obtain i x where p: "p = (i, x)" by (cases p)
  have "names_its_rule (rule_name key i, export_command key i filter_def x)"
    by (cases x) (simp add: names_its_rule_def export_command_def)
  then have "list_all names_its_rule (smap_insert (<) (rule_name key i) (export_command key i filter_def x) cs0)"
    using Cons.prems str_insert_subset [of _ _ cs0] by (fastforce simp: list_all_iff)
  from Cons.IH [OF this] show ?case using p by simp
qed simp

lemma no_throw_Ret: "no_throw x = Ret a s \<longleftrightarrow> x = Ret a s"
  by (cases x) auto

lemma create_commands_named:
  assumes "create_postfield_command H st key m = Ret cs ()"
  shows "list_all names_its_rule cs"
proof -
  have "list_all names_its_rule (list_commands key f xs)" for f xs
    using list_commands_named [of "[]"] by (simp add: list_commands_def)
  then show ?thesis using assms
    by (auto simp: create_postfield_command_def build_command_export_fields_def no_throw_Ret r_bind_eq_Ret
        split: option.splits)
qed


section \<open>Commands of an admitted object\<close>

text \<open>Every action has a configuration for every application it has a mapping for.\<close>

definition configured :: "action_container \<Rightarrow> bool" where
  "configured c \<longleftrightarrow> list_all (\<lambda>(k, a). list_all (\<lambda>(k, m). ac_config m \<noteq> None) (pa_mappings a)) c"

definition package :: "installer_state \<Rightarrow> action_container \<Rightarrow> field_type \<Rightarrow> metering_config option" where
  "package st c f = Option.bind (container_get_package (metering_application st) f c) id"

lemma container_queries:
  assumes "loaded st A c"
  shows "container_get_package (metering_application st) f c = Some (package st c f)"
    and "\<exists>s. container_field_traslate (metering_application st) f c = Some s"
proof -
  have "list_all (\<lambda>(k, a). pa_priority a \<noteq> None) c" using assms by (simp add: loaded_def)
  note o = ordered_actions_search [OF this]
  show "container_get_package (metering_application st) f c = Some (package st c f)"
    by (simp add: package_def container_get_package_def o)
  show "\<exists>s. container_field_traslate (metering_application st) f c = Some s"
    by (simp add: container_field_traslate_def o)
qed

lemma action_package:
  assumes "action_wf a" and "list_all (\<lambda>(k, m). ac_config m \<noteq> None) (pa_mappings a)" and "action_check_field app f a"
  shows "action_get_package app f a \<noteq> None"
proof -
  obtain m where m: "map_of (pa_mappings a) app = Some m" "mapping_check_field f m"
    using assms(3) by (auto simp: action_lookup [OF assms(1)] split: option.splits)
  with assms(2) map_of_SomeD [OF m(1)] show ?thesis by (auto simp: action_lookup [OF assms(1)] list_all_iff)
qed

lemma find_not_None: "find (\<lambda>p. p \<noteq> None) xs \<noteq> Some None"
  by (induction xs) auto

lemma offered_package:
  assumes L: "loaded st A c" and "configured c" and "offered (metering_application st) f c"
  shows "package st c f \<noteq> None"
proof
  assume none: "package st c f = None"
  have wf: "container_wf c" and p: "list_all (\<lambda>(k, a). pa_priority a \<noteq> None) c" using L by (simp_all add: loaded_def)
  then have d: "distinct (map fst c)" by (simp add: container_wf_def str_wf_distinct)
  let ?as = "search_order (\<lambda>a. the (pa_priority a)) c"
  obtain k a where a: "(k, a) \<in> set c" "action_check_field (metering_application st) f a"
    using assms(3) by (auto simp: offered_def list_ex_iff)
  have "action_get_package (metering_application st) f a \<noteq> None"
    using a wf assms(2) by (intro action_package) (auto simp: container_wf_def configured_def list_all_iff)
  moreover have "find (\<lambda>p. p \<noteq> None) (map (action_get_package (metering_application st) f) ?as) = None"
    using none find_not_None [of "map (action_get_package (metering_application st) f) ?as"]
    by (auto simp: package_def container_get_package_def ordered_actions_search [OF p] split: option.splits)
  moreover have "a \<in> set ?as" using a(1) set_search_order [OF d] by force
  ultimately show False by (auto simp: find_None_iff)
qed

definition add_field_export :: "installer_state \<Rightarrow> app_container \<Rightarrow> action_container \<Rightarrow> string \<Rightarrow> field_type \<Rightarrow> exports \<Rightarrow> exports" where
  "add_field_export st A c key f ex =
     (if app_is_export_field (metering_application st) f A
      then (case package st c f of None \<Rightarrow> ex
            | Some mc \<Rightarrow> add_export (export_target st key mc) (mc_metering_procedure mc) ex)
      else ex)"

lemma collect_exports_pure:
  assumes L: "loaded st A c" and t: "tp_scopefields t = []"
  shows "collect_exports st key t (field_indices t) ex = Ret (fold (add_field_export st A c key) (template_fields t) ex) ()"
proof (rule field_loop [where loop = "collect_exports st key t" and s = ex
      and lloop = "\<lambda>fs ex. Ret (fold (add_field_export st A c key) fs ex) ()"
      and body = "\<lambda>f k ex. k (add_field_export st A c key f ex)", OF t])
  fix i f "is" s
  assume "field_at t i = Ret f ()"
  moreover obtain x where "container_field_traslate (metering_application st) f c = Some x"
    using container_queries(2) [OF L] by blast
  ultimately show "collect_exports st key t (i # is) s = collect_exports st key t is (add_field_export st A c key f s)"
    by (simp add: field_queries [OF L] container_queries(1) [OF L] add_field_export_def split: option.split)
qed simp_all

lemma smap_set_not_Nil [simp]: "smap_set lt k v m \<noteq> []"
  by (cases m) (auto split: if_split_asm)

lemma smap_insert_not_Nil [simp]: "smap_insert lt k v m \<noteq> []"
  by (cases m) (auto simp: smap_insert_def split: option.split)

lemma exports_Nil:
  "fold (add_field_export st A c key) fs ex = [] \<longleftrightarrow>
     ex = [] \<and> (\<forall>f \<in> set fs. app_is_export_field (metering_application st) f A \<longrightarrow> package st c f = None)"
  by (induction fs arbitrary: ex) (auto simp: add_field_export_def add_export_def split: option.splits)

lemma fold_insert_Nil: "fold (\<lambda>(i, x) cs. smap_insert lt (g i) (h i x) cs) xs cs = [] \<longleftrightarrow> xs = [] \<and> cs = []"
proof (induction xs arbitrary: cs)
  case (Cons p xs)
  obtain i x where p: "p = (i, x)" by (cases p)
  show ?case using Cons.IH [of "smap_insert lt (g i) (h i x) cs"] p by simp
qed simp

lemma list_commands_Nil: "list_commands key f ex = [] \<longleftrightarrow> ex = []"
proof -
  have "zip [1..<Suc (length ex)] ex = [] \<longleftrightarrow> ex = []"
    unfolding zip_eq_Nil_iff upt_eq_Nil_conv by auto
  then show ?thesis by (simp only: list_commands_def fold_insert_Nil simp_thms)
qed

lemma clauses_total:
  assumes p: "list_all (record_printable H t) (filter (\<lambda>r. dr_template_id r = tp_tid t) (im_data_list m))"
  shows "set fs \<subseteq> set (template_fields t) \<Longrightarrow> \<exists>cs'. clauses H st A m t fs cs = Ret cs' ()"
proof (induction fs arbitrary: cs)
  case (Cons f fs)
  then obtain vs where "get_field_data_values H t f m = Ret vs ()"
    using field_data_values_printable [OF p, of f] by (auto simp: get_field_data_values_def)
  with Cons show ?case by simp
qed simp

lemma create_commands_outcome:
  assumes L: "loaded st A c" and T: "two_templates m t u"
    and p: "list_all (record_printable H (filter_of t u)) (filter (\<lambda>r. dr_template_id r = tp_tid (filter_of t u)) (im_data_list m))"
  shows "\<exists>cs. create_postfield_command H st key m = Ret cs () \<and>
    (cs = [] \<longleftrightarrow> (\<forall>f \<in> set (template_fields (export_of t u)).
       app_is_export_field (metering_application st) f A \<longrightarrow> package st c f = None))"
proof -
  note s = two_templates_search [OF T]
  obtain cs' where c: "clauses H st A m (filter_of t u) (template_fields (filter_of t u)) [] = Ret cs' ()"
    using clauses_total [OF p] by blast
  obtain fd where "build_command_filter_fields H st m (filter_of t u) = Ret fd ()"
    using c by (simp add: build_command_filter_fields_def collect_filters_pure [OF L s(4)])
  then show ?thesis
    by (simp add: create_postfield_command_def s build_command_export_fields_def collect_exports_pure [OF L s(3)]
        list_commands_Nil exports_Nil)
qed


section \<open>Properties\<close>

lemma action_writable_set:
  assumes "policy_action_writable iv a"
  shows "pa_priority a \<noteq> None" and "\<And>k m. (k, m) \<in> set (pa_mappings a) \<Longrightarrow> ac_config m \<noteq> None"
proof -
  show "pa_priority a \<noteq> None" using assms by (auto simp: policy_action_writable_def split: option.splits)
  fix k m
  assume "(k, m) \<in> set (pa_mappings a)"
  then have "action_mapping_writable iv m" using assms by (auto simp: policy_action_writable_def list_all_iff)
  then show "ac_config m \<noteq> None" by (auto simp: action_mapping_writable_def split: option.splits)
qed

lemma admitted_commands:
  assumes "loaded st A c" and "configured c" and "two_templates m t u" and "netmate_check st m = Ret () ()"
    and "list_all (record_printable H (filter_of t u)) (filter (\<lambda>r. dr_template_id r = tp_tid (filter_of t u)) (im_data_list m))"
  shows "\<exists>cs. create_postfield_command H st key m = Ret cs () \<and> list_all names_its_rule cs \<and>
    (cs = [] \<longleftrightarrow> template_fields (export_of t u) = [])"
proof -
  obtain cs where cs: "create_postfield_command H st key m = Ret cs ()"
    "cs = [] \<longleftrightarrow> (\<forall>f \<in> set (template_fields (export_of t u)).
       app_is_export_field (metering_application st) f A \<longrightarrow> package st c f = None)"
    using create_commands_outcome [OF assms(1,3,5)] by blast
  have "list_all (exportable st A c) (template_fields (export_of t u))"
    using assms(4) netmate_check_cases [OF assms(1,3)] by (auto simp: invalid_message_def split: if_splits)
  then have "app_is_export_field (metering_application st) f A \<and> package st c f \<noteq> None"
    if "f \<in> set (template_fields (export_of t u))" for f
    using that offered_package [OF assms(1,2)] by (auto simp: list_all_iff exportable_def)
  then have "cs = [] \<longleftrightarrow> template_fields (export_of t u) = []"
    unfolding cs(2) by (cases "template_fields (export_of t u)") auto
  with cs(1) create_commands_named [OF cs(1)] show ?thesis by blast
qed

text \<open>
  C18: A node that meters, set up from a configuration file and an export configuration file that
  describe mappings and actions, holds exactly these: the containers the checks and the commands
  are made from, with a priority for every action and a configuration for every export.
\<close>

theorem setup_loads_files:
  assumes "xml_laws X V" and "cf_is_ms_meter (is_config st)"
    and "open_file (nc_configuration_file (is_config st)) = Some r" and "V r = (None, container_doc nm ms, 0, 1)"
    and "open_file (nc_export_config_file (is_config st)) = Some q" and "V q = (None, actions_doc iv nm' c, 0, 1)"
    and "list_all mapping_writable ms" and "container_wf c" and "list_all (\<lambda>(k, a). policy_action_writable iv a) c"
  shows "\<exists>A st'. installer_setup X open_file st = Some (Ret () st') \<and> is_config st' = is_config st \<and>
    loaded st' A c \<and> configured c \<and> (\<forall>app. map_of A app = find (\<lambda>m. fm_application m = app) ms)"
proof -
  let ?A = "fold (\<lambda>m. set_application (fm_application m) m) ms []"
  let ?st = "st\<lparr>is_apps := Some ?A, is_actions := Some c\<rparr>"
  have wf: "list_all mapping_wf ms" using assms(7) by (auto simp: list_all_iff mapping_writable_def)
  have A: "\<forall>app. map_of ?A app = find (\<lambda>m. fm_application m = app) ms"
    using fold_set_application [OF app_container_wf_Nil wf] by simp
  have L: "loaded ?st ?A c" and C: "configured c"
    using assms(8,9) action_writable_set by (auto simp: loaded_def configured_def list_all_iff)
  have "installer_setup X open_file st = Some (Ret () ?st)"
    using app_container_read_doc [OF assms(1,7,4)] action_container_read_doc [OF assms(1,6,8,9)] assms(2,3,5)
    by (auto simp: installer_setup_def parse_configuration_definition_file_def parse_export_definition_file_def
        parse_definition_file_def)
  then show ?thesis using L C A by (intro exI [of _ ?A] exI [of _ ?st]) simp
qed

definition ex_files :: "string \<Rightarrow> xml_view option" where
  "ex_files f = Some (None, if f = ''conf.xml'' then container_doc (\<lambda>k. ''port'') [ex_mapping]
     else actions_doc (\<lambda>q. ''5'') (\<lambda>k. ''port'') [(''flow'', ex_action)], 0, 1)"

theorem setup_loads_files_witness:
  "\<exists>A st'. installer_setup list_xml ex_files ex_state = Some (Ret () st') \<and> loaded st' A [(''flow'', ex_action)]"
proof -
  have s: "cf_is_ms_meter (is_config ex_state)" by (simp add: ex_state_def)
  have w: "list_all mapping_writable [ex_mapping]"
    "list_all (\<lambda>(k, a). policy_action_writable (\<lambda>q. ''5'') a) [(''flow'', ex_action)]"
    using ex_mapping_writable ex_action_writable by simp_all
  let ?c = "(None, container_doc (\<lambda>k. ''port'') [ex_mapping], 0, 1)"
    and ?a = "(None, actions_doc (\<lambda>q. ''5'') (\<lambda>k. ''port'') [(''flow'', ex_action)], 0, 1)"
  have o: "ex_files (nc_configuration_file (is_config ex_state)) = Some ?c"
    "ex_files (nc_export_config_file (is_config ex_state)) = Some ?a" by (simp_all add: ex_state_def ex_files_def)
  have v: "list_xml_view ?c = ?c" "list_xml_view ?a = ?a" by (simp_all add: list_xml_view_def)
  show ?thesis
    using setup_loads_files [where open_file = ex_files and st = ex_state and V = list_xml_view and r = ?c and q = ?a
        and nm = "\<lambda>k. ''port''" and nm' = "\<lambda>k. ''port''" and ms = "[ex_mapping]" and iv = "\<lambda>q. ''5''"
        and c = "[(''flow'', ex_action)]", OF list_xml_laws s o(1) v(1) o(2) v(2) w(1) ex_container_wf w(2)] by blast
qed

text \<open>
  C15: For an object that the check has admitted and whose values can be printed, the commands can
  be made. Each of them asks for the rule it is stored under, and there is at least one, unless
  the export template has no fields; then the check passes and nothing is metered.
\<close>

theorem admitted_object_commands:
  assumes "loaded st A c" and "configured c" and "two_templates m t u" and "netmate_check st m = Ret () ()"
    and "list_all (record_printable H (filter_of t u)) (filter (\<lambda>r. dr_template_id r = tp_tid (filter_of t u)) (im_data_list m))"
  shows "\<exists>cs. create_postfield_command H st key m = Ret cs () \<and> list_all names_its_rule cs \<and>
    (cs = [] \<longleftrightarrow> template_fields (export_of t u) = [])"
  by (rule admitted_commands [OF assms])

lemma ex_printable: "list_all (record_printable Little_Endian (filter_of (ex_template DATA_TEMPLATE 256) (ex_template OPTION_TEMPLATE 257)))
  (filter (\<lambda>r. dr_template_id r = tp_tid (filter_of (ex_template DATA_TEMPLATE 256) (ex_template OPTION_TEMPLATE 257)))
     (im_data_list (ex_metering OPTION_TEMPLATE [ex_record 80])))"
  by code_simp

lemma ex_configured: "configured [(''flow'', ex_action)]"
  by (simp add: configured_def ex_action_def)

theorem admitted_object_commands_witness:
  "\<exists>cs. create_postfield_command Little_Endian ex_state ''id'' (ex_metering OPTION_TEMPLATE [ex_record 80]) = Ret cs () \<and>
     list_all names_its_rule cs \<and> cs \<noteq> []"
proof -
  have "template_fields (export_of (ex_template DATA_TEMPLATE 256) (ex_template OPTION_TEMPLATE 257)) \<noteq> []"
    by (simp add: export_of_def template_fields_def ex_template_def)
  with admitted_object_commands [OF ex_loaded ex_configured ex_two_templates ex_checked ex_printable,
      where key = "''id''"]
  show ?thesis by blast
qed



text \<open>The example: an application that records the requests and accepts them all, or none\<close>

definition ex_curl :: "bool \<Rightarrow> string list curl_ops" where
  "ex_curl ok = \<lparr>curl_easy_init = Pair True,
     curl_easy_perform = \<lambda>q w. (\<lparr>cr_performed = ok, cr_error = '''', cr_type_known = True,
       cr_content_type = Some ''text/html'', cr_code_known = True\<rparr>, w @ [hr_postfields q]),
     curl_escape = id, c_strerror = \<lambda>n. ''error''\<rparr>"

definition ex_metering_rule :: "ipfix_message mt_policy_rule" where
  "ex_metering_rule = \<lparr>pr_objects = [(5, (new_ipfix_object (ex_metering OPTION_TEMPLATE [ex_record 80]))
       \<lparr>ms_hdr := \<lparr>oh_object_type = ot_mnslp_ipfix_message, oh_unique = False, oh_treatment = Tr_Optional\<rparr>\<rparr>)],
     pr_rule_keys = [(5, [''id_1''])]\<rparr>"

lemma ex_answers: "answers (ex_curl ok)"
  by (auto simp: answers_def reply_ok_def ex_curl_def get_err_def)

lemma ex_copy: "ipfix_copy (ex_metering ty rs) \<noteq> None"
  by (simp add: ipfix_copy_def ex_metering_def copy_raw_pointer_def)

lemma ex_rule_wf: "rule_wf ex_metering_rule"
  by (simp add: rule_wf_def ex_metering_rule_def)

lemma body_new_ipfix_object [simp]: "ms_body (new_ipfix_object b) = b"
  by (simp add: new_ipfix_object_def)

lemma ex_rule_copyable: "objects_copyable ex_metering_rule"
  using ex_copy by (simp add: objects_copyable_def ex_metering_rule_def ipfix_object_copy_def)

lemma ex_rule_installable: "installable Little_Endian ex_state (\<lambda>k. ''id'') ex_metering_rule"
proof -
  obtain cs where "create_postfield_command Little_Endian ex_state ''id'' (ex_metering OPTION_TEMPLATE [ex_record 80]) = Ret cs ()"
    using create_commands_outcome [OF ex_loaded ex_two_templates ex_printable, of "''id''"] by blast
  then show ?thesis using ex_copy
    by (simp add: installable_def object_installable_def ex_metering_rule_def ipfix_object_copy_def new_ipfix_object_def)
qed



definition ex_netmate_env :: "bool \<Rightarrow> (nat, ipfix_message, nat mri_fields, string list) env" where
  "ex_netmate_env ok = \<lparr>e_mri = e_mri ex_env, e_config = default_config,
     e_installer = \<lparr>ri_check = (\<lambda>ob w. (case netmate_check ex_state (ms_body ob) of Ret u v \<Rightarrow> True | _ \<Rightarrow> False, w)),
       ri_install = netmate_install Little_Endian (ex_curl ok) ex_state (\<lambda>k. ''id''),
       ri_remove = netmate_remove (ex_curl ok) ex_state\<rparr>,
     e_is_authorized = \<lambda>e. True, e_uuid = of_nat, e_timer_id = Suc, e_rand = \<lambda>n. 500, e_random = \<lambda>n. Some 7,
     e_session_id = \<lambda>n. Session_Id (of_nat n) 0 0 0\<rparr>"


text \<open>
  A reply without a content type is undefined behaviour, which ends the installation of a
  rule with a command and the removal of one: the type is compared with a string, and it is NULL.
\<close>

theorem missing_content_type_undefined:
  assumes "\<And>w. fst (curl_easy_init C w)"
    and "\<And>q w. reply = fst (curl_easy_perform C q w)"
    and "cr_performed reply" and "cr_type_known reply" and "cr_code_known reply" and "cr_content_type reply = None"
  shows "netmate_remove_all C st w = Undef \<and> run_commands C st action (c # cs) keys w = Undef \<and>
    remove_rules C st (k # ks) keys w = Undef"
proof -
  have "execute_command C st a p w = Undef" for a p w
  proof -
    obtain w1 where i: "curl_easy_init C w = (True, w1)"
      using assms(1) [of w] by (cases "curl_easy_init C w") auto
    have "\<exists>w2. curl_easy_perform C q w1 = (reply, w2)" for q
      using assms(2) [of q w1] by (cases "curl_easy_perform C q w1") auto
    then obtain w2 where "curl_easy_perform C
        \<lparr>hr_url = ''http://'' @ nc_server (is_config st) @ '':'' @ show_int (sint (nc_port (is_config st))) @ a,
          hr_userpwd = nc_user (is_config st) @ '':'' @ nc_password (is_config st), hr_postfields = curl_escape C p\<rparr> w1 =
        (reply, w2)" by blast
    with i assms(3-6) show ?thesis by (simp add: execute_command_def Let_def)
  qed
  then show ?thesis by (cases c) (simp add: netmate_remove_all_def)
qed

theorem missing_content_type_undefined_witness:
  "netmate_remove_all ((ex_curl True)\<lparr>curl_easy_perform := \<lambda>q w. (\<lparr>cr_performed = True, cr_error = '''',
     cr_type_known = True, cr_content_type = None, cr_code_known = True\<rparr>, w)\<rparr>) ex_state [] = Undef"
  using missing_content_type_undefined [where C = "(ex_curl True)\<lparr>curl_easy_perform := \<lambda>q w. (\<lparr>cr_performed = True,
      cr_error = '''', cr_type_known = True, cr_content_type = None, cr_code_known = True\<rparr>, w)\<rparr>"
    and reply = "\<lparr>cr_performed = True, cr_error = '''', cr_type_known = True, cr_content_type = None,
      cr_code_known = True\<rparr>" and st = ex_state and w = "[]" and c = "([], [])"]
  by (simp add: ex_curl_def)

end
