(* ===== verification/Netmate_Node.thy ===== *)
theory Netmate_Node
  imports Netmate_Rules
begin

text \<open>
  A node with the netmate installer: the installer the daemon starts with (\<open>startup\<close> and
  \<open>shutdown\<close> in src/mnslp_daemon.cpp), as the sessions see it, and that the objects which the
  dispatcher has admitted are installed.
\<close>

section \<open>The installer of the daemon\<close>

text \<open>
  The sessions ask whether an object is admitted: the check returns, or throws the only exception
  its declaration allows. Messages for which it is undefined are not offered to it here.
\<close>

definition netmate_admits :: "installer_state \<Rightarrow> ipfix_message mspec_object \<Rightarrow> bool" where
  "netmate_admits st ob = (case netmate_check st (ms_body ob) of Ret u v \<Rightarrow> True | _ \<Rightarrow> False)"

definition netmate_installer :: "byte_order \<Rightarrow> 'c curl_ops \<Rightarrow> installer_state \<Rightarrow> (mspec_rule_key \<Rightarrow> string) \<Rightarrow>
    (ipfix_message, 'c) policy_rule_installer" where
  "netmate_installer H C st to_str =
     \<lparr>ri_check = \<lambda>ob w. (netmate_admits st ob, w), ri_install = netmate_install H C st to_str,
      ri_remove = netmate_remove C st\<rparr>"

text \<open>
  The netmate installer for a node that meters and installs its rules, otherwise the NOP installer.
  Both load the files of a node that meters; that can turn metering off in the configuration,
  which all parts share.
\<close>

definition startup_installer :: "'r xml_ops \<Rightarrow> (string \<Rightarrow> 'r option) \<Rightarrow> netmate_config \<Rightarrow>
    (exc, bool, installer_state) result option" where
  "startup_installer X open_file conf =
     map_option (\<lambda>res.
       let netmate = (cf_ms_install_policy_rules conf \<and> cf_is_ms_meter conf)
       in case res of
            Ret u st \<Rightarrow> Ret netmate st
          | Exn (Policy_Rule_Installer_Error m s c) st \<Rightarrow> Ret netmate st
          | Exn e st \<Rightarrow> Abort
          | Abort \<Rightarrow> Abort
          | Undef \<Rightarrow> Undef) (installer_setup X open_file (new_installer conf))"

text \<open>The daemon removes all rules when it ends; a refusal is not even logged.\<close>

definition shutdown_installer :: "'c curl_ops \<Rightarrow> bool \<Rightarrow> installer_state \<Rightarrow> 'c \<Rightarrow> (exc, unit, 'c) result" where
  "shutdown_installer C netmate st w =
     (if \<not> netmate then Ret () w
      else
        (case netmate_remove_all C st w of
           Ret b w \<Rightarrow> Ret () w
         | Exn (Policy_Rule_Installer_Error m s c) w \<Rightarrow> Ret () w
         | Exn e w \<Rightarrow> Exn e w
         | Abort \<Rightarrow> Abort
         | Undef \<Rightarrow> Undef))"

section \<open>An application that accepts every request\<close>

definition accepts :: "'c curl_ops \<Rightarrow> bool" where
  "accepts C \<longleftrightarrow> (\<forall>q w. fst (curl_easy_init C w) \<and>
     (let reply = fst (curl_easy_perform C q w)
      in cr_performed reply \<and> cr_type_known reply \<and> cr_code_known reply \<and> cr_content_type reply \<noteq> None))"

lemma accepts_answers: "accepts C \<Longrightarrow> answers C"
  by (auto simp: accepts_def answers_def reply_ok_def Let_def)

lemma execute_accepted:
  assumes "accepts C"
  shows "\<exists>w'. execute_command C st action p w = Ret () w'"
proof -
  obtain w1 where i: "curl_easy_init C w = (True, w1)"
    using assms unfolding accepts_def by (cases "curl_easy_init C w") (metis fst_conv)
  define q where "q = \<lparr>hr_url = ''http://'' @ nc_server (is_config st) @ '':'' @ show_int (sint (nc_port (is_config st))) @ action,
    hr_userpwd = nc_user (is_config st) @ '':'' @ nc_password (is_config st), hr_postfields = curl_escape C p\<rparr>"
  obtain reply w2 where p: "curl_easy_perform C q w1 = (reply, w2)" by (cases "curl_easy_perform C q w1")
  then have "cr_performed reply \<and> cr_type_known reply \<and> cr_code_known reply \<and> cr_content_type reply \<noteq> None"
    using assms unfolding accepts_def Let_def by (metis fst_conv)
  then show ?thesis using i p by (auto simp: execute_command_def Let_def q_def)
qed

lemma run_commands_accepted:
  assumes "accepts C"
  shows "\<exists>w'. run_commands C st action cs rule_keys w = Ret (rule_keys @ map fst cs) w'"
proof (induction cs arbitrary: rule_keys w)
  case (Cons c cs)
  obtain k command where c: "c = (k, command)" by (cases c)
  obtain w1 where "execute_command C st action command w = Ret () w1"
    using execute_accepted [OF assms] by blast
  with Cons.IH [of "rule_keys @ [k]" w1] show ?case using c by auto
qed simp

text \<open>Every object has a command.\<close>

definition has_commands :: "byte_order \<Rightarrow> installer_state \<Rightarrow> (mspec_rule_key \<Rightarrow> string) \<Rightarrow>
    mspec_rule_key \<times> ipfix_message mspec_object \<Rightarrow> bool" where
  "has_commands H st to_str = (\<lambda>(k, ob).
     (\<exists>cs. create_postfield_command H st (to_str k) (ms_body ob) = Ret cs () \<and> cs \<noteq> []) \<and>
     ipfix_object_copy ob \<noteq> None)"

lemma install_objects_accepted:
  assumes C: "accepts C" and "list_all (has_commands H st to_str) obs"
  shows "\<exists>sel w'. install_objects H C st to_str obs r w = Ret (add_installed sel r) w' \<and> map fst sel = map fst obs"
  using assms(2)
proof (induction obs arbitrary: r w)
  case (Cons p obs)
  obtain k ob where p: "p = (k, ob)" by (cases p)
  from Cons.prems p obtain cs ob' where ob: "create_postfield_command H st (to_str k) (ms_body ob) = Ret cs ()"
    "cs \<noteq> []" "ipfix_object_copy ob = Some ob'" by (auto simp: has_commands_def)
  obtain w1 where run: "run_commands C st (create_action_command (ms_body ob)) cs [] w = Ret (map fst cs) w1"
    using run_commands_accepted [OF C, of st _ cs "[]" w] by auto
  let ?r = "rule_set_commands k (map fst cs) (rule_set_object_at k (Some ob') r)"
  from Cons.IH [of ?r w1] Cons.prems obtain sel w' where
    "install_objects H C st to_str obs ?r w1 = Ret (add_installed sel ?r) w'" "map fst sel = map fst obs" by auto
  then show ?case using p ob run
    by (intro exI [of _ "(k, ob', map fst cs) # sel"] exI [of _ w']) (simp add: add_installed_def)
qed (simp add: add_installed_def exI [of _ "[]"])

section \<open>Admitted objects are installed\<close>

text \<open>Two templates, of which one has a field to export, and values that can be printed\<close>

definition printable_object :: "byte_order \<Rightarrow> ipfix_message mspec_object \<Rightarrow> bool" where
  "printable_object H ob \<longleftrightarrow> (\<exists>t u. two_templates (ms_body ob) t u \<and>
     list_all (record_printable H (filter_of t u))
       (filter (\<lambda>r. dr_template_id r = tp_tid (filter_of t u)) (im_data_list (ms_body ob))) \<and>
     template_fields (export_of t u) \<noteq> [])"

lemma two_templates_copy:
  assumes "two_templates (ms_body ob) t u"
  shows "ipfix_object_copy ob \<noteq> None"
  using assms by (cases "im_message (ms_body ob)")
    (simp_all add: two_templates_def message_templates_def ipfix_object_copy_def ipfix_copy_def copy_raw_pointer_def)

lemma admitted_has_commands:
  assumes "loaded st A c" and "configured c" and "netmate_admits st ob" and "printable_object H ob"
  shows "has_commands H st to_str (k, ob)"
proof -
  obtain t u where t: "two_templates (ms_body ob) t u"
    "list_all (record_printable H (filter_of t u))
       (filter (\<lambda>r. dr_template_id r = tp_tid (filter_of t u)) (im_data_list (ms_body ob)))"
    "template_fields (export_of t u) \<noteq> []" using assms(4) by (auto simp: printable_object_def)
  have "netmate_check st (ms_body ob) = Ret () ()"
    using assms(3) by (auto simp: netmate_admits_def split: result.splits)
  from admitted_commands [OF assms(1,2) t(1) this t(2), of "to_str k"] t(3) two_templates_copy [OF t(1)]
  show ?thesis by (auto simp: has_commands_def)
qed

lemma netmate_install_accepted:
  assumes "rule_wf r" and "accepts C" and "list_all (has_commands H st to_str) (pr_objects r)"
  shows "\<exists>r' w'. netmate_install H C st to_str r w = Ret (Some r') w' \<and> rule_wf r' \<and>
    map fst (pr_objects r') = map fst (pr_objects r)"
proof -
  obtain sel w' where i: "install_objects H C st to_str (pr_objects r) new_rule w = Ret (add_installed sel new_rule) w'"
    "map fst sel = map fst (pr_objects r)" using install_objects_accepted [OF assms(2,3)] by blast
  have "sorted_wrt mspec_rule_key_less (map fst sel)"
    using assms(1) i(2) by (simp add: rule_wf_def smap_wf_def)
  from add_installed_new [OF this] i show ?thesis by (auto simp: netmate_install_def rule_of_keys)
qed


lemma admitted_rule_complete:
  assumes "rule_wf r" and "loaded st A c" and "configured c" and "accepts C"
    and "e_installer E = netmate_installer H C st to_str"
    and "list_all (\<lambda>(k, ob). fst (dispatcher_check E ob v) \<and> printable_object H ob) (pr_objects r)"
  shows "\<exists>r' w'. install_policy_rules E r w = Ret (Some r') w' \<and> rule_wf r' \<and>
    map fst (pr_objects r') = map fst (pr_objects r) \<and>
    get_number_mspec_objects r' = get_number_mspec_objects r"
proof -
  have "has_commands H st to_str (k, ob)" if "(k, ob) \<in> set (pr_objects r)" for k ob
    using that assms(5,6) by (intro admitted_has_commands [OF assms(2,3)])
      (auto simp: list_all_iff dispatcher_check_def netmate_installer_def split: if_splits)
  then have "list_all (has_commands H st to_str) (pr_objects r)" by (auto simp: list_all_iff)
  from netmate_install_accepted [OF assms(1,4) this, of "w_installer w"] obtain r' i where i:
    "netmate_install H C st to_str r (w_installer w) = Ret (Some r') i" "rule_wf r'"
    "map fst (pr_objects r') = map fst (pr_objects r)" by blast
  have "length (pr_objects r') = length (pr_objects r)" using i(3) by (metis length_map)
  then show ?thesis
    using i assms(5) by (simp add: install_policy_rules_def netmate_installer_def act_def get_number_mspec_objects_def)
qed

text \<open>The objects a session takes into its rule are those the dispatcher has admitted.\<close>

lemma values_smap_set: "snd ` set (smap_set lt k v m) \<subseteq> insert v (snd ` set m)"
proof (induction m)
  case (Cons p m)
  then show ?case by (cases p) auto
qed simp

lemma values_set_object: "snd ` set (pr_objects (snd (rule_set_object k ob r))) \<subseteq> insert ob (snd ` set (pr_objects r))"
  using values_smap_set [of mspec_rule_key_less k ob "pr_objects r"]
  by (auto simp: rule_set_object_def smap_insert_def split: option.split)

lemma netmate_dispatcher_check:
  assumes "e_installer E = netmate_installer H C st to_str"
  shows "dispatcher_check E ob w = (cf_is_ms_meter (e_config E) \<and> netmate_admits st ob, w)"
  using assms by (simp add: dispatcher_check_def netmate_installer_def)

lemma sort_objects_admitted:
  assumes E: "e_installer E = netmate_installer H C st to_str"
  shows "sort_objects E part objects rule missing w = (rule', missing', w') \<Longrightarrow>
    missing' = missing @ filter (\<lambda>ob. \<not> (part \<and> cf_is_ms_meter (e_config E) \<and> netmate_admits st ob)) objects \<and>
    snd ` set (pr_objects rule') \<subseteq> snd ` set (pr_objects rule) \<union>
      set (filter (\<lambda>ob. part \<and> cf_is_ms_meter (e_config E) \<and> netmate_admits st ob) objects)"
proof (induction objects arbitrary: rule missing w)
  case (Cons ob objects)
  show ?case
  proof (cases "part \<and> cf_is_ms_meter (e_config E) \<and> netmate_admits st ob")
    case True
    let ?r = "snd (rule_set_object (e_uuid E (w_tick w)) ob rule)"
    have "sort_objects E part objects ?r missing (w\<lparr>w_tick := Suc (w_tick w)\<rparr>) = (rule', missing', w')"
      using Cons.prems True by (simp add: netmate_dispatcher_check [OF E])
    note IH = Cons.IH [OF this]
    from order_trans [OF IH [THEN conjunct2] Un_mono [OF values_set_object order_refl]] IH True show ?thesis by simp
  next
    case False
    then have "sort_objects E part objects rule (missing @ [ob]) w = (rule', missing', w')"
      using Cons.prems by (auto simp: netmate_dispatcher_check [OF E] split: if_splits)
    from Cons.IH [OF this] False show ?thesis by auto
  qed
qed simp

section \<open>Properties\<close>

text \<open>
  C6: The dispatcher takes those objects of a request into the rule of a session that the netmate
  installer admits, and leaves over the others. When the objects can be printed, this rule is
  installed completely by an application that accepts the requests: the rule that comes back has
  an object under every key. So the test for missing objects, by which a session decides between
  metering and a failure, is passed.
\<close>

theorem admitted_rule_installed:
  assumes "loaded st A c" and "configured c" and "accepts C" and "e_installer E = netmate_installer H C st to_str"
    and "list_all (printable_object H) objects"
    and "sort_objects E part objects new_rule [] v = (rule, missing, v')"
  shows "missing = filter (\<lambda>ob. \<not> (part \<and> cf_is_ms_meter (e_config E) \<and> netmate_admits st ob)) objects \<and>
    (\<exists>r' w'. install_policy_rules E rule w = Ret (Some r') w' \<and> rule_wf r' \<and>
       map fst (pr_objects r') = map fst (pr_objects rule) \<and>
       get_number_mspec_objects r' = get_number_mspec_objects rule)"
proof -
  note s = sort_objects_admitted [OF assms(4,6)]
  have "fst (dispatcher_check E ob v) \<and> printable_object H ob" if "(k, ob) \<in> set (pr_objects rule)" for k ob
    using that s assms(5) by (force simp: netmate_dispatcher_check [OF assms(4)] list_all_iff new_rule_def)
  then have "list_all (\<lambda>(k, ob). fst (dispatcher_check E ob v) \<and> printable_object H ob) (pr_objects rule)"
    by (auto simp: list_all_iff)
  from admitted_rule_complete [OF sort_objects_wf [OF rule_wf_new assms(6)] assms(1-4) this, of w] s
  show ?thesis by simp
qed

definition ex_object_80 :: "ipfix_message mspec_object" where
  "ex_object_80 = new_ipfix_object (ex_metering OPTION_TEMPLATE [ex_record 80])"

lemma ex_printable_object: "list_all (printable_object Little_Endian) [ex_object_80]"
proof -
  have "template_fields (export_of (ex_template DATA_TEMPLATE 256) (ex_template OPTION_TEMPLATE 257)) \<noteq> []"
    by (simp add: export_of_def template_fields_def ex_template_def)
  then show ?thesis
    using ex_two_templates ex_printable unfolding printable_object_def ex_object_80_def by fastforce
qed

theorem admitted_rule_installed_witness:
  "\<exists>rule v' r' w'. sort_objects (ex_netmate_env True) True [ex_object_80] new_rule []
       \<lparr>w_actions = [], w_installer = [], w_tick = 0\<rparr> = (rule, [], v') \<and>
     install_policy_rules (ex_netmate_env True) rule v' = Ret (Some r') w' \<and>
     get_number_mspec_objects r' = get_number_mspec_objects rule"
proof -
  let ?w = "\<lparr>w_actions = [], w_installer = [], w_tick = 0\<rparr> :: (ipfix_message, nat mri_fields, string list) world"
  have a: "accepts (ex_curl True)" by (simp add: accepts_def ex_curl_def)
  have e: "e_installer (ex_netmate_env True) = netmate_installer Little_Endian (ex_curl True) ex_state (\<lambda>k. ''id'')"
    by (simp add: ex_netmate_env_def netmate_installer_def netmate_admits_def)
  have m: "cf_is_ms_meter (e_config (ex_netmate_env True))" "netmate_admits ex_state ex_object_80"
    by (simp_all add: ex_netmate_env_def default_config_def netmate_admits_def ex_object_80_def ex_checked)
  obtain rule missing v' where s: "sort_objects (ex_netmate_env True) True [ex_object_80] new_rule [] ?w = (rule, missing, v')"
    by (metis prod.exhaust_sel)
  from admitted_rule_installed [OF ex_loaded ex_configured a e ex_printable_object s, of v'] m s show ?thesis by auto
qed

text \<open>
  C29: A metering node whose configuration file does not open, or that the reader refuses, starts
  nevertheless, with the netmate installer; but it is no metering node any more: the dispatcher
  admits no object, so that the node passes all of them on.
\<close>

theorem unreadable_configuration:
  assumes "cf_ms_install_policy_rules conf" and "cf_is_ms_meter conf"
    and "case open_file (nc_configuration_file conf) of None \<Rightarrow> True
      | Some r \<Rightarrow> \<exists>t sv c s. app_container_read X [] r = Some (Exn (Policy_Rule_Installer_Error t sv c) s)"
  shows "\<exists>st. startup_installer X open_file conf = Some (Ret True st) \<and>
    dispatcher_check (E\<lparr>e_config := mnslp_config.truncate (is_config st)\<rparr>) ob w = (False, w)"
proof -
  have "\<exists>st. startup_installer X open_file conf = Some (Ret True st) \<and> \<not> cf_is_ms_meter (is_config st)"
  proof (cases "open_file (nc_configuration_file conf)")
    case None
    with assms(1,2) show ?thesis
      by (simp add: startup_installer_def installer_setup_def new_installer_def parse_configuration_definition_file_def
          parse_definition_file_def)
  next
    case (Some r)
    with assms(3) obtain t sv c s where "app_container_read X [] r = Some (Exn (Policy_Rule_Installer_Error t sv c) s)"
      by auto
    with assms(1,2) Some show ?thesis
      by (cases s) (simp add: startup_installer_def installer_setup_def new_installer_def
          parse_configuration_definition_file_def parse_definition_file_def)
  qed
  then show ?thesis by (auto simp: dispatcher_check_def mnslp_config.defs)
qed

theorem unreadable_configuration_witness:
  "\<exists>st. startup_installer list_xml (\<lambda>f. None) (is_config ex_state) = Some (Ret True st) \<and>
     dispatcher_check (ex_env\<lparr>e_config := mnslp_config.truncate (is_config st)\<rparr>) (ex_object 1) ex_world = (False, ex_world)"
  by (rule unreadable_configuration) (simp_all add: ex_state_def)

end
