(* ===== verification/Benchmark_Journal.thy ===== *)
theory Benchmark_Journal
  imports Ipfix_Field
begin

text \<open>
  The journal of measuring points (src/benchmark_journal.cpp, include/benchmark_journal.h): an
  array that is filled in memory and written as a text. The clock and the number of the thread
  are arguments; the lock has no counterpart. The journal is the specification \<open>recorded\<close>: the
  points since the last restart, as far as they fit.
\<close>

section \<open>Measuring points\<close>

datatype measuring_point_id =
    INVALID_ID | PRE_PROCESSING | POST_PROCESSING | PRE_MAPPING | POST_MAPPING | PRE_SESSION_MANAGER
  | POST_SESSION_MANAGER | PRE_SERIALIZE | POST_SERIALIZE | PRE_DESERIALIZE | POST_DESERIALIZE
  | PRE_DISPATCHER | POST_DISPATCHER | PRE_SESSION | POST_SESSION

definition all_points :: "measuring_point_id list" where
  "all_points = [INVALID_ID, PRE_PROCESSING, POST_PROCESSING, PRE_MAPPING, POST_MAPPING, PRE_SESSION_MANAGER,
     POST_SESSION_MANAGER, PRE_SERIALIZE, POST_SERIALIZE, PRE_DESERIALIZE, POST_DESERIALIZE,
     PRE_DISPATCHER, POST_DISPATCHER, PRE_SESSION, POST_SESSION]"

definition mp_names :: "string list" where
  "mp_names = [''INVALID_ID'', ''PRE_PROCESSING'', ''POST_PROCESSING'', ''PRE_MAPPING'', ''POST_MAPPING'',
     ''PRE_SESSION_MANAGER'', ''POST_SESSION_MANAGER'', ''PRE_SERIALIZE'', ''POST_SERIALIZE'',
     ''PRE_DESERIALIZE'', ''POST_DESERIALIZE'', ''PRE_DISPATCHER'', ''POST_DISPATCHER'',
     ''PRE_SESSION'', ''POST_SESSION'']"

fun position :: "'a \<Rightarrow> 'a list \<Rightarrow> nat" where
  "position x [] = 0"
| "position x (y # ys) = (if x = y then 0 else Suc (position x ys))"

definition point_number :: "measuring_point_id \<Rightarrow> nat" where
  "point_number p = position p all_points"

record measuring_point =
  mp_point :: measuring_point_id
  mp_thread :: nat
  mp_sec :: int
  mp_nsec :: int

definition blank_point :: measuring_point where
  "blank_point = \<lparr>mp_point = INVALID_ID, mp_thread = 0, mp_sec = 0, mp_nsec = 0\<rparr>"

section \<open>The journal\<close>

record benchmark_journal =
  bj_pos :: nat
  bj_journal :: "measuring_point list"
  bj_filename :: string
  bj_disable :: bool

text \<open>The array is filled with zeros.\<close>

definition new_journal :: "nat \<Rightarrow> string \<Rightarrow> benchmark_journal" where
  "new_journal n filename =
     \<lparr>bj_pos = 0, bj_journal = replicate n blank_point, bj_filename = filename, bj_disable = False\<rparr>"

text \<open>The second component is whether the message that the journal is full is printed.\<close>

definition journal_add :: "measuring_point_id \<Rightarrow> nat \<Rightarrow> int \<Rightarrow> int \<Rightarrow> benchmark_journal \<Rightarrow> benchmark_journal \<times> bool" where
  "journal_add mp_id thread sec nsec j =
     (if bj_pos j < length (bj_journal j)
      then (j\<lparr>bj_journal := (bj_journal j)[bj_pos j := \<lparr>mp_point = mp_id, mp_thread = thread, mp_sec = sec, mp_nsec = nsec\<rparr>],
              bj_pos := Suc (bj_pos j)\<rparr>, False)
      else if \<not> bj_disable j \<and> bj_pos j = length (bj_journal j) then (j\<lparr>bj_disable := True\<rparr>, True)
      else (j, False))"

definition journal_restart :: "benchmark_journal \<Rightarrow> benchmark_journal" where
  "journal_restart j = j\<lparr>bj_pos := 0, bj_disable := False\<rparr>"

text \<open>\<open>ctime\<close>, which ends its text with a line feed, is an argument.\<close>

definition newline :: string where
  "newline = [CHR 0x0A]"

definition write_header :: "string \<Rightarrow> string" where
  "write_header created =
     ''# Benchmark Journal, created '' @ created @
     ''# $Id: benchmark_journal.cpp 2558 2007-04-04 15:17:16Z bless $'' @ newline @
     ''# Format: <measuring point ID> <Thread ID> <seconds> <nano seconds>'' @ newline @
     ''# Measuring points:'' @ newline @
     concat (map (\<lambda>(i, s). ''# '' @ [CHR 0x09] @ show_base 10 i @ '' '' @ s @ newline) (zip [0..<15] mp_names)) @
     ''#'' @ newline"

definition point_line :: "measuring_point \<Rightarrow> string" where
  "point_line m =
     show_base 10 (point_number (mp_point m)) @ '' '' @ show_base 10 (mp_thread m) @ '' '' @
     show_int (mp_sec m) @ '' '' @ show_int (mp_nsec m) @ newline"

definition write_journal :: "string \<Rightarrow> benchmark_journal \<Rightarrow> string" where
  "write_journal created j =
     write_header created @
     concat (map point_line (takeWhile (\<lambda>m. mp_point m \<noteq> INVALID_ID) (bj_journal j)))"

text \<open>A file that does not open is reported only; \<open>None\<close> is that nothing is written.\<close>

definition write_journal_file :: "(string \<Rightarrow> bool) \<Rightarrow> string \<Rightarrow> string \<Rightarrow> benchmark_journal \<Rightarrow> string option" where
  "write_journal_file opens created filename j =
     (if opens filename then Some (write_journal created j) else None)"

section \<open>What the journal records\<close>

fun journal_adds :: "measuring_point list \<Rightarrow> benchmark_journal \<Rightarrow> benchmark_journal" where
  "journal_adds [] j = j"
| "journal_adds (m # ms) j =
     journal_adds ms (fst (journal_add (mp_point m) (mp_thread m) (mp_sec m) (mp_nsec m) j))"

lemma journal_add_full:
  "bj_pos j = length (bj_journal j) \<Longrightarrow>
   bj_journal (fst (journal_add p t s n j)) = bj_journal j \<and> bj_pos (fst (journal_add p t s n j)) = bj_pos j"
  by (simp add: journal_add_def)

lemma journal_adds_entries:
  assumes "bj_pos j \<le> length (bj_journal j)"
  shows "bj_journal (journal_adds ms j) =
    take (length (bj_journal j)) (take (bj_pos j) (bj_journal j) @ ms) @ drop (bj_pos j + length ms) (bj_journal j)"
  using assms
proof (induction ms arbitrary: j)
  case (Cons m ms)
  let ?j = "fst (journal_add (mp_point m) (mp_thread m) (mp_sec m) (mp_nsec m) j)"
  show ?case
  proof (cases "bj_pos j < length (bj_journal j)")
    case True
    then have j: "bj_journal ?j = (bj_journal j)[bj_pos j := m]" "bj_pos ?j = Suc (bj_pos j)"
      by (cases m, simp add: journal_add_def) (simp add: journal_add_def True)
    have "take (Suc (bj_pos j)) ((bj_journal j)[bj_pos j := m]) = take (bj_pos j) (bj_journal j) @ [m]"
      using True by (simp add: take_Suc_conv_app_nth)
    then show ?thesis using Cons.IH [of ?j] True j by simp
  next
    case False
    then have p: "bj_pos j = length (bj_journal j)" using Cons.prems by simp
    from Cons.IH [of ?j] journal_add_full [OF p] p show ?thesis by simp
  qed
qed simp

section \<open>Properties\<close>

text \<open>
  A journal that has recorded the points \<open>ms\<close>, has been restarted and has recorded the points
  \<open>ns\<close> is written as the second list, cut to the size of the journal, followed by those of the
  first list that the second one has not overwritten: restarting does not remove them. Without
  points before the restart it is written as the points that were added, as far as they fit.
\<close>

theorem journal_restart_stale:
  assumes "list_all (\<lambda>m. mp_point m \<noteq> INVALID_ID) ms" and "list_all (\<lambda>m. mp_point m \<noteq> INVALID_ID) ns"
  shows "write_journal created (journal_adds ns (journal_restart (journal_adds ms (new_journal n f)))) =
    write_header created @ concat (map point_line (take n ns @ drop (length ns) (take n ms)))"
proof -
  let ?b = "replicate (n - length ms) blank_point"
  have min_plus: "min (length ms) n + (n - length ms) = n" by simp
  have 1: "bj_journal (journal_adds ms (new_journal n f)) = take n ms @ ?b"
    by (simp add: journal_adds_entries new_journal_def)
  have "bj_journal (journal_adds ns (journal_restart (journal_adds ms (new_journal n f)))) =
      take n ns @ drop (length ns) (take n ms @ ?b)"
    using min_plus by (simp add: journal_adds_entries journal_restart_def 1)
  also have "drop (length ns) (take n ms @ ?b) =
      drop (length ns) (take n ms) @ replicate (n - length ms - (length ns - min (length ms) n)) blank_point"
    by simp
  finally have eq: "bj_journal (journal_adds ns (journal_restart (journal_adds ms (new_journal n f)))) =
      (take n ns @ drop (length ns) (take n ms)) @
      replicate (n - length ms - (length ns - min (length ms) n)) blank_point" by simp
  have v: "list_all (\<lambda>m. mp_point m \<noteq> INVALID_ID) (take n ns @ drop (length ns) (take n ms))"
    using assms by (auto simp: list_all_iff dest!: in_set_dropD in_set_takeD)
  have r: "takeWhile (\<lambda>m. mp_point m \<noteq> INVALID_ID) (xs @ replicate k blank_point) = xs"
    if "list_all (\<lambda>m. mp_point m \<noteq> INVALID_ID) xs" for xs k
    using that by (induction xs) (simp_all add: blank_point_def takeWhile_replicate)
  show ?thesis unfolding write_journal_def eq r [OF v] ..
qed

definition ex_point :: "measuring_point_id \<Rightarrow> measuring_point" where
  "ex_point p = \<lparr>mp_point = p, mp_thread = 1, mp_sec = 5, mp_nsec = 7\<rparr>"

theorem journal_restart_stale_witness:
  "write_journal ''now'' (journal_adds [ex_point PRE_SESSION]
     (journal_restart (journal_adds [ex_point PRE_MAPPING, ex_point POST_MAPPING] (new_journal 3 ''f'')))) =
   write_header ''now'' @ concat (map point_line [ex_point PRE_SESSION, ex_point POST_MAPPING])"
  using journal_restart_stale [of "[ex_point PRE_MAPPING, ex_point POST_MAPPING]" "[ex_point PRE_SESSION]" "''now''" 3 "''f''"]
  by (simp add: ex_point_def)

end
