(* ===== verification/Spec2Isabelle.thy ===== *)
theory Spec2Isabelle
  imports Dispatcher Gistka_Mapper Netmate_Node Benchmark_Journal
begin

text \<open>
  \<^bold>\<open>The MNSLP signalling daemon\<close>

  m-nslp is an NSIS signalling application that configures metering along a network path. An
  initiator sends a CONFIGURE message with metering objects towards a destination; each
  forwarder on the path keeps the objects it can meter and passes the others on; the receiver
  takes what is left and answers. A positive RESPONSE travels back and makes every node
  install its rules; REFRESH messages keep the sessions alive, and a REFRESH with lifetime 0
  ends them.

  \<^bold>\<open>Parts and theories\<close> (file names are relative to src/)

  \<^item> \<open>Mnslp_Prelude\<close>: widths of the integers and the outcomes of a C++ function, \<open>Ret\<close>, \<open>Exn\<close>,
    \<open>Abort\<close> (a failing assertion) and \<open>Undef\<close> (undefined behaviour).
  \<^item> \<open>Std_Map\<close>: \<open>std::map\<close> as an ordered association list over any comparison, with its
    contract as a locale; \<open>Double_Arith\<close>: correctly rounded binary floating-point arithmetic.
  \<^item> \<open>Ie_Store\<close> (src/msg/ie_store.cpp, include/msg/ie_object_key.h), \<open>Mnslp_Object\<close>
    (src/msg/mnslp_object.cpp and the five object classes), \<open>Mnslp_Msg\<close> (src/msg/mnslp_msg.cpp
    and the five message classes), \<open>Ntlp_Msg\<close> (src/msg/ntlp_msg.cpp): the data of the protocol.
    \<open>Msg_Build\<close> reads back the messages the sessions build.
  \<^item> \<open>Policy_Rule\<close> (src/policy_rule.cpp, src/mspec_rule_key.cpp): the rules a session installs.
  \<^item> \<open>Events\<close> (include/events.h): what the sessions react to.
  \<^item> \<open>Services\<close> (src/dispatcher.cpp, src/mnslp_timers.cpp, src/nop_policy_rule_installer.cpp,
    src/mnslp_config.cpp): what the sessions call. The effects are a trace of actions in a
    \<open>world\<close>; random numbers, UUIDs, timer numbers and session IDs are functions of a counter
    that every draw increments.
  \<^item> \<open>Session\<close> (src/session.cpp), \<open>NI_Session\<close>, \<open>NF_Session\<close>, \<open>NR_Session\<close> (src/ni_session.cpp,
    src/nf_session.cpp, src/nr_session.cpp): the state machines of initiator, forwarder and
    receiver, one definition per handler and per larger branch of it.
  \<^item> \<open>Dispatcher\<close> (src/session_manager.cpp, src/dispatcher.cpp, src/mnslp_daemon.cpp): the session
    table, the processing of an event, and the worker loop as the relation \<open>reachable\<close>.
  \<^item> \<open>Wire_Object\<close> (src/msg/mnslp_object.cpp and the object classes), \<open>Msg_Codec\<close>
    (\<open>serialize\<close> and \<open>deserialize\<close> of src/msg/mnslp_msg.cpp and the message classes,
    src/msg/mnslp_ie.cpp): the wire format; \<open>Msg_Receive\<close>: the parser on arbitrary bytes.
  \<^item> \<open>Gistka_Mapper\<close> (src/gistka_mapper.cpp, src/mnslp_daemon.cpp): from the messages of the NTLP to
    events and back, and a round of the worker loop.
  \<^item> The metering objects are IPFIX messages (src/msg/mnslp_mspec_object.cpp derives from
    them). \<open>Ipfix_Field\<close> (src/msg/mnslp_ipfix_field.cpp): values of fields, their coding and
    printing; \<open>Ipfix_Tables\<close>: the tables of known fields; \<open>Ipfix_Template\<close>
    (src/msg/mnslp_ipfix_template.cpp, src/msg/mnslp_ipfix_data_record.cpp): templates and data
    records; \<open>Ipfix_Message\<close> (src/msg/ipfix_t.cpp, src/msg/mnslp_ipfix_message.cpp up to
    \<open>get_message\<close>): building and writing a message; \<open>Ipfix_Import\<close> (the rest of that file): reading
    one; \<open>Ipfix_Output\<close>: the bytes a message with one template is written as;
    \<open>Ipfix_Roundtrip\<close>: that they are read back as an equal message; \<open>Ipfix_Faults\<close>: the
    messages the reader or the writer fails on.
  \<^item> \<open>Ipfix_Body\<close> (\<open>serialize_body\<close> to \<open>check_body\<close> of src/msg/mnslp_ipfix_message.cpp): an IPFIX
    message as the body of a metering object, which joins the two parts: the instance of
    \<open>body_ops\<close>, its contract, the way of an object over the wire and through the worker loop.
  \<^item> The rules of a node that meters are given to the metering application netmate.
    \<open>Xml_Reader\<close> (src/mnslp_xml_node_reader.cpp): the text reader of its configuration files;
    \<open>Policy_Mapping\<close> (src/policy_field_mapping.cpp,
    src/policy_application_configuration_container.cpp): which fields of a flow the application
    filters and exports, and by which names; \<open>Policy_Action\<close> (src/policy_action.cpp,
    src/policy_action_container.cpp, src/policy_action_mapping.cpp,
    src/netmate_ipfix_policy_action_mapping.cpp, src/netmate_ipfix_metering_config.cpp): by which
    procedures and where to; \<open>Netmate_Installer\<close> (src/policy_rule_installer.cpp,
    src/netmate_ipfix_policy_rule_installer.cpp): setup, check of an object, its commands, and
    the HTTP requests of install and remove; \<open>Netmate_Rules\<close>: what becomes of a rule; \<open>Netmate_Node\<close> (\<open>startup\<close> and \<open>shutdown\<close> of
    src/mnslp_daemon.cpp): the installer as the dispatcher and the sessions see it.
  \<^item> \<open>Benchmark_Journal\<close> (src/benchmark_journal.cpp): the measuring points.

  \<^bold>\<open>Interfaces\<close>

  The locale \<open>keyed_order\<close> (over \<open>weak_order\<close>) is the contract of \<open>std::map\<close>, interpreted on the keys
  of rules, fields and strings. \<open>metering_installer\<close> is the contract of an installer on the rules it
  is ready for, interpreted on the netmate installer; \<open>total_installer\<close>, for one that is always
  ready, gives the contract of the sessions by \<open>sublocale\<close> and is interpreted on the NOP installer.
  The locale \<open>rule_installer\<close> states what the sessions rely on of an installer and is
  interpreted on the NOP installer; \<open>session_env\<close> extends it by the numbering of the timers and
  is interpreted on the environment of a daemon. The invariants of the sessions are proved in
  that locale.

  \<^bold>\<open>Lemma groups\<close>

  Each component theory ends with its properties. The handlers of a session have a lemma
  \<open>..._post\<close> each, which says that the invariant of the session holds after it; the summary of
  a session is \<open>..._process_inv\<close>, the one of the daemon \<open>reachable_inv\<close>. The functional
  properties describe outcome, new state and sent messages of one event on every branch.

  \<^bold>\<open>Parameters\<close>

  The NTLP library's routing information, libuuid, the random number generator and the
  installer of a session are parameters (records of functions). So are, for the netmate
  installer, the text reader of libxml2 (\<open>xml_ops\<close>, with the documented behaviour \<open>xml_laws\<close>, of
  which \<open>list_xml\<close> is an instance) and libcurl with the application behind it (\<open>curl_ops\<close>). The loops
  over XML nodes are partial functions, as are the searches of the daemon: \<open>None\<close> is a loop that
  does not end. \<open>configuration_read_total\<close> shows that reading the configuration file always ends,
  \<open>export_unknown_element\<close> a document on which reading the other one does not. Addresses and the contents of
  metering objects are type variables in the protocol part. The buffer class and the IE base
  classes of protlib are the record \<open>net_ops\<close> with the documented behaviour \<open>net_laws\<close>; the coding
  of a metering object is the record \<open>body_ops\<close>, of which the parser needs \<open>body_contract\<close> only;
  \<open>ipfix_body_contract\<close> shows that the IPFIX message meets it. The loop of the parser is a partial function,
  whose termination is proved (\<open>deserialize_msg_total\<close>). The byte order of the machine and the
  clock are parameters of the IPFIX part; memory that \<open>new[]\<close> made is taken to survive
  \<open>delete\<close> and \<open>realloc\<close> as it does with the allocator of the platform. A function that ends
  without \<open>return\<close> is undefined where the caller uses the missing result.

  \<^bold>\<open>Not modelled\<close>

  Threads and locks (the model is the behaviour with one dispatcher thread, the default); the
  start of the NTLP library and of the queues, the clients (src/main.cpp, src/test_client.cpp);
  reading the daemon's own parameters, which protlib does; printing
  of objects and the style sheet for the replies of the application; logging. Memory that is
  released is not modelled, so neither are destructors. The files src/policy_filter_mapping.cpp,
  src/policy_filter_container.cpp, src/netmate_policy_action_mapping.cpp,
  src/netmate_metering_config.cpp and src/netmate_ipxfix_policy_rule_installer.cpp are not
  compiled (src/Makefile.am). The protocol part takes copies of metering objects to be equal to
  them; \<open>ipfix_object_copy\<close> has what the copy constructor does, \<open>netmate_install_keeps\<close> what follows
  for the treatment of an installed object.
\<close>

section \<open>Properties that span components\<close>

text \<open>
  C3: Initiator and receiver agree: when a receiver takes the CONFIGURE an initiator has
  stored and starts to meter, it sends exactly one message; the initiator accepts that message
  as the response to its CONFIGURE, starts to meter too (its installer keeping all objects),
  and both hold the same lifetime, which is positive and within the receiver's maximum.
\<close>

theorem handshake_agrees:
  assumes "ni_inv s" and "ni_state s = STATE_PENDING" and "ni_last_configure_msg s = Some m"
    and "nr_state n = STATE_CLOSE"
    and "nr_process_event E' (new_msg_event (s_id s) m True) (n, v) = Ret u (n', v')"
    and "nr_state n' = STATE_METERING"
    and "ri_install (e_installer E) (s_rule s) (w_installer w) = Ret (Some r) i"
    and "get_number_mspec_objects r = get_number_mspec_objects (s_rule s)"
  shows "\<exists>resp s' w'. sent v' = sent v @ [resp] \<and>
    ni_process_event E (new_msg_event (s_id s) resp True) (s, w) = Ret () (s', w') \<and>
    ni_state s' = STATE_METERING \<and> ni_lifetime s' = nr_lifetime n' \<and>
    0 < nr_lifetime n' \<and> nr_lifetime n' \<le> nr_max_lifetime n"
proof -
  have "stored_msg_ok (s_id s) Mnslp_Configure m" using assms(1,3) by (simp add: ni_inv_def)
  then obtain c where c: "nm_body m = Some c" "m_class c = Mnslp_Configure" "has_msg_sequence_number c"
    by (auto simp: stored_msg_ok_def holds_msg_def)
  let ?e = "\<lparr>me_msg = m, me_for_this_node = True\<rparr>"
  have ev: "ev_body (new_msg_event (s_id s) m True) = Msg_Event ?e" "nm_body (me_msg ?e) = Some c"
    using c(1) by (simp_all add: new_msg_event_def)
  note nr = nr_metering_answer [OF assms(4) ev assms(5,6)]
  define resp where "resp = create_success_response (e_mri E') m (nr_lifetime n')"
  have msn: "get_msg_sequence_number c = Some (configure_get_msg_sequence_number c)"
    using c(2) by (simp add: get_msg_sequence_number_def)
  obtain rb where rb: "nm_body resp = Some rb" "m_class rb = Mnslp_Response" "response_is_success rb"
    "response_get_session_lifetime rb = nr_lifetime n'"
    "response_get_msg_sequence_number rb = configure_get_msg_sequence_number c" "has_msg_sequence_number rb"
    using success_response_contents [OF c(1,3) msn, of "e_mri E'" "nr_lifetime n'"] unfolding resp_def by metis
  let ?evt = "new_msg_event (s_id s) resp True"
  have rev: "ev_body ?evt = Msg_Event \<lparr>me_msg = resp, me_for_this_node = True\<rparr>"
    "nm_body (me_msg \<lparr>me_msg = resp, me_for_this_node = True\<rparr>) = Some rb"
    using rb(1) by (simp_all add: new_msg_event_def)
  have "is_mnslp_response ?evt m = Some True"
    using c rb msn by (simp add: is_mnslp_response_def is_mnslp_response_msn_def new_msg_event_def body_of_class_def)
  from ni_response_handler [OF assms(1-3) this rev rb(3), of E w] assms(7,8)
  have "\<exists>s' w'. ni_process_event E ?evt (s, w) = Ret () (s', w') \<and> ni_state s' = STATE_METERING \<and>
      ni_lifetime s' = response_get_session_lifetime rb"
    by (simp add: ni_pending_success_def Let_def sess_simps report_async_event_def
        act_def install_def install_policy_rules_def cal_refresh_interval_def)
  with nr rb(4) show ?thesis unfolding resp_def by auto
qed

theorem handshake_agrees_witness:
  "\<exists>n' v' resp s' w'. nr_process_event ex_env ex_nr_event (ex_nr, ex_world) = Ret () (n', v') \<and>
     sent v' = [resp] \<and>
     ni_process_event ex_env (new_msg_event (Session_Id 1 2 3 4) resp True)
       (ex_ni_pending\<lparr>ni_last_configure_msg := Some ex_path_msg\<rparr>, ex_world) = Ret () (s', w') \<and>
     ni_state s' = STATE_METERING \<and> ni_lifetime s' = nr_lifetime n'"
proof -
  let ?s = "ex_ni_pending\<lparr>ni_last_configure_msg := Some ex_path_msg\<rparr>"
  have "case nr_process_event ex_env ex_nr_event (ex_nr, ex_world) of
      Ret u (n', v') \<Rightarrow> nr_state n' = STATE_METERING | _ \<Rightarrow> False" by code_simp
  then obtain n' v' where n': "nr_process_event ex_env ex_nr_event (ex_nr, ex_world) = Ret () (n', v')"
    "nr_state n' = STATE_METERING" by (auto split: result.splits)
  have s: "ni_inv ?s" "ni_state ?s = STATE_PENDING" "ni_last_configure_msg ?s = Some ex_path_msg"
    "s_id ?s = Session_Id 1 2 3 4" "s_rule ?s = new_rule"
    using ex_ni_pending_inv
    by (simp_all add: ni_inv_def ex_ni_pending_def ex_ni_def new_ni_session_def stored_msg_ok_def
        holds_msg_def ex_path_msg_def ex_path_facts)
  have n: "nr_state ex_nr = STATE_CLOSE" by (simp add: ex_nr_def new_nr_session_def)
  have r: "ri_install (e_installer ex_env) (s_rule ?s) (w_installer ex_world) = Ret (Some new_rule) ()"
    "get_number_mspec_objects (new_rule :: nat mt_policy_rule) = get_number_mspec_objects (s_rule ?s)"
    unfolding s by (simp_all add: ex_env_def nop_install_def rule_copy_id) (simp add: new_rule_def)
  from handshake_agrees [OF s(1-3) n n'(1) [unfolded ex_nr_event_def, folded s(4)] n'(2) r]
  obtain resp s' w' where "sent v' = sent ex_world @ [resp]"
    "ni_process_event ex_env (new_msg_event (s_id ?s) resp True) (?s, ex_world) = Ret () (s', w')"
    "ni_state s' = STATE_METERING" "ni_lifetime s' = nr_lifetime n'" by blast
  with n'(1) show ?thesis unfolding s(4) by (auto simp: sent_def ex_world_def)
qed

end
